(* ===== verification/C_Prelude.thy ===== *)
theory C_Prelude
  imports Main "HOL-Library.Word" "HOL-Library.Monad_Syntax" "HOL-Library.Signed_Division"
begin

text \<open>
  What the components share: the bytes and arrays of C, the two loop shapes the program
  uses, and the lemmas on slices and rows of a flat byte table.

  A C array is a list. Reading or writing it outside its bounds is undefined behaviour in C;
  here it is the value \<open>None\<close>, and so is every computation that does it. A function that
  changes an array takes it and returns the changed one. A C \<open>int\<close> that serves as an
  index or a position is an \<^typ>\<open>int\<close>: it can be negative, and the program does pass negative
  positions (a lookup that failed answers \<open>-1\<close>). The values stay far below \<open>2 ^ 31\<close>.
\<close>

type_synonym byte = "8 word"

named_theorems len_simps \<open>lengths of arrays after an operation\<close>
named_theorems row_simps \<open>rows of a flat table after an operation\<close>
named_theorems bit_simps_c \<open>bits of a byte array after an operation\<close>

section \<open>Checked array access\<close>

definition cget :: "'a list \<Rightarrow> int \<Rightarrow> 'a option" where
  "cget xs i = (if 0 \<le> i \<and> i < int (length xs) then Some (xs ! nat i) else None)"

definition cput :: "'a list \<Rightarrow> int \<Rightarrow> 'a \<Rightarrow> 'a list option" where
  "cput xs i v = (if 0 \<le> i \<and> i < int (length xs) then Some (xs[nat i := v]) else None)"

lemma cget_in: "0 \<le> i \<Longrightarrow> i < int (length xs) \<Longrightarrow> cget xs i = Some (xs ! nat i)"
  by (simp add: cget_def)

lemma cget_int: "i < length xs \<Longrightarrow> cget xs (int i) = Some (xs ! i)"
  by (simp add: cget_def)

lemma cget_out: "i < 0 \<or> int (length xs) \<le> i \<Longrightarrow> cget xs i = None"
  by (auto simp: cget_def)

lemma cget_Some_iff: "cget xs i = Some v \<longleftrightarrow> 0 \<le> i \<and> i < int (length xs) \<and> v = xs ! nat i"
  by (auto simp: cget_def)

lemma cput_in: "0 \<le> i \<Longrightarrow> i < int (length xs) \<Longrightarrow> cput xs i v = Some (xs[nat i := v])"
  by (simp add: cput_def)

lemma cput_int: "i < length xs \<Longrightarrow> cput xs (int i) v = Some (xs[i := v])"
  by (simp add: cput_def)

lemma cput_out: "i < 0 \<or> int (length xs) \<le> i \<Longrightarrow> cput xs i v = None"
  by (auto simp: cput_def)

lemma cput_Some_iff:
  "cput xs i v = Some ys \<longleftrightarrow> 0 \<le> i \<and> i < int (length xs) \<and> ys = xs[nat i := v]"
  by (auto simp: cput_def)

lemma cput_length: "cput xs i v = Some ys \<Longrightarrow> length ys = length xs"
  by (auto simp: cput_Some_iff)

section \<open>Loops\<close>

text \<open>
  \<open>c_for n body s\<close> is \<open>for (k = 0; k < n; k++) body\<close> over the state \<open>s\<close>: the first
  \<open>n\<close> rounds, in order, stopping with \<open>None\<close> at the first undefined access.
\<close>

fun c_for :: "nat \<Rightarrow> (nat \<Rightarrow> 's \<Rightarrow> 's option) \<Rightarrow> 's \<Rightarrow> 's option" where
  "c_for 0 body s = Some s"
| "c_for (Suc n) body s = do { s' \<leftarrow> c_for n body s; body n s' }"

text \<open>
  \<open>c_any n test\<close> is the loop that looks for the first \<open>k < n\<close> whose test holds and
  breaks there; the tests after that one are not run.
\<close>

fun c_any :: "nat \<Rightarrow> (nat \<Rightarrow> bool option) \<Rightarrow> bool option" where
  "c_any 0 test = Some False"
| "c_any (Suc n) test = do { b \<leftarrow> c_any n test; if b then Some True else test n }"

lemma c_for_rule:
  assumes "P 0 s"
    and "\<And>k s. k < n \<Longrightarrow> P k s \<Longrightarrow> \<exists>s'. body k s = Some s' \<and> P (Suc k) s'"
  shows "\<exists>s'. c_for n body s = Some s' \<and> P n s'"
  using assms(2)
proof (induction n)
  case 0
  then show ?case using assms(1) by simp
next
  case (Suc n)
  then obtain s' where "c_for n body s = Some s'" "P n s'"
    by (meson less_SucI)
  with Suc.prems[of n s'] show ?case by auto
qed

lemma c_for_inv:
  assumes "c_for n body s = Some s'" and "P s"
    and "\<And>k s s'. k < n \<Longrightarrow> body k s = Some s' \<Longrightarrow> P s \<Longrightarrow> P s'"
  shows "P s'"
  using assms(1,3)
proof (induction n arbitrary: s')
  case 0
  then show ?case using assms(2) by simp
next
  case (Suc n)
  from Suc.prems(1) obtain t where "c_for n body s = Some t" "body n t = Some s'"
    by (auto split: bind_splits)
  with Suc show ?case by (metis less_Suc_eq)
qed

lemma c_for_cong:
  "n = m \<Longrightarrow> s = t \<Longrightarrow> (\<And>k s. k < m \<Longrightarrow> f k s = g k s) \<Longrightarrow> c_for n f s = c_for m g t"
proof (induction m arbitrary: n)
  case (Suc m)
  then show ?case by (cases "c_for m g t") auto
qed simp

lemma c_any_total:
  "(\<And>k. k < n \<Longrightarrow> test k = Some (p k)) \<Longrightarrow> c_any n test = Some (\<exists>k<n. p k)"
  by (induction n) (auto simp: less_Suc_eq)

lemma c_any_cong: "n = m \<Longrightarrow> (\<And>k. k < m \<Longrightarrow> f k = g k) \<Longrightarrow> c_any n f = c_any m g"
proof (induction m arbitrary: n)
  case (Suc m)
  then show ?case by (cases "c_any m g") auto
qed simp

section \<open>Slices, block writes and rows\<close>

definition slice :: "nat \<Rightarrow> nat \<Rightarrow> 'a list \<Rightarrow> 'a list" where
  "slice b n xs = take n (drop b xs)"

definition blit :: "'a list \<Rightarrow> nat \<Rightarrow> 'a list \<Rightarrow> 'a list" where
  "blit t b xs = take b t @ xs @ drop (b + length xs) t"

definition row :: "nat \<Rightarrow> nat \<Rightarrow> 'a list \<Rightarrow> 'a list" where
  "row w i t = slice (w * i) w t"

definition rows :: "nat \<Rightarrow> nat \<Rightarrow> 'a list \<Rightarrow> 'a list list" where
  "rows w n t = map (\<lambda>i. row w i t) [0..<n]"

lemma length_slice [len_simps]: "b + n \<le> length xs \<Longrightarrow> length (slice b n xs) = n"
  by (simp add: slice_def)

lemma nth_slice: "b + n \<le> length xs \<Longrightarrow> k < n \<Longrightarrow> slice b n xs ! k = xs ! (b + k)"
  by (simp add: slice_def)

lemma slice_eq_map: "b + n \<le> length xs \<Longrightarrow> slice b n xs = map (\<lambda>k. xs ! (b + k)) [0..<n]"
  by (rule nth_equalityI) (simp_all add: slice_def)

lemma length_blit [len_simps]: "b + length xs \<le> length t \<Longrightarrow> length (blit t b xs) = length t"
  by (simp add: blit_def)

lemma nth_blit:
  "b + length xs \<le> length t \<Longrightarrow> k < length t \<Longrightarrow>
   blit t b xs ! k = (if b \<le> k \<and> k < b + length xs then xs ! (k - b) else t ! k)"
  by (auto simp: blit_def nth_append min_def)

lemma blit_Nil [simp]: "b \<le> length t \<Longrightarrow> blit t b [] = t"
  by (simp add: blit_def)

lemma blit_snoc:
  "b + length xs < length t \<Longrightarrow> (blit t b xs)[b + length xs := v] = blit t b (xs @ [v])"
  by (rule nth_equalityI) (auto simp: nth_blit length_blit nth_list_update nth_append)

lemma blit_update: "b < length t \<Longrightarrow> t[b := v] = blit t b [v]"
  by (rule nth_equalityI) (auto simp: nth_blit length_blit nth_list_update)

lemma slice_blit_same: "b + length xs \<le> length t \<Longrightarrow> slice b (length xs) (blit t b xs) = xs"
  by (simp add: slice_def blit_def)

lemma slice_blit_disjoint:
  assumes "b + length xs \<le> length t" "c + n \<le> length t" "c + n \<le> b \<or> b + length xs \<le> c"
  shows "slice c n (blit t b xs) = slice c n t"
  using assms by (intro nth_equalityI) (auto simp: nth_slice length_slice length_blit nth_blit)

lemma length_row [len_simps]: "w * Suc i \<le> length t \<Longrightarrow> length (row w i t) = w"
  by (simp add: row_def length_slice)

lemma nth_row: "w * Suc i \<le> length t \<Longrightarrow> k < w \<Longrightarrow> row w i t ! k = t ! (w * i + k)"
  by (simp add: row_def nth_slice)

lemma row_bound: "i < n \<Longrightarrow> length t = w * n \<Longrightarrow> w * Suc i \<le> length t"
  by (metis Suc_leI mult_le_mono2)

lemma row_blit_same [row_simps]:
  "length xs = w \<Longrightarrow> w * Suc i \<le> length t \<Longrightarrow> row w i (blit t (w * i) xs) = xs"
  using slice_blit_same[of "w * i" xs t] by (simp add: row_def)

lemma row_disjoint: "i \<noteq> j \<Longrightarrow> w * i + w \<le> w * j \<or> w * j + w \<le> w * (i::nat)"
proof -
  assume "i \<noteq> j"
  then have "Suc i \<le> j \<or> Suc j \<le> i" by auto
  then have "w * Suc i \<le> w * j \<or> w * Suc j \<le> w * i" by (metis mult_le_mono2)
  then show ?thesis by (simp add: add.commute)
qed

lemma row_blit_other [row_simps]:
  assumes "length xs = w" "w * Suc i \<le> length t" "w * Suc j \<le> length t" "i \<noteq> j"
  shows "row w j (blit t (w * i) xs) = row w j t"
  using assms row_disjoint[OF assms(4), of w] unfolding row_def
  by (intro slice_blit_disjoint) auto

lemma length_rows [simp]: "length (rows w n t) = n"
  by (simp add: rows_def)

lemma nth_rows [simp]: "i < n \<Longrightarrow> rows w n t ! i = row w i t"
  by (simp add: rows_def)

lemma rows_cong: "(\<And>i. i < n \<Longrightarrow> row w i t = row w i u) \<Longrightarrow> rows w n t = rows w n u"
  by (simp add: rows_def)

lemma rows_Suc: "rows w (Suc n) t = rows w n t @ [row w n t]"
  by (simp add: rows_def)

text \<open>A copying loop writes a block.\<close>

lemma c_for_copy:
  assumes "\<And>k. k < n \<Longrightarrow> src k = Some (g k)" and "b + n \<le> length t"
  shows "c_for n (\<lambda>k t. do { v \<leftarrow> src k; cput t (int b + int k) v }) t =
         Some (blit t b (map g [0..<n]))"
  using assms
proof (induction n)
  case 0
  then show ?case by simp
next
  case (Suc n)
  then have "c_for n (\<lambda>k t. do { v \<leftarrow> src k; cput t (int b + int k) v }) t =
         Some (blit t b (map g [0..<n]))" by simp
  moreover have "cput (blit t b (map g [0..<n])) (int b + int n) (g n) =
      Some (blit t b (map g [0..<Suc n]))"
    using Suc.prems(2) blit_snoc[of b "map g [0..<n]" t "g n"]
    by (simp add: cput_def length_blit nat_add_distrib)
  ultimately show ?case using Suc.prems(1)[of n] by simp
qed

end
