(* ===== verification/Bit_Operations_C.thy ===== *)
theory Bit_Operations_C
  imports C_Prelude
begin

unbundle bit_operations_syntax

text \<open>
  \<^verbatim>\<open>flow-processing-unit/bit_operations.h\<close> and \<^verbatim>\<open>modify_field.h\<close>: single bits of a byte array, numbered
  from the most significant bit of byte 0, and runs of bits copied between two arrays.
  \<open>abit arr p\<close> is the abstract view of bit \<open>p\<close>; the lemmas say what each operation does
  to it, inside the array and outside.
\<close>

section \<open>The operations\<close>

definition ACTN_ST_LEN :: int where
  "ACTN_ST_LEN = 31"

text \<open>\<open>byte_pos\<close> truncates towards zero and \<open>bit_pos\<close> is stored in a byte, as in C.\<close>

definition bit_flag :: "int \<Rightarrow> byte" where
  "bit_flag pos =
     (let bit_pos = word_of_int (7 - pos smod 8) :: byte
      in push_bit (unat bit_pos) 1)"

definition set_bit_c :: "byte list \<Rightarrow> int \<Rightarrow> byte list option" where
  "set_bit_c arr pos = do {
     let byte_pos = pos sdiv 8;
     b \<leftarrow> cget arr byte_pos;
     cput arr byte_pos (b OR bit_flag pos)
   }"

definition reset_bit :: "byte list \<Rightarrow> int \<Rightarrow> byte list option" where
  "reset_bit arr pos = do {
     let byte_pos = pos sdiv 8;
     b \<leftarrow> cget arr byte_pos;
     cput arr byte_pos (b AND NOT (bit_flag pos))
   }"

definition read_bit :: "byte list \<Rightarrow> int \<Rightarrow> byte option" where
  "read_bit arr pos = do {
     let byte_pos = pos sdiv 8;
     b \<leftarrow> cget arr byte_pos;
     Some (if bit_flag pos AND b \<noteq> 0 then 1 else 0)
   }"

definition extract_field ::
  "byte list \<Rightarrow> int \<Rightarrow> int \<Rightarrow> int \<Rightarrow> byte list \<Rightarrow> byte list option" where
  "extract_field table entry_no strt_bit end_bit val =
     c_for (nat (end_bit - strt_bit + 1)) (\<lambda>k val.
       let i = strt_bit + int k in do {
         b \<leftarrow> read_bit table (entry_no * ACTN_ST_LEN * 8 + i);
         if b \<noteq> 0 then set_bit_c val (i - strt_bit) else reset_bit val (i - strt_bit)
       }) val"

definition replace_field ::
  "byte list \<Rightarrow> int \<Rightarrow> int \<Rightarrow> int \<Rightarrow> byte list \<Rightarrow> byte list option" where
  "replace_field table entry_no strt_bit end_bit val =
     c_for (nat (end_bit - strt_bit + 1)) (\<lambda>k table.
       let i = strt_bit + int k in do {
         b \<leftarrow> read_bit val (i - strt_bit);
         if b \<noteq> 0 then set_bit_c table (entry_no * ACTN_ST_LEN * 8 + i)
         else reset_bit table (entry_no * ACTN_ST_LEN * 8 + i)
       }) table"

section \<open>The abstract view\<close>

definition abit :: "byte list \<Rightarrow> nat \<Rightarrow> bool" where
  "abit arr p = bit (arr ! (p div 8)) (7 - p mod 8)"

lemma sdiv_8_nonneg: "0 \<le> p \<Longrightarrow> p sdiv (8::int) = p div 8"
  by (simp add: signed_divide_int_def sgn_if)

lemma smod_8_nonneg: "0 \<le> p \<Longrightarrow> p smod (8::int) = p mod 8"
  by (simp add: signed_modulo_int_def sgn_if)

lemma bit_pos_int: "7 - int p mod 8 = int (7 - p mod 8)"
proof -
  have "p mod 8 < 8" by simp
  then show ?thesis by (simp add: zmod_int)
qed

lemma bit_pos_nat: "unat (word_of_int (7 - int p mod 8) :: byte) = 7 - p mod 8"
proof -
  have "7 - p mod 8 < 256" by simp
  then show ?thesis
    unfolding bit_pos_int of_int_of_nat_eq by (subst unat_of_nat) simp
qed

lemma bit_bit_flag: "bit (bit_flag (int p)) n \<longleftrightarrow> n = 7 - p mod 8"
proof -
  have "bit_flag (int p) = push_bit (7 - p mod 8) 1"
    unfolding bit_flag_def Let_def by (simp only: smod_8_nonneg of_nat_0_le_iff bit_pos_nat)
  moreover have "7 - p mod 8 < 8" by simp
  ultimately show ?thesis
    by (simp only: bit_push_bit_iff bit_1_iff possible_bit_word) auto
qed

lemma sdiv_8_int: "int p sdiv (8::int) = int (p div 8)"
  by (simp add: sdiv_8_nonneg zdiv_int)

lemma byte_in: "p < 8 * length arr \<Longrightarrow> p div 8 < length (arr :: byte list)"
  by auto

lemma byte_nonzero_iff: "x \<noteq> 0 \<longleftrightarrow> (\<exists>n. bit (x :: byte) n)"
proof
  assume "x \<noteq> 0"
  then have "\<not> (\<forall>n. bit x n = bit 0 n)" by (auto intro: bit_word_eqI)
  then show "\<exists>n. bit x n" by simp
qed auto

lemma and_bit_flag: "bit_flag (int p) AND b \<noteq> 0 \<longleftrightarrow> bit (b :: byte) (7 - p mod 8)"
proof -
  have "bit_flag (int p) AND b \<noteq> 0 \<longleftrightarrow> (\<exists>n. bit (bit_flag (int p) AND b) n)"
    by (rule byte_nonzero_iff)
  also have "\<dots> \<longleftrightarrow> bit b (7 - p mod 8)"
    by (simp only: bit_and_iff bit_bit_flag) blast
  finally show ?thesis .
qed

lemma read_bit_abit [bit_simps_c]:
  "p < 8 * length arr \<Longrightarrow> read_bit arr (int p) = Some (if abit arr p then 1 else 0)"
  by (simp add: read_bit_def sdiv_8_int cget_int byte_in and_bit_flag abit_def)

lemma div_mod_8_eq: "p div 8 = q div 8 \<Longrightarrow> 7 - p mod 8 = 7 - q mod (8::nat) \<Longrightarrow> p = q"
proof -
  assume *: "p div 8 = q div 8" "7 - p mod 8 = 7 - q mod (8::nat)"
  have "p mod 8 < 8" "q mod 8 < 8" by simp_all
  with *(2) have "p mod 8 = q mod 8" by arith
  with *(1) show "p = q" by (metis mult_div_mod_eq)
qed

text \<open>\<open>put_bit\<close> is the pure effect of one bit operation, \<open>put_bits\<close> that of a run of them.\<close>

definition put_bit :: "nat \<Rightarrow> bool \<Rightarrow> byte list \<Rightarrow> byte list" where
  "put_bit p v arr =
     arr[p div 8 := if v then arr ! (p div 8) OR bit_flag (int p)
                    else arr ! (p div 8) AND NOT (bit_flag (int p))]"

primrec put_bits :: "nat \<Rightarrow> nat \<Rightarrow> (nat \<Rightarrow> bool) \<Rightarrow> byte list \<Rightarrow> byte list" where
  "put_bits d 0 g arr = arr"
| "put_bits d (Suc n) g arr = put_bit (d + n) (g n) (put_bits d n g arr)"

lemma length_put_bit [simp]: "length (put_bit p v arr) = length arr"
  by (simp add: put_bit_def)

lemma length_put_bits [simp]: "length (put_bits d n g arr) = length arr"
  by (induction n) simp_all

lemma abit_put_bit:
  assumes "p < 8 * length arr" "q < 8 * length arr"
  shows "abit (put_bit p v arr) q = (if q = p then v else abit arr q)"
proof (cases "q div 8 = p div 8")
  case True
  have "q = p \<longleftrightarrow> 7 - q mod 8 = 7 - p mod 8"
    using True div_mod_8_eq by blast
  then show ?thesis
    using True assms
    by (auto simp add: put_bit_def abit_def byte_in bit_or_iff bit_and_iff bit_not_iff bit_bit_flag)
next
  case False
  then show ?thesis by (auto simp: put_bit_def abit_def)
qed

lemma abit_put_bits [bit_simps_c]:
  "d + n \<le> 8 * length arr \<Longrightarrow> q < 8 * length arr \<Longrightarrow>
   abit (put_bits d n g arr) q = (if d \<le> q \<and> q < d + n then g (q - d) else abit arr q)"
  by (induction n) (auto simp: abit_put_bit)

lemma put_bits_cong:
  "(\<And>k. k < n \<Longrightarrow> g k = h k) \<Longrightarrow> put_bits d n g arr = put_bits d n h arr"
  by (induction n) simp_all

lemma set_bit_c_put [bit_simps_c]:
  "p < 8 * length arr \<Longrightarrow> set_bit_c arr (int p) = Some (put_bit p True arr)"
  by (simp add: set_bit_c_def sdiv_8_int cget_int cput_int byte_in put_bit_def)

lemma reset_bit_put [bit_simps_c]:
  "p < 8 * length arr \<Longrightarrow> reset_bit arr (int p) = Some (put_bit p False arr)"
  by (simp add: reset_bit_def sdiv_8_int cget_int cput_int byte_in put_bit_def)

lemma byte_eqI: "(\<And>k. k < 8 \<Longrightarrow> bit (x :: byte) k = bit y k) \<Longrightarrow> x = y"
  by (rule bit_word_eqI) simp

lemma abit_ext:
  assumes "length xs = length ys" "\<And>q. q < 8 * length xs \<Longrightarrow> abit xs q = abit ys q"
  shows "xs = ys"
proof (rule nth_equalityI[OF assms(1)], rule byte_eqI)
  fix i k :: nat assume *: "i < length xs" "k < 8"
  define r where "r = 7 - k"
  have r: "r < 8" "7 - r = k" using *(2) by (auto simp: r_def)
  let ?q = "8 * i + r"
  have "?q div 8 = i" "7 - ?q mod 8 = k" "?q < 8 * length xs" using r *(1) by auto
  then show "bit (xs ! i) k = bit (ys ! i) k"
    using assms(2)[of ?q] * by (simp add: abit_def)
qed

lemma read_bit_out:
  "8 * int (length arr) \<le> pos \<or> pos \<le> - 8 \<Longrightarrow> read_bit arr pos = None"
proof -
  assume out: "8 * int (length arr) \<le> pos \<or> pos \<le> - 8"
  have "pos sdiv 8 < 0 \<or> int (length arr) \<le> pos sdiv 8"
    using out by (auto simp: signed_divide_int_def sgn_if)
  then show ?thesis by (simp add: read_bit_def cget_out)
qed

lemma read_bit_bool: "read_bit arr pos = Some v \<Longrightarrow> v = 0 \<or> v = 1"
  by (auto simp: read_bit_def Let_def split: bind_splits if_splits)

section \<open>Runs of bits\<close>

lemma c_for_bits:
  assumes "\<And>k. k < n \<Longrightarrow> src k = Some (if g k then 1 else 0)" "d + n \<le> 8 * length t"
  shows "c_for n (\<lambda>k t. do { b \<leftarrow> src k;
            if b \<noteq> (0 :: byte) then set_bit_c t (int d + int k) else reset_bit t (int d + int k) }) t
         = Some (put_bits d n g t)"
  using assms
proof (induction n)
  case (Suc n)
  then show ?case
    using set_bit_c_put[of "d + n" "put_bits d n g t"] reset_bit_put[of "d + n" "put_bits d n g t"]
    by (cases "g n") simp_all
qed simp

lemma extract_field_bits:
  assumes "0 \<le> entry_no" "0 \<le> s" "b = nat (entry_no * 248 + s)"
    and "n = nat (e - s + 1)" "b + n \<le> 8 * length table" "n \<le> 8 * length val"
  shows "extract_field table entry_no s e val =
         Some (put_bits 0 n (\<lambda>k. abit table (b + k)) val)"
proof -
  have b: "int b = entry_no * 248 + s" using assms(1-3) by simp
  have "extract_field table entry_no s e val =
     c_for n (\<lambda>k val. do { bb \<leftarrow> read_bit table (int (b + k));
        if bb \<noteq> 0 then set_bit_c val (int 0 + int k) else reset_bit val (int 0 + int k) }) val"
    unfolding extract_field_def assms(4)
    by (rule c_for_cong) (simp_all add: Let_def ACTN_ST_LEN_def b algebra_simps cong: if_cong)
  also have "\<dots> = Some (put_bits 0 n (\<lambda>k. abit table (b + k)) val)"
    using assms(5,6) by (intro c_for_bits read_bit_abit) auto
  finally show ?thesis .
qed

lemma replace_field_bits:
  assumes "0 \<le> entry_no" "0 \<le> s" "b = nat (entry_no * 248 + s)"
    and "n = nat (e - s + 1)" "b + n \<le> 8 * length table" "n \<le> 8 * length val"
  shows "replace_field table entry_no s e val = Some (put_bits b n (abit val) table)"
proof -
  have b: "int b = entry_no * 248 + s" using assms(1-3) by simp
  have "replace_field table entry_no s e val =
     c_for n (\<lambda>k t. do { bb \<leftarrow> read_bit val (int k);
        if bb \<noteq> 0 then set_bit_c t (int b + int k) else reset_bit t (int b + int k) }) table"
    unfolding replace_field_def assms(4)
    by (rule c_for_cong) (simp_all add: Let_def ACTN_ST_LEN_def b algebra_simps cong: if_cong)
  also have "\<dots> = Some (put_bits b n (abit val) table)"
    using assms(5,6) by (intro c_for_bits read_bit_abit) auto
  finally show ?thesis .
qed

end
