(* ===== verification/Byte_Queues.thy ===== *)
theory Byte_Queues
  imports C_Prelude
begin

text \<open>
  The interface between the ring buffers and the code that fills and empties them. A
  \<open>byte_sink\<close> takes bytes while it has room; a \<open>byte_source\<close> hands out its contents in
  order; a \<open>byte_queue\<close> is both. The loops that copy a run of bytes into a buffer or out
  of it (\<open>feed\<close>, \<open>drain\<close>, \<open>drain_into\<close>) are proved correct once, from the laws.
\<close>

primrec feed :: "('s \<Rightarrow> byte \<Rightarrow> 's option) \<Rightarrow> 's \<Rightarrow> byte list \<Rightarrow> 's option" where
  "feed enq s [] = Some s"
| "feed enq s (b # bs) = do { s' \<leftarrow> enq s b; feed enq s' bs }"

primrec drain :: "('s \<Rightarrow> (byte \<times> 's) option) \<Rightarrow> nat \<Rightarrow> 's \<Rightarrow> (byte list \<times> 's) option" where
  "drain deq 0 s = Some ([], s)"
| "drain deq (Suc n) s = do { (b, s') \<leftarrow> deq s; (bs, t) \<leftarrow> drain deq n s'; Some (b # bs, t) }"

text \<open>The reading loop of the program: byte \<open>off + k\<close> of an array is the next byte out.\<close>

definition drain_into ::
  "('s \<Rightarrow> (byte \<times> 's) option) \<Rightarrow> int \<Rightarrow> nat \<Rightarrow> byte list \<times> 's \<Rightarrow> (byte list \<times> 's) option" where
  "drain_into deq off n = c_for n (\<lambda>k (pk, s). do {
     (b, s') \<leftarrow> deq s;
     pk' \<leftarrow> cput pk (off + int k) b;
     Some (pk', s') })"

lemma feed_append: "feed enq s (xs @ ys) = do { t \<leftarrow> feed enq s xs; feed enq t ys }"
  by (induction xs arbitrary: s) simp_all

lemma c_for_feed:
  "c_for n (\<lambda>k s. enq s (g k)) s = feed enq s (map g [0..<n])"
proof (induction n)
  case (Suc n)
  then show ?case by (simp add: feed_append)
qed simp

lemma drain_Suc_right:
  "drain deq (Suc n) s = do { (bs, t) \<leftarrow> drain deq n s; (b, u) \<leftarrow> deq t; Some (bs @ [b], u) }"
proof (induction n arbitrary: s)
  case 0
  then show ?case by (simp split: bind_splits)
next
  case (Suc n)
  show ?case
  proof (cases "deq s")
    case None
    then show ?thesis by simp
  next
    case (Some p)
    obtain b s' where p: "p = (b, s')" by (cases p)
    have "drain deq (Suc (Suc n)) s =
        do { (bs, t) \<leftarrow> drain deq (Suc n) s'; Some (b # bs, t) }"
      by (subst drain.simps(2)) (simp add: Some p del: drain.simps)
    also have "\<dots> = do { (bs, t) \<leftarrow> drain deq n s'; (c, u) \<leftarrow> deq t; Some (b # bs @ [c], u) }"
      by (subst Suc.IH) (auto simp: case_prod_unfold)
    finally show ?thesis
      by (simp add: Some p case_prod_unfold)
  qed
qed

text \<open>The loop into an array is the pure \<open>drain\<close> followed by a block write.\<close>

lemma drain_into_drain:
  assumes "drain deq n s = Some (bs, t)" "off + n \<le> length pk"
  shows "drain_into deq (int off) n (pk, s) = Some (blit pk off bs, t) \<and> length bs = n"
  using assms
proof (induction n arbitrary: bs t)
  case 0
  then show ?case by (simp add: drain_into_def)
next
  case (Suc n)
  from Suc.prems(1) obtain bs' b u where
    d: "drain deq n s = Some (bs', u)" "deq u = Some (b, t)" "bs = bs' @ [b]"
    by (simp only: drain_Suc_right) (auto split: bind_splits prod.splits)
  with Suc have IH: "drain_into deq (int off) n (pk, s) = Some (blit pk off bs', u)"
    "length bs' = n" by auto
  have "cput (blit pk off bs') (int off + int n) b = Some (blit pk off bs)"
    using blit_snoc[of off bs' pk b] IH(2) Suc.prems(2) d(3)
    by (simp add: cput_def length_blit nat_add_distrib)
  with IH d show ?case by (simp add: drain_into_def)
qed

section \<open>Sinks\<close>

locale byte_sink =
  fixes enq :: "'s \<Rightarrow> byte \<Rightarrow> 's option"
    and contents :: "'s \<Rightarrow> byte list"
    and room :: "'s \<Rightarrow> nat"
    and inv :: "'s \<Rightarrow> bool"
  assumes enq_ok: "inv s \<Longrightarrow> 0 < room s \<Longrightarrow>
    \<exists>s'. enq s b = Some s' \<and> inv s' \<and> contents s' = contents s @ [b] \<and> room s' = room s - 1"
begin

lemma feed_ok:
  "inv s \<Longrightarrow> length bs \<le> room s \<Longrightarrow>
   \<exists>s'. feed enq s bs = Some s' \<and> inv s' \<and> contents s' = contents s @ bs
      \<and> room s' = room s - length bs"
proof (induction bs arbitrary: s)
  case Nil
  then show ?case by simp
next
  case (Cons b bs)
  then obtain s1 where s1: "enq s b = Some s1" "inv s1" "contents s1 = contents s @ [b]"
    "room s1 = room s - 1"
    using enq_ok[of s b] by auto
  with Cons.prems have "length bs \<le> room s1" by simp
  from Cons.IH[OF s1(2) this] s1 show ?case by auto
qed

end

section \<open>Sources\<close>

locale byte_source =
  fixes deq :: "'s \<Rightarrow> (byte \<times> 's) option"
    and contents :: "'s \<Rightarrow> byte list"
    and inv :: "'s \<Rightarrow> bool"
  assumes deq_ok: "inv s \<Longrightarrow> contents s = b # bs \<Longrightarrow>
    \<exists>s'. deq s = Some (b, s') \<and> inv s' \<and> contents s' = bs"
begin

lemma drain_ok:
  "inv s \<Longrightarrow> n \<le> length (contents s) \<Longrightarrow>
   \<exists>s'. drain deq n s = Some (take n (contents s), s') \<and> inv s'
      \<and> contents s' = drop n (contents s)"
proof (induction n arbitrary: s)
  case 0
  then show ?case by simp
next
  case (Suc n)
  then obtain b bs where bs: "contents s = b # bs" by (cases "contents s") auto
  with Suc.prems obtain s1 where s1: "deq s = Some (b, s1)" "inv s1" "contents s1 = bs"
    using deq_ok by blast
  with Suc.prems bs have "n \<le> length (contents s1)" by simp
  from Suc.IH[OF s1(2) this] s1 bs show ?case by auto
qed

lemma drain_into_ok:
  assumes "inv s" "n \<le> length (contents s)" "off + n \<le> length pk"
  shows "\<exists>s'. drain_into deq (int off) n (pk, s) = Some (blit pk off (take n (contents s)), s')
      \<and> inv s' \<and> contents s' = drop n (contents s)"
  using drain_ok[OF assms(1,2)] drain_into_drain[of deq n s _ _ off pk] assms(3) by blast

end

section \<open>Queues\<close>

locale byte_queue = byte_sink enq contents room inv + byte_source deq contents inv
  for enq :: "'s \<Rightarrow> byte \<Rightarrow> 's option"
    and deq :: "'s \<Rightarrow> (byte \<times> 's) option"
    and contents :: "'s \<Rightarrow> byte list"
    and room :: "'s \<Rightarrow> nat"
    and inv :: "'s \<Rightarrow> bool"
begin

text \<open>What is put in comes out, after what was there before.\<close>

lemma feed_drain:
  assumes "inv s" "contents s = []" "length bs \<le> room s"
  shows "\<exists>s'. do { t \<leftarrow> feed enq s bs; drain deq (length bs) t } = Some (bs, s')
      \<and> inv s' \<and> contents s' = []"
proof -
  from feed_ok[OF assms(1,3)] assms(2) obtain t where
    t: "feed enq s bs = Some t" "inv t" "contents t = bs" by auto
  with drain_ok[OF t(2), of "length bs"] show ?thesis by auto
qed

end

end
