(* ===== verification/Packet_Buffer.thy ===== *)
theory Packet_Buffer
  imports Byte_Queues
begin

text \<open>
  \<^verbatim>\<open>packet-buffer/packet_buffer.h\<close>: the ring of 1000 bytes between the capture and the two readers of
  a packet. The pre-processor reads ahead with \<open>buffer_reading_head\<close>; the consumer takes bytes
  off at \<open>packet_buffer_head\<close> and may only take what was read ahead.
\<close>

section \<open>State\<close>

definition PACKET_BUFFER_LEN :: int where
  "PACKET_BUFFER_LEN = 1000"

definition MAX_PACKET_SIZE :: nat where
  "MAX_PACKET_SIZE = 100"

record packet_buffer =
  packet_buffer_bytes :: "byte list"
  packet_buffer_head :: int
  packet_buffer_tail :: int
  pb_full_flag :: int
  pb_empty_flag :: int
  buffer_reading_head :: int

text \<open>The array itself keeps whatever it held before.\<close>

definition initialize_packet_buffer :: "packet_buffer \<Rightarrow> packet_buffer" where
  "initialize_packet_buffer pb = pb\<lparr>
     packet_buffer_head := 0,
     packet_buffer_tail := 0,
     pb_full_flag := 0,
     pb_empty_flag := 1,
     buffer_reading_head := 0\<rparr>"

section \<open>Operations\<close>

definition add_a_byte_to_the_packet_buffer ::
  "packet_buffer \<Rightarrow> byte \<Rightarrow> packet_buffer option" where
  "add_a_byte_to_the_packet_buffer pb b =
     (if pb_full_flag pb = 1 then Some pb
      else do {
        arr \<leftarrow> cput (packet_buffer_bytes pb) (packet_buffer_tail pb) b;
        let pb = pb\<lparr>packet_buffer_bytes := arr, pb_empty_flag := 0\<rparr>;
        let pb = (if packet_buffer_tail pb = PACKET_BUFFER_LEN - 1
                  then pb\<lparr>packet_buffer_tail := 0\<rparr>
                  else pb\<lparr>packet_buffer_tail := packet_buffer_tail pb + 1\<rparr>);
        Some (if packet_buffer_tail pb = packet_buffer_head pb
              then pb\<lparr>pb_full_flag := 1\<rparr> else pb)
      })"

definition dqueue_from_packet_buffer :: "packet_buffer \<Rightarrow> (byte \<times> packet_buffer) option" where
  "dqueue_from_packet_buffer pb =
     (if pb_empty_flag pb = 1 then Some (0, pb)
      else if buffer_reading_head pb = packet_buffer_head pb then Some (0, pb)
      else do {
        data \<leftarrow> cget (packet_buffer_bytes pb) (packet_buffer_head pb);
        let pb = pb\<lparr>pb_empty_flag := 0\<rparr>;
        let pb = (if packet_buffer_head pb = PACKET_BUFFER_LEN - 1
                  then pb\<lparr>packet_buffer_head := 0\<rparr>
                  else pb\<lparr>packet_buffer_head := packet_buffer_head pb + 1\<rparr>);
        let pb = (if packet_buffer_tail pb = packet_buffer_head pb
                  then pb\<lparr>pb_empty_flag := 1\<rparr> else pb);
        Some (data, pb)
      })"

definition dqueue_from_packet_buffer_for_preprocessing ::
  "packet_buffer \<Rightarrow> (byte \<times> packet_buffer) option" where
  "dqueue_from_packet_buffer_for_preprocessing pb =
     (if pb_empty_flag pb = 1 then Some (0, pb)
      else do {
        data \<leftarrow> cget (packet_buffer_bytes pb) (buffer_reading_head pb);
        let pb = pb\<lparr>pb_empty_flag := 0\<rparr>;
        let pb = (if buffer_reading_head pb = PACKET_BUFFER_LEN - 1
                  then pb\<lparr>buffer_reading_head := 0\<rparr>
                  else pb\<lparr>buffer_reading_head := buffer_reading_head pb + 1\<rparr>);
        Some (data, pb)
      })"

text \<open>
  The caller's array \<open>pk\<close> is written from index 0; \<open>packet_length\<close> is the first byte out.
\<close>

definition read_a_packet ::
  "packet_buffer \<Rightarrow> byte list \<Rightarrow> (byte list \<times> packet_buffer) option" where
  "read_a_packet pb pk =
     (if pb_empty_flag pb = 1 then do { pk \<leftarrow> cput pk 0 0; Some (pk, pb) }
      else if buffer_reading_head pb = packet_buffer_head pb then Some (pk, pb)
      else do {
        (packet_length, pb) \<leftarrow> dqueue_from_packet_buffer pb;
        pk \<leftarrow> cput pk 0 packet_length;
        drain_into dqueue_from_packet_buffer 1 (unat packet_length) (pk, pb)
      })"

definition read_a_packet_for_preprocessing ::
  "packet_buffer \<Rightarrow> byte list \<Rightarrow> (byte list \<times> packet_buffer) option" where
  "read_a_packet_for_preprocessing pb pk =
     (if pb_empty_flag pb = 1 then do { pk \<leftarrow> cput pk 0 0; Some (pk, pb) }
      else do {
        (packet_length, pb) \<leftarrow> dqueue_from_packet_buffer_for_preprocessing pb;
        pk \<leftarrow> cput pk 0 packet_length;
        drain_into dqueue_from_packet_buffer_for_preprocessing 1 (unat packet_length) (pk, pb)
      })"

text \<open>
  The packet is copied into a local array of \<open>packet_length\<close> bytes (\<open>stack\<close> gives its
  contents before the first write) and a pointer to it is returned; \<open>None\<close> in the result is
  the null pointer of the two early returns.
\<close>

definition read_a_packet_and_pass_a_pointer ::
  "(nat \<Rightarrow> byte) \<Rightarrow> packet_buffer \<Rightarrow> (byte list option \<times> packet_buffer) option" where
  "read_a_packet_and_pass_a_pointer stack pb =
     (if pb_empty_flag pb = 1 then Some (None, pb)
      else if buffer_reading_head pb = packet_buffer_head pb then Some (None, pb)
      else do {
        (packet_length, pb) \<leftarrow> dqueue_from_packet_buffer pb;
        let output_packet = map stack [0..<unat packet_length];
        output_packet \<leftarrow> cput output_packet 0 packet_length;
        (output_packet, pb) \<leftarrow>
          drain_into dqueue_from_packet_buffer 1 (unat packet_length) (output_packet, pb);
        Some (Some output_packet, pb)
      })"

section \<open>The abstract queue\<close>

text \<open>
  \<open>pb_stored\<close> lists the bytes held, oldest first; the first \<open>pb_done\<close> of them were read
  ahead. \<open>pb_ready\<close> is what the consumer may take, \<open>pb_pending\<close> what the pre-processor has
  still to read.
\<close>

definition pb_count :: "packet_buffer \<Rightarrow> nat" where
  "pb_count pb =
     (if pb_empty_flag pb = 1 then 0
      else if packet_buffer_tail pb = packet_buffer_head pb then 1000
      else nat ((packet_buffer_tail pb - packet_buffer_head pb) mod 1000))"

definition pb_done :: "packet_buffer \<Rightarrow> nat" where
  "pb_done pb = nat ((buffer_reading_head pb - packet_buffer_head pb) mod 1000)"

definition pb_at :: "packet_buffer \<Rightarrow> nat \<Rightarrow> byte" where
  "pb_at pb k = packet_buffer_bytes pb ! nat ((packet_buffer_head pb + int k) mod 1000)"

definition pb_stored :: "packet_buffer \<Rightarrow> byte list" where
  "pb_stored pb = map (pb_at pb) [0..<pb_count pb]"

definition pb_ready :: "packet_buffer \<Rightarrow> byte list" where
  "pb_ready pb = take (pb_done pb) (pb_stored pb)"

definition pb_pending :: "packet_buffer \<Rightarrow> byte list" where
  "pb_pending pb = drop (pb_done pb) (pb_stored pb)"

definition pb_room :: "packet_buffer \<Rightarrow> nat" where
  "pb_room pb = 999 - pb_count pb"

text \<open>Indices in range and flags that agree with them: kept by every operation.\<close>

definition pb_wf :: "packet_buffer \<Rightarrow> bool" where
  "pb_wf pb \<longleftrightarrow> length (packet_buffer_bytes pb) = 1000
     \<and> 0 \<le> packet_buffer_head pb \<and> packet_buffer_head pb < 1000
     \<and> 0 \<le> packet_buffer_tail pb \<and> packet_buffer_tail pb < 1000
     \<and> 0 \<le> buffer_reading_head pb \<and> buffer_reading_head pb < 1000
     \<and> (pb_empty_flag pb = 1 \<longrightarrow> packet_buffer_tail pb = packet_buffer_head pb)
     \<and> (packet_buffer_tail pb = packet_buffer_head pb \<and> pb_empty_flag pb \<noteq> 1
          \<longrightarrow> pb_full_flag pb = 1)"

text \<open>The buffer never filled up and the pre-processor has not run past the tail.\<close>

definition pb_ok :: "packet_buffer \<Rightarrow> bool" where
  "pb_ok pb \<longleftrightarrow> pb_wf pb \<and> pb_full_flag pb \<noteq> 1 \<and> pb_done pb \<le> pb_count pb"

lemma ring_inj: "k < 1000 \<Longrightarrow> m < 1000 \<Longrightarrow>
  (h + int k) mod 1000 = (h + int m) mod 1000 \<Longrightarrow> k = m"
proof -
  assume *: "k < 1000" "m < 1000" "(h + int k) mod 1000 = (h + int m) mod 1000"
  have "(h + int k - h) mod 1000 = (h + int m - h) mod 1000"
    using *(3) by (rule mod_diff_cong) simp
  with *(1,2) show "k = m" by simp
qed

lemma pb_ok_count:
  assumes "pb_ok pb"
  shows "int (pb_count pb) = (packet_buffer_tail pb - packet_buffer_head pb) mod 1000"
  using assms by (auto simp: pb_ok_def pb_wf_def pb_count_def)

lemma pb_ok_count_less: "pb_ok pb \<Longrightarrow> pb_count pb < 1000"
  using pb_ok_count[of pb] pos_mod_bound[of 1000] by (metis of_nat_less_iff of_nat_numeral zero_less_numeral)

lemma pb_tail_pos:
  assumes "pb_ok pb"
  shows "packet_buffer_tail pb = (packet_buffer_head pb + int (pb_count pb)) mod 1000"
  using assms unfolding pb_ok_count[OF assms]
  by (simp add: mod_add_right_eq pb_ok_def pb_wf_def)

lemma pb_reading_pos:
  assumes "pb_wf pb"
  shows "buffer_reading_head pb = (packet_buffer_head pb + int (pb_done pb)) mod 1000"
  using assms by (simp add: pb_done_def mod_add_right_eq pb_wf_def)

lemma pb_done_less: "pb_done pb < 1000"
proof -
  have "(buffer_reading_head pb - packet_buffer_head pb) mod 1000 < 1000" by simp
  then show ?thesis unfolding pb_done_def by (simp add: nat_less_iff)
qed

lemma length_pb_stored [simp]: "length (pb_stored pb) = pb_count pb"
  by (simp add: pb_stored_def)

lemma pb_stored_split: "pb_stored pb = pb_ready pb @ pb_pending pb"
  by (simp add: pb_ready_def pb_pending_def)


section \<open>The operations on the abstract queue\<close>

lemma pb_ok_full: "pb_ok pb \<Longrightarrow> pb_full_flag pb \<noteq> 1"
  by (simp add: pb_ok_def)

lemma ring_next': "0 \<le> i \<Longrightarrow> i \<noteq> 999 \<Longrightarrow> i < 1000 \<Longrightarrow> (i + 1) mod (1000::int) = i + 1"
  by simp

lemma add_eq:
  fixes b :: byte and pb :: packet_buffer
  assumes "pb_wf pb" "pb_full_flag pb \<noteq> 1"
  defines "t' \<equiv> (packet_buffer_tail pb + 1) mod 1000"
  defines "pb1 \<equiv> pb\<lparr>packet_buffer_bytes := (packet_buffer_bytes pb)[nat (packet_buffer_tail pb) := b],
      pb_empty_flag := 0, packet_buffer_tail := t'\<rparr>"
  shows "add_a_byte_to_the_packet_buffer pb b =
     Some (if t' = packet_buffer_head pb then pb1\<lparr>pb_full_flag := 1\<rparr> else pb1)"
  using assms(1,2) unfolding pb1_def t'_def
  by (cases "packet_buffer_tail pb = 999")
     (simp_all add: add_a_byte_to_the_packet_buffer_def cput_in pb_wf_def ring_next'
      PACKET_BUFFER_LEN_def Let_def)

lemma dqueue_eq:
  fixes pb :: packet_buffer
  assumes "pb_wf pb" "pb_empty_flag pb \<noteq> 1" "buffer_reading_head pb \<noteq> packet_buffer_head pb"
  defines "h' \<equiv> (packet_buffer_head pb + 1) mod 1000"
  shows "dqueue_from_packet_buffer pb = Some (packet_buffer_bytes pb ! nat (packet_buffer_head pb),
      pb\<lparr>pb_empty_flag := (if packet_buffer_tail pb = h' then 1 else 0), packet_buffer_head := h'\<rparr>)"
  using assms(1-3) unfolding h'_def
  by (cases "packet_buffer_head pb = 999")
     (simp_all add: dqueue_from_packet_buffer_def cget_in pb_wf_def ring_next'
      PACKET_BUFFER_LEN_def Let_def)

lemma dqueue_pre_eq:
  assumes "pb_wf pb" "pb_empty_flag pb \<noteq> 1"
  shows "dqueue_from_packet_buffer_for_preprocessing pb =
     Some (packet_buffer_bytes pb ! nat (buffer_reading_head pb),
      pb\<lparr>pb_empty_flag := 0, buffer_reading_head := (buffer_reading_head pb + 1) mod 1000\<rparr>)"
  using assms
  by (cases "buffer_reading_head pb = 999")
     (simp_all add: dqueue_from_packet_buffer_for_preprocessing_def cget_in pb_wf_def ring_next'
      PACKET_BUFFER_LEN_def Let_def)

lemma add_ok:
  assumes ok: "pb_ok pb" and room: "pb_count pb < 999"
  shows "\<exists>pb'. add_a_byte_to_the_packet_buffer pb b = Some pb' \<and> pb_ok pb' \<and>
    pb_stored pb' = pb_stored pb @ [b] \<and> pb_done pb' = pb_done pb \<and>
    pb_count pb' = Suc (pb_count pb)"
proof -
  let ?h = "packet_buffer_head pb" and ?t = "packet_buffer_tail pb"
  let ?t' = "(?t + 1) mod 1000"
  let ?arr = "(packet_buffer_bytes pb)[nat ?t := b]"
  let ?pb' = "pb\<lparr>packet_buffer_bytes := ?arr, pb_empty_flag := 0, packet_buffer_tail := ?t'\<rparr>"
  have wf: "pb_wf pb" using ok by (simp add: pb_ok_def)
  have cnt: "(?t' - ?h) mod 1000 = int (Suc (pb_count pb))"
  proof -
    have "(?t' - ?h) mod 1000 = ((?t - ?h) mod 1000 + 1) mod 1000"
      by (simp add: mod_simps algebra_simps)
    also have "\<dots> = (int (pb_count pb) + 1) mod 1000" by (simp add: pb_ok_count[OF ok])
    also have "\<dots> = int (Suc (pb_count pb))" using room by simp
    finally show ?thesis .
  qed
  have ne: "?t' \<noteq> ?h" using cnt by auto
  have eq: "add_a_byte_to_the_packet_buffer pb b = Some ?pb'"
    using add_eq[OF wf pb_ok_full[OF ok], of b] ne by simp
  have cnt': "pb_count ?pb' = Suc (pb_count pb)"
    using cnt ne by (simp add: pb_count_def[of ?pb'])
  have dn: "pb_done ?pb' = pb_done pb" by (simp add: pb_done_def)
  have at: "pb_at ?pb' k = (if k = pb_count pb then b else pb_at pb k)" if "k \<le> pb_count pb" for k
  proof -
    have "nat ((?h + int k) mod 1000) = nat ?t \<longleftrightarrow> k = pb_count pb"
      using pb_tail_pos[OF ok] ring_inj[of k "pb_count pb" ?h] that room wf
      by (auto simp: pb_wf_def nat_eq_iff)
    then show ?thesis using wf by (auto simp: pb_at_def pb_wf_def)
  qed
  have st: "pb_stored ?pb' = pb_stored pb @ [b]"
    unfolding pb_stored_def cnt' using at by (simp cong: map_cong)
  have "pb_ok ?pb'"
    using wf ok ne cnt' dn by (auto simp: pb_ok_def pb_wf_def)
  with eq st dn cnt' show ?thesis by blast
qed

lemma dqueue_ok:
  assumes ok: "pb_ok pb" and ne: "0 < pb_done pb"
  shows "\<exists>pb'. dqueue_from_packet_buffer pb = Some (hd (pb_stored pb), pb') \<and> pb_ok pb' \<and>
    pb_stored pb' = tl (pb_stored pb) \<and> pb_done pb' = pb_done pb - 1 \<and>
    pb_count pb' = pb_count pb - 1"
proof -
  let ?h = "packet_buffer_head pb" and ?t = "packet_buffer_tail pb"
  let ?r = "buffer_reading_head pb"
  let ?h' = "(?h + 1) mod 1000"
  let ?pb' = "pb\<lparr>pb_empty_flag := (if ?t = ?h' then 1 else 0), packet_buffer_head := ?h'\<rparr>"
  have wf: "pb_wf pb" and dc: "pb_done pb \<le> pb_count pb" using ok by (simp_all add: pb_ok_def)
  have rh: "?r \<noteq> ?h" using ne by (auto simp: pb_done_def)
  have em: "pb_empty_flag pb \<noteq> 1" using ne dc by (auto simp: pb_count_def)
  have eq: "dqueue_from_packet_buffer pb =
      Some (packet_buffer_bytes pb ! nat ?h, ?pb')"
    by (rule dqueue_eq[OF wf em rh])
  have hd: "hd (pb_stored pb) = packet_buffer_bytes pb ! nat ?h"
    using ne dc wf by (simp add: pb_stored_def hd_map pb_at_def pb_wf_def)
  have "(?t - ?h') mod 1000 = ((?t - ?h) mod 1000 - 1) mod 1000"
    by (simp add: mod_simps algebra_simps)
  also have "\<dots> = (int (pb_count pb) - 1) mod 1000" by (simp add: pb_ok_count[OF ok])
  also have "\<dots> = int (pb_count pb - 1)"
    using ne dc pb_ok_count_less[OF ok] by (simp add: of_nat_diff)
  finally have cnt: "(?t - ?h') mod 1000 = int (pb_count pb - 1)" .
  have cnt': "pb_count ?pb' = pb_count pb - 1"
    using cnt by (auto simp: pb_count_def)
  have "(?r - ?h') mod 1000 = ((?r - ?h) mod 1000 - 1) mod 1000"
    by (simp add: mod_simps algebra_simps)
  also have "\<dots> = (int (pb_done pb) - 1) mod 1000" by (simp add: pb_done_def)
  also have "\<dots> = int (pb_done pb - 1)"
    using ne pb_done_less[of pb] by (simp add: of_nat_diff)
  finally have dn: "pb_done ?pb' = pb_done pb - 1" by (simp add: pb_done_def)
  have at: "pb_at ?pb' k = pb_at pb (Suc k)" for k
    by (simp add: pb_at_def mod_simps add.assoc)
  have st: "pb_stored ?pb' = tl (pb_stored pb)"
    unfolding pb_stored_def cnt' at
    by (rule nth_equalityI) (simp_all add: nth_tl)
  have "pb_ok ?pb'"
    using wf ok cnt' dn dc by (auto simp: pb_ok_def pb_wf_def)
  with eq hd st dn cnt' show ?thesis by metis
qed

lemma dqueue_pre_ok:
  assumes ok: "pb_ok pb" and ne: "pb_done pb < pb_count pb"
  shows "\<exists>pb'. dqueue_from_packet_buffer_for_preprocessing pb =
      Some (pb_stored pb ! pb_done pb, pb') \<and> pb_ok pb' \<and>
    pb_stored pb' = pb_stored pb \<and> pb_done pb' = Suc (pb_done pb) \<and>
    pb_count pb' = pb_count pb"
proof -
  let ?h = "packet_buffer_head pb" and ?r = "buffer_reading_head pb"
  let ?r' = "(?r + 1) mod 1000"
  let ?pb' = "pb\<lparr>pb_empty_flag := 0, buffer_reading_head := ?r'\<rparr>"
  have wf: "pb_wf pb" using ok by (simp add: pb_ok_def)
  have em: "pb_empty_flag pb \<noteq> 1" using ne by (auto simp: pb_count_def)
  have eq: "dqueue_from_packet_buffer_for_preprocessing pb =
      Some (packet_buffer_bytes pb ! nat ?r, ?pb')"
    by (rule dqueue_pre_eq[OF wf em])
  have rd: "pb_stored pb ! pb_done pb = packet_buffer_bytes pb ! nat ?r"
    using ne by (simp add: pb_stored_def pb_at_def pb_reading_pos[OF wf, symmetric])
  have "(?r' - ?h) mod 1000 = ((?r - ?h) mod 1000 + 1) mod 1000"
    by (simp add: mod_simps algebra_simps)
  also have "\<dots> = (int (pb_done pb) + 1) mod 1000" by (simp add: pb_done_def)
  also have "\<dots> = int (Suc (pb_done pb))"
    using ne pb_ok_count_less[OF ok] by simp
  finally have dn: "pb_done ?pb' = Suc (pb_done pb)" by (simp add: pb_done_def)
  have cnt': "pb_count ?pb' = pb_count pb" using em by (simp add: pb_count_def)
  have st: "pb_stored ?pb' = pb_stored pb"
    by (simp add: pb_stored_def cnt' pb_at_def[abs_def])
  have "pb_ok ?pb'"
    using wf ok ne cnt' dn em by (auto simp: pb_ok_def pb_wf_def)
  with eq rd st dn cnt' show ?thesis by metis
qed


section \<open>The buffer as a queue of bytes\<close>

lemma ready_pending_add:
  assumes "pb_ok pb" "pb_stored pb' = pb_stored pb @ [b]" "pb_done pb' = pb_done pb"
  shows "pb_ready pb' = pb_ready pb" "pb_pending pb' = pb_pending pb @ [b]"
  using assms by (simp_all add: pb_ready_def pb_pending_def pb_ok_def)

text \<open>The three operations in terms of the two parts of the content.\<close>

lemma add_parts:
  assumes "pb_ok s" "0 < pb_room s"
  shows "\<exists>s'. add_a_byte_to_the_packet_buffer s b = Some s' \<and> pb_ok s' \<and>
      pb_ready s' = pb_ready s \<and> pb_pending s' = pb_pending s @ [b] \<and>
      pb_room s' = pb_room s - 1"
  using add_ok[of s b] ready_pending_add[of s] assms by (auto simp: pb_room_def)

lemma dqueue_pre_parts:
  assumes "pb_ok s" "pb_pending s = b # bs"
  shows "\<exists>s'. dqueue_from_packet_buffer_for_preprocessing s = Some (b, s') \<and> pb_ok s' \<and>
      pb_ready s' = pb_ready s @ [b] \<and> pb_pending s' = bs \<and> pb_stored s' = pb_stored s"
proof -
  have lt: "pb_done s < pb_count s"
    using assms(2)
    by (metis drop_eq_Nil length_pb_stored linorder_not_less list.distinct(1) pb_pending_def)
  from dqueue_pre_ok[OF assms(1) this] obtain s' where s':
    "dqueue_from_packet_buffer_for_preprocessing s = Some (pb_stored s ! pb_done s, s')"
    "pb_ok s'" "pb_stored s' = pb_stored s" "pb_done s' = Suc (pb_done s)" by blast
  have "pb_stored s ! pb_done s # drop (Suc (pb_done s)) (pb_stored s) = b # bs"
    using assms(2) lt by (simp add: pb_pending_def Cons_nth_drop_Suc)
  with s' lt show ?thesis
    by (auto simp: pb_pending_def pb_ready_def take_Suc_conv_app_nth)
qed

lemma dqueue_parts:
  assumes "pb_ok s" "pb_ready s = b # bs"
  shows "\<exists>s'. dqueue_from_packet_buffer s = Some (b, s') \<and> pb_ok s' \<and>
      pb_ready s' = bs \<and> pb_pending s' = pb_pending s \<and> pb_room s \<le> pb_room s'"
proof -
  have d: "0 < pb_done s" using assms(2) by (cases "pb_done s") (auto simp: pb_ready_def)
  from dqueue_ok[OF assms(1) this] obtain s' where s':
    "dqueue_from_packet_buffer s = Some (hd (pb_stored s), s')" "pb_ok s'"
    "pb_stored s' = tl (pb_stored s)" "pb_done s' = pb_done s - 1"
    "pb_count s' = pb_count s - 1" by blast
  have st: "pb_stored s = b # bs @ pb_pending s"
    using pb_stored_split[of s] assms(2) by simp
  have "pb_ready s' = take (pb_done s - 1) (tl (pb_stored s))" using s' by (simp add: pb_ready_def)
  also have "\<dots> = bs" using assms(2) d by (cases "pb_done s") (simp_all add: pb_ready_def st)
  finally have r: "pb_ready s' = bs" .
  with s'(3) st pb_stored_split[of s'] have "pb_pending s' = pb_pending s" by simp
  with s' st r show ?thesis by (auto simp: pb_room_def)
qed

text \<open>
  Towards the pre-processor the buffer is a queue: what is added comes out of the
  reading-ahead operation. The parts that an operation leaves alone are carried in the
  invariant of the two one-sided instances.
\<close>

interpretation pending: byte_queue
  add_a_byte_to_the_packet_buffer dqueue_from_packet_buffer_for_preprocessing
  pb_pending pb_room pb_ok
  by unfold_locales (use add_parts dqueue_pre_parts in blast)+

interpretation fill: byte_sink
  add_a_byte_to_the_packet_buffer pb_pending pb_room "\<lambda>s. pb_ok s \<and> pb_ready s = X"
  for X
  by unfold_locales (use add_parts in blast)

interpretation ahead: byte_source
  dqueue_from_packet_buffer_for_preprocessing pb_pending "\<lambda>s. pb_ok s \<and> pb_stored s = X"
  for X
  by unfold_locales (use dqueue_pre_parts in blast)

interpretation ready: byte_source
  dqueue_from_packet_buffer pb_ready "\<lambda>s. pb_ok s \<and> pb_pending s = X \<and> R \<le> pb_room s"
  for X R
  by unfold_locales (use dqueue_parts order_trans in blast)

section \<open>Packets\<close>

text \<open>A packet in the buffer is its length in one byte and then its bytes.\<close>

definition frame :: "byte list \<Rightarrow> byte list" where
  "frame p = of_nat (length p) # p"

lemma unat_frame_length: "length p < 256 \<Longrightarrow> unat (of_nat (length p) :: byte) = length p"
  by (simp add: unat_of_nat)

lemma blit_0_Cons:
  "xs \<noteq> [] \<Longrightarrow> length ys < length xs \<Longrightarrow> blit (xs[0 := v]) (Suc 0) ys = blit xs 0 (v # ys)"
  by (cases xs) (simp_all add: blit_def)

lemma read_a_packet_frame:
  assumes "pb_ok pb" "pb_ready pb = frame p @ rest" "length p < 256" "length p < length pk"
  shows "\<exists>pb'. read_a_packet pb pk = Some (blit pk 0 (frame p), pb') \<and> pb_ok pb' \<and>
      pb_ready pb' = rest \<and> pb_pending pb' = pb_pending pb \<and> pb_room pb \<le> pb_room pb'"
proof -
  let ?b = "of_nat (length p) :: byte"
  from assms(1,2) obtain s1 where s1: "dqueue_from_packet_buffer pb = Some (?b, s1)" "pb_ok s1"
    "pb_ready s1 = p @ rest" "pb_pending s1 = pb_pending pb" "pb_room pb \<le> pb_room s1"
    using dqueue_parts[of pb ?b "p @ rest"] by (auto simp: frame_def)
  have guard: "pb_empty_flag pb \<noteq> 1" "buffer_reading_head pb \<noteq> packet_buffer_head pb"
    using assms(1,2) by (auto simp: pb_ready_def frame_def pb_stored_def pb_count_def pb_done_def)
  have "\<exists>s'. drain_into dqueue_from_packet_buffer (int (Suc 0)) (length p) (pk[0 := ?b], s1)
        = Some (blit (pk[0 := ?b]) (Suc 0) (take (length p) (pb_ready s1)), s')
      \<and> (pb_ok s' \<and> pb_pending s' = pb_pending pb \<and> pb_room pb \<le> pb_room s')
      \<and> pb_ready s' = drop (length p) (pb_ready s1)"
    using s1 assms(4) by (intro ready.drain_into_ok) auto
  then show ?thesis
    using s1 guard assms(3,4)
    by (auto simp: read_a_packet_def cput_def unat_frame_length frame_def blit_0_Cons)
qed

text \<open>A concrete buffer for the witnesses: it holds one framed packet of two bytes.\<close>

definition example_pb :: "int \<Rightarrow> packet_buffer" where
  "example_pb rh = \<lparr>packet_buffer_bytes = frame [7, 9] @ replicate 997 0,
     packet_buffer_head = 0, packet_buffer_tail = 3, pb_full_flag = 0, pb_empty_flag = 0,
     buffer_reading_head = rh\<rparr>"

lemma example_pb_facts:
  "pb_ok (example_pb 3)" "pb_ready (example_pb 3) = frame [7, 9]"
  "pb_ok (example_pb 0)" "pb_pending (example_pb 0) = frame [7, 9]"
  "pb_ready (example_pb 0) = []" "pb_pending (example_pb 3) = []"
  by (simp_all add: example_pb_def pb_ok_def pb_wf_def pb_done_def pb_count_def frame_def
      pb_ready_def pb_pending_def pb_stored_def pb_at_def upt_rec numeral_2_eq_2)

text \<open>
  C17. The consumer gets the oldest pre-processed packet whole: when the bytes read ahead
  start with a framed packet, \<open>read_a_packet\<close> writes exactly that frame to the front of the
  caller's array, takes it off the buffer and leaves every other byte where it was.
\<close>

theorem read_a_packet_returns_oldest:
  assumes "pb_ok pb" "pb_ready pb = frame p @ rest" "length p < 256" "length p < length pk"
  shows "\<exists>pb'. read_a_packet pb pk = Some (blit pk 0 (frame p), pb') \<and> pb_ok pb' \<and>
      pb_ready pb' = rest \<and> pb_pending pb' = pb_pending pb \<and> pb_room pb \<le> pb_room pb'"
  using assms by (rule read_a_packet_frame)

theorem read_a_packet_returns_oldest_witness:
  "\<exists>pb'. read_a_packet (example_pb 3) (replicate 100 0) =
      Some (blit (replicate 100 0) 0 (frame [7, 9]), pb') \<and> pb_ready pb' = []"
  using read_a_packet_returns_oldest[of "example_pb 3" "[7, 9]" "[]" "replicate 100 0"]
  by (auto simp: example_pb_facts)

lemma read_for_preprocessing_frame:
  assumes "pb_ok pb" "pb_pending pb = frame p @ rest" "length p < 256" "length p < length pk"
  shows "\<exists>pb'. read_a_packet_for_preprocessing pb pk = Some (blit pk 0 (frame p), pb') \<and>
      pb_ok pb' \<and> pb_pending pb' = rest \<and> pb_ready pb' = pb_ready pb @ frame p \<and>
      pb_stored pb' = pb_stored pb \<and> pb_room pb' = pb_room pb"
proof -
  let ?b = "of_nat (length p) :: byte"
  from assms(1,2) obtain s1 where s1:
    "dqueue_from_packet_buffer_for_preprocessing pb = Some (?b, s1)" "pb_ok s1"
    "pb_pending s1 = p @ rest" "pb_stored s1 = pb_stored pb"
    using dqueue_pre_parts[of pb ?b "p @ rest"] by (auto simp: frame_def)
  have guard: "pb_empty_flag pb \<noteq> 1"
    using assms(2) by (auto simp: pb_pending_def frame_def pb_stored_def pb_count_def)
  have "\<exists>s'. drain_into dqueue_from_packet_buffer_for_preprocessing (int (Suc 0)) (length p)
          (pk[0 := ?b], s1)
        = Some (blit (pk[0 := ?b]) (Suc 0) (take (length p) (pb_pending s1)), s')
      \<and> (pb_ok s' \<and> pb_stored s' = pb_stored pb)
      \<and> pb_pending s' = drop (length p) (pb_pending s1)"
    using s1 assms(4) by (intro ahead.drain_into_ok) auto
  moreover have "blit (pk[0 := ?b]) (Suc 0) p = blit pk 0 (frame p)"
    using assms(4) by (cases pk) (auto simp: frame_def blit_def)
  ultimately obtain s' where s':
    "drain_into dqueue_from_packet_buffer_for_preprocessing 1 (length p) (pk[0 := ?b], s1)
        = Some (blit pk 0 (frame p), s')" "pb_ok s'" "pb_stored s' = pb_stored pb"
    "pb_pending s' = rest"
    using s1 assms(4) by auto
  moreover have "pb_room s' = pb_room pb"
    using s'(3) by (metis length_pb_stored pb_room_def)
  moreover have "pb_ready s' = pb_ready pb @ frame p"
    using s'(3,4) assms(2) pb_stored_split[of s'] pb_stored_split[of pb] by simp
  ultimately show ?thesis
    using s1 guard assms(3,4)
    by (auto simp: read_a_packet_for_preprocessing_def cput_def unat_frame_length)
qed

text \<open>
  C21. The pre-processor gets the oldest unread packet whole and nothing is lost by it: the
  packet's frame moves from the pending to the ready part and the stored bytes are the same.
\<close>

theorem read_for_preprocessing_reads_ahead:
  assumes "pb_ok pb" "pb_pending pb = frame p @ rest" "length p < 256" "length p < length pk"
  shows "\<exists>pb'. read_a_packet_for_preprocessing pb pk = Some (blit pk 0 (frame p), pb') \<and>
      pb_ok pb' \<and> pb_pending pb' = rest \<and> pb_ready pb' = pb_ready pb @ frame p \<and>
      pb_stored pb' = pb_stored pb \<and> pb_room pb' = pb_room pb"
  using assms by (rule read_for_preprocessing_frame)

theorem read_for_preprocessing_reads_ahead_witness:
  "\<exists>pb'. read_a_packet_for_preprocessing (example_pb 0) (replicate 100 0) =
      Some (blit (replicate 100 0) 0 (frame [7, 9]), pb') \<and> pb_pending pb' = []"
  using read_for_preprocessing_reads_ahead[of "example_pb 0" "[7, 9]" "[]" "replicate 100 0"]
  by (auto simp: example_pb_facts)

section \<open>The buffer as a state machine\<close>

datatype pb_event = PbAdd byte | PbTake byte | PbReadAhead byte

inductive pb_step :: "packet_buffer \<Rightarrow> pb_event \<Rightarrow> packet_buffer \<Rightarrow> bool" where
  step_add: "add_a_byte_to_the_packet_buffer pb b = Some pb' \<Longrightarrow> pb_step pb (PbAdd b) pb'"
| step_take: "dqueue_from_packet_buffer pb = Some (b, pb') \<Longrightarrow> pb_step pb (PbTake b) pb'"
| step_read: "dqueue_from_packet_buffer_for_preprocessing pb = Some (b, pb') \<Longrightarrow>
     pb_step pb (PbReadAhead b) pb'"

inductive_cases pb_stepE: "pb_step pb e pb'"

inductive pb_run :: "packet_buffer \<Rightarrow> pb_event list \<Rightarrow> packet_buffer \<Rightarrow> bool" where
  run_nil: "pb_run pb [] pb"
| run_snoc: "pb_run pb es pb' \<Longrightarrow> pb_step pb' e pb'' \<Longrightarrow> pb_run pb (es @ [e]) pb''"

lemma pb_wf_initialize:
  "length (packet_buffer_bytes pb) = 1000 \<Longrightarrow> pb_wf (initialize_packet_buffer pb)"
  by (simp add: pb_wf_def initialize_packet_buffer_def)

lemma pb_ok_initialize:
  assumes "length (packet_buffer_bytes pb) = 1000"
  shows "pb_ok (initialize_packet_buffer pb)" "pb_stored (initialize_packet_buffer pb) = []"
    "pb_ready (initialize_packet_buffer pb) = []" "pb_pending (initialize_packet_buffer pb) = []"
    "pb_room (initialize_packet_buffer pb) = 999"
  using pb_wf_initialize[OF assms]
  by (simp_all add: pb_ok_def initialize_packet_buffer_def pb_done_def pb_count_def pb_stored_def
      pb_ready_def pb_pending_def pb_room_def)

lemma pb_wf_total:
  assumes "pb_wf pb"
  shows "\<exists>pb'. add_a_byte_to_the_packet_buffer pb b = Some pb'"
    "\<exists>c pb'. dqueue_from_packet_buffer pb = Some (c, pb')"
    "\<exists>c pb'. dqueue_from_packet_buffer_for_preprocessing pb = Some (c, pb')"
  using assms
  by (simp_all add: pb_wf_def add_a_byte_to_the_packet_buffer_def dqueue_from_packet_buffer_def
      dqueue_from_packet_buffer_for_preprocessing_def cput_def cget_def Let_def)

lemma pb_step_wf: "pb_step pb e pb' \<Longrightarrow> pb_wf pb \<Longrightarrow> pb_wf pb'"
  by (erule pb_stepE)
     (auto simp: pb_wf_def add_a_byte_to_the_packet_buffer_def dqueue_from_packet_buffer_def
      dqueue_from_packet_buffer_for_preprocessing_def cput_Some_iff cget_Some_iff Let_def
      PACKET_BUFFER_LEN_def split: if_splits bind_splits)

lemma pb_run_wf: "pb_run pb es pb' \<Longrightarrow> pb_wf pb \<Longrightarrow> pb_wf pb'"
  by (induction rule: pb_run.induct) (auto intro: pb_step_wf)

text \<open>
  C22. No sequence of adds, takes and read-aheads on an initialised buffer, in any order,
  leaves the array or gets stuck: the three positions stay in range and each of the three
  operations is defined in every state that is reached.
\<close>

theorem pb_run_safe:
  assumes "length (packet_buffer_bytes pb) = 1000"
    and "pb_run (initialize_packet_buffer pb) es pb'"
  shows "pb_wf pb' \<and> (\<forall>b. \<exists>q. add_a_byte_to_the_packet_buffer pb' b = Some q) \<and>
    (\<exists>b q. dqueue_from_packet_buffer pb' = Some (b, q)) \<and>
    (\<exists>b q. dqueue_from_packet_buffer_for_preprocessing pb' = Some (b, q))"
  using pb_run_wf[OF assms(2) pb_wf_initialize[OF assms(1)]] pb_wf_total by blast

theorem pb_run_safe_witness:
  "\<exists>q. pb_run (initialize_packet_buffer (example_pb 0)) [PbTake 0] q \<and> pb_wf q"
proof -
  let ?i = "initialize_packet_buffer (example_pb 0)"
  have len: "length (packet_buffer_bytes (example_pb 0)) = 1000"
    by (simp add: example_pb_def frame_def)
  have "pb_step ?i (PbTake 0) ?i"
    by (rule step_take) (simp add: dqueue_from_packet_buffer_def initialize_packet_buffer_def)
  then have "pb_run ?i [PbTake 0] ?i" using run_snoc[OF run_nil] by force
  with pb_run_safe[OF len this] show ?thesis by blast
qed

text \<open>The full flag is set by the add that makes the tail meet the head and never cleared.\<close>

lemma pb_step_full:
  "pb_step pb e pb' \<Longrightarrow> pb_full_flag pb = 1 \<Longrightarrow>
   pb_full_flag pb' = 1 \<and> packet_buffer_bytes pb' = packet_buffer_bytes pb"
  by (erule pb_stepE)
     (auto simp: add_a_byte_to_the_packet_buffer_def dqueue_from_packet_buffer_def
      dqueue_from_packet_buffer_for_preprocessing_def Let_def split: if_splits bind_splits)

lemma pb_run_full:
  "pb_run pb es pb' \<Longrightarrow> pb_full_flag pb = 1 \<Longrightarrow>
   pb_full_flag pb' = 1 \<and> packet_buffer_bytes pb' = packet_buffer_bytes pb"
proof (induction rule: pb_run.induct)
  case (run_snoc pb es pb' e pb'')
  then show ?case using pb_step_full by metis
qed simp

lemma add_last:
  assumes "pb_ok pb" "pb_count pb = 999"
  shows "\<exists>pb'. add_a_byte_to_the_packet_buffer pb b = Some pb' \<and> pb_full_flag pb' = 1"
proof -
  let ?h = "packet_buffer_head pb" and ?t = "packet_buffer_tail pb"
  have wf: "pb_wf pb" using assms(1) by (simp add: pb_ok_def)
  have "(?t + 1) mod 1000 = (?h + 1000) mod 1000"
    unfolding pb_tail_pos[OF assms(1)] assms(2) by (simp add: mod_simps)
  then have "(?t + 1) mod 1000 = ?h" using wf by (simp add: pb_wf_def)
  then show ?thesis
    using add_eq[OF wf pb_ok_full[OF assms(1)], of b] by simp
qed

text \<open>
  C29. A buffer that has once held 1000 bytes takes no byte ever again: after a thousand adds
  to an initialised buffer, in every later state, whatever was taken out in between, an add
  changes nothing.
\<close>

theorem packet_buffer_full_forever:
  assumes "length (packet_buffer_bytes pb) = 1000" "length bs = 1000"
  shows "\<exists>full. feed add_a_byte_to_the_packet_buffer (initialize_packet_buffer pb) bs = Some full \<and>
    (\<forall>es later. pb_run full es later \<longrightarrow>
       (\<forall>b. add_a_byte_to_the_packet_buffer later b = Some later))"
proof -
  note init = pb_ok_initialize[OF assms(1)]
  from assms(2) obtain bs' b where bs: "bs = bs' @ [b]" "length bs' = 999"
    by (cases bs rule: rev_cases) auto
  obtain s where s: "feed add_a_byte_to_the_packet_buffer (initialize_packet_buffer pb) bs' = Some s"
    "pb_ok s" "pb_room s = 0" "pb_pending s = bs'"
    using pending.feed_ok[of "initialize_packet_buffer pb" bs'] init bs(2) by auto
  have "pb_count s = 999"
    using s(2,3) pb_ok_count_less[OF s(2)] by (simp add: pb_room_def)
  with add_last[OF s(2)] obtain full where
    full: "add_a_byte_to_the_packet_buffer s b = Some full" "pb_full_flag full = 1" by blast
  have "feed add_a_byte_to_the_packet_buffer (initialize_packet_buffer pb) bs = Some full"
    by (simp add: bs(1) feed_append s(1) full(1))
  moreover have "add_a_byte_to_the_packet_buffer later c = Some later"
    if "pb_run full es later" for es later c
    using pb_run_full[OF that full(2)] by (simp add: add_a_byte_to_the_packet_buffer_def)
  ultimately show ?thesis by blast
qed

theorem packet_buffer_full_forever_witness:
  "\<exists>full. feed add_a_byte_to_the_packet_buffer (initialize_packet_buffer (example_pb 0))
      (replicate 1000 5) = Some full \<and> add_a_byte_to_the_packet_buffer full 1 = Some full"
proof -
  have len: "length (packet_buffer_bytes (example_pb 0)) = 1000"
    by (simp add: example_pb_def frame_def)
  show ?thesis
    using packet_buffer_full_forever[OF len, of "replicate 1000 5"] run_nil by fastforce
qed

text \<open>
  The pointer-returning reader never delivers: whenever it gets past its two guards it
  writes one element past the end of its local array, so its behaviour is undefined.
\<close>

theorem pass_a_pointer_undefined:
  assumes "pb_wf pb" "pb_empty_flag pb \<noteq> 1" "buffer_reading_head pb \<noteq> packet_buffer_head pb"
  shows "read_a_packet_and_pass_a_pointer stack pb = None"
proof -
  have over: "drain_into dqueue_from_packet_buffer 1 n (xs, s) = None"
    if "length xs = n" "0 < n" for n xs s
  proof -
    from that obtain m where m: "n = Suc m" by (cases n) auto
    have "cput ys (1 + int m) b = None" if "length ys = n" for ys :: "byte list" and b
      using that m by (simp add: cput_out)
    moreover have "length (fst r) = n"
      if "c_for m (\<lambda>k (pk, s). do { (b, s') \<leftarrow> dqueue_from_packet_buffer s;
            pk' \<leftarrow> cput pk (1 + int k) b; Some (pk', s') }) (xs, s) = Some r" for r
      using that
      by (rule c_for_inv) (auto simp: \<open>length xs = n\<close> cput_length split: bind_splits prod.splits)
    ultimately show ?thesis
      by (auto simp: drain_into_def m split: bind_splits prod.splits)
  qed
  show ?thesis
  proof (cases "dqueue_from_packet_buffer pb")
    case None
    with assms(2,3) show ?thesis by (simp add: read_a_packet_and_pass_a_pointer_def)
  next
    case (Some r)
    obtain len s where r: "r = (len, s)" by (cases r)
    show ?thesis
    proof (cases "unat len = 0")
      case True
      with assms(2,3) Some r show ?thesis
        by (simp add: read_a_packet_and_pass_a_pointer_def cput_out)
    next
      case False
      then have "drain_into dqueue_from_packet_buffer 1 (unat len)
          ((map stack [0..<unat len])[0 := len], s) = None"
        by (intro over) simp_all
      with False assms(2,3) Some r show ?thesis
        by (simp add: read_a_packet_and_pass_a_pointer_def cput_def del: unat_eq_zero)
    qed
  qed
qed

theorem pass_a_pointer_undefined_witness:
  "read_a_packet_and_pass_a_pointer (\<lambda>_. 0) (example_pb 3) = None"
  using pass_a_pointer_undefined[of "example_pb 3" "\<lambda>_. 0"] example_pb_facts(1)
  by (simp add: example_pb_def pb_ok_def)

end
