(* ===== verification/Packet_Capture.thy ===== *)
theory Packet_Capture
  imports Packet_Buffer
begin

unbundle bit_operations_syntax

text \<open>
  \<^verbatim>\<open>packet/packet.h\<close>: from the capture file to the packet buffer. libpcap is not part of the
  program: \<open>pcap_next_ex\<close> is a parameter \<open>next\<close>, a function from the state of the capture
  to the answer code, the packet that goes with it and the next state of the capture.
\<close>

section \<open>State\<close>

text \<open>
  What the program uses of a captured packet: the two lengths of its \<open>pcap_pkthdr\<close> and the
  bytes \<open>pkt_data\<close> points to.
\<close>

record packet =
  caplen :: "32 word"
  len :: "32 word"
  pkt_data :: "byte list"

section \<open>Loading a packet\<close>

text \<open>
  The length byte is \<open>len + 12\<close>, computed in 32 bits and cut to a byte; then the ingress
  port, the metadata and \<open>caplen\<close> bytes of the packet. The bound \<open>caplen + 1\<close> of the last
  loop is computed in 32 bits too.
\<close>

definition load_a_packet_to_the_packet_buffer ::
  "packet \<Rightarrow> packet_buffer \<Rightarrow> byte list \<Rightarrow> byte list \<Rightarrow> packet_buffer option" where
  "load_a_packet_to_the_packet_buffer pkt pb ingress_port metadata = do {
     pb \<leftarrow> add_a_byte_to_the_packet_buffer pb (ucast (len pkt + 12));
     pb \<leftarrow> c_for 4 (\<lambda>i pb. do {
       b \<leftarrow> cget ingress_port (int i); add_a_byte_to_the_packet_buffer pb b }) pb;
     pb \<leftarrow> c_for 8 (\<lambda>i pb. do {
       b \<leftarrow> cget metadata (int i); add_a_byte_to_the_packet_buffer pb b }) pb;
     c_for (unat (caplen pkt + 1) - 1) (\<lambda>i pb. do {
       b \<leftarrow> cget (pkt_data pkt) (int i); add_a_byte_to_the_packet_buffer pb b }) pb
   }"

text \<open>
  The loop of \<open>load_next_packet_to_the_buffer\<close>: it asks for the next packet until the
  answer is not 0 (a timeout). A negative answer ends it with nothing loaded. \<open>fuel\<close>
  bounds the number of questions; \<open>None\<close> is also what running out of it gives.
\<close>

fun load_next_packet_to_the_buffer ::
  "nat \<Rightarrow> ('fp \<Rightarrow> int \<times> packet \<times> 'fp) \<Rightarrow> 'fp \<Rightarrow> packet_buffer \<Rightarrow> byte list \<Rightarrow> byte list \<Rightarrow>
   (packet_buffer \<times> 'fp) option" where
  "load_next_packet_to_the_buffer 0 next fp pb ingress_port metadata = None"
| "load_next_packet_to_the_buffer (Suc fuel) next fp pb ingress_port metadata =
     (let (res, new_packet, fp') = next fp in
      if res \<ge> 0 then
        (if res \<noteq> 0 then do {
           pb \<leftarrow> load_a_packet_to_the_packet_buffer new_packet pb ingress_port metadata;
           Some (pb, fp') }
         else load_next_packet_to_the_buffer fuel next fp' pb ingress_port metadata)
      else Some (pb, fp'))"

section \<open>Loading, functionally\<close>

text \<open>The bytes that a load appends.\<close>

definition loaded_bytes :: "packet \<Rightarrow> byte list \<Rightarrow> byte list \<Rightarrow> byte list" where
  "loaded_bytes pkt ingress_port metadata =
     take 4 ingress_port @ take 8 metadata @ take (unat (caplen pkt)) (pkt_data pkt)"

lemma c_for_add_bytes:
  assumes "n \<le> length xs"
  shows "c_for n (\<lambda>i pb. do { b \<leftarrow> cget xs (int i); add_a_byte_to_the_packet_buffer pb b }) pb
     = feed add_a_byte_to_the_packet_buffer pb (take n xs)"
proof -
  have "c_for n (\<lambda>i pb. do { b \<leftarrow> cget xs (int i); add_a_byte_to_the_packet_buffer pb b }) pb
     = c_for n (\<lambda>i pb. add_a_byte_to_the_packet_buffer pb (xs ! i)) pb"
    using assms by (intro c_for_cong) (simp_all add: cget_int)
  also have "\<dots> = feed add_a_byte_to_the_packet_buffer pb (map ((!) xs) [0..<n])"
    by (rule c_for_feed)
  also have "map ((!) xs) [0..<n] = take n xs"
    using assms by (intro nth_equalityI) auto
  finally show ?thesis .
qed

lemma unat_plus_1_minus_1: "x \<noteq> - 1 \<Longrightarrow> unat (x + 1 :: 32 word) - Suc 0 = unat x"
proof -
  assume "x \<noteq> - 1"
  then have "1 + x \<noteq> 0" by (metis add.commute eq_neg_iff_add_eq_0)
  then have "unat (1 + x) = Suc (unat x)" by (rule unatSuc)
  then show ?thesis by (simp add: add.commute)
qed

lemma load_as_feed:
  assumes "4 \<le> length ip" "8 \<le> length md" "unat (caplen pkt) \<le> length (pkt_data pkt)"
    and "caplen pkt \<noteq> - 1"
  shows "load_a_packet_to_the_packet_buffer pkt pb ip md =
     feed add_a_byte_to_the_packet_buffer pb (ucast (len pkt + 12) # loaded_bytes pkt ip md)"
  using assms
  by (simp add: load_a_packet_to_the_packet_buffer_def c_for_add_bytes loaded_bytes_def
      feed_append unat_plus_1_minus_1)

lemma load_a_packet_ok:
  assumes "pb_ok pb" "length ip = 4" "length md = 8"
    and "length (pkt_data pkt) = unat (caplen pkt)" "unat (caplen pkt) + 13 \<le> pb_room pb"
  shows "\<exists>pb'. load_a_packet_to_the_packet_buffer pkt pb ip md = Some pb' \<and> pb_ok pb' \<and>
      pb_pending pb' = pb_pending pb @ ucast (len pkt + 12) # ip @ md @ pkt_data pkt \<and>
      pb_ready pb' = pb_ready pb \<and> pb_room pb' = pb_room pb - (unat (caplen pkt) + 13)"
proof -
  have "caplen pkt \<noteq> - 1" using assms(5) by (auto simp: pb_room_def unsigned_minus_1_eq_mask mask_eq_exp_minus_1)
  then have "load_a_packet_to_the_packet_buffer pkt pb ip md =
     feed add_a_byte_to_the_packet_buffer pb (ucast (len pkt + 12) # ip @ md @ pkt_data pkt)"
    using assms(2-4) by (simp add: load_as_feed loaded_bytes_def)
  moreover have "length (ucast (len pkt + 12) # ip @ md @ pkt_data pkt) =
      unat (caplen pkt) + 13"
    using assms(2-4) by simp
  ultimately show ?thesis
    using fill.feed_ok[of pb "pb_ready pb" "ucast (len pkt + 12) # ip @ md @ pkt_data pkt"]
      assms(1,5) by auto
qed

definition example_packet :: packet where
  "example_packet = \<lparr>caplen = 3, len = 3, pkt_data = [1, 2, 3]\<rparr>"

text \<open>
  Loading a packet appends, after whatever is pending, one length byte (the packet's
  length plus twelve, modulo 256) and then the ingress port, the metadata and the captured
  bytes; it changes nothing the consumer may already take.
\<close>

theorem load_appends_packet:
  assumes "pb_ok pb" "length ip = 4" "length md = 8"
    and "length (pkt_data pkt) = unat (caplen pkt)" "unat (caplen pkt) + 13 \<le> pb_room pb"
  shows "\<exists>pb'. load_a_packet_to_the_packet_buffer pkt pb ip md = Some pb' \<and> pb_ok pb' \<and>
      pb_pending pb' = pb_pending pb @ ucast (len pkt + 12) # ip @ md @ pkt_data pkt \<and>
      pb_ready pb' = pb_ready pb \<and> pb_room pb' = pb_room pb - (unat (caplen pkt) + 13)"
  using assms by (rule load_a_packet_ok)

theorem load_appends_packet_witness:
  "\<exists>pb'. load_a_packet_to_the_packet_buffer example_packet (initialize_packet_buffer (example_pb 0))
      (replicate 4 1) (replicate 8 2) = Some pb' \<and>
      pb_pending pb' = 15 # replicate 4 1 @ replicate 8 2 @ [1, 2, 3]"
proof -
  have len: "length (packet_buffer_bytes (example_pb 0)) = 1000"
    by (simp add: example_pb_def frame_def)
  show ?thesis
    using load_appends_packet[OF pb_ok_initialize(1)[OF len],
        of "replicate 4 1" "replicate 8 2" example_packet] pb_ok_initialize[OF len]
    by (auto simp: example_packet_def)
qed

lemma stored_frame:
  assumes "length ip = 4" "length md = 8" "length (pkt_data pkt) = unat (caplen pkt)"
    and "caplen pkt = len pkt" "unat (len pkt) + 12 < 256"
  shows "ucast (len pkt + 12) # ip @ md @ pkt_data pkt = frame (ip @ md @ pkt_data pkt)"
proof -
  have "ucast (len pkt + 12) = (of_nat (unat (len pkt + 12)) :: byte)"
    by simp
  also have "unat (len pkt + 12) = unat (len pkt) + 12"
    using assms(5) by (simp add: unat_word_ariths)
  finally show ?thesis using assms(1-4) by (simp add: frame_def add.commute)
qed

text \<open>
  C16. Load, read ahead, read: a packet captured whole (\<open>caplen = len\<close>) whose stored form fits
  the length byte and the readers' arrays comes out of the buffer exactly as it went in.
\<close>

theorem load_read_roundtrip:
  assumes "pb_ok pb" "pb_stored pb = []" "length ip = 4" "length md = 8"
    and "length (pkt_data pkt) = unat (caplen pkt)" "caplen pkt = len pkt"
    and "unat (len pkt) + 12 < 256" "unat (len pkt) + 12 < length pk" "unat (len pkt) + 12 < length pk2"
    and "unat (caplen pkt) + 13 \<le> pb_room pb"
  defines "p \<equiv> ip @ md @ pkt_data pkt"
  shows "\<exists>pb1 pb2 pb3. load_a_packet_to_the_packet_buffer pkt pb ip md = Some pb1 \<and>
      read_a_packet_for_preprocessing pb1 pk = Some (blit pk 0 (frame p), pb2) \<and>
      read_a_packet pb2 pk2 = Some (blit pk2 0 (frame p), pb3) \<and>
      pb_ok pb3 \<and> pb_stored pb3 = []"
proof -
  have e: "pb_pending pb = []" "pb_ready pb = []"
    using assms(2) by (simp_all add: pb_pending_def pb_ready_def)
  from load_a_packet_ok[OF assms(1,3,4,5,10)] stored_frame[OF assms(3-7)] e
  obtain pb1 where pb1: "load_a_packet_to_the_packet_buffer pkt pb ip md = Some pb1" "pb_ok pb1"
    "pb_pending pb1 = frame p @ []" "pb_ready pb1 = []" by (auto simp: p_def)
  have len: "length p = unat (len pkt) + 12" using assms(3-6) by (simp add: p_def)
  from read_for_preprocessing_frame[OF pb1(2,3)] len assms(7,8) pb1(4)
  obtain pb2 where pb2:
    "read_a_packet_for_preprocessing pb1 pk = Some (blit pk 0 (frame p), pb2)" "pb_ok pb2"
    "pb_pending pb2 = []" "pb_ready pb2 = frame p @ []" by auto
  from read_a_packet_frame[OF pb2(2,4)] len assms(7,9) pb2(3)
  obtain pb3 where "read_a_packet pb2 pk2 = Some (blit pk2 0 (frame p), pb3)" "pb_ok pb3"
    "pb_ready pb3 = []" "pb_pending pb3 = []" by auto
  with pb1(1) pb2(1) show ?thesis by (auto simp: pb_stored_split)
qed

theorem load_read_roundtrip_witness:
  "\<exists>pb1 pb2 pb3. load_a_packet_to_the_packet_buffer example_packet
        (initialize_packet_buffer (example_pb 0)) (replicate 4 1) (replicate 8 2) = Some pb1 \<and>
      read_a_packet_for_preprocessing pb1 (replicate 100 0) =
        Some (blit (replicate 100 0) 0 (frame (replicate 4 1 @ replicate 8 2 @ [1, 2, 3])), pb2) \<and>
      read_a_packet pb2 (replicate 50 0) =
        Some (blit (replicate 50 0) 0 (frame (replicate 4 1 @ replicate 8 2 @ [1, 2, 3])), pb3)"
proof -
  have len: "length (packet_buffer_bytes (example_pb 0)) = 1000"
    by (simp add: example_pb_def frame_def)
  show ?thesis
    using load_read_roundtrip[OF pb_ok_initialize(1,2)[OF len],
        of "replicate 4 1" "replicate 8 2" example_packet "replicate 100 0" "replicate 50 0"]
      pb_ok_initialize(5)[OF len]
    by (auto simp: example_packet_def)
qed

text \<open>
  C34. A packet too long for its length byte is cut: of a packet of 244 bytes or more the
  reader that follows the load gets only the first \<open>(len + 12) mod 256\<close> bytes of the stored
  form, and the others stay in the buffer, where the next reader takes them for a packet.
\<close>

theorem long_packet_is_cut:
  assumes "pb_ok pb" "pb_stored pb = []" "length ip = 4" "length md = 8"
    and "length (pkt_data pkt) = unat (caplen pkt)" "caplen pkt = len pkt"
    and "244 \<le> unat (len pkt)" "256 \<le> length pk" "unat (caplen pkt) + 13 \<le> pb_room pb"
  defines "p \<equiv> ip @ md @ pkt_data pkt" and "m \<equiv> (unat (len pkt) + 12) mod 256"
  shows "\<exists>pb1 pb2. load_a_packet_to_the_packet_buffer pkt pb ip md = Some pb1 \<and>
      read_a_packet_for_preprocessing pb1 pk = Some (blit pk 0 (frame (take m p)), pb2) \<and>
      pb_pending pb2 = drop m p \<and> pb_pending pb2 \<noteq> []"
proof -
  have e: "pb_pending pb = []" "pb_ready pb = []"
    using assms(2) by (simp_all add: pb_pending_def pb_ready_def)
  have len: "length p = unat (len pkt) + 12" using assms(3-6) by (simp add: p_def)
  have m: "m < 256" "m < length p" using assms(7) len by (auto simp: m_def)
  have small: "unat (len pkt) + 12 < 2 ^ 32" using assms(6,9) by (simp add: pb_room_def)
  have "ucast (len pkt + 12) = (of_nat (unat (len pkt + 12)) :: byte)" by simp
  also have "unat (len pkt + 12) = unat (len pkt) + 12"
    using small by (simp add: unat_word_ariths)
  also have "of_nat (unat (len pkt) + 12) = (of_nat m :: byte)"
    by (simp only: m_def word_of_nat_eq_iff take_bit_eq_mod) simp
  finally have "ucast (len pkt + 12) # p = frame (take m p) @ drop m p"
    using m(2) by (simp add: frame_def min_def)
  with load_a_packet_ok[OF assms(1,3,4,5,9)] e obtain pb1 where
    pb1: "load_a_packet_to_the_packet_buffer pkt pb ip md = Some pb1" "pb_ok pb1"
    "pb_pending pb1 = frame (take m p) @ drop m p" by (auto simp: p_def)
  from read_for_preprocessing_frame[OF pb1(2,3), of pk] m assms(8) pb1(1) show ?thesis by auto
qed

definition example_long_packet :: packet where
  "example_long_packet = \<lparr>caplen = 244, len = 244, pkt_data = replicate 244 6\<rparr>"

theorem long_packet_is_cut_witness:
  "\<exists>pb1 pb2. load_a_packet_to_the_packet_buffer example_long_packet
        (initialize_packet_buffer (example_pb 0)) (replicate 4 1) (replicate 8 2) = Some pb1 \<and>
      read_a_packet_for_preprocessing pb1 (replicate 256 0) =
        Some (blit (replicate 256 0) 0 (frame []), pb2) \<and>
      pb_pending pb2 = replicate 4 1 @ replicate 8 2 @ replicate 244 6"
proof -
  have len: "length (packet_buffer_bytes (example_pb 0)) = 1000"
    by (simp add: example_pb_def frame_def)
  show ?thesis
    using long_packet_is_cut[OF pb_ok_initialize(1,2)[OF len],
        of "replicate 4 1" "replicate 8 2" example_long_packet "replicate 256 0"]
      pb_ok_initialize(5)[OF len]
    by (auto simp: example_long_packet_def)
qed

lemma load_next_ok:
  assumes "\<And>k. k < n \<Longrightarrow> \<exists>q. next (fp k) = (0, q, fp (Suc k))"
    and "next (fp n) = (res, pkt, fp')" "res \<noteq> 0" "n < fuel"
  shows "load_next_packet_to_the_buffer fuel next (fp 0) pb ip md =
     (if 0 < res then map_option (\<lambda>pb'. (pb', fp')) (load_a_packet_to_the_packet_buffer pkt pb ip md)
      else Some (pb, fp'))"
  using assms
proof (induction fuel arbitrary: n fp)
  case (Suc fuel)
  show ?case
  proof (cases n)
    case 0
    then show ?thesis
      using Suc.prems(2,3)
      by (cases "load_a_packet_to_the_packet_buffer pkt pb ip md") (auto simp: Let_def)
  next
    case (Suc m)
    obtain q where "next (fp 0) = (0, q, fp (Suc 0))" using Suc.prems(1)[of 0] Suc by auto
    then show ?thesis
      using Suc.IH[of m "\<lambda>k. fp (Suc k)"] Suc.prems Suc by (simp add: Let_def)
  qed
qed simp

text \<open>
  C35. Waiting for the next packet ends as soon as the capture has one: if the capture
  answers 0 a number of times and then a code other than 0, any fuel above that number
  is enough, and the result is the load of that packet (or, for a negative code, the buffer
  as it was).
\<close>

theorem load_next_packet_returns:
  assumes "\<And>k. k < n \<Longrightarrow> \<exists>q. next (fp k) = (0, q, fp (Suc k))"
    and "next (fp n) = (res, pkt, fp')" "res \<noteq> 0" "n < fuel"
  shows "load_next_packet_to_the_buffer fuel next (fp 0) pb ip md =
     (if 0 < res then map_option (\<lambda>pb'. (pb', fp')) (load_a_packet_to_the_packet_buffer pkt pb ip md)
      else Some (pb, fp'))"
  using assms by (rule load_next_ok)

text \<open>For the witness: a capture that times out twice and then ends.\<close>

definition example_capture :: "nat \<Rightarrow> int \<times> packet \<times> nat" where
  "example_capture k = (if k < 2 then (0, example_packet, Suc k) else (-2, example_packet, k))"

theorem load_next_packet_returns_witness:
  "load_next_packet_to_the_buffer 3 example_capture 0 (example_pb 0) [] [] = Some (example_pb 0, 2)"
  using load_next_packet_returns[of 2 example_capture "\<lambda>k. k" "-2" example_packet 2 3
      "example_pb 0" "[]" "[]"]
  by (simp add: example_capture_def)

end
