(* ===== verification/Match_Field_Buffer.thy ===== *)
theory Match_Field_Buffer
  imports Byte_Queues
begin

text \<open>
  \<^verbatim>\<open>packet-buffer/match_field_buffer.h\<close>: the queue of extracted match fields, 45 bytes each. The array
  has 900 bytes, the positions wrap at 1000: the model keeps both numbers, so the hundred
  positions past the end of the array are undefined accesses.
\<close>

section \<open>State\<close>

definition MTCH_FLD_LEN :: nat where
  "MTCH_FLD_LEN = 45"

definition NO_OF_MATCH_FIELDS_IN_THE_BUFFER :: nat where
  "NO_OF_MATCH_FIELDS_IN_THE_BUFFER = 20"

definition match_field_buffer_LEN :: int where
  "match_field_buffer_LEN = 1000"

record match_field_buffer =
  match_field_buffer_array :: "byte list"
  match_field_buffer_head :: int
  match_field_buffer_tail :: int
  mfb_full_flag :: int
  mfb_empty_flag :: int

definition initialize_match_field_buffer :: "match_field_buffer \<Rightarrow> match_field_buffer" where
  "initialize_match_field_buffer mfb = mfb\<lparr>
     match_field_buffer_head := 0,
     match_field_buffer_tail := 0,
     mfb_full_flag := 0,
     mfb_empty_flag := 1\<rparr>"

section \<open>Operations\<close>

definition add_a_byte_to_the_match_field_buffer ::
  "match_field_buffer \<Rightarrow> byte \<Rightarrow> match_field_buffer option" where
  "add_a_byte_to_the_match_field_buffer mfb b =
     (if mfb_full_flag mfb = 1 then Some mfb
      else do {
        arr \<leftarrow> cput (match_field_buffer_array mfb) (match_field_buffer_tail mfb) b;
        let mfb = mfb\<lparr>match_field_buffer_array := arr, mfb_empty_flag := 0\<rparr>;
        let mfb = (if match_field_buffer_tail mfb = match_field_buffer_LEN - 1
                   then mfb\<lparr>match_field_buffer_tail := 0\<rparr>
                   else mfb\<lparr>match_field_buffer_tail := match_field_buffer_tail mfb + 1\<rparr>);
        Some (if match_field_buffer_tail mfb = match_field_buffer_head mfb
              then mfb\<lparr>mfb_full_flag := 1\<rparr> else mfb)
      })"

definition dqueue_from_match_field_buffer ::
  "match_field_buffer \<Rightarrow> (byte \<times> match_field_buffer) option" where
  "dqueue_from_match_field_buffer mfb =
     (if mfb_empty_flag mfb = 1 then Some (0, mfb)
      else do {
        data \<leftarrow> cget (match_field_buffer_array mfb) (match_field_buffer_head mfb);
        let mfb = mfb\<lparr>mfb_empty_flag := 0\<rparr>;
        let mfb = (if match_field_buffer_head mfb = match_field_buffer_LEN - 1
                   then mfb\<lparr>match_field_buffer_head := 0\<rparr>
                   else mfb\<lparr>match_field_buffer_head := match_field_buffer_head mfb + 1\<rparr>);
        let mfb = (if match_field_buffer_tail mfb = match_field_buffer_head mfb
                   then mfb\<lparr>mfb_empty_flag := 1\<rparr> else mfb);
        Some (data, mfb)
      })"

definition read_a_match_field ::
  "match_field_buffer \<Rightarrow> byte list \<Rightarrow> (byte list \<times> match_field_buffer) option" where
  "read_a_match_field mfb mf =
     (if mfb_empty_flag mfb = 1 then Some (mf, mfb)
      else drain_into dqueue_from_match_field_buffer 0 MTCH_FLD_LEN (mf, mfb))"

section \<open>The abstract queue\<close>

definition mfb_ok :: "match_field_buffer \<Rightarrow> bool" where
  "mfb_ok m \<longleftrightarrow> length (match_field_buffer_array m) = 900
     \<and> 0 \<le> match_field_buffer_head m
     \<and> match_field_buffer_head m \<le> match_field_buffer_tail m
     \<and> match_field_buffer_tail m \<le> 900
     \<and> (mfb_empty_flag m = 1 \<longleftrightarrow> match_field_buffer_head m = match_field_buffer_tail m)
     \<and> mfb_full_flag m \<noteq> 1"

definition mfb_contents :: "match_field_buffer \<Rightarrow> byte list" where
  "mfb_contents m = slice (nat (match_field_buffer_head m))
     (nat (match_field_buffer_tail m) - nat (match_field_buffer_head m))
     (match_field_buffer_array m)"

definition mfb_room :: "match_field_buffer \<Rightarrow> nat" where
  "mfb_room m = 900 - nat (match_field_buffer_tail m)"

lemma mfb_ok_initialize:
  assumes "length (match_field_buffer_array m) = 900"
  shows "mfb_ok (initialize_match_field_buffer m)"
    "mfb_contents (initialize_match_field_buffer m) = []"
    "mfb_room (initialize_match_field_buffer m) = 900"
  using assms
  by (simp_all add: mfb_ok_def initialize_match_field_buffer_def mfb_contents_def slice_def
      mfb_room_def)

lemma length_mfb_contents:
  "mfb_ok m \<Longrightarrow> length (mfb_contents m) =
     nat (match_field_buffer_tail m) - nat (match_field_buffer_head m)"
  by (auto simp: mfb_ok_def mfb_contents_def length_slice)

lemma slice_snoc:
  "h \<le> t \<Longrightarrow> t < length xs \<Longrightarrow> slice h (Suc t - h) (xs[t := b]) = slice h (t - h) xs @ [b]"
  by (rule nth_equalityI) (auto simp: length_slice nth_slice nth_append nth_list_update)

lemma slice_tl: "h < t \<Longrightarrow> t \<le> length xs \<Longrightarrow> slice h (t - h) xs = xs ! h # slice (Suc h) (t - Suc h) xs"
  by (simp add: slice_def Cons_nth_drop_Suc[symmetric] take_Cons' split: nat_diff_split)

lemma mfb_add_ok:
  assumes "mfb_ok m" "0 < mfb_room m"
  shows "\<exists>m'. add_a_byte_to_the_match_field_buffer m b = Some m' \<and> mfb_ok m' \<and>
      mfb_contents m' = mfb_contents m @ [b] \<and> mfb_room m' = mfb_room m - 1"
proof -
  obtain h t where ht: "match_field_buffer_head m = int h" "match_field_buffer_tail m = int t"
    using assms(1) by (metis mfb_ok_def nonneg_int_cases order_trans)
  let ?m' = "m\<lparr>match_field_buffer_array := (match_field_buffer_array m)[t := b],
       mfb_empty_flag := 0, match_field_buffer_tail := int t + 1\<rparr>"
  have "add_a_byte_to_the_match_field_buffer m b = Some ?m'"
    using assms ht
    by (auto simp: add_a_byte_to_the_match_field_buffer_def mfb_ok_def mfb_room_def cput_in
        match_field_buffer_LEN_def Let_def)
  moreover have "mfb_ok ?m'" "mfb_room ?m' = mfb_room m - 1"
    using assms ht by (auto simp: mfb_ok_def mfb_room_def)
  moreover have "mfb_contents ?m' = mfb_contents m @ [b]"
    using assms ht slice_snoc[of h t "match_field_buffer_array m" b]
    by (auto simp: mfb_contents_def mfb_ok_def mfb_room_def nat_add_distrib)
  ultimately show ?thesis by blast
qed

lemma mfb_dqueue_ok:
  assumes "mfb_ok m" "mfb_contents m = b # bs"
  shows "\<exists>m'. dqueue_from_match_field_buffer m = Some (b, m') \<and> mfb_ok m' \<and>
      mfb_contents m' = bs \<and> mfb_room m' = mfb_room m"
proof -
  obtain h t where ht: "match_field_buffer_head m = int h" "match_field_buffer_tail m = int t"
    using assms(1) by (metis mfb_ok_def nonneg_int_cases order_trans)
  have lt: "h < t" using length_mfb_contents[OF assms(1)] assms(2) ht by simp
  let ?m' = "m\<lparr>mfb_empty_flag := (if int t = int h + 1 then 1 else 0),
       match_field_buffer_head := int h + 1\<rparr>"
  have sl: "mfb_contents m = match_field_buffer_array m ! h #
      slice (Suc h) (t - Suc h) (match_field_buffer_array m)"
    using slice_tl[OF lt, of "match_field_buffer_array m"] assms(1) ht
    by (simp add: mfb_contents_def mfb_ok_def)
  have "dqueue_from_match_field_buffer m = Some (b, ?m')"
    using assms ht lt sl
    by (auto simp: dqueue_from_match_field_buffer_def mfb_ok_def cget_in
        match_field_buffer_LEN_def Let_def)
  moreover have "mfb_ok ?m'" "mfb_room ?m' = mfb_room m"
    using assms ht lt by (auto simp: mfb_ok_def mfb_room_def)
  moreover have "mfb_contents ?m' = bs"
    using assms(2) sl ht by (simp add: mfb_contents_def nat_add_distrib)
  ultimately show ?thesis by blast
qed

interpretation mf: byte_queue
  add_a_byte_to_the_match_field_buffer dqueue_from_match_field_buffer
  mfb_contents mfb_room mfb_ok
  by unfold_locales (use mfb_add_ok mfb_dqueue_ok in blast)+

text \<open>The reader's instance carries the room along: taking bytes out frees none.\<close>

interpretation mf_take: byte_source
  dqueue_from_match_field_buffer mfb_contents "\<lambda>m. mfb_ok m \<and> mfb_room m = R" for R
  by unfold_locales (use mfb_dqueue_ok in blast)

section \<open>Match fields\<close>

lemma read_a_match_field_ok:
  assumes "mfb_ok m" "mfb_contents m = f @ rest" "length f = 45" "45 \<le> length mf"
  shows "\<exists>m'. read_a_match_field m mf = Some (blit mf 0 f, m') \<and> mfb_ok m' \<and>
      mfb_contents m' = rest \<and> mfb_room m' = mfb_room m"
proof -
  have "mfb_empty_flag m \<noteq> 1"
    using assms length_mfb_contents[OF assms(1)] by (auto simp: mfb_ok_def)
  moreover have "\<exists>m'. drain_into dqueue_from_match_field_buffer (int 0) 45 (mf, m)
      = Some (blit mf 0 (take 45 (mfb_contents m)), m')
      \<and> (mfb_ok m' \<and> mfb_room m' = mfb_room m) \<and> mfb_contents m' = drop 45 (mfb_contents m)"
    using assms by (intro mf_take.drain_into_ok) auto
  ultimately show ?thesis
    using assms(2,3) by (auto simp: read_a_match_field_def MTCH_FLD_LEN_def)
qed

text \<open>
  C33. The reader gets the oldest match field: with at least one whole field in the buffer,
  \<open>read_a_match_field\<close> writes its 45 bytes to the caller's array and takes exactly those off.
\<close>

theorem read_a_match_field_oldest:
  assumes "mfb_ok m" "mfb_contents m = f @ rest" "length f = 45" "45 \<le> length mf"
  shows "\<exists>m'. read_a_match_field m mf = Some (blit mf 0 f, m') \<and> mfb_ok m' \<and>
      mfb_contents m' = rest \<and> mfb_room m' = mfb_room m"
  using assms by (rule read_a_match_field_ok)

definition example_mfb :: "match_field_buffer" where
  "example_mfb = \<lparr>match_field_buffer_array = replicate 900 3, match_field_buffer_head = 0,
     match_field_buffer_tail = 45, mfb_full_flag = 0, mfb_empty_flag = 0\<rparr>"

lemma example_mfb_facts:
  "mfb_ok example_mfb" "mfb_contents example_mfb = replicate 45 3"
  "mfb_ok (initialize_match_field_buffer example_mfb)"
  "mfb_contents (initialize_match_field_buffer example_mfb) = []"
  "mfb_room (initialize_match_field_buffer example_mfb) = 900"
  by (simp_all add: example_mfb_def mfb_ok_def mfb_contents_def slice_def mfb_ok_initialize
      initialize_match_field_buffer_def mfb_room_def)

theorem read_a_match_field_oldest_witness:
  "\<exists>m'. read_a_match_field example_mfb (replicate 45 0) =
      Some (blit (replicate 45 0) 0 (replicate 45 3), m') \<and> mfb_contents m' = []"
  using read_a_match_field_oldest[of example_mfb "replicate 45 3" "[]" "replicate 45 0"]
  by (auto simp: example_mfb_facts)

section \<open>The life of a buffer\<close>

datatype mfb_event = MfbAdd byte | MfbTake byte

inductive mfb_run :: "match_field_buffer \<Rightarrow> mfb_event list \<Rightarrow> match_field_buffer \<Rightarrow> bool" where
  mfb_nil: "mfb_run m [] m"
| mfb_add: "mfb_run m es m' \<Longrightarrow> add_a_byte_to_the_match_field_buffer m' b = Some m'' \<Longrightarrow>
     mfb_run m (es @ [MfbAdd b]) m''"
| mfb_take: "mfb_run m es m' \<Longrightarrow> dqueue_from_match_field_buffer m' = Some (b, m'') \<Longrightarrow>
     mfb_run m (es @ [MfbTake b]) m''"

fun is_add :: "mfb_event \<Rightarrow> bool" where
  "is_add (MfbAdd b) = True"
| "is_add (MfbTake b) = False"

definition n_adds :: "mfb_event list \<Rightarrow> nat" where
  "n_adds es = length (filter is_add es)"

lemma mfb_add_full:
  "mfb_ok m \<Longrightarrow> mfb_room m = 0 \<Longrightarrow> add_a_byte_to_the_match_field_buffer m b = None"
  by (auto simp: add_a_byte_to_the_match_field_buffer_def mfb_ok_def mfb_room_def cput_def)

lemma mfb_take_cases:
  assumes "mfb_ok m" "dqueue_from_match_field_buffer m = Some (b, m')"
  shows "mfb_ok m' \<and> mfb_room m' = mfb_room m"
proof (cases "mfb_contents m")
  case Nil
  then have "mfb_empty_flag m = 1"
    using length_mfb_contents[OF assms(1)] assms(1) by (auto simp: mfb_ok_def)
  with assms show ?thesis by (simp add: dqueue_from_match_field_buffer_def)
next
  case (Cons c cs)
  with mfb_dqueue_ok[OF assms(1) Cons] assms(2) show ?thesis by auto
qed

lemma mfb_run_room:
  "mfb_run m0 es m \<Longrightarrow> mfb_ok m0 \<Longrightarrow> mfb_ok m \<and> n_adds es + mfb_room m = mfb_room m0"
proof (induction rule: mfb_run.induct)
  case (mfb_add m es m' b m'')
  then have ok: "mfb_ok m'" and r: "n_adds es + mfb_room m' = mfb_room m" by auto
  have "0 < mfb_room m'"
    using mfb_add_full[OF ok] mfb_add.hyps(2) by (metis gr0I option.distinct(1))
  then show ?case using mfb_add_ok[OF ok, of b] mfb_add.hyps(2) r by (auto simp: n_adds_def)
next
  case (mfb_take m es m' b m'')
  then show ?case using mfb_take_cases[of m' b m''] by (auto simp: n_adds_def)
qed (simp add: n_adds_def)

text \<open>
  A match-field buffer serves exactly twenty match fields in its life, however many
  are read out in between: in every state reached from an initialised buffer at most 900
  bytes were added, the next add is defined while fewer than 900 were, and the one after
  those writes outside the array.
\<close>

theorem match_field_buffer_lifetime:
  assumes "length (match_field_buffer_array m0) = MTCH_FLD_LEN * NO_OF_MATCH_FIELDS_IN_THE_BUFFER"
    and "mfb_run (initialize_match_field_buffer m0) es m"
  shows "n_adds es \<le> 900 \<and>
    (add_a_byte_to_the_match_field_buffer m b = None \<longleftrightarrow> n_adds es = 900)"
proof -
  have len: "length (match_field_buffer_array m0) = 900"
    using assms(1) by (simp add: MTCH_FLD_LEN_def NO_OF_MATCH_FIELDS_IN_THE_BUFFER_def)
  note init = mfb_ok_initialize[OF len]
  from mfb_run_room[OF assms(2) init(1)] init(3)
  have ok: "mfb_ok m" and room: "n_adds es + mfb_room m = 900" by auto
  show ?thesis
  proof (cases "mfb_room m = 0")
    case True
    then show ?thesis using mfb_add_full[OF ok] room by simp
  next
    case False
    then show ?thesis using mfb_add_ok[OF ok, of b] room by auto
  qed
qed

theorem match_field_buffer_lifetime_witness:
  "n_adds [MfbTake 0] \<le> 900 \<and>
    add_a_byte_to_the_match_field_buffer (initialize_match_field_buffer example_mfb) 1 \<noteq> None"
proof -
  let ?i = "initialize_match_field_buffer example_mfb"
  have "mfb_run ?i ([] @ [MfbTake 0]) ?i"
    by (rule mfb_take[OF mfb_nil])
       (simp add: dqueue_from_match_field_buffer_def initialize_match_field_buffer_def)
  moreover have "length (match_field_buffer_array example_mfb) =
      MTCH_FLD_LEN * NO_OF_MATCH_FIELDS_IN_THE_BUFFER"
    by (simp add: example_mfb_def MTCH_FLD_LEN_def NO_OF_MATCH_FIELDS_IN_THE_BUFFER_def)
  ultimately show ?thesis
    using match_field_buffer_lifetime[of example_mfb "[MfbTake 0]" ?i 1]
    by (simp add: n_adds_def)
qed

end
