(* ===== verification/Pre_Processing.thy ===== *)
theory Pre_Processing
  imports Bit_Operations_C Packet_Capture Match_Field_Buffer
begin

unbundle bit_operations_syntax

text \<open>
  \<^verbatim>\<open>pre-composer/pre_processing.h\<close>: the pre-processor takes a packet out of the packet buffer, cuts the
  header fields out of it and puts them, bit by bit, into a match field of 45 bytes that goes
  to the match-field buffer.
\<close>

section \<open>State and constants\<close>

record pre_processor =
  pp_pb :: packet_buffer
  pp_mf :: match_field_buffer

text \<open>The enumeration \<open>packet_header_lengths\<close>: lengths in bits.\<close>

definition ingress_port :: int where "ingress_port = 32"
definition metadata :: int where "metadata = 64"
definition mac_src :: int where "mac_src = 48"
definition mac_dst :: int where "mac_dst = 48"
definition eth_typ :: int where "eth_typ = 16"
definition vlan_id :: int where "vlan_id = 12"
definition vlan_priority :: int where "vlan_priority = 3"
definition mpls_label :: int where "mpls_label = 20"
definition mpls_traffic_cls :: int where "mpls_traffic_cls = 3"
definition ipv4_src :: int where "ipv4_src = 32"
definition ipv4_dst :: int where "ipv4_dst = 32"
definition ipv4_protocol :: int where "ipv4_protocol = 8"
definition ipv4_tos :: int where "ipv4_tos = 6"
definition tcp_src :: int where "tcp_src = 16"
definition tcp_dst :: int where "tcp_dst = 16"

definition pkt_headers :: "int list" where
  "pkt_headers = [ingress_port, metadata, mac_src, mac_dst, eth_typ, vlan_id, vlan_priority,
     mpls_label, mpls_traffic_cls, ipv4_src, ipv4_dst, ipv4_protocol, ipv4_tos, tcp_src, tcp_dst]"

lemmas header_lengths = ingress_port_def metadata_def mac_src_def mac_dst_def eth_typ_def
  vlan_id_def vlan_priority_def mpls_label_def mpls_traffic_cls_def ipv4_src_def ipv4_dst_def
  ipv4_protocol_def ipv4_tos_def tcp_src_def tcp_dst_def

definition initialize_preprocessor :: "pre_processor \<Rightarrow> pre_processor" where
  "initialize_preprocessor pp = pp\<lparr>
     pp_pb := initialize_packet_buffer (pp_pb pp),
     pp_mf := initialize_match_field_buffer (pp_mf pp)\<rparr>"

definition load_next_packet_to_the_packet_buffer ::
  "nat \<Rightarrow> ('fp \<Rightarrow> int \<times> packet \<times> 'fp) \<Rightarrow> 'fp \<Rightarrow> pre_processor \<Rightarrow> byte list \<Rightarrow> byte list \<Rightarrow>
   (pre_processor \<times> 'fp) option" where
  "load_next_packet_to_the_packet_buffer fuel next fp pp ip md = do {
     (pb, fp') \<leftarrow> load_next_packet_to_the_buffer fuel next fp (pp_pb pp) ip md;
     Some (pp\<lparr>pp_pb := pb\<rparr>, fp') }"

section \<open>Bits\<close>

text \<open>The header has its own copy of the three bit operations.\<close>

definition pp_set_bit :: "byte list \<Rightarrow> int \<Rightarrow> byte list option" where
  "pp_set_bit arr pos = do {
     let byte_pos = pos sdiv 8;
     let bit_pos = (word_of_int (7 - pos smod 8) :: byte);
     let flag = push_bit (unat bit_pos) (1 :: byte);
     b \<leftarrow> cget arr byte_pos;
     cput arr byte_pos (b OR flag)
   }"

definition pp_reset_bit :: "byte list \<Rightarrow> int \<Rightarrow> byte list option" where
  "pp_reset_bit arr pos = do {
     let byte_pos = pos sdiv 8;
     let bit_pos = (word_of_int (7 - pos smod 8) :: byte);
     let flag = NOT (push_bit (unat bit_pos) (1 :: byte));
     b \<leftarrow> cget arr byte_pos;
     cput arr byte_pos (b AND flag)
   }"

definition pp_read_bit :: "byte list \<Rightarrow> int \<Rightarrow> byte option" where
  "pp_read_bit arr pos = do {
     let byte_pos = pos sdiv 8;
     let bit_pos = (word_of_int (7 - pos smod 8) :: byte);
     let flag = push_bit (unat bit_pos) (1 :: byte);
     b \<leftarrow> cget arr byte_pos;
     Some (if flag AND b \<noteq> 0 then 1 else 0)
   }"

lemma pp_bit_operations [simp]:
  "pp_set_bit = set_bit_c" "pp_reset_bit = reset_bit" "pp_read_bit = read_bit"
  by (simp_all add: fun_eq_iff pp_set_bit_def set_bit_c_def pp_reset_bit_def reset_bit_def
      pp_read_bit_def read_bit_def bit_flag_def Let_def)

definition set_match_field_bits ::
  "byte list \<Rightarrow> byte list \<Rightarrow> int \<Rightarrow> int \<Rightarrow> int \<Rightarrow> byte list option" where
  "set_match_field_bits pkt match_field start_pkt start_mf n =
     c_for (nat n) (\<lambda>i match_field. do {
       b \<leftarrow> pp_read_bit pkt (start_pkt + int i);
       if b = 1 then pp_set_bit match_field (start_mf + int i)
       else pp_reset_bit match_field (start_mf + int i) }) match_field"

definition set_match_field_bits_as_zeros :: "byte list \<Rightarrow> int \<Rightarrow> int \<Rightarrow> byte list option" where
  "set_match_field_bits_as_zeros match_field start_mf n =
     c_for (nat n) (\<lambda>i match_field. pp_set_bit match_field (start_mf + int i)) match_field"

definition set_match_field_bits_as_ones :: "byte list \<Rightarrow> int \<Rightarrow> int \<Rightarrow> byte list option" where
  "set_match_field_bits_as_ones match_field start_mf n =
     c_for (nat n) (\<lambda>i match_field. pp_reset_bit match_field (start_mf + int i)) match_field"

section \<open>Cutting out the fields\<close>

text \<open>
  The body of \<open>prepare_match_field\<close> between the reading of the packet and the writing of
  the match field, with the three running variables of the code: the position in the packet, the
  position in the match field and the number of bits last inserted.
\<close>

text \<open>Ingress port and metadata, the two MAC addresses and the Ethernet type.\<close>

definition cut_ethernet ::
  "byte list \<Rightarrow> byte list \<Rightarrow> (byte list \<times> int \<times> int \<times> int) option" where
  "cut_ethernet pkt match_field = do {
     let mf_length = 0; let pkt_length = 8;
     let no_of_bits_inserting = ingress_port + metadata;
     match_field \<leftarrow> set_match_field_bits pkt match_field pkt_length mf_length no_of_bits_inserting;
     let pkt_length = pkt_length + no_of_bits_inserting;
     let mf_length = mf_length + no_of_bits_inserting + mac_src;
     let no_of_bits_inserting = mac_dst;
     match_field \<leftarrow> set_match_field_bits pkt match_field pkt_length mf_length no_of_bits_inserting;
     let pkt_length = pkt_length + no_of_bits_inserting;
     let mf_length = mf_length - mac_src;
     let no_of_bits_inserting = mac_src;
     match_field \<leftarrow> set_match_field_bits pkt match_field pkt_length mf_length no_of_bits_inserting;
     let pkt_length = pkt_length + no_of_bits_inserting;
     let mf_length = mf_length + mac_src + mac_dst;
     let no_of_bits_inserting = eth_typ;
     match_field \<leftarrow> set_match_field_bits pkt match_field pkt_length mf_length no_of_bits_inserting;
     Some (match_field, pkt_length, mf_length, no_of_bits_inserting)
   }"

text \<open>The tags: none (IPv4), VLAN or MPLS, told apart by bytes 25 and 26.\<close>

definition cut_tags ::
  "byte list \<Rightarrow> byte list \<times> int \<times> int \<times> int \<Rightarrow> (byte list \<times> int \<times> int \<times> int) option" where
  "cut_tags pkt = (\<lambda>(match_field, pkt_length, mf_length, no_of_bits_inserting). do {
     b25 \<leftarrow> cget pkt 25;
     b26 \<leftarrow> cget pkt 26;
     (match_field, pkt_length, mf_length, no_of_bits_inserting, additional_tag_length) \<leftarrow>
     (if b25 = 8 \<and> b26 = 0 then do {
        let mf_length = mf_length + no_of_bits_inserting;
        let no_of_bits_inserting = vlan_id + vlan_priority + mpls_label + mpls_traffic_cls;
        match_field \<leftarrow> set_match_field_bits_as_zeros match_field mf_length no_of_bits_inserting;
        Some (match_field, pkt_length, mf_length, no_of_bits_inserting, 0) }
      else if b25 = 129 \<and> b26 = 0 then do {
        let pkt_length = pkt_length + no_of_bits_inserting + 16;
        let mf_length = mf_length + no_of_bits_inserting + vlan_id;
        let no_of_bits_inserting = vlan_priority;
        match_field \<leftarrow> set_match_field_bits pkt match_field pkt_length mf_length no_of_bits_inserting;
        let pkt_length = pkt_length + no_of_bits_inserting + 1;
        let mf_length = mf_length - vlan_id;
        let no_of_bits_inserting = vlan_id;
        match_field \<leftarrow> set_match_field_bits pkt match_field pkt_length mf_length no_of_bits_inserting;
        let mf_length = mf_length + no_of_bits_inserting + vlan_priority;
        let no_of_bits_inserting = mpls_label + mpls_traffic_cls;
        match_field \<leftarrow> set_match_field_bits_as_zeros match_field mf_length no_of_bits_inserting;
        Some (match_field, pkt_length, mf_length, no_of_bits_inserting, 0) }
      else if b25 = 136 \<and> b26 = 71 then do {
        let mf_length = mf_length + no_of_bits_inserting;
        let no_of_bits_inserting = vlan_id + vlan_priority;
        match_field \<leftarrow> set_match_field_bits_as_zeros match_field mf_length no_of_bits_inserting;
        let mf_length = mf_length + no_of_bits_inserting;
        let pkt_length = pkt_length + no_of_bits_inserting;
        let no_of_bits_inserting = mpls_label + mpls_traffic_cls;
        match_field \<leftarrow> set_match_field_bits pkt match_field pkt_length mf_length no_of_bits_inserting;
        Some (match_field, pkt_length, mf_length, no_of_bits_inserting, 9) }
      else Some (match_field, pkt_length, mf_length, no_of_bits_inserting, 0));
     Some (match_field, pkt_length + additional_tag_length, mf_length, no_of_bits_inserting) })"

text \<open>The IPv4 and TCP fields, taken from every packet whatever its type.\<close>

definition cut_ip_tcp :: "byte list \<Rightarrow> byte list \<times> int \<times> int \<times> int \<Rightarrow> byte list option" where
  "cut_ip_tcp pkt = (\<lambda>(match_field, pkt_length, mf_length, no_of_bits_inserting). do {
     let pkt_length = pkt_length + no_of_bits_inserting + 8;
     let mf_length = mf_length + no_of_bits_inserting + ipv4_src + ipv4_dst + ipv4_protocol;
     let no_of_bits_inserting = ipv4_tos;
     match_field \<leftarrow> set_match_field_bits pkt match_field pkt_length mf_length no_of_bits_inserting;
     let pkt_length = pkt_length + no_of_bits_inserting + 56;
     let mf_length = mf_length - ipv4_protocol;
     let no_of_bits_inserting = ipv4_protocol;
     match_field \<leftarrow> set_match_field_bits pkt match_field pkt_length mf_length no_of_bits_inserting;
     let pkt_length = pkt_length + no_of_bits_inserting + 16;
     let mf_length = mf_length - ipv4_src - ipv4_dst;
     let no_of_bits_inserting = ipv4_src;
     match_field \<leftarrow> set_match_field_bits pkt match_field pkt_length mf_length no_of_bits_inserting;
     let pkt_length = pkt_length + no_of_bits_inserting;
     let mf_length = mf_length + no_of_bits_inserting;
     let no_of_bits_inserting = ipv4_dst;
     match_field \<leftarrow> set_match_field_bits pkt match_field pkt_length mf_length no_of_bits_inserting;
     let pkt_length = pkt_length + no_of_bits_inserting;
     let mf_length = mf_length + no_of_bits_inserting + ipv4_protocol + ipv4_tos;
     let no_of_bits_inserting = tcp_src;
     match_field \<leftarrow> set_match_field_bits pkt match_field pkt_length mf_length no_of_bits_inserting;
     let pkt_length = pkt_length + no_of_bits_inserting;
     let mf_length = mf_length + no_of_bits_inserting;
     let no_of_bits_inserting = tcp_dst;
     set_match_field_bits pkt match_field pkt_length mf_length no_of_bits_inserting })"

text \<open>
  The two arrays come from \<open>malloc\<close>: \<open>heap_mf\<close> and \<open>heap_pkt\<close> are what they hold before
  the first write.
\<close>

definition prepare_match_field ::
  "(nat \<Rightarrow> byte) \<Rightarrow> (nat \<Rightarrow> byte) \<Rightarrow> pre_processor \<Rightarrow> pre_processor option" where
  "prepare_match_field heap_mf heap_pkt pp = do {
     let match_field = map heap_mf [0..<MTCH_FLD_LEN];
     let pkt = map heap_pkt [0..<MAX_PACKET_SIZE];
     (pkt, pb) \<leftarrow> read_a_packet_for_preprocessing (pp_pb pp) pkt;
     st \<leftarrow> cut_ethernet pkt match_field;
     st \<leftarrow> cut_tags pkt st;
     match_field \<leftarrow> cut_ip_tcp pkt st;
     mfb \<leftarrow> c_for 45 (\<lambda>i mfb. do {
       b \<leftarrow> cget match_field (int i); add_a_byte_to_the_match_field_buffer mfb b }) (pp_mf pp);
     Some (pp\<lparr>pp_pb := pb, pp_mf := mfb\<rparr>)
   }"

definition return_match_field_and_packet ::
  "pre_processor \<Rightarrow> byte list \<Rightarrow> byte list \<Rightarrow> (byte list \<times> byte list \<times> pre_processor) option" where
  "return_match_field_and_packet pp return_mtch_fld return_packet = do {
     (return_mtch_fld, mf) \<leftarrow> read_a_match_field (pp_mf pp) return_mtch_fld;
     (return_packet, pb) \<leftarrow> read_a_packet (pp_pb pp) return_packet;
     Some (return_mtch_fld, return_packet, pp\<lparr>pp_pb := pb, pp_mf := mf\<rparr>)
   }"

section \<open>The copying plan\<close>

text \<open>
  A reference for the running variables: a plan is the list of the copies a packet gets, in
  order. \<open>(d, n, Some p)\<close> copies \<open>n\<close> bits from bit \<open>p\<close> of the packet to bit \<open>d\<close> of the
  match field, \<open>(d, n, None)\<close> sets \<open>n\<close> bits to one.
\<close>

type_synonym plan = "(nat \<times> nat \<times> nat option) list"

definition plan_bits :: "byte list \<Rightarrow> nat option \<Rightarrow> nat \<Rightarrow> bool" where
  "plan_bits pkt src k = (case src of None \<Rightarrow> True | Some p \<Rightarrow> abit pkt (p + k))"

fun apply_plan :: "byte list \<Rightarrow> plan \<Rightarrow> byte list \<Rightarrow> byte list" where
  "apply_plan pkt [] mf = mf"
| "apply_plan pkt ((d, n, src) # pl) mf = apply_plan pkt pl (put_bits d n (plan_bits pkt src) mf)"

definition plan_ethernet :: plan where
  "plan_ethernet = [(0, 96, Some 8), (144, 48, Some 104), (96, 48, Some 152), (192, 16, Some 200)]"

definition plan_tags :: "byte \<Rightarrow> byte \<Rightarrow> plan" where
  "plan_tags b25 b26 =
     (if b25 = 8 \<and> b26 = 0 then [(208, 38, None)]
      else if b25 = 129 \<and> b26 = 0 then [(220, 3, Some 232), (208, 12, Some 236), (223, 23, None)]
      else if b25 = 136 \<and> b26 = 71 then [(208, 15, None), (223, 23, Some 215)]
      else [])"

text \<open>The ToS position in the packet and the place of the IPv4 fields in the match field.\<close>

definition plan_start :: "byte \<Rightarrow> byte \<Rightarrow> nat \<times> nat" where
  "plan_start b25 b26 =
     (if b25 = 8 \<and> b26 = 0 then (246, 246)
      else if b25 = 129 \<and> b26 = 0 then (267, 246)
      else if b25 = 136 \<and> b26 = 71 then (255, 246)
      else (224, 208))"

definition plan_ip_tcp :: "nat \<times> nat \<Rightarrow> plan" where
  "plan_ip_tcp = (\<lambda>(p, d). [(d + 72, 6, Some p), (d + 64, 8, Some (p + 62)),
     (d, 32, Some (p + 86)), (d + 32, 32, Some (p + 118)),
     (d + 78, 16, Some (p + 150)), (d + 94, 16, Some (p + 166))])"

definition plan_of :: "byte \<Rightarrow> byte \<Rightarrow> plan" where
  "plan_of b25 b26 = plan_ethernet @ plan_tags b25 b26 @ plan_ip_tcp (plan_start b25 b26)"

lemma apply_plan_append: "apply_plan pkt (xs @ ys) mf = apply_plan pkt ys (apply_plan pkt xs mf)"
  by (induction pkt xs mf rule: apply_plan.induct) simp_all

lemma length_apply_plan [simp]: "length (apply_plan pkt pl mf) = length mf"
  by (induction pkt pl mf rule: apply_plan.induct) simp_all

lemma set_match_field_bits_ok:
  assumes "0 \<le> sp" "0 \<le> sm" "0 \<le> n"
    and "sp + n \<le> 8 * int (length pkt)" "sm + n \<le> 8 * int (length mf)"
  shows "set_match_field_bits pkt mf sp sm n =
     Some (put_bits (nat sm) (nat n) (plan_bits pkt (Some (nat sp))) mf)"
proof -
  obtain p d m where nat: "sp = int p" "sm = int d" "n = int m"
    using assms(1-3) by (metis nonneg_int_cases)
  have "set_match_field_bits pkt mf sp sm n =
     c_for m (\<lambda>k t. do { b \<leftarrow> read_bit pkt (int (p + k));
       if b \<noteq> 0 then set_bit_c t (int d + int k) else reset_bit t (int d + int k) }) mf"
    using assms(4) unfolding nat set_match_field_bits_def
    by (intro c_for_cong) (auto simp: nat read_bit_abit simp flip: of_nat_add)
  also have "\<dots> = Some (put_bits d m (\<lambda>k. abit pkt (p + k)) mf)"
    using assms(4,5) by (intro c_for_bits read_bit_abit) (auto simp: nat)
  finally show ?thesis by (simp add: nat plan_bits_def[abs_def])
qed

lemma set_match_field_bits_as_zeros_ok:
  assumes "0 \<le> sm" "0 \<le> n" "sm + n \<le> 8 * int (length mf)"
  shows "set_match_field_bits_as_zeros mf sm n =
     Some (put_bits (nat sm) (nat n) (plan_bits pkt None) mf)"
proof -
  obtain d m where nat: "sm = int d" "n = int m"
    using assms(1,2) by (metis nonneg_int_cases)
  have "set_match_field_bits_as_zeros mf sm n =
     c_for m (\<lambda>k t. do { b \<leftarrow> Some (if True then 1 else 0);
       if b \<noteq> (0 :: byte) then set_bit_c t (int d + int k) else reset_bit t (int d + int k) }) mf"
    unfolding nat set_match_field_bits_as_zeros_def by simp
  also have "\<dots> = Some (put_bits d m (\<lambda>k. True) mf)"
    using assms(3) by (intro c_for_bits) (auto simp: nat)
  finally show ?thesis by (simp add: nat plan_bits_def[abs_def])
qed

lemma set_match_field_bits_as_ones_ok:
  assumes "0 \<le> sm" "0 \<le> n" "sm + n \<le> 8 * int (length mf)"
  shows "set_match_field_bits_as_ones mf sm n = Some (put_bits (nat sm) (nat n) (\<lambda>_. False) mf)"
proof -
  obtain d m where nat: "sm = int d" "n = int m"
    using assms(1,2) by (metis nonneg_int_cases)
  have "set_match_field_bits_as_ones mf sm n =
     c_for m (\<lambda>k t. do { b \<leftarrow> Some (if False then 1 else 0);
       if b \<noteq> (0 :: byte) then set_bit_c t (int d + int k) else reset_bit t (int d + int k) }) mf"
    unfolding nat set_match_field_bits_as_ones_def by simp
  also have "\<dots> = Some (put_bits d m (\<lambda>k. False) mf)"
    using assms(3) by (intro c_for_bits) (auto simp: nat)
  finally show ?thesis by (simp add: nat)
qed

lemma cut_ethernet_plan:
  assumes "length pkt = 100" "length mf = 45"
  shows "cut_ethernet pkt mf = Some (apply_plan pkt plan_ethernet mf, 200, 192, 16)"
  using assms
  by (simp add: cut_ethernet_def header_lengths set_match_field_bits_ok plan_ethernet_def)

text \<open>What the tags leave in the running variables is what \<open>plan_start\<close> starts from.\<close>

lemma cut_tags_ip_tcp_plan:
  assumes "length pkt = 100" "length mf = 45"
  shows "do { st \<leftarrow> cut_tags pkt (mf, 200, 192, 16); cut_ip_tcp pkt st } =
     Some (apply_plan pkt (plan_tags (pkt ! 25) (pkt ! 26) @
        plan_ip_tcp (plan_start (pkt ! 25) (pkt ! 26))) mf)"
  using assms
  by (simp add: cut_tags_def cut_ip_tcp_def header_lengths cget_in set_match_field_bits_ok
      set_match_field_bits_as_zeros_ok[of _ _ _ pkt] plan_tags_def plan_start_def plan_ip_tcp_def)

lemma cut_plan:
  assumes "length pkt = 100" "length mf = 45"
  shows "do { st \<leftarrow> cut_ethernet pkt mf; st \<leftarrow> cut_tags pkt st; cut_ip_tcp pkt st } =
     Some (apply_plan pkt (plan_of (pkt ! 25) (pkt ! 26)) mf)"
  using assms cut_tags_ip_tcp_plan[of pkt "apply_plan pkt plan_ethernet mf"]
  by (simp add: cut_ethernet_plan plan_of_def apply_plan_append)

section \<open>The pre-processor against its abstract machine\<close>

text \<open>
  The abstract state is two queues: the packets loaded and not yet pre-processed, and the
  pairs of a packet and its match field that wait for the consumer. \<open>pp_abs\<close> relates it to
  the two buffers.
\<close>

definition pp_abs ::
  "pre_processor \<Rightarrow> byte list list \<Rightarrow> (byte list \<times> byte list) list \<Rightarrow> bool" where
  "pp_abs pp ps qs \<longleftrightarrow> pb_ok (pp_pb pp) \<and> mfb_ok (pp_mf pp)
     \<and> pb_pending (pp_pb pp) = concat (map frame ps)
     \<and> pb_ready (pp_pb pp) = concat (map (frame \<circ> fst) qs)
     \<and> mfb_contents (pp_mf pp) = concat (map snd qs)
     \<and> (\<forall>p \<in> set ps. length p < 100)
     \<and> (\<forall>(p, f) \<in> set qs. length p < 100 \<and> length f = 45)"

text \<open>The same with the packets that are ready and the match fields apart, which need not be as many.\<close>

definition pp_lists :: "pre_processor \<Rightarrow> byte list list \<Rightarrow> byte list list \<Rightarrow> byte list list \<Rightarrow> bool" where
  "pp_lists pp ps rs fs \<longleftrightarrow> pb_ok (pp_pb pp) \<and> mfb_ok (pp_mf pp)
     \<and> pb_pending (pp_pb pp) = concat (map frame ps) \<and> pb_ready (pp_pb pp) = concat (map frame rs)
     \<and> mfb_contents (pp_mf pp) = concat fs
     \<and> (\<forall>p \<in> set ps \<union> set rs. length p < 100) \<and> (\<forall>f \<in> set fs. length f = 45)"

lemma pp_abs_lists: "pp_abs pp ps qs \<longleftrightarrow> pp_lists pp ps (map fst qs) (map snd qs)"
proof -
  have "(\<forall>(p, f) \<in> set qs. length p < 100 \<and> length f = 45) \<longleftrightarrow>
      (\<forall>p \<in> fst ` set qs. length p < 100) \<and> (\<forall>f \<in> snd ` set qs. length f = 45)" by (induction qs) auto
  then show ?thesis unfolding pp_abs_def pp_lists_def by (simp add: comp_def ball_Un conj_ac)
qed

text \<open>The match field of a packet, given what the two fresh arrays held.\<close>

definition read_pkt :: "(nat \<Rightarrow> byte) \<Rightarrow> byte list \<Rightarrow> byte list" where
  "read_pkt heap_pkt p = blit (map heap_pkt [0..<100]) 0 (frame p)"

definition match_field_of :: "(nat \<Rightarrow> byte) \<Rightarrow> (nat \<Rightarrow> byte) \<Rightarrow> byte list \<Rightarrow> byte list" where
  "match_field_of heap_mf heap_pkt p =
     (let pkt = read_pkt heap_pkt p
      in apply_plan pkt (plan_of (pkt ! 25) (pkt ! 26)) (map heap_mf [0..<45]))"

lemma length_read_pkt: "length p < 100 \<Longrightarrow> length (read_pkt h p) = 100"
  by (simp add: read_pkt_def length_blit frame_def)

lemma length_match_field_of [simp]: "length (match_field_of h1 h2 p) = 45"
  by (simp add: match_field_of_def Let_def)

lemma c_for_add_mfb:
  assumes "n \<le> length xs"
  shows "c_for n (\<lambda>i m. do { b \<leftarrow> cget xs (int i); add_a_byte_to_the_match_field_buffer m b }) m
     = feed add_a_byte_to_the_match_field_buffer m (take n xs)"
proof -
  have "c_for n (\<lambda>i m. do { b \<leftarrow> cget xs (int i); add_a_byte_to_the_match_field_buffer m b }) m
     = c_for n (\<lambda>i m. add_a_byte_to_the_match_field_buffer m (xs ! i)) m"
    using assms by (intro c_for_cong) (simp_all add: cget_int)
  also have "\<dots> = feed add_a_byte_to_the_match_field_buffer m (map ((!) xs) [0..<n])"
    by (rule c_for_feed)
  also have "map ((!) xs) [0..<n] = take n xs"
    using assms by (intro nth_equalityI) auto
  finally show ?thesis .
qed

lemma cut_ok:
  assumes "length p < 100"
  obtains st1 st2 where "cut_ethernet (read_pkt h2 p) (map h1 [0..<45]) = Some st1"
    "cut_tags (read_pkt h2 p) st1 = Some st2" "cut_ip_tcp (read_pkt h2 p) st2 = Some (match_field_of h1 h2 p)"
proof -
  have "do { st \<leftarrow> cut_ethernet (read_pkt h2 p) (map h1 [0..<45]); st \<leftarrow> cut_tags (read_pkt h2 p) st;
      cut_ip_tcp (read_pkt h2 p) st } = Some (match_field_of h1 h2 p)"
    using cut_plan[of "read_pkt h2 p" "map h1 [0..<45]"] length_read_pkt[OF assms]
    by (simp add: match_field_of_def Let_def)
  then show thesis using that by (auto split: bind_splits)
qed

text \<open>What is read is cut and put behind the other match fields, whatever was read.\<close>

lemma prepare_read:
  assumes "read_a_packet_for_preprocessing (pp_pb pp) (map h2 [0..<100]) = Some (read_pkt h2 p, pb')" "length p < 100"
    and "mfb_ok (pp_mf pp)" "45 \<le> mfb_room (pp_mf pp)"
  shows "\<exists>m'. prepare_match_field h1 h2 pp = Some (pp\<lparr>pp_pb := pb', pp_mf := m'\<rparr>) \<and> mfb_ok m' \<and>
    mfb_contents m' = mfb_contents (pp_mf pp) @ match_field_of h1 h2 p \<and> mfb_room m' = mfb_room (pp_mf pp) - 45"
proof -
  let ?mf = "match_field_of h1 h2 p"
  obtain m' where m': "feed add_a_byte_to_the_match_field_buffer (pp_mf pp) ?mf = Some m'"
    "mfb_ok m'" "mfb_contents m' = mfb_contents (pp_mf pp) @ ?mf" "mfb_room m' = mfb_room (pp_mf pp) - 45"
    using mf.feed_ok[of "pp_mf pp" ?mf] assms(3,4) by auto
  obtain st1 st2 where "cut_ethernet (read_pkt h2 p) (map h1 [0..<45]) = Some st1"
    "cut_tags (read_pkt h2 p) st1 = Some st2" "cut_ip_tcp (read_pkt h2 p) st2 = Some ?mf" by (rule cut_ok[OF assms(2)])
  with assms(1) m'(1) have "prepare_match_field h1 h2 pp = Some (pp\<lparr>pp_pb := pb', pp_mf := m'\<rparr>)"
    by (simp add: prepare_match_field_def MTCH_FLD_LEN_def MAX_PACKET_SIZE_def c_for_add_mfb)
  then show ?thesis using m' by blast
qed

lemma prepare_lists:
  assumes "pp_lists pp (p # ps) rs fs" "45 \<le> mfb_room (pp_mf pp)"
  shows "\<exists>pp'. prepare_match_field h1 h2 pp = Some pp' \<and> pp_lists pp' ps (rs @ [p]) (fs @ [match_field_of h1 h2 p]) \<and>
      pb_room (pp_pb pp') = pb_room (pp_pb pp) \<and> mfb_room (pp_mf pp') = mfb_room (pp_mf pp) - 45"
proof -
  have pl: "length p < 100" "mfb_ok (pp_mf pp)" using assms(1) by (simp_all add: pp_lists_def)
  have "\<exists>pb'. read_a_packet_for_preprocessing (pp_pb pp) (map h2 [0..<100]) =
      Some (read_pkt h2 p, pb') \<and> pb_ok pb' \<and> pb_pending pb' = concat (map frame ps) \<and>
      pb_ready pb' = pb_ready (pp_pb pp) @ frame p \<and> pb_stored pb' = pb_stored (pp_pb pp) \<and>
      pb_room pb' = pb_room (pp_pb pp)"
    using assms(1) pl unfolding read_pkt_def pp_lists_def
    by (intro read_for_preprocessing_frame) auto
  then obtain pb' where pb': "read_a_packet_for_preprocessing (pp_pb pp) (map h2 [0..<100]) = Some (read_pkt h2 p, pb')"
    "pb_ok pb'" "pb_pending pb' = concat (map frame ps)" "pb_ready pb' = pb_ready (pp_pb pp) @ frame p"
    "pb_room pb' = pb_room (pp_pb pp)" by blast
  then show ?thesis
    using prepare_read[OF pb'(1) pl assms(2), of h1] assms(1) pl by (fastforce simp: pp_lists_def)
qed

lemma prepare_ok:
  assumes "pp_abs pp (p # ps) qs" "45 \<le> mfb_room (pp_mf pp)"
  shows "\<exists>pp'. prepare_match_field heap_mf heap_pkt pp = Some pp' \<and>
      pp_abs pp' ps (qs @ [(p, match_field_of heap_mf heap_pkt p)]) \<and>
      pb_room (pp_pb pp') = pb_room (pp_pb pp) \<and>
      mfb_room (pp_mf pp') = mfb_room (pp_mf pp) - 45"
  using prepare_lists[of pp p ps "map fst qs" "map snd qs" heap_mf heap_pkt] assms by (simp add: pp_abs_lists)

text \<open>
  With nothing in the packet buffer the length is 0 and the rest of the array is as \<open>malloc\<close> left it: a match field
  of no packet is made.
\<close>

lemma empty_flagged:
  assumes "pb_ok pb" "pb_stored pb = []"
  shows "pb_empty_flag pb = 1"
proof (rule ccontr)
  assume e: "pb_empty_flag pb \<noteq> 1"
  have wf: "pb_wf pb" "pb_full_flag pb \<noteq> 1" using assms(1) by (simp_all add: pb_ok_def)
  have "pb_count pb = 0" using arg_cong[OF assms(2), of length] by simp
  then have "(packet_buffer_tail pb - packet_buffer_head pb) mod 1000 = 0" using pb_ok_count[OF assms(1)] by simp
  then have "packet_buffer_tail pb = packet_buffer_head pb"
    using wf(1) unfolding pb_wf_def by (metis mod_0_imp_dvd mod_eq_dvd_iff mod_pos_pos_trivial)
  then show False using wf e by (simp add: pb_wf_def)
qed

lemma prepare_empty:
  assumes "pp_lists pp [] [] fs" "45 \<le> mfb_room (pp_mf pp)"
  shows "\<exists>pp'. prepare_match_field h1 h2 pp = Some pp' \<and> pp_lists pp' [] [] (fs @ [match_field_of h1 h2 []]) \<and>
      pb_room (pp_pb pp') = pb_room (pp_pb pp) \<and> mfb_room (pp_mf pp') = mfb_room (pp_mf pp) - 45"
proof -
  have ok: "pb_ok (pp_pb pp)" "mfb_ok (pp_mf pp)" "pb_stored (pp_pb pp) = []"
    using assms(1) pb_stored_split[of "pp_pb pp"] by (simp_all add: pp_lists_def)
  have "pb_empty_flag (pp_pb pp) = 1" by (rule empty_flagged[OF ok(1,3)])
  then have r: "read_a_packet_for_preprocessing (pp_pb pp) (map h2 [0..<100]) = Some (read_pkt h2 [], pp_pb pp)"
    by (simp add: read_a_packet_for_preprocessing_def cput_def read_pkt_def blit_def frame_def upt_conv_Cons)
  then show ?thesis
    using prepare_read[OF r _ ok(2) assms(2), of h1] assms(1) by (fastforce simp: pp_lists_def)
qed

lemma return_lists:
  assumes "pp_lists pp ps (p # rs) (f # fs)" "45 \<le> length mf" "length p < length pk"
  shows "\<exists>pp'. return_match_field_and_packet pp mf pk = Some (blit mf 0 f, blit pk 0 (frame p), pp')
      \<and> pp_lists pp' ps rs fs \<and> pb_room (pp_pb pp) \<le> pb_room (pp_pb pp') \<and>
      mfb_room (pp_mf pp') = mfb_room (pp_mf pp)"
proof -
  have "length f = 45" "length p < 100" using assms(1) by (auto simp: pp_lists_def)
  with assms obtain m' where m': "read_a_match_field (pp_mf pp) mf = Some (blit mf 0 f, m')"
    "mfb_ok m'" "mfb_contents m' = concat fs" "mfb_room m' = mfb_room (pp_mf pp)"
    using read_a_match_field_ok[of "pp_mf pp" f "concat fs" mf] by (auto simp: pp_lists_def)
  from assms \<open>length p < 100\<close> obtain pb' where
    "read_a_packet (pp_pb pp) pk = Some (blit pk 0 (frame p), pb')"
    "pb_ok pb'" "pb_ready pb' = concat (map frame rs)"
    "pb_pending pb' = pb_pending (pp_pb pp)" "pb_room (pp_pb pp) \<le> pb_room pb'"
    using read_a_packet_frame[of "pp_pb pp" p "concat (map frame rs)" pk]
    by (auto simp: pp_lists_def)
  with m' show ?thesis
    using assms(1) by (auto simp: return_match_field_and_packet_def pp_lists_def)
qed

lemma return_ok:
  assumes "pp_abs pp ps ((p, f) # qs)" "45 \<le> length mf" "length p < length pk"
  shows "\<exists>pp'. return_match_field_and_packet pp mf pk = Some (blit mf 0 f, blit pk 0 (frame p), pp')
      \<and> pp_abs pp' ps qs \<and> pb_room (pp_pb pp) \<le> pb_room (pp_pb pp') \<and>
      mfb_room (pp_mf pp') = mfb_room (pp_mf pp)"
  using return_lists[of pp ps p "map fst qs" f "map snd qs" mf pk] assms by (simp add: pp_abs_lists)

text \<open>For the witnesses: one loaded packet of two bytes, before and after pre-processing.\<close>

definition example_pp :: "int \<Rightarrow> pre_processor" where
  "example_pp rh = \<lparr>pp_pb = example_pb rh,
     pp_mf = (if rh = 0 then initialize_match_field_buffer example_mfb else example_mfb)\<rparr>"

lemma example_pp_facts:
  "pp_abs (example_pp 0) [[7, 9]] []" "mfb_room (pp_mf (example_pp 0)) = 900"
  "pp_abs (example_pp 3) [] [([7, 9], replicate 45 3)]"
  by (simp_all add: pp_abs_def example_pp_def example_pb_facts example_mfb_facts)

text \<open>
  C14. Pre-processing refines the abstract step "move the oldest loaded packet, paired with its
  match field, to the ready queue": it succeeds whenever a packet of fewer than 100 bytes is
  pending and the match-field buffer has 45 bytes of room, and the match field is the one the
  copying plan gives.
\<close>

theorem prepare_refines:
  assumes "pp_abs pp (p # ps) qs" "45 \<le> mfb_room (pp_mf pp)"
  shows "\<exists>pp'. prepare_match_field heap_mf heap_pkt pp = Some pp' \<and>
      pp_abs pp' ps (qs @ [(p, match_field_of heap_mf heap_pkt p)])"
  using prepare_ok[OF assms] by blast

theorem prepare_refines_witness:
  "\<exists>pp'. prepare_match_field (\<lambda>_. 0) (\<lambda>_. 0) (example_pp 0) = Some pp' \<and>
      pp_abs pp' [] [([7, 9], match_field_of (\<lambda>_. 0) (\<lambda>_. 0) [7, 9])]"
  using prepare_refines[OF example_pp_facts(1)] example_pp_facts(2) by simp

text \<open>
  C15. The consumer gets matching pairs, oldest first: \<open>return_match_field_and_packet\<close> hands out
  the match field and the packet of the same, oldest, pre-processed packet.
\<close>

theorem return_refines:
  assumes "pp_abs pp ps ((p, f) # qs)" "45 \<le> length mf" "length p < length pk"
  shows "\<exists>pp'. return_match_field_and_packet pp mf pk = Some (blit mf 0 f, blit pk 0 (frame p), pp')
      \<and> pp_abs pp' ps qs"
  using return_ok[OF assms] by blast

theorem return_refines_witness:
  "\<exists>pp'. return_match_field_and_packet (example_pp 3) (replicate 45 0) (replicate 100 0) =
      Some (blit (replicate 45 0) 0 (replicate 45 3), blit (replicate 100 0) 0 (frame [7, 9]), pp')
      \<and> pp_abs pp' [] []"
  using return_refines[OF example_pp_facts(3)] by simp

end
