(* ===== verification/Match_Fields.thy ===== *)
theory Match_Fields
  imports Pre_Processing
begin

text \<open>
  What \<^verbatim>\<open>pre-composer/pre_processing.h\<close> puts into a match field: which bits of the packet end up where,
  and which bits nothing writes.
\<close>

section \<open>What is in a match field\<close>

definition bits_of :: "byte list \<Rightarrow> nat \<Rightarrow> nat \<Rightarrow> bool list" where
  "bits_of arr p n = map (\<lambda>k. abit arr (p + k)) [0..<n]"

text \<open>The bit at \<open>q\<close> is what the last copy that covers \<open>q\<close> put there.\<close>

fun plan_val :: "byte list \<Rightarrow> plan \<Rightarrow> bool \<Rightarrow> nat \<Rightarrow> bool" where
  "plan_val pkt [] v q = v"
| "plan_val pkt ((d, n, src) # pl) v q =
     plan_val pkt pl (if d \<le> q \<and> q < d + n then plan_bits pkt src (q - d) else v) q"

lemma abit_apply_plan:
  "(\<forall>(d, n, src) \<in> set pl. d + n \<le> 8 * length mf) \<Longrightarrow> q < 8 * length mf \<Longrightarrow>
   abit (apply_plan pkt pl mf) q = plan_val pkt pl (abit mf q) q"
  by (induction pkt pl mf rule: apply_plan.induct) (auto simp: abit_put_bits)

lemma plan_val_append: "plan_val pkt (xs @ ys) v q = plan_val pkt ys (plan_val pkt xs v q) q"
  by (induction pkt xs v q rule: plan_val.induct) simp_all

lemma plan_of_in_range: "(d, n, src) \<in> set (plan_of b25 b26) \<Longrightarrow> d + n \<le> 360"
  by (auto simp: plan_of_def plan_ethernet_def plan_tags_def plan_ip_tcp_def plan_start_def
      split: if_splits)

lemma abit_match_field_of:
  assumes "q < 360"
  shows "abit (match_field_of h1 h2 p) q =
     (let pkt = read_pkt h2 p
      in plan_val pkt (plan_of (pkt ! 25) (pkt ! 26)) (abit (map h1 [0..<45]) q) q)"
  unfolding match_field_of_def Let_def using assms plan_of_in_range
  by (intro abit_apply_plan) (auto simp: split_beta)

lemma nth_read_pkt:
  "length p < 100 \<Longrightarrow> k < length p \<Longrightarrow> read_pkt h p ! Suc k = p ! k"
  by (simp add: read_pkt_def nth_blit frame_def)

lemma abit_read_pkt:
  "length p < 100 \<Longrightarrow> k < 8 * length p \<Longrightarrow> abit (read_pkt h p) (8 + k) = abit p k"
  using nth_read_pkt[of p "k div 8" h] by (simp add: abit_def div_add_self1 less_mult_imp_div_less mult.commute)

text \<open>Outside the tags and the IP part the plan is the Ethernet part.\<close>

lemma plan_val_ethernet:
  "q < 208 \<Longrightarrow> plan_val pkt (plan_of b25 b26) v q = plan_val pkt plan_ethernet v q"
  by (auto simp: plan_of_def plan_val_append plan_tags_def plan_ip_tcp_def plan_start_def)

text \<open>A field whose bits the plan takes from one run of the packet.\<close>

lemma match_field_run:
  assumes "length p < 100" "s + n \<le> 8 * length p" "d + n \<le> 360"
    and "\<And>k v. k < n \<Longrightarrow> plan_val (read_pkt h2 p)
        (plan_of (read_pkt h2 p ! 25) (read_pkt h2 p ! 26)) v (d + k) =
        abit (read_pkt h2 p) (8 + s + k)"
  shows "bits_of (match_field_of h1 h2 p) d n = bits_of p s n"
  unfolding bits_of_def
  using assms abit_read_pkt[of p "s + _" h2]
  by (auto simp: abit_match_field_of Let_def add.assoc)

lemmas plan_eval = plan_ethernet_def plan_tags_def plan_start_def plan_ip_tcp_def plan_bits_def

text \<open>For the witnesses: an IPv4 packet and a VLAN packet whose other bytes count up.\<close>

definition example_ipv4 :: "byte list" where
  "example_ipv4 = map of_nat [0..<24] @ [8, 0] @ map of_nat [26..<60]"

definition example_vlan :: "byte list" where
  "example_vlan = map of_nat [0..<24] @ [129, 0] @ map of_nat [26..<60]"

lemma ethernet_bits:
  assumes "length p < 100" "26 \<le> length p"
  shows "bits_of (match_field_of h1 h2 p) 0 96 = bits_of p 0 96 \<and>
    bits_of (match_field_of h1 h2 p) 96 48 = bits_of p 144 48 \<and>
    bits_of (match_field_of h1 h2 p) 144 48 = bits_of p 96 48 \<and>
    bits_of (match_field_of h1 h2 p) 192 16 = bits_of p 192 16"
proof (intro conjI; (rule match_field_run))
qed (use assms in \<open>auto simp: plan_val_ethernet plan_eval\<close>)

lemma replicate_map: "replicate n x = map (\<lambda>_. x) [0..<n]"
  by (rule nth_equalityI) simp_all

text \<open>Bits the plan sets to one, and bits it leaves as the heap had them.\<close>

lemma match_field_ones:
  assumes "d + n \<le> 360"
    and "\<And>k v. k < n \<Longrightarrow> plan_val (read_pkt h2 p)
        (plan_of (read_pkt h2 p ! 25) (read_pkt h2 p ! 26)) v (d + k)"
  shows "bits_of (match_field_of h1 h2 p) d n = replicate n True"
  unfolding bits_of_def replicate_map
  using assms by (auto simp: abit_match_field_of Let_def)

lemma type_bytes:
  assumes "length p < 100" "26 \<le> length p"
  shows "read_pkt h p ! 25 = p ! 24" "read_pkt h p ! 26 = p ! 25"
  using nth_read_pkt[OF assms(1), of 24 h] nth_read_pkt[OF assms(1), of 25 h] assms(2)
  by simp_all

lemma plan_val_rest:
  "208 \<le> q \<Longrightarrow> plan_val pkt (plan_of b25 b26) v q =
     plan_val pkt (plan_tags b25 b26 @ plan_ip_tcp (plan_start b25 b26)) v q"
  by (simp add: plan_of_def plan_val_append plan_ethernet_def)

lemma ipv4_bits:
  fixes h1 h2 :: "nat \<Rightarrow> byte" and p :: "byte list"
  assumes "length p < 100" "53 \<le> length p" "p ! 24 = 8" "p ! 25 = 0"
  defines "f \<equiv> match_field_of h1 h2 p"
  shows "bits_of f 208 38 = replicate 38 True \<and>
    bits_of f 246 32 = bits_of p (304 + 20) 32 \<and> bits_of f 278 32 = bits_of p (336 + 20) 32 \<and>
    bits_of f 310 8 = bits_of p (280 + 20) 8 \<and> bits_of f 318 6 = bits_of p (216 + 22) 6 \<and>
    bits_of f 324 16 = bits_of p (368 + 20) 16 \<and> bits_of f 340 16 = bits_of p (384 + 20) 16"
  unfolding f_def
  using assms type_bytes[OF assms(1), of h2]
  by (intro conjI match_field_run match_field_ones) (auto simp: plan_val_rest plan_eval)

lemma tagged_bits:
  fixes h1 h2 :: "nat \<Rightarrow> byte" and p :: "byte list"
  assumes "length p < 100" "56 \<le> length p"
  defines "f \<equiv> match_field_of h1 h2 p"
  shows "(p ! 24 = 129 \<and> p ! 25 = 0 \<longrightarrow>
      bits_of f 208 12 = bits_of p 228 12 \<and> bits_of f 220 3 = bits_of p 224 3 \<and>
      bits_of f 223 23 = replicate 23 True \<and>
      bits_of f 246 32 = bits_of p 345 32 \<and> bits_of f 278 32 = bits_of p 377 32 \<and>
      bits_of f 310 8 = bits_of p 321 8 \<and> bits_of f 318 6 = bits_of p 259 6 \<and>
      bits_of f 324 16 = bits_of p 409 16 \<and> bits_of f 340 16 = bits_of p 425 16) \<and>
    (p ! 24 = 136 \<and> p ! 25 = 71 \<longrightarrow>
      bits_of f 208 15 = replicate 15 True \<and> bits_of f 223 23 = bits_of p 207 23 \<and>
      bits_of f 246 32 = bits_of p 333 32 \<and> bits_of f 278 32 = bits_of p 365 32 \<and>
      bits_of f 310 8 = bits_of p 309 8 \<and> bits_of f 318 6 = bits_of p 247 6 \<and>
      bits_of f 324 16 = bits_of p 397 16 \<and> bits_of f 340 16 = bits_of p 413 16)"
  unfolding f_def
  using assms(1,2) type_bytes[OF assms(1), of h2]
  by (intro conjI impI match_field_run match_field_ones) (auto simp: plan_val_rest plan_eval)

definition known_type :: "byte list \<Rightarrow> bool" where
  "known_type p \<longleftrightarrow> (p ! 24 = 8 \<and> p ! 25 = 0) \<or> (p ! 24 = 129 \<and> p ! 25 = 0) \<or>
     (p ! 24 = 136 \<and> p ! 25 = 71)"

lemma unwritten_bits:
  assumes "length p < 100" "26 \<le> length p" "q < 360"
  shows "((if known_type p then 356 else 318) \<le> q \<longrightarrow>
      abit (match_field_of h1 h2 p) q = abit (map h1 [0..<45]) q) \<and>
    (known_type p \<and> q < 356 \<longrightarrow>
      abit (match_field_of h1 h2 p) q = abit (match_field_of h1' h2 p) q)"
proof (cases "q < 208")
  case True
  with assms(3) show ?thesis
    by (auto simp: abit_match_field_of Let_def plan_val_ethernet plan_ethernet_def)
next
  case False
  with assms(3) type_bytes[OF assms(1,2), of h2] show ?thesis
    by (auto simp: abit_match_field_of Let_def plan_val_rest plan_eval known_type_def)
qed

section \<open>A pre-processor with one packet loaded\<close>

text \<open>For the witnesses.\<close>

definition example_loaded :: "byte list \<Rightarrow> pre_processor" where
  "example_loaded p = \<lparr>pp_pb = \<lparr>packet_buffer_bytes = frame p @ replicate (999 - length p) 0,
     packet_buffer_head = 0, packet_buffer_tail = int (length p) + 1, pb_full_flag = 0, pb_empty_flag = 0,
     buffer_reading_head = 0\<rparr>, pp_mf = initialize_match_field_buffer example_mfb\<rparr>"

lemma example_loaded_abs:
  assumes "length p < 100"
  shows "pp_abs (example_loaded p) [p] []" "mfb_room (pp_mf (example_loaded p)) = 900"
proof -
  let ?pb = "pp_pb (example_loaded p)"
  have c: "pb_count ?pb = Suc (length p)" "pb_done ?pb = 0"
    using assms by (auto simp: example_loaded_def pb_count_def pb_done_def)
  have "pb_at ?pb k = frame p ! k" if "k < Suc (length p)" for k
  proof -
    have "nat (int k mod 1000) = k" using that assms by simp
    then show ?thesis using that by (auto simp: example_loaded_def pb_at_def frame_def nth_append nth_Cons')
  qed
  then have "map (pb_at ?pb) [0..<length (frame p)] = map ((!) (frame p)) [0..<length (frame p)]"
    by (intro map_cong) (auto simp: frame_def)
  then have st: "pb_stored ?pb = frame p"
    unfolding pb_stored_def c(1) map_nth by (simp add: frame_def)
  have "pb_ok ?pb"
    unfolding pb_ok_def pb_wf_def c using assms by (auto simp: example_loaded_def frame_def)
  then show "pp_abs (example_loaded p) [p] []"
    using assms st c by (simp add: pp_abs_def pb_pending_def pb_ready_def)
      (simp add: example_loaded_def example_mfb_facts)
  show "mfb_room (pp_mf (example_loaded p)) = 900" by (simp add: example_loaded_def example_mfb_facts)
qed

section \<open>The match field of the oldest loaded packet\<close>

text \<open>
  C23. Whatever the packet is, the first 208 bits of its match field are right: ingress port
  and metadata, then source MAC, destination MAC and Ethernet type, each copied from its place
  in the packet (the two MAC addresses change places), whatever memory held before.
\<close>

theorem ethernet_fields_right:
  assumes "pp_abs pp (p # ps) qs" "45 \<le> mfb_room (pp_mf pp)" "26 \<le> length p"
  shows "\<exists>pp' f. prepare_match_field h1 h2 pp = Some pp' \<and> pp_abs pp' ps (qs @ [(p, f)]) \<and>
    bits_of f 0 96 = bits_of p 0 96 \<and> bits_of f 96 48 = bits_of p 144 48 \<and>
    bits_of f 144 48 = bits_of p 96 48 \<and> bits_of f 192 16 = bits_of p 192 16"
proof -
  have "length p < 100" using assms(1) by (simp add: pp_abs_def)
  then show ?thesis using prepare_ok[OF assms(1,2), of h1 h2] ethernet_bits[of p h1 h2] assms(3) by blast
qed

theorem ethernet_fields_right_witness:
  "\<exists>pp' f. prepare_match_field (\<lambda>_. 1) (\<lambda>_. 2) (example_loaded example_ipv4) = Some pp' \<and>
    pp_abs pp' [] [(example_ipv4, f)] \<and> bits_of f 96 48 = bits_of example_ipv4 144 48"
  using ethernet_fields_right[OF example_loaded_abs(1)[of example_ipv4], of "\<lambda>_. 1" "\<lambda>_. 2"]
    example_loaded_abs(2)[of example_ipv4] by (auto simp: example_ipv4_def)

text \<open>
  C30. The match field of an untagged IPv4 packet (Ethernet type 08 00): the 38 tag bits are
  ones, and the IPv4 and TCP fields are the runs of the packet given here. An IPv4 header
  without a tag starts at bit 208 of the packet, so its type of service is at 216, its
  protocol at 280, its addresses at 304 and 336 and the ports at 368 and 384: every run starts
  20 bits late (the type of service 22).
\<close>

theorem ipv4_match_field:
  assumes "pp_abs pp (p # ps) qs" "45 \<le> mfb_room (pp_mf pp)" "53 \<le> length p" "p ! 24 = 8" "p ! 25 = 0"
  shows "\<exists>pp' f. prepare_match_field h1 h2 pp = Some pp' \<and> pp_abs pp' ps (qs @ [(p, f)]) \<and>
    bits_of f 208 38 = replicate 38 True \<and>
    bits_of f 246 32 = bits_of p (304 + 20) 32 \<and> bits_of f 278 32 = bits_of p (336 + 20) 32 \<and>
    bits_of f 310 8 = bits_of p (280 + 20) 8 \<and> bits_of f 318 6 = bits_of p (216 + 22) 6 \<and>
    bits_of f 324 16 = bits_of p (368 + 20) 16 \<and> bits_of f 340 16 = bits_of p (384 + 20) 16"
proof -
  have "length p < 100" using assms(1) by (simp add: pp_abs_def)
  then show ?thesis using prepare_ok[OF assms(1,2), of h1 h2] ipv4_bits[of p h1 h2] assms(3-5) by blast
qed

theorem ipv4_match_field_witness:
  "\<exists>pp' f. prepare_match_field (\<lambda>_. 1) (\<lambda>_. 2) (example_loaded example_ipv4) = Some pp' \<and>
    pp_abs pp' [] [(example_ipv4, f)] \<and> bits_of f 246 32 = bits_of example_ipv4 324 32"
  using ipv4_match_field[OF example_loaded_abs(1)[of example_ipv4], of "\<lambda>_. 1" "\<lambda>_. 2"]
    example_loaded_abs(2)[of example_ipv4] by (auto simp: example_ipv4_def nth_append)

text \<open>
  C31. A VLAN packet (type 81 00) and an MPLS packet (type 88 47): where the bits of the tag and of
  the IPv4 and TCP fields come from. The VLAN tag is at bit 208 of the packet, the
  code takes priority and identifier from 224 and 228; the MPLS label is at 208, the code takes it
  from 207; the bits of the other tag are ones, as the untagged packet's.
\<close>

theorem tagged_match_field:
  assumes "pp_abs pp (p # ps) qs" "45 \<le> mfb_room (pp_mf pp)" "56 \<le> length p"
  shows "\<exists>pp' f. prepare_match_field h1 h2 pp = Some pp' \<and> pp_abs pp' ps (qs @ [(p, f)]) \<and>
    (p ! 24 = 129 \<and> p ! 25 = 0 \<longrightarrow>
      bits_of f 208 12 = bits_of p 228 12 \<and> bits_of f 220 3 = bits_of p 224 3 \<and>
      bits_of f 223 23 = replicate 23 True \<and>
      bits_of f 246 32 = bits_of p 345 32 \<and> bits_of f 278 32 = bits_of p 377 32 \<and>
      bits_of f 310 8 = bits_of p 321 8 \<and> bits_of f 318 6 = bits_of p 259 6 \<and>
      bits_of f 324 16 = bits_of p 409 16 \<and> bits_of f 340 16 = bits_of p 425 16) \<and>
    (p ! 24 = 136 \<and> p ! 25 = 71 \<longrightarrow>
      bits_of f 208 15 = replicate 15 True \<and> bits_of f 223 23 = bits_of p 207 23 \<and>
      bits_of f 246 32 = bits_of p 333 32 \<and> bits_of f 278 32 = bits_of p 365 32 \<and>
      bits_of f 310 8 = bits_of p 309 8 \<and> bits_of f 318 6 = bits_of p 247 6 \<and>
      bits_of f 324 16 = bits_of p 397 16 \<and> bits_of f 340 16 = bits_of p 413 16)"
proof -
  have "length p < 100" using assms(1) by (simp add: pp_abs_def)
  note b = tagged_bits[OF this assms(3), of h1 h2]
  obtain pp' where r: "prepare_match_field h1 h2 pp = Some pp'"
      "pp_abs pp' ps (qs @ [(p, match_field_of h1 h2 p)])"
    using prepare_ok[OF assms(1,2)] by blast
  show ?thesis by (rule exI, rule exI, rule conjI[OF r(1) conjI[OF r(2) b]])
qed

theorem tagged_match_field_witness:
  "\<exists>pp' f. prepare_match_field (\<lambda>_. 1) (\<lambda>_. 2) (example_loaded example_vlan) = Some pp' \<and>
    pp_abs pp' [] [(example_vlan, f)] \<and> bits_of f 208 12 = bits_of example_vlan 228 12"
  using tagged_match_field[OF example_loaded_abs(1)[of example_vlan], of "\<lambda>_. 1" "\<lambda>_. 2"]
    example_loaded_abs(2)[of example_vlan] by (auto simp: example_vlan_def nth_append)

text \<open>
  C32. Bits 356 to 359 of every match field, and bits 318 to 359 of the match field of a packet of
  any other type, are never written: they are what the fresh array held. The other bits
  of the three known types do not depend on it.
\<close>

theorem unwritten_match_field_bits:
  assumes "pp_abs pp (p # ps) qs" "45 \<le> mfb_room (pp_mf pp)" "26 \<le> length p"
  shows "\<exists>pp' f pp'' f'. prepare_match_field h1 h2 pp = Some pp' \<and> pp_abs pp' ps (qs @ [(p, f)]) \<and>
    prepare_match_field h1' h2 pp = Some pp'' \<and> pp_abs pp'' ps (qs @ [(p, f')]) \<and>
    (\<forall>q<360. ((if known_type p then 356 else 318) \<le> q \<longrightarrow> abit f q = abit (map h1 [0..<45]) q) \<and>
      (known_type p \<and> q < 356 \<longrightarrow> abit f q = abit f' q))"
proof -
  have l: "length p < 100" using assms(1) by (simp add: pp_abs_def)
  obtain pp' pp'' where "prepare_match_field h1 h2 pp = Some pp'" "pp_abs pp' ps (qs @ [(p, match_field_of h1 h2 p)])"
      "prepare_match_field h1' h2 pp = Some pp''" "pp_abs pp'' ps (qs @ [(p, match_field_of h1' h2 p)])"
    using prepare_ok[OF assms(1,2), of h1 h2] prepare_ok[OF assms(1,2), of h1' h2] by blast
  then show ?thesis using unwritten_bits[OF l assms(3), of _ h1 h2 h1'] by blast
qed

theorem unwritten_match_field_bits_witness:
  "\<exists>pp' f. prepare_match_field (\<lambda>_. 1) (\<lambda>_. 2) (example_loaded example_ipv4) = Some pp' \<and>
    pp_abs pp' [] [(example_ipv4, f)] \<and> abit f 357 = abit (map (\<lambda>_. 1) [0..<45]) 357"
proof -
  have "known_type example_ipv4" by (simp add: example_ipv4_def known_type_def nth_append)
  then show ?thesis
    using unwritten_match_field_bits[OF example_loaded_abs(1)[of example_ipv4], of "\<lambda>_. 1" "\<lambda>_. 2" "\<lambda>_. 1"]
      example_loaded_abs(2)[of example_ipv4] by (force simp: example_ipv4_def)
qed

end
