(* ===== verification/Tcam_Tables.thy ===== *)
theory Tcam_Tables
  imports Bit_Operations_C
begin

text \<open>
  \<^verbatim>\<open>flow-processing-unit/flow_unit.h\<close>, first part: the tables of the TCAM, the three functions that write
  one row, and the five that move rows up or down to close or open a gap. A table is a
  flat byte array; \<open>row w i t\<close> is its row \<open>i\<close> of width \<open>w\<close>. The text files the functions
  append to are added in \<open>Tcam_Logs\<close>.
\<close>

section \<open>State\<close>

definition MTCH_FLD_LEN_i :: int where "MTCH_FLD_LEN_i = 45"
definition FLW_ENT_LEN :: int where "FLW_ENT_LEN = 48"
definition NO_F_FLWS :: int where "NO_F_FLWS = 20"
definition CACHE_SIZE :: int where "CACHE_SIZE = 5"
definition STR_ERR :: int where "STR_ERR = - 10"
definition RDNDNT :: int where "RDNDNT = - 2"
definition TBL_FULL :: int where "TBL_FULL = - 3"

record tcam_unit =
  flow_table :: "byte list"
  mask_table :: "byte list"
  action_table :: "byte list"
  flag_table :: "byte list"
  flow_tail :: int
  mask_tail :: int

text \<open>The four arrays have the sizes their declarations give them.\<close>

definition tables_ok :: "tcam_unit \<Rightarrow> bool" where
  "tables_ok t \<longleftrightarrow> length (flow_table t) = 960 \<and> length (mask_table t) = 900
     \<and> length (action_table t) = 620 \<and> length (flag_table t) = 40"

section \<open>Writing one row\<close>

definition write_new_mask :: "tcam_unit \<Rightarrow> byte list \<Rightarrow> (tcam_unit \<times> byte list) option" where
  "write_new_mask tcam msk = do {
     msk \<leftarrow> reset_bit msk 357;
     msk \<leftarrow> reset_bit msk 358;
     msk \<leftarrow> reset_bit msk 359;
     table \<leftarrow> c_for (nat MTCH_FLD_LEN_i) (\<lambda>i table. do {
       b \<leftarrow> cget msk (int i);
       cput table (mask_tail tcam * MTCH_FLD_LEN_i + int i) b }) (mask_table tcam);
     Some (tcam\<lparr>mask_table := table, mask_tail := mask_tail tcam + 1\<rparr>, msk)
   }"

text \<open>The loop runs to \<open>i <= MTCH_FLD_LEN\<close> and leaves \<open>i = 46\<close>.\<close>

definition write_new_flow_entry :: "tcam_unit \<Rightarrow> byte list \<Rightarrow> tcam_unit option" where
  "write_new_flow_entry tcam flow_entry = do {
     table \<leftarrow> c_for (nat (MTCH_FLD_LEN_i + 1)) (\<lambda>i table. do {
       b \<leftarrow> cget flow_entry (int i);
       cput table (flow_tail tcam * FLW_ENT_LEN + int i) b }) (flow_table tcam);
     let i = MTCH_FLD_LEN_i + 1;
     table \<leftarrow> cput table (flow_tail tcam * FLW_ENT_LEN + i) 0;
     table \<leftarrow> cput table (flow_tail tcam * FLW_ENT_LEN + i + 1) 255;
     Some (tcam\<lparr>flow_table := table, flow_tail := flow_tail tcam + 1\<rparr>)
   }"

definition write_new_action ::
  "tcam_unit \<Rightarrow> byte list \<Rightarrow> byte list \<Rightarrow> int \<Rightarrow> tcam_unit option" where
  "write_new_action tcam action_set flag pos = do {
     table \<leftarrow> c_for (nat ACTN_ST_LEN) (\<lambda>i table. do {
       b \<leftarrow> cget action_set (int i);
       cput table (pos * ACTN_ST_LEN + int i) b }) (action_table tcam);
     f0 \<leftarrow> cget flag 0;
     flags \<leftarrow> cput (flag_table tcam) (2 * pos) f0;
     f1 \<leftarrow> cget flag 1;
     flags \<leftarrow> cput flags (2 * pos + 1) f1;
     Some (tcam\<lparr>action_table := table, flag_table := flags\<rparr>)
   }"

section \<open>Moving rows\<close>

text \<open>
  The loop that fills a local \<open>dummy\<close> array from row \<open>p\<close>. The array is written from its
  first element up and read only when it is full, so it is built by appending.
\<close>

definition copy_row :: "int \<Rightarrow> byte list \<Rightarrow> int \<Rightarrow> byte list option" where
  "copy_row w table p =
     c_for (nat w) (\<lambda>i dummy. do { b \<leftarrow> cget table (p * w + int i); Some (dummy @ [b]) }) []"

lemma flow_tail_write: "write_new_flow_entry t e = Some t' \<Longrightarrow> flow_tail t' = flow_tail t + 1"
  by (auto simp: write_new_flow_entry_def split: bind_splits)

lemma mask_tail_write: "write_new_mask t m = Some (t', m') \<Longrightarrow> mask_tail t' = mask_tail t + 1"
  by (auto simp: write_new_mask_def split: bind_splits)

lemma write_action_flow_tail: "write_new_action t a f p = Some t' \<Longrightarrow> flow_tail t' = flow_tail t"
  by (auto simp: write_new_action_def split: bind_splits)

function restructure_flow_table_loop :: "tcam_unit \<Rightarrow> int \<Rightarrow> tcam_unit option" where
  "restructure_flow_table_loop tcam pos =
     (if flow_tail tcam > pos then do {
        dummy_flow \<leftarrow> copy_row FLW_ENT_LEN (flow_table tcam) (flow_tail tcam - 1);
        tcam' \<leftarrow> write_new_flow_entry tcam dummy_flow;
        restructure_flow_table_loop (tcam'\<lparr>flow_tail := flow_tail tcam' - 2\<rparr>) pos }
      else Some tcam)"
  by pat_completeness auto
termination
  by (relation "measure (\<lambda>(t, pos). nat (flow_tail t - pos))") (auto dest: flow_tail_write)

definition restructure_flow_table :: "tcam_unit \<Rightarrow> int \<Rightarrow> tcam_unit option" where
  "restructure_flow_table tcam pos = do {
     let flow_tail_old = flow_tail tcam;
     tcam \<leftarrow> restructure_flow_table_loop tcam pos;
     Some (tcam\<lparr>flow_tail := flow_tail_old + 1\<rparr>)
   }"

text \<open>One round of the two loops over the action and flag tables: row \<open>src\<close> goes to \<open>dst\<close>.\<close>

definition move_action :: "tcam_unit \<Rightarrow> int \<Rightarrow> int \<Rightarrow> tcam_unit option" where
  "move_action flow_unit src dst = do {
     dummy_action \<leftarrow> copy_row ACTN_ST_LEN (action_table flow_unit) src;
     f0 \<leftarrow> cget (flag_table flow_unit) (2 * src);
     f1 \<leftarrow> cget (flag_table flow_unit) (2 * src + 1);
     write_new_action flow_unit dummy_action [f0, f1] dst
   }"

function restructure_action_loop :: "tcam_unit \<Rightarrow> int \<Rightarrow> int \<Rightarrow> tcam_unit option" where
  "restructure_action_loop flow_unit tail pos =
     (if tail > pos then do {
        flow_unit \<leftarrow> move_action flow_unit (tail - 1) tail;
        restructure_action_loop flow_unit (tail - 1) pos }
      else Some flow_unit)"
  by pat_completeness auto
termination
  by (relation "measure (\<lambda>(t, tail, pos). nat (tail - pos))") auto

definition restructure_action_tables :: "tcam_unit \<Rightarrow> int \<Rightarrow> tcam_unit option" where
  "restructure_action_tables flow_unit pos =
     restructure_action_loop flow_unit (flow_tail flow_unit - 1) pos"

function delete_restructure_mask_loop :: "tcam_unit \<Rightarrow> int \<Rightarrow> tcam_unit option" where
  "delete_restructure_mask_loop tcam mask_tail_old =
     (if mask_tail tcam < mask_tail_old - 1 then do {
        dummy_mask \<leftarrow> copy_row MTCH_FLD_LEN_i (mask_table tcam) (mask_tail tcam + 1);
        (tcam', dummy_mask) \<leftarrow> write_new_mask tcam dummy_mask;
        delete_restructure_mask_loop tcam' mask_tail_old }
      else Some tcam)"
  by pat_completeness auto
termination
  by (relation "measure (\<lambda>(t, old). nat (old - mask_tail t))") (auto dest: mask_tail_write)

definition delete_restructure_mask :: "tcam_unit \<Rightarrow> int \<Rightarrow> tcam_unit option" where
  "delete_restructure_mask tcam pos = do {
     let mask_tail_old = mask_tail tcam;
     tcam \<leftarrow> delete_restructure_mask_loop (tcam\<lparr>mask_tail := pos\<rparr>) mask_tail_old;
     Some (tcam\<lparr>mask_tail := mask_tail_old - 1\<rparr>)
   }"

function delete_restructure_flow_loop :: "tcam_unit \<Rightarrow> int \<Rightarrow> tcam_unit option" where
  "delete_restructure_flow_loop tcam flow_tail_old =
     (if flow_tail tcam < flow_tail_old - 1 then do {
        dummy_flow \<leftarrow> copy_row FLW_ENT_LEN (flow_table tcam) (flow_tail tcam + 1);
        tcam' \<leftarrow> write_new_flow_entry tcam dummy_flow;
        delete_restructure_flow_loop tcam' flow_tail_old }
      else Some tcam)"
  by pat_completeness auto
termination
  by (relation "measure (\<lambda>(t, old). nat (old - flow_tail t))") (auto dest: flow_tail_write)

definition delete_restructure_flow :: "tcam_unit \<Rightarrow> int \<Rightarrow> tcam_unit option" where
  "delete_restructure_flow tcam pos = do {
     let flow_tail_old = flow_tail tcam;
     tcam \<leftarrow> delete_restructure_flow_loop (tcam\<lparr>flow_tail := pos\<rparr>) flow_tail_old;
     Some (tcam\<lparr>flow_tail := flow_tail_old - 1\<rparr>)
   }"

function delete_restructure_action_loop :: "tcam_unit \<Rightarrow> int \<Rightarrow> tcam_unit option" where
  "delete_restructure_action_loop flow_unit j =
     (if j < flow_tail flow_unit then do {
        flow_unit' \<leftarrow> move_action flow_unit (j + 1) j;
        delete_restructure_action_loop flow_unit' (j + 1) }
      else Some flow_unit)"
  by pat_completeness auto
termination
  by (relation "measure (\<lambda>(t, j). nat (flow_tail t - j))")
    (auto simp: move_action_def dest: write_action_flow_tail split: bind_splits)

definition delete_restructure_action :: "tcam_unit \<Rightarrow> int \<Rightarrow> tcam_unit option" where
  "delete_restructure_action flow_unit pos = delete_restructure_action_loop flow_unit pos"

declare restructure_flow_table_loop.simps [simp del] restructure_action_loop.simps [simp del]
  delete_restructure_mask_loop.simps [simp del] delete_restructure_flow_loop.simps [simp del]
  delete_restructure_action_loop.simps [simp del]

section \<open>What writing a row does\<close>

text \<open>A written flow entry keeps its 46 bytes and gets a counter of 0 and a timeout of 255.\<close>

definition fresh :: "byte list \<Rightarrow> byte list" where
  "fresh e = take 46 e @ [0, 255]"

definition unused_reset :: "byte list \<Rightarrow> byte list" where
  "unused_reset m = put_bits 357 3 (\<lambda>_. False) m"

lemma length_fresh: "46 \<le> length e \<Longrightarrow> length (fresh e) = 48"
  by (simp add: fresh_def)

lemma length_unused_reset [simp]: "length (unused_reset m) = length m"
  by (simp add: unused_reset_def)

lemmas tcam_consts = MTCH_FLD_LEN_i_def FLW_ENT_LEN_def NO_F_FLWS_def ACTN_ST_LEN_def

lemma c_for_copy_at:
  assumes "n \<le> length src" "0 \<le> b" "nat b + n \<le> length t"
  shows "c_for n (\<lambda>i t. do { v \<leftarrow> cget src (int i); cput t (b + int i) v }) t =
     Some (blit t (nat b) (take n src))"
proof -
  have "c_for n (\<lambda>i t. do { v \<leftarrow> cget src (int i); cput t (int (nat b) + int i) v }) t =
     Some (blit t (nat b) (map ((!) src) [0..<n]))"
    using assms by (intro c_for_copy) (simp_all add: cget_int)
  moreover have "map ((!) src) [0..<n] = take n src"
    using assms(1) by (intro nth_equalityI) auto
  ultimately show ?thesis using assms(2) by simp
qed

lemma blit_grow:
  "b + length xs < length t \<Longrightarrow> c = b + length xs \<Longrightarrow> (blit t b xs)[c := v] = blit t b (xs @ [v])"
  by (simp add: blit_snoc)

lemma write_new_flow_entry_ok:
  assumes "length (flow_table t) = 960" "flow_tail t = int n" "n < 20" "46 \<le> length e"
  shows "write_new_flow_entry t e =
     Some (t\<lparr>flow_table := blit (flow_table t) (48 * n) (fresh e), flow_tail := int n + 1\<rparr>)"
proof -
  have "c_for 46 (\<lambda>i table. do { b \<leftarrow> cget e (int i); cput table (int n * 48 + int i) b })
      (flow_table t) = Some (blit (flow_table t) (48 * n) (take 46 e))"
    using c_for_copy_at[of 46 e "int n * 48" "flow_table t"] assms
    by (simp add: nat_mult_distrib mult.commute)
  moreover have "cput (blit (flow_table t) (48 * n) (take 46 e)) (int n * 48 + 46) 0 =
      Some (blit (flow_table t) (48 * n) (take 46 e @ [0]))"
    using assms by (simp add: cput_def length_blit nat_add_distrib nat_mult_distrib blit_grow)
  moreover have "cput (blit (flow_table t) (48 * n) (take 46 e @ [0])) (int n * 48 + 46 + 1) 255 =
      Some (blit (flow_table t) (48 * n) (fresh e))"
    using assms by (simp add: cput_def length_blit nat_add_distrib nat_mult_distrib blit_grow fresh_def)
  ultimately show ?thesis
    using assms(2) by (simp add: write_new_flow_entry_def tcam_consts)
qed

lemma write_new_mask_ok:
  assumes "length (mask_table t) = 900" "mask_tail t = int n" "n < 20" "length m = 45"
  shows "write_new_mask t m =
     Some (t\<lparr>mask_table := blit (mask_table t) (45 * n) (unused_reset m), mask_tail := int n + 1\<rparr>,
       unused_reset m)"
proof -
  have "unused_reset m = put_bit 359 False (put_bit 358 False (put_bit 357 False m))"
    by (simp add: unused_reset_def numeral_3_eq_3)
  then have "do { m \<leftarrow> reset_bit m 357; m \<leftarrow> reset_bit m 358; reset_bit m 359 } = Some (unused_reset m)"
    using assms(4) reset_bit_put[of 357 m] reset_bit_put[of 358 "put_bit 357 False m"]
      reset_bit_put[of 359 "put_bit 358 False (put_bit 357 False m)"] by simp
  moreover have "c_for 45 (\<lambda>i table. do { b \<leftarrow> cget (unused_reset m) (int i); cput table (int n * 45 + int i) b })
      (mask_table t) = Some (blit (mask_table t) (45 * n) (unused_reset m))"
    using c_for_copy_at[of 45 "unused_reset m" "int n * 45" "mask_table t"] assms
    by (simp add: nat_mult_distrib mult.commute)
  ultimately show ?thesis
    using assms(2) by (auto simp: write_new_mask_def tcam_consts split: bind_splits)
qed

lemma write_new_action_ok:
  assumes "length (action_table t) = 620" "length (flag_table t) = 40" "pos = int n" "n < 20"
    and "31 \<le> length a" "2 \<le> length f"
  shows "write_new_action t a f pos =
     Some (t\<lparr>action_table := blit (action_table t) (31 * n) (take 31 a),
       flag_table := blit (flag_table t) (2 * n) (take 2 f)\<rparr>)"
proof -
  have "c_for 31 (\<lambda>i table. do { b \<leftarrow> cget a (int i); cput table (int n * 31 + int i) b })
      (action_table t) = Some (blit (action_table t) (31 * n) (take 31 a))"
    using c_for_copy_at[of 31 a "int n * 31" "action_table t"] assms
    by (simp add: nat_mult_distrib mult.commute)
  moreover have "cput (flag_table t) (2 * int n) (f ! 0) = Some (blit (flag_table t) (2 * n) [f ! 0])"
    using assms cput_int[of "2 * n" "flag_table t"] by (simp add: blit_update)
  moreover have "cput (blit (flag_table t) (2 * n) [f ! 0]) (2 * int n + 1) (f ! 1) =
      Some (blit (flag_table t) (2 * n) [f ! 0, f ! 1])"
    using assms cput_int[of "2 * n + 1" "blit (flag_table t) (2 * n) [f ! 0]"]
      blit_grow[of "2 * n" "[f ! 0]" "flag_table t" "2 * n + 1" "f ! 1"]
    by (simp add: length_blit add.commute)
  moreover have "take 2 f = [f ! 0, f ! 1]"
    using assms(6) by (cases f; cases "tl f") auto
  moreover have "cget f 0 = Some (f ! 0)" "cget f 1 = Some (f ! 1)"
    using assms(6) by (auto simp: cget_def)
  ultimately show ?thesis
    using assms(3) by (simp add: write_new_action_def tcam_consts)
qed

lemma copy_row_ok:
  assumes "w * Suc n \<le> length table"
  shows "copy_row (int w) table (int n) = Some (row w n table)"
proof -
  have "c_for k (\<lambda>i dummy. do { b \<leftarrow> cget table (int n * int w + int i); Some (dummy @ [b]) }) [] =
      Some (map (\<lambda>i. table ! (w * n + i)) [0..<k])" if "k \<le> w" for k
    using that
  proof (induction k)
    case (Suc k)
    have "cget table (int n * int w + int k) = Some (table ! (w * n + k))"
      using Suc.prems assms cget_int[of "w * n + k" table] by (simp add: mult.commute)
    with Suc show ?case by simp
  qed simp
  from this[of w] show ?thesis
    using assms by (simp add: copy_row_def row_def slice_eq_map)
qed

section \<open>What moving rows does\<close>

text \<open>
  The reference for the moving loops, on one flat table. \<open>shift_down\<close> moves the \<open>k\<close> rows
  from \<open>lo\<close> on down by one, the last first; \<open>shift_up\<close> moves \<open>k\<close> rows up by one onto \<open>lo\<close>,
  the first first. \<open>f\<close> is what the table's writer does to a row.
\<close>

primrec shift_down ::
  "nat \<Rightarrow> ('a list \<Rightarrow> 'a list) \<Rightarrow> nat \<Rightarrow> nat \<Rightarrow> 'a list \<Rightarrow> 'a list" where
  "shift_down w f lo 0 t = t"
| "shift_down w f lo (Suc k) t =
     shift_down w f lo k (blit t (w * (lo + Suc k)) (f (row w (lo + k) t)))"

primrec shift_up ::
  "nat \<Rightarrow> ('a list \<Rightarrow> 'a list) \<Rightarrow> nat \<Rightarrow> nat \<Rightarrow> 'a list \<Rightarrow> 'a list" where
  "shift_up w f lo 0 t = t"
| "shift_up w f lo (Suc k) t =
     shift_up w f (Suc lo) k (blit t (w * lo) (f (row w (Suc lo) t)))"

text \<open>What every table promises: its writer makes a row of the table's width from a row.\<close>

locale row_table =
  fixes w :: nat and wr :: "byte list \<Rightarrow> byte list"
  assumes wr_length: "length r = w \<Longrightarrow> length (wr r) = w"
begin

lemma write_row:
  assumes "length r = w" "w * Suc i \<le> length t"
  shows "length (blit t (w * i) r) = length t"
    and "w * Suc j \<le> length t \<Longrightarrow> row w j (blit t (w * i) r) = (if j = i then r else row w j t)"
  using assms by (simp_all add: length_blit row_blit_same row_blit_other add.commute)

lemma moved_length: "w * Suc i \<le> length t \<Longrightarrow> length (wr (row w i t)) = w"
  by (rule wr_length) (rule length_row)

lemma Suc_row_le: "w * Suc i \<le> n \<Longrightarrow> j \<le> i \<Longrightarrow> w * Suc j \<le> n"
  by (meson Suc_le_mono le_trans mult_le_mono2)

lemma shift_down_row:
  assumes "w * Suc (lo + k) \<le> length t"
  shows "length (shift_down w wr lo k t) = length t"
    and "w * Suc j \<le> length t \<Longrightarrow> row w j (shift_down w wr lo k t) =
      (if lo < j \<and> j \<le> lo + k then wr (row w (j - 1) t) else row w j t)"
proof -
  have "length (shift_down w wr lo k t) = length t \<and> (\<forall>j. w * Suc j \<le> length t \<longrightarrow>
      row w j (shift_down w wr lo k t) =
      (if lo < j \<and> j \<le> lo + k then wr (row w (j - 1) t) else row w j t))"
    using assms
  proof (induction k arbitrary: t)
    case (Suc k)
    let ?t = "blit t (w * (lo + Suc k)) (wr (row w (lo + k) t))"
    have le: "w * Suc (lo + k) \<le> length t" using Suc_row_le[OF Suc.prems, of "lo + k"] by simp
    note wr = write_row[OF moved_length[OF le], of "lo + Suc k" t] Suc.prems
    have "length ?t = length t" using wr by simp
    moreover have "row w (j - 1) ?t = row w (j - 1) t"
      if "j \<le> lo + k" "w * Suc j \<le> length t" for j
      using wr(2)[OF Suc.prems, of "j - 1"] Suc_row_le[OF that(2), of "j - 1"] that(1) by auto
    moreover have "j \<le> lo + Suc k \<longleftrightarrow> j \<le> lo + k \<or> j = lo + Suc k" for j by auto
    ultimately show ?case
      using Suc.IH[of ?t] le wr(2)[OF Suc.prems] by auto
  qed auto
  then show "length (shift_down w wr lo k t) = length t"
    and "w * Suc j \<le> length t \<Longrightarrow> row w j (shift_down w wr lo k t) =
      (if lo < j \<and> j \<le> lo + k then wr (row w (j - 1) t) else row w j t)" by blast+
qed

lemma shift_up_row:
  assumes "w * Suc (lo + k) \<le> length t"
  shows "length (shift_up w wr lo k t) = length t"
    and "w * Suc j \<le> length t \<Longrightarrow> row w j (shift_up w wr lo k t) =
      (if lo \<le> j \<and> j < lo + k then wr (row w (Suc j) t) else row w j t)"
proof -
  have "length (shift_up w wr lo k t) = length t \<and> (\<forall>j. w * Suc j \<le> length t \<longrightarrow>
      row w j (shift_up w wr lo k t) =
      (if lo \<le> j \<and> j < lo + k then wr (row w (Suc j) t) else row w j t))"
    using assms
  proof (induction k arbitrary: lo t)
    case (Suc k)
    let ?t = "blit t (w * lo) (wr (row w (Suc lo) t))"
    have le: "w * Suc (Suc lo) \<le> length t" "w * Suc lo \<le> length t"
      using Suc_row_le[OF Suc.prems, of "Suc lo"] Suc_row_le[OF Suc.prems, of lo] by simp_all
    note wr = write_row[OF moved_length[OF le(1)] le(2)]
    have "row w (Suc j) ?t = row w (Suc j) t" if "Suc lo \<le> j" "j < lo + Suc k" for j
      using wr(2)[of "Suc j"] Suc_row_le[OF Suc.prems, of "Suc j"] that by simp
    then show ?case
      using Suc.IH[of "Suc lo" ?t] Suc.prems wr by auto
  qed auto
  then show "length (shift_up w wr lo k t) = length t"
    and "w * Suc j \<le> length t \<Longrightarrow> row w j (shift_up w wr lo k t) =
      (if lo \<le> j \<and> j < lo + k then wr (row w (Suc j) t) else row w j t)" by blast+
qed

text \<open>Seen as a list of rows: opening a gap and filling it inserts, closing one removes.\<close>

lemma rows_insert:
  assumes "pos \<le> n" "w * Suc n \<le> length t" "length r = w"
  shows "rows w (Suc n) (blit (shift_down w wr pos (n - pos) t) (w * pos) r) =
     take pos (rows w n t) @ r # map wr (drop pos (rows w n t))"
proof (rule nth_equalityI)
  show "length (rows w (Suc n) (blit (shift_down w wr pos (n - pos) t) (w * pos) r)) =
     length (take pos (rows w n t) @ r # map wr (drop pos (rows w n t)))" using assms(1) by simp
next
  fix i assume "i < length (rows w (Suc n) (blit (shift_down w wr pos (n - pos) t) (w * pos) r))"
  then have i: "i \<le> n" by simp
  have "w * Suc i \<le> length t" "w * Suc pos \<le> length t"
    using Suc_row_le[OF assms(2)] i assms(1) by blast+
  moreover have "i - 1 = pos + x" if "i - pos = Suc x" for x using that by simp
  ultimately show "rows w (Suc n) (blit (shift_down w wr pos (n - pos) t) (w * pos) r) ! i =
     (take pos (rows w n t) @ r # map wr (drop pos (rows w n t))) ! i"
    using i assms shift_down_row[of pos "n - pos" t] write_row[OF assms(3), of pos]
    by (auto simp: nth_append nth_Cons split: nat.splits)
qed

lemma rows_remove:
  assumes "pos < n" "w * n \<le> length t"
  shows "rows w (n - 1) (shift_up w wr pos (n - 1 - pos) t) =
     take pos (rows w n t) @ map wr (drop (Suc pos) (rows w n t))"
proof (rule nth_equalityI)
  show "length (rows w (n - 1) (shift_up w wr pos (n - 1 - pos) t)) =
     length (take pos (rows w n t) @ map wr (drop (Suc pos) (rows w n t)))" using assms(1) by simp
next
  fix i assume "i < length (rows w (n - 1) (shift_up w wr pos (n - 1 - pos) t))"
  then have i: "Suc i < n" by simp
  have "w * Suc (pos + (n - 1 - pos)) \<le> length t" using assms by simp
  note up = shift_up_row[OF this]
  have "w * Suc i \<le> length t" using Suc_row_le[of "n - 1" "length t" i] i assms by simp
  then show "rows w (n - 1) (shift_up w wr pos (n - 1 - pos) t) ! i =
     (take pos (rows w n t) @ map wr (drop (Suc pos) (rows w n t))) ! i"
    using i assms up by (auto simp: nth_append)
qed

end

text \<open>The four tables. Only the action and flag tables move their rows unchanged.\<close>

interpretation flow_rows: row_table 48 fresh
  by unfold_locales (simp add: length_fresh)

interpretation mask_rows: row_table 45 unused_reset
  by unfold_locales simp

interpretation action_rows: row_table 31 "\<lambda>r. r"
  by unfold_locales

interpretation flag_rows: row_table 2 "\<lambda>r. r"
  by unfold_locales

section \<open>The loops against the reference\<close>

lemma copy_flow_row:
  "length t = 960 \<Longrightarrow> p = int n \<Longrightarrow> n < 20 \<Longrightarrow> copy_row FLW_ENT_LEN t p = Some (row 48 n t)"
  using copy_row_ok[of 48 n t] by (simp add: FLW_ENT_LEN_def)

lemma copy_mask_row:
  "length t = 900 \<Longrightarrow> p = int n \<Longrightarrow> n < 20 \<Longrightarrow> copy_row MTCH_FLD_LEN_i t p = Some (row 45 n t)"
  using copy_row_ok[of 45 n t] by (simp add: MTCH_FLD_LEN_i_def)

lemma copy_action_row:
  "length t = 620 \<Longrightarrow> p = int n \<Longrightarrow> n < 20 \<Longrightarrow> copy_row ACTN_ST_LEN t p = Some (row 31 n t)"
  using copy_row_ok[of 31 n t] by (simp add: ACTN_ST_LEN_def)

lemma restructure_flow_loop_ok:
  assumes "length (flow_table t) = 960" "flow_tail t = int (lo + k)" "lo + k < 20"
  shows "restructure_flow_table_loop t (int lo) =
     Some (t\<lparr>flow_table := shift_down 48 fresh lo k (flow_table t), flow_tail := int lo\<rparr>)"
  using assms
proof (induction k arbitrary: t)
  case 0
  then show ?case by (simp add: restructure_flow_table_loop.simps[of t])
next
  case (Suc k)
  let ?r = "row 48 (lo + k) (flow_table t)"
  let ?ft = "blit (flow_table t) (48 * (lo + Suc k)) (fresh ?r)"
  let ?t = "t\<lparr>flow_table := ?ft, flow_tail := int (lo + Suc k) + 1\<rparr>"
  have "copy_row FLW_ENT_LEN (flow_table t) (flow_tail t - 1) = Some ?r"
    using Suc.prems by (intro copy_flow_row) auto
  moreover have "write_new_flow_entry t ?r = Some ?t"
    using Suc.prems by (intro write_new_flow_entry_ok) (auto simp: length_row)
  moreover have "length ?ft = 960"
    using Suc.prems flow_rows.write_row(1)[OF flow_rows.moved_length, of "lo + k" "flow_table t" "lo + Suc k"]
    by simp
  ultimately show ?case
    using Suc.IH[of "?t\<lparr>flow_tail := flow_tail ?t - 2\<rparr>"] Suc.prems
    by (simp add: restructure_flow_table_loop.simps[of t] add_ac)
qed

lemma restructure_flow_table_ok:
  assumes "length (flow_table t) = 960" "flow_tail t = int n" "pos \<le> n" "n < 20"
  shows "restructure_flow_table t (int pos) =
     Some (t\<lparr>flow_table := shift_down 48 fresh pos (n - pos) (flow_table t), flow_tail := int n + 1\<rparr>)"
  using restructure_flow_loop_ok[of t pos "n - pos"] assms
  by (simp add: restructure_flow_table_def)

lemma move_action_ok:
  assumes "length (action_table t) = 620" "length (flag_table t) = 40"
    and "a = int i" "b = int j" "i < 20" "j < 20"
  shows "move_action t a b =
     Some (t\<lparr>action_table := blit (action_table t) (31 * j) (row 31 i (action_table t)),
       flag_table := blit (flag_table t) (2 * j) (row 2 i (flag_table t))\<rparr>)"
proof -
  have "row 2 i (flag_table t) = [flag_table t ! (2 * i), flag_table t ! (2 * i + 1)]"
    using assms by (intro nth_equalityI) (auto simp: length_row nth_row less_2_cases_iff)
  moreover have "cget (flag_table t) (2 * a) = Some (flag_table t ! (2 * i))"
    "cget (flag_table t) (2 * a + 1) = Some (flag_table t ! (2 * i + 1))"
    using assms cget_int[of "2 * i" "flag_table t"] cget_int[of "2 * i + 1" "flag_table t"]
    by (simp_all add: add.commute)
  ultimately show ?thesis
    using assms write_new_action_ok[of t b j "row 31 i (action_table t)" "row 2 i (flag_table t)"]
    by (simp add: move_action_def copy_action_row length_row)
qed

lemma restructure_action_loop_ok:
  assumes "length (action_table t) = 620" "length (flag_table t) = 40" "lo + k < 20"
  shows "restructure_action_loop t (int (lo + k)) (int lo) =
     Some (t\<lparr>action_table := shift_down 31 (\<lambda>r. r) lo k (action_table t),
       flag_table := shift_down 2 (\<lambda>r. r) lo k (flag_table t)\<rparr>)"
  using assms
proof (induction k arbitrary: t)
  case 0
  then show ?case by (simp add: restructure_action_loop.simps[of t])
next
  case (Suc k)
  let ?t = "t\<lparr>action_table := blit (action_table t) (31 * (lo + Suc k)) (row 31 (lo + k) (action_table t)),
       flag_table := blit (flag_table t) (2 * (lo + Suc k)) (row 2 (lo + k) (flag_table t))\<rparr>"
  have "move_action t (int (lo + Suc k) - 1) (int (lo + Suc k)) = Some ?t"
    using Suc.prems by (intro move_action_ok) auto
  moreover have "length (action_table ?t) = 620" "length (flag_table ?t) = 40"
    using Suc.prems by (simp_all add: length_blit length_row)
  ultimately show ?case
    using Suc.IH[of ?t] Suc.prems by (simp add: restructure_action_loop.simps[of t] add_ac)
qed

lemma restructure_action_tables_ok:
  assumes "length (action_table t) = 620" "length (flag_table t) = 40"
    and "flow_tail t = int n + 1" "pos \<le> n" "n < 20"
  shows "restructure_action_tables t (int pos) =
     Some (t\<lparr>action_table := shift_down 31 (\<lambda>r. r) pos (n - pos) (action_table t),
       flag_table := shift_down 2 (\<lambda>r. r) pos (n - pos) (flag_table t)\<rparr>)"
  using restructure_action_loop_ok[of t pos "n - pos"] assms
  by (simp add: restructure_action_tables_def)

lemma delete_mask_loop_ok:
  assumes "length (mask_table t) = 900" "mask_tail t = int lo" "lo + k < 20"
  shows "delete_restructure_mask_loop t (int (lo + k) + 1) =
     Some (t\<lparr>mask_table := shift_up 45 unused_reset lo k (mask_table t), mask_tail := int (lo + k)\<rparr>)"
  using assms
proof (induction k arbitrary: t lo)
  case 0
  then show ?case by (simp add: delete_restructure_mask_loop.simps[of t])
next
  case (Suc k)
  let ?r = "row 45 (Suc lo) (mask_table t)"
  let ?t = "t\<lparr>mask_table := blit (mask_table t) (45 * lo) (unused_reset ?r), mask_tail := int lo + 1\<rparr>"
  have "copy_row MTCH_FLD_LEN_i (mask_table t) (mask_tail t + 1) = Some ?r"
    using Suc.prems by (intro copy_mask_row) auto
  moreover have "write_new_mask t ?r = Some (?t, unused_reset ?r)"
    using Suc.prems by (intro write_new_mask_ok) (auto simp: length_row)
  moreover have "length (mask_table ?t) = 900"
    using Suc.prems by (simp add: length_blit length_row)
  ultimately show ?case
    using Suc.IH[of ?t "Suc lo"] Suc.prems by (simp add: delete_restructure_mask_loop.simps[of t] add_ac)
qed

lemma delete_restructure_mask_ok:
  assumes "length (mask_table t) = 900" "mask_tail t = int n" "pos < n" "n \<le> 20"
  shows "delete_restructure_mask t (int pos) =
     Some (t\<lparr>mask_table := shift_up 45 unused_reset pos (n - 1 - pos) (mask_table t),
       mask_tail := int n - 1\<rparr>)"
  using delete_mask_loop_ok[of "t\<lparr>mask_tail := int pos\<rparr>" pos "n - 1 - pos"] assms
  by (simp add: delete_restructure_mask_def)

lemma delete_flow_loop_ok:
  assumes "length (flow_table t) = 960" "flow_tail t = int lo" "lo + k < 20"
  shows "delete_restructure_flow_loop t (int (lo + k) + 1) =
     Some (t\<lparr>flow_table := shift_up 48 fresh lo k (flow_table t), flow_tail := int (lo + k)\<rparr>)"
  using assms
proof (induction k arbitrary: t lo)
  case 0
  then show ?case by (simp add: delete_restructure_flow_loop.simps[of t])
next
  case (Suc k)
  let ?r = "row 48 (Suc lo) (flow_table t)"
  let ?t = "t\<lparr>flow_table := blit (flow_table t) (48 * lo) (fresh ?r), flow_tail := int lo + 1\<rparr>"
  have "copy_row FLW_ENT_LEN (flow_table t) (flow_tail t + 1) = Some ?r"
    using Suc.prems by (intro copy_flow_row) auto
  moreover have "write_new_flow_entry t ?r = Some ?t"
    using Suc.prems by (intro write_new_flow_entry_ok) (auto simp: length_row)
  moreover have "length (flow_table ?t) = 960"
    using Suc.prems by (simp add: length_blit length_row length_fresh)
  ultimately show ?case
    using Suc.IH[of ?t "Suc lo"] Suc.prems by (simp add: delete_restructure_flow_loop.simps[of t] add_ac)
qed

lemma delete_restructure_flow_ok:
  assumes "length (flow_table t) = 960" "flow_tail t = int n" "pos < n" "n \<le> 20"
  shows "delete_restructure_flow t (int pos) =
     Some (t\<lparr>flow_table := shift_up 48 fresh pos (n - 1 - pos) (flow_table t), flow_tail := int n - 1\<rparr>)"
  using delete_flow_loop_ok[of "t\<lparr>flow_tail := int pos\<rparr>" pos "n - 1 - pos"] assms
  by (simp add: delete_restructure_flow_def)

lemma delete_action_loop_ok:
  assumes "length (action_table t) = 620" "length (flag_table t) = 40"
    and "flow_tail t = int (lo + k)" "lo + k < 20"
  shows "delete_restructure_action_loop t (int lo) =
     Some (t\<lparr>action_table := shift_up 31 (\<lambda>r. r) lo k (action_table t),
       flag_table := shift_up 2 (\<lambda>r. r) lo k (flag_table t)\<rparr>)"
  using assms
proof (induction k arbitrary: t lo)
  case 0
  then show ?case by (simp add: delete_restructure_action_loop.simps[of t])
next
  case (Suc k)
  let ?t = "t\<lparr>action_table := blit (action_table t) (31 * lo) (row 31 (Suc lo) (action_table t)),
       flag_table := blit (flag_table t) (2 * lo) (row 2 (Suc lo) (flag_table t))\<rparr>"
  have "move_action t (int lo + 1) (int lo) = Some ?t"
    using Suc.prems by (intro move_action_ok) auto
  moreover have "length (action_table ?t) = 620" "length (flag_table ?t) = 40"
    using Suc.prems by (simp_all add: length_blit length_row)
  ultimately show ?case
    using Suc.IH[of ?t "Suc lo"] Suc.prems by (simp add: delete_restructure_action_loop.simps[of t] add_ac)
qed

lemma delete_restructure_action_ok:
  assumes "length (action_table t) = 620" "length (flag_table t) = 40"
    and "flow_tail t = int n - 1" "pos < n" "n \<le> 20"
  shows "delete_restructure_action t (int pos) =
     Some (t\<lparr>action_table := shift_up 31 (\<lambda>r. r) pos (n - 1 - pos) (action_table t),
       flag_table := shift_up 2 (\<lambda>r. r) pos (n - 1 - pos) (flag_table t)\<rparr>)"
  using delete_action_loop_ok[of t pos "n - 1 - pos"] assms
  by (simp add: delete_restructure_action_def)

end
