(* ===== verification/Tcam_Search.thy ===== *)
theory Tcam_Search
  imports Tcam_Tables
begin

text \<open>
  \<^verbatim>\<open>flow-processing-unit/flow_unit.h\<close>, second part: the lookups. \<open>search_tcam\<close> matches a flow against every
  entry under the mask of the entry's group, counts the hits and returns the hit of the highest
  priority; \<open>search_cache\<close> tries the entries the cache remembers; \<open>search_flow\<close> fetches
  the action set and remembers the entry. The first entry of every group but the first carries
  a marker, bit 356, from which the group of an entry is counted.
\<close>

section \<open>The cache\<close>

text \<open>The two globals: five pairs of a mask position and a flow position, and the next free slot.\<close>

record cache =
  flow_cache :: "(int \<times> int) list"
  cache_top :: int

definition init :: "cache \<Rightarrow> cache option" where
  "init c = do {
     slots \<leftarrow> c_for (nat CACHE_SIZE) (\<lambda>i slots. do {
       slot \<leftarrow> cget slots (int i);
       cput slots (int i) (- 1, snd slot) }) (flow_cache c);
     Some (c\<lparr>flow_cache := slots, cache_top := 1\<rparr>)
   }"

section \<open>Matching one entry\<close>

text \<open>
  The two nested loops the lookups share: is there a bit, among the 360 of a match field, that the
  mask at byte \<open>mask_at\<close> selects and in which the flow and the entry at byte \<open>entry_at\<close>
  differ? Both loops stop at the first such bit.
\<close>

definition mismatch :: "byte list \<Rightarrow> int \<Rightarrow> byte list \<Rightarrow> byte list \<Rightarrow> int \<Rightarrow> bool option" where
  "mismatch masks mask_at flow entries entry_at =
     c_any (nat MTCH_FLD_LEN_i) (\<lambda>i. c_any 8 (\<lambda>j. do {
       m \<leftarrow> read_bit masks ((mask_at + int i) * 8 + int j);
       if m \<noteq> 0 then do {
         a \<leftarrow> read_bit flow (int i * 8 + int j);
         b \<leftarrow> read_bit entries ((entry_at + int i) * 8 + int j);
         Some (a \<noteq> b) }
       else Some False }))"

section \<open>Searching the tables\<close>

text \<open>What happens on a hit: the counter goes up, and the entry with the higher priority stays.\<close>

definition search_tcam_hit ::
  "tcam_unit \<Rightarrow> int \<Rightarrow> int \<Rightarrow> int \<Rightarrow> int list \<Rightarrow> (tcam_unit \<times> int \<times> int list) option" where
  "search_tcam_hit tcam mask_no flow_no match_no mask_pos = do {
     c \<leftarrow> cget (flow_table tcam) (flow_no * FLW_ENT_LEN + 46);
     table \<leftarrow> cput (flow_table tcam) (flow_no * FLW_ENT_LEN + 46) (c + 1);
     let tcam = tcam\<lparr>flow_table := table\<rparr>;
     if match_no \<ge> 0 then do {
       p \<leftarrow> cget table (match_no * FLW_ENT_LEN + 45);
       q \<leftarrow> cget table (flow_no * FLW_ENT_LEN + 45);
       if p < q then do {
         mask_pos \<leftarrow> cput mask_pos 0 mask_no;
         Some (tcam, flow_no, mask_pos) }
       else Some (tcam, match_no, mask_pos) }
     else do {
       mask_pos \<leftarrow> cput mask_pos 0 mask_no;
       Some (tcam, flow_no, mask_pos) }
   }"

lemma search_tcam_hit_tails:
  "search_tcam_hit t a b c mp = Some (t', r, mp') \<Longrightarrow> flow_tail t' = flow_tail t"
  by (auto simp: search_tcam_hit_def Let_def split: bind_splits if_splits)

function search_tcam_loop ::
  "tcam_unit \<Rightarrow> byte list \<Rightarrow> int \<Rightarrow> int \<Rightarrow> int \<Rightarrow> int list \<Rightarrow> (int \<times> tcam_unit \<times> int list) option"
where
  "search_tcam_loop tcam new_flow mask_no flow_no match_no mask_pos =
     (if flow_no < flow_tail tcam then do {
        first \<leftarrow> read_bit (flow_table tcam) ((flow_no * FLW_ENT_LEN + 44) * 8 + 4);
        let mask_no = (if first \<noteq> 0 then mask_no + 1 else mask_no);
        if mask_no \<ge> mask_tail tcam then Some (STR_ERR, tcam, mask_pos)
        else do {
          k \<leftarrow> mismatch (mask_table tcam) (mask_no * MTCH_FLD_LEN_i) new_flow
                 (flow_table tcam) (flow_no * FLW_ENT_LEN);
          (tcam', match_no, mask_pos) \<leftarrow>
            (if \<not> k then search_tcam_hit tcam mask_no flow_no match_no mask_pos
             else Some (tcam, match_no, mask_pos));
          search_tcam_loop tcam' new_flow mask_no (flow_no + 1) match_no mask_pos } }
      else Some (match_no, tcam, mask_pos))"
  by pat_completeness auto
termination
  by (relation "measure (\<lambda>(t, _, _, flow_no, _). nat (flow_tail t - flow_no))")
    (auto dest: search_tcam_hit_tails split: if_splits)

declare search_tcam_loop.simps [simp del]

definition search_tcam ::
  "tcam_unit \<Rightarrow> byte list \<Rightarrow> int list \<Rightarrow> (int \<times> tcam_unit \<times> int list) option" where
  "search_tcam tcam new_flow mask_pos = search_tcam_loop tcam new_flow 0 0 (- 1) mask_pos"

text \<open>The mask of the entry at \<open>pos\<close>, by counting the markers up to it.\<close>

function get_mask_pos_loop :: "tcam_unit \<Rightarrow> int \<Rightarrow> int \<Rightarrow> int \<Rightarrow> int option" where
  "get_mask_pos_loop tcam pos mask_pos i =
     (if i < flow_tail tcam \<and> i \<le> pos then do {
        first \<leftarrow> read_bit (flow_table tcam) ((i * FLW_ENT_LEN + 44) * 8 + 4);
        get_mask_pos_loop tcam pos (if first \<noteq> 0 then mask_pos + 1 else mask_pos) (i + 1) }
      else Some mask_pos)"
  by pat_completeness auto
termination
  by (relation "measure (\<lambda>(t, _, _, i). nat (flow_tail t - i))") auto

declare get_mask_pos_loop.simps [simp del]

definition get_mask_pos :: "tcam_unit \<Rightarrow> int \<Rightarrow> int option" where
  "get_mask_pos tcam pos = get_mask_pos_loop tcam pos 0 0"

text \<open>The first entry of the group of mask \<open>mask_no\<close>; \<open>i\<close> stops at the tail when there is none.\<close>

function locate_mask_group_loop :: "tcam_unit \<Rightarrow> int \<Rightarrow> int \<Rightarrow> int \<Rightarrow> int option" where
  "locate_mask_group_loop tcam mask_no k i =
     (if i < flow_tail tcam then do {
        first \<leftarrow> read_bit (flow_table tcam) ((i * FLW_ENT_LEN + 44) * 8 + 4);
        if first \<noteq> 0 then
          (if k + 1 = mask_no then Some i
           else locate_mask_group_loop tcam mask_no (k + 1) (i + 1))
        else locate_mask_group_loop tcam mask_no k (i + 1) }
      else Some i)"
  by pat_completeness auto
termination
  by (relation "measure (\<lambda>(t, _, _, i). nat (flow_tail t - i))") auto

declare locate_mask_group_loop.simps [simp del]

definition locate_mask_group :: "tcam_unit \<Rightarrow> int \<Rightarrow> int option" where
  "locate_mask_group tcam mask_no =
     (if mask_no = 0 then Some 0
      else do {
        i \<leftarrow> locate_mask_group_loop tcam mask_no 0 0;
        Some (if i = flow_tail tcam then STR_ERR else i) })"

text \<open>
  The redundancy test of an insertion. As the code has it, the new entry is read at bit
  \<open>i * 8 + j\<close>, with the row number \<open>i\<close>, and the stored one at byte \<open>l\<close> of row \<open>i\<close>.
\<close>

definition differs_from_entry ::
  "tcam_unit \<Rightarrow> byte list \<Rightarrow> byte list \<Rightarrow> int \<Rightarrow> bool option" where
  "differs_from_entry tcam msk flow_entry i =
     c_any (nat MTCH_FLD_LEN_i) (\<lambda>l. c_any 8 (\<lambda>j. do {
       m \<leftarrow> read_bit msk (int l * 8 + int j);
       if m \<noteq> 0 then do {
         a \<leftarrow> read_bit flow_entry (i * 8 + int j);
         b \<leftarrow> read_bit (flow_table tcam) ((i * FLW_ENT_LEN + int l) * 8 + int j);
         Some (a \<noteq> b) }
       else Some False }))"

function search_within_mask_group ::
  "tcam_unit \<Rightarrow> byte list \<Rightarrow> byte list \<Rightarrow> int \<Rightarrow> int option" where
  "search_within_mask_group tcam msk flow_entry i = do {
     k \<leftarrow> differs_from_entry tcam msk flow_entry i;
     if \<not> k then Some RDNDNT
     else do {
       first \<leftarrow> read_bit (flow_table tcam) (((i + 1) * FLW_ENT_LEN + 44) * 8 + 4);
       if first = 0 \<and> i + 1 < flow_tail tcam then search_within_mask_group tcam msk flow_entry (i + 1)
       else Some (i + 1) } }"
  by pat_completeness auto
termination
  by (relation "measure (\<lambda>(t, _, _, i). nat (flow_tail t - i))") auto

declare search_within_mask_group.simps [simp del]

section \<open>Searching the cache\<close>

text \<open>
  The loop counts \<open>l\<close> from \<open>cache_top\<close> down to 1 and looks at slot \<open>CACHE_SIZE - l\<close>; round \<open>k\<close>
  here is the one with \<open>l = cache_top - k\<close>. The array \<open>actions\<close> is not used by the code.
\<close>

definition search_cache ::
  "cache \<Rightarrow> byte list \<Rightarrow> tcam_unit \<Rightarrow> (int \<times> tcam_unit) option" where
  "search_cache c flow tcam =
     (if cache_top c > 1 then
        c_for (nat (cache_top c)) (\<lambda>k (match_no, tcam).
          let l = cache_top c - int k in do {
            (mask_no, flow_no) \<leftarrow> cget (flow_cache c) (CACHE_SIZE - l);
            k \<leftarrow> mismatch (mask_table tcam) (mask_no * MTCH_FLD_LEN_i) flow
                   (flow_table tcam) (flow_no * FLW_ENT_LEN);
            if \<not> k then do {
              n \<leftarrow> cget (flow_table tcam) (flow_no * FLW_ENT_LEN + 46);
              table \<leftarrow> cput (flow_table tcam) (flow_no * FLW_ENT_LEN + 46) (n + 1);
              let tcam = tcam\<lparr>flow_table := table\<rparr>;
              if match_no \<ge> 0 then do {
                p \<leftarrow> cget table (match_no * FLW_ENT_LEN + 45);
                q \<leftarrow> cget table (flow_no * FLW_ENT_LEN + 45);
                Some (if p < q then flow_no else match_no, tcam) }
              else Some (flow_no, tcam) }
            else Some (match_no, tcam) }) (- 1, tcam)
      else Some (- 1, tcam))"

definition search_flow ::
  "cache \<Rightarrow> tcam_unit \<Rightarrow> byte list \<Rightarrow> byte list \<Rightarrow> int list \<Rightarrow>
   (int \<times> cache \<times> tcam_unit \<times> byte list \<times> int list) option" where
  "search_flow c flow_unit new_flow action_set mask_pos = do {
     (pos, flow_unit, mask_pos) \<leftarrow> search_tcam flow_unit new_flow mask_pos;
     if pos < 0 then Some (pos, c, flow_unit, action_set, mask_pos)
     else do {
       action_set \<leftarrow> c_for (nat ACTN_ST_LEN) (\<lambda>i action_set. do {
         b \<leftarrow> cget (action_table flow_unit) (pos * ACTN_ST_LEN + int i);
         cput action_set (int i) b }) action_set;
       m \<leftarrow> cget mask_pos 0;
       slots \<leftarrow> cput (flow_cache c) (CACHE_SIZE - cache_top c) (m, pos);
       let top = cache_top c + 1;
       Some (pos, c\<lparr>flow_cache := slots, cache_top := if top > CACHE_SIZE then 1 else top\<rparr>,
             flow_unit, action_set, mask_pos) }
   }"

section \<open>Matching, on rows\<close>

definition marker :: "byte list \<Rightarrow> bool" where
  "marker e = abit e 356"

definition matches :: "byte list \<Rightarrow> byte list \<Rightarrow> byte list \<Rightarrow> bool" where
  "matches m f e \<longleftrightarrow> (\<forall>q<360. abit m q \<longrightarrow> abit f q = abit e q)"

definition prio :: "byte list \<Rightarrow> byte" where
  "prio e = e ! 45"

text \<open>An entry whose hit counter went up by one, modulo 256.\<close>

definition bump :: "byte list \<Rightarrow> byte list" where
  "bump e = e[46 := e ! 46 + 1]"

text \<open>The live rows of the tables.\<close>

definition entries :: "tcam_unit \<Rightarrow> byte list list" where
  "entries t = rows 48 (nat (flow_tail t)) (flow_table t)"

definition masks :: "tcam_unit \<Rightarrow> byte list list" where
  "masks t = rows 45 (nat (mask_tail t)) (mask_table t)"

lemma abit_row:
  assumes "w * Suc i \<le> length t" "q < 8 * w"
  shows "abit t (8 * (w * i) + q) = abit (row w i t) q"
proof -
  have "q div 8 < w" using assms(2) by auto
  moreover have "(8 * (w * i) + q) div 8 = w * i + q div 8" "(8 * (w * i) + q) mod 8 = q mod 8"
    by simp_all
  ultimately show ?thesis using assms(1) by (simp add: abit_def nth_row)
qed

lemma read_row_bit:
  assumes "w * Suc i \<le> length t" "q < 8 * w" "p = 8 * (int w * int i) + int q"
  shows "read_bit t p = Some (if abit (row w i t) q then 1 else 0)"
proof -
  have "8 * (w * i) + q < 8 * length t"
    using assms(1,2) by simp
  from read_bit_abit[OF this] abit_row[OF assms(1,2)] show ?thesis
    by (simp add: assms(3))
qed

lemma read_marker:
  "length t = 960 \<Longrightarrow> p = int i \<Longrightarrow> i < 20 \<Longrightarrow>
   read_bit t ((p * FLW_ENT_LEN + 44) * 8 + 4) = Some (if marker (row 48 i t) then 1 else 0)"
  by (simp add: marker_def FLW_ENT_LEN_def read_row_bit[where w = 48 and i = i and q = 356])

lemma c_any_bits:
  assumes "\<And>i j. i < n \<Longrightarrow> j < 8 \<Longrightarrow> test i j = Some (P (8 * i + j))"
  shows "c_any n (\<lambda>i. c_any 8 (test i)) = Some (\<exists>q < 8 * n. P q)"
proof -
  have "c_any 8 (test i) = Some (\<exists>j<8. P (8 * i + j))" if "i < n" for i
    using that assms by (intro c_any_total) auto
  from c_any_total[OF this]
  have "c_any n (\<lambda>i. c_any 8 (test i)) = Some (\<exists>i<n. \<exists>j<8. P (8 * i + j))" .
  moreover have "(\<exists>i<n. \<exists>j<8. P (8 * i + j)) \<longleftrightarrow> (\<exists>q < 8 * n. P q)"
  proof
    assume "\<exists>q < 8 * n. P q"
    then obtain q where "q < 8 * n" "P q" by auto
    then have "q div 8 < n" "q mod 8 < 8" "P (8 * (q div 8) + q mod 8)" by auto
    then show "\<exists>i<n. \<exists>j<8. P (8 * i + j)" by blast
  next
    assume "\<exists>i<n. \<exists>j<8. P (8 * i + j)"
    then obtain i j where "i < n" "j < 8" "P (8 * i + j)" by auto
    then show "\<exists>q < 8 * n. P q" by (intro exI[of _ "8 * i + j"]) auto
  qed
  ultimately show ?thesis by simp
qed

lemma mismatch_ok:
  assumes "length mt = 900" "length ft = 960" "45 \<le> length f"
    and "m = int a" "a < 20" "n = int b" "b < 20"
  shows "mismatch mt (m * MTCH_FLD_LEN_i) f ft (n * FLW_ENT_LEN) =
     Some (\<not> matches (row 45 a mt) f (row 48 b ft))"
proof -
  have "mismatch mt (m * MTCH_FLD_LEN_i) f ft (n * FLW_ENT_LEN) =
     Some (\<exists>q < 8 * 45. abit (row 45 a mt) q \<and> abit f q \<noteq> abit (row 48 b ft) q)"
    unfolding mismatch_def tcam_consts nat_numeral
  proof (rule c_any_bits)
    fix i j :: nat assume ij: "i < 45" "j < 8"
    let ?q = "8 * i + j"
    have "?q < 360" using ij by simp
    have "read_bit mt ((m * 45 + int i) * 8 + int j) = Some (if abit (row 45 a mt) ?q then 1 else 0)"
      using assms ij by (intro read_row_bit) auto
    moreover have "read_bit ft ((n * 48 + int i) * 8 + int j) = Some (if abit (row 48 b ft) ?q then 1 else 0)"
      using assms ij by (intro read_row_bit) auto
    moreover have "read_bit f (int i * 8 + int j) = Some (if abit f ?q then 1 else 0)"
      using assms ij read_bit_abit[of ?q f] by (simp add: mult.commute)
    ultimately show "do {
       m \<leftarrow> read_bit mt ((m * 45 + int i) * 8 + int j);
       if m \<noteq> 0 then do {
         a \<leftarrow> read_bit f (int i * 8 + int j);
         b \<leftarrow> read_bit ft ((n * 48 + int i) * 8 + int j);
         Some (a \<noteq> b) }
       else Some False } = Some (abit (row 45 a mt) ?q \<and> abit f ?q \<noteq> abit (row 48 b ft) ?q)"
      by simp
  qed
  then show ?thesis by (auto simp: matches_def)
qed

text \<open>
  The redundancy test, as the code computes it: the new entry's byte \<open>i\<close>, the row number, is
  compared with every byte of the stored entry.
\<close>

definition looks_redundant :: "byte list \<Rightarrow> byte list \<Rightarrow> nat \<Rightarrow> byte list \<Rightarrow> bool" where
  "looks_redundant m f i e \<longleftrightarrow>
     (\<forall>q<360. abit m q \<longrightarrow> abit f (8 * i + q mod 8) = abit e q)"

lemma differs_from_entry_ok:
  assumes "length m = 45" "length (flow_table t) = 960" "20 \<le> length f" "n = int i" "i < 20"
  shows "differs_from_entry t m f n = Some (\<not> looks_redundant m f i (row 48 i (flow_table t)))"
proof -
  let ?e = "row 48 i (flow_table t)"
  have "differs_from_entry t m f n =
     Some (\<exists>q < 8 * 45. abit m q \<and> abit f (8 * i + q mod 8) \<noteq> abit ?e q)"
    unfolding differs_from_entry_def tcam_consts nat_numeral
  proof (rule c_any_bits)
    fix l j :: nat assume lj: "l < 45" "j < 8"
    let ?q = "8 * l + j"
    have "read_bit m (int l * 8 + int j) = Some (if abit m ?q then 1 else 0)"
      using assms lj read_bit_abit[of ?q m] by (simp add: mult.commute)
    moreover have "read_bit (flow_table t) ((n * 48 + int l) * 8 + int j) =
        Some (if abit ?e ?q then 1 else 0)"
      using assms lj by (intro read_row_bit) auto
    moreover have "read_bit f (n * 8 + int j) = Some (if abit f (8 * i + ?q mod 8) then 1 else 0)"
      using assms lj read_bit_abit[of "8 * i + j" f] by (simp add: mult.commute)
    ultimately show "do {
       m \<leftarrow> read_bit m (int l * 8 + int j);
       if m \<noteq> 0 then do {
         a \<leftarrow> read_bit f (n * 8 + int j);
         b \<leftarrow> read_bit (flow_table t) ((n * 48 + int l) * 8 + int j);
         Some (a \<noteq> b) }
       else Some False } = Some (abit m ?q \<and> abit f (8 * i + ?q mod 8) \<noteq> abit ?e ?q)"
      by simp
  qed
  then show ?thesis by (auto simp: looks_redundant_def)
qed

section \<open>The search, on rows\<close>

text \<open>The group of entry \<open>i\<close>, counted by its markers, and whether a flow hits it.\<close>

definition group :: "byte list list \<Rightarrow> nat \<Rightarrow> nat" where
  "group es i = length (filter marker (take (Suc i) es))"

definition hit :: "byte list list \<Rightarrow> byte list list \<Rightarrow> byte list \<Rightarrow> nat \<Rightarrow> bool" where
  "hit ms es f i \<longleftrightarrow> matches (ms ! group es i) f (es ! i)"

text \<open>The first entry of the highest priority among those that satisfy \<open>P\<close>.\<close>

primrec best :: "(nat \<Rightarrow> bool) \<Rightarrow> byte list list \<Rightarrow> nat \<Rightarrow> nat option" where
  "best P es 0 = None"
| "best P es (Suc i) =
     (if P i then (case best P es i of None \<Rightarrow> Some i
        | Some j \<Rightarrow> if prio (es ! j) < prio (es ! i) then Some i else Some j)
      else best P es i)"

primrec bump_table :: "(nat \<Rightarrow> bool) \<Rightarrow> nat \<Rightarrow> byte list \<Rightarrow> byte list" where
  "bump_table P 0 t = t"
| "bump_table P (Suc i) t = (let u = bump_table P i t in
     if P i then u[48 * i + 46 := u ! (48 * i + 46) + 1] else u)"

lemma best_None: "best P es n = None \<longleftrightarrow> (\<forall>i<n. \<not> P i)"
  by (induction n) (auto simp: less_Suc_eq split: option.splits)

lemma best_Some:
  "best P es n = Some r \<Longrightarrow> r < n \<and> P r \<and>
     (\<forall>i<n. P i \<longrightarrow> prio (es ! i) \<le> prio (es ! r) \<and> (prio (es ! i) = prio (es ! r) \<longrightarrow> r \<le> i))"
proof (induction n arbitrary: r)
  case (Suc n)
  show ?case
  proof (cases "best P es n")
    case None
    then have "\<forall>i<n. \<not> P i" by (simp add: best_None)
    with None Suc.prems show ?thesis by (auto simp: less_Suc_eq split: if_splits)
  next
    case (Some j)
    from Suc.IH[OF Some] Suc.prems Some show ?thesis
      by (auto simp: less_Suc_eq split: if_splits)
  qed
qed simp

lemma row_update:
  assumes "w * Suc i \<le> length t" "w * Suc j \<le> length t" "k < w"
  shows "row w j (t[w * i + k := v]) = (if j = i then (row w i t)[k := v] else row w j t)"
proof (cases "j = i")
  case True
  with assms show ?thesis
    by (intro nth_equalityI) (auto simp: length_row nth_row nth_list_update)
next
  case False
  with assms row_disjoint[OF False, of w] have "w * i + k \<noteq> w * j + l" if "l < w" for l
    using that by auto
  with False assms show ?thesis
    by (intro nth_equalityI) (simp_all add: length_row nth_row)
qed

lemma bump_table_rows:
  assumes "length t = 960" "n \<le> 20"
  shows "length (bump_table P n t) = 960"
    and "j < 20 \<Longrightarrow> row 48 j (bump_table P n t) =
      (if j < n \<and> P j then bump (row 48 j t) else row 48 j t)"
proof -
  have "length (bump_table P n t) = 960 \<and> (\<forall>j<20. row 48 j (bump_table P n t) =
      (if j < n \<and> P j then bump (row 48 j t) else row 48 j t))"
    using assms(2)
  proof (induction n)
    case (Suc n)
    let ?u = "bump_table P n t"
    from Suc have IH: "length ?u = 960" "\<And>j. j < 20 \<Longrightarrow> row 48 j ?u =
      (if j < n \<and> P j then bump (row 48 j t) else row 48 j t)" by auto
    have "?u ! (48 * n + 46) = row 48 n t ! 46"
      using IH Suc.prems nth_row[of 48 n ?u 46] by simp
    then have "row 48 j (?u[48 * n + 46 := ?u ! (48 * n + 46) + 1]) =
        (if j = n then bump (row 48 n t) else row 48 j ?u)" if "j < 20" for j
      using that IH Suc.prems by (simp add: row_update bump_def)
    with IH show ?case by (auto simp: Let_def less_Suc_eq)
  qed (use assms in auto)
  then show "length (bump_table P n t) = 960"
    and "j < 20 \<Longrightarrow> row 48 j (bump_table P n t) =
      (if j < n \<and> P j then bump (row 48 j t) else row 48 j t)" by blast+
qed

lemma prio_bump: "46 < length e \<Longrightarrow> prio (bump e) = prio e"
  by (simp add: prio_def bump_def)

lemma marker_bump: "46 < length e \<Longrightarrow> marker (bump e) = marker e"
  by (simp add: marker_def bump_def abit_def)

lemma matches_bump: "matches m f (bump e) = matches m f e"
proof -
  have "bump e ! (q div 8) = e ! (q div 8)" if "q < 360" for q :: nat
  proof -
    have "q div 8 < 45" using that by auto
    then show ?thesis by (simp add: bump_def)
  qed
  then show ?thesis by (simp add: matches_def abit_def)
qed

lemma prio_bump_table:
  assumes "length t = 960" "n \<le> 20" "j < 20"
  shows "cget (bump_table P n t) (int j * FLW_ENT_LEN + 45) = Some (prio (row 48 j t))"
proof -
  have "bump_table P n t ! (48 * j + 45) = row 48 j (bump_table P n t) ! 45"
    using assms nth_row[of 48 j "bump_table P n t" 45] by (simp add: bump_table_rows(1))
  also have "\<dots> = prio (row 48 j t)"
    using assms bump_table_rows(2)[of t n j P] prio_bump[of "row 48 j t"]
    by (simp add: prio_def length_row)
  finally show ?thesis
    using assms cget_int[of "48 * j + 45" "bump_table P n t"]
    by (simp add: bump_table_rows(1) FLW_ENT_LEN_def mult.commute)
qed

lemma counter_cell:
  assumes "length t = 960" "i < 20"
  shows "cget t (int i * FLW_ENT_LEN + 46) = Some (t ! (48 * i + 46))"
    and "cput t (int i * FLW_ENT_LEN + 46) v = Some (t[48 * i + 46 := v])"
  using assms cget_int[of "48 * i + 46" t] cput_int[of "48 * i + 46" t v]
  by (simp_all add: FLW_ENT_LEN_def mult.commute)

definition best_pos :: "nat option \<Rightarrow> int" where
  "best_pos b = (case b of None \<Rightarrow> - 1 | Some j \<Rightarrow> int j)"

definition best_mask :: "byte list list \<Rightarrow> nat option \<Rightarrow> int list \<Rightarrow> int list" where
  "best_mask es b mp = (case b of None \<Rightarrow> mp | Some j \<Rightarrow> mp[0 := int (group es j)])"

lemma search_tcam_hit_ok:
  assumes "length (flow_table t) = 960" "i < n" "n \<le> 20" "P i" "0 < length mp"
    and "es = rows 48 n (flow_table t)"
  shows "search_tcam_hit (t\<lparr>flow_table := bump_table P i (flow_table t)\<rparr>) (int (group es i)) (int i)
      (best_pos (best P es i)) (best_mask es (best P es i) mp) =
    Some (t\<lparr>flow_table := bump_table P (Suc i) (flow_table t)\<rparr>,
      best_pos (best P es (Suc i)), best_mask es (best P es (Suc i)) mp)"
proof (cases "best P es i")
  case None
  then show ?thesis
    using assms cput_int[of 0 mp]
    by (simp add: search_tcam_hit_def Let_def bump_table_rows(1) counter_cell best_pos_def best_mask_def)
next
  case (Some j)
  then have j: "j < i" using best_Some by blast
  have "cget (bump_table P (Suc i) (flow_table t)) (int j * FLW_ENT_LEN + 45) = Some (prio (es ! j))"
    "cget (bump_table P (Suc i) (flow_table t)) (int i * FLW_ENT_LEN + 45) = Some (prio (es ! i))"
    using assms j by (subst prio_bump_table; simp)+
  then show ?thesis
    using assms Some cput_int[of 0 "mp[0 := int (group es j)]"]
    by (simp add: search_tcam_hit_def Let_def bump_table_rows(1) counter_cell best_pos_def best_mask_def)
qed

text \<open>The state of the search before it looks at entry \<open>i\<close>, and its answer there.\<close>

definition search_at ::
  "tcam_unit \<Rightarrow> byte list \<Rightarrow> int list \<Rightarrow> nat \<Rightarrow> (int \<times> tcam_unit \<times> int list) option" where
  "search_at t f mp i = (let es = entries t; P = hit (masks t) es f in
     search_tcam_loop (t\<lparr>flow_table := bump_table P i (flow_table t)\<rparr>) f
       (int (length (filter marker (take i es)))) (int i)
       (best_pos (best P es i)) (best_mask es (best P es i) mp))"

definition searched ::
  "tcam_unit \<Rightarrow> byte list \<Rightarrow> int list \<Rightarrow> nat \<Rightarrow> tcam_unit \<times> int list" where
  "searched t f mp i = (let es = entries t; P = hit (masks t) es f in
     (t\<lparr>flow_table := bump_table P i (flow_table t)\<rparr>, best_mask es (best P es i) mp))"

lemma length_entries [simp]: "length (entries t) = nat (flow_tail t)"
  by (simp add: entries_def)

lemma length_masks [simp]: "length (masks t) = nat (mask_tail t)"
  by (simp add: masks_def)

lemma group_step:
  "i < length es \<Longrightarrow> group es i = length (filter marker (take i es)) + (if marker (es ! i) then 1 else 0)"
  by (simp add: group_def take_Suc_conv_app_nth)

lemma search_marker:
  assumes "tables_ok t" "flow_tail t = int n" "i < n" "n \<le> 20"
  shows "read_bit (bump_table P i (flow_table t)) ((int i * FLW_ENT_LEN + 44) * 8 + 4) =
     Some (if marker (entries t ! i) then 1 else 0)"
  using assms bump_table_rows[where t = "flow_table t" and n = i and P = P] read_marker[of "bump_table P i (flow_table t)" "int i" i]
  by (simp add: tables_ok_def entries_def)

lemma search_mask_no:
  assumes "i < nat (flow_tail t)"
  shows "(if (if marker (entries t ! i) then 1 else 0) \<noteq> (0 :: byte)
      then int (length (filter marker (take i (entries t)))) + 1
      else int (length (filter marker (take i (entries t))))) = int (group (entries t) i)"
  using assms by (simp add: group_step)

lemma search_stop:
  assumes "tables_ok t" "flow_tail t = int n" "n \<le> 20" "i < n"
    and "mask_tail t \<le> int (group (entries t) i)"
  shows "search_at t f mp i = Some (STR_ERR, searched t f mp i)"
proof -
  have "i < nat (flow_tail t)" using assms by simp
  with assms show ?thesis
    using search_marker[OF assms(1,2,4,3)]
    by (simp add: search_at_def searched_def Let_def, subst search_tcam_loop.simps)
      (simp add: search_mask_no)
qed

lemma search_step:
  assumes "tables_ok t" "flow_tail t = int n" "n \<le> 20" "i < n" "mask_tail t \<le> 20"
    and "int (group (entries t) i) < mask_tail t" "45 \<le> length f" "0 < length mp"
  shows "search_at t f mp i = search_at t f mp (Suc i)"
proof -
  let ?es = "entries t" and ?ms = "masks t"
  let ?P = "hit ?ms ?es f" and ?g = "group (entries t) i"
  let ?u = "t\<lparr>flow_table := bump_table ?P i (flow_table t)\<rparr>"
  have ft: "length (flow_table t) = 960" using assms(1) by (simp add: tables_ok_def)
  have i: "i < nat (flow_tail t)" using assms by simp
  have "row 45 ?g (mask_table t) = ?ms ! ?g" "row 48 i (bump_table ?P i (flow_table t)) = ?es ! i"
    using assms bump_table_rows[OF ft, where n = i and P = ?P] by (simp_all add: masks_def entries_def)
  then have k: "mismatch (mask_table t) (int ?g * MTCH_FLD_LEN_i) f (bump_table ?P i (flow_table t))
      (int i * FLW_ENT_LEN) = Some (\<not> ?P i)"
    using assms bump_table_rows(1)[OF ft, where n = i and P = ?P]
      mismatch_ok[of "mask_table t" "bump_table ?P i (flow_table t)" f "int ?g" ?g "int i" i]
    by (simp add: tables_ok_def hit_def)
  have h: "?P i \<Longrightarrow> search_tcam_hit ?u (int ?g) (int i) (best_pos (best ?P ?es i)) (best_mask ?es (best ?P ?es i) mp)
      = Some (t\<lparr>flow_table := bump_table ?P (Suc i) (flow_table t)\<rparr>,
          best_pos (best ?P ?es (Suc i)), best_mask ?es (best ?P ?es (Suc i)) mp)"
    using assms ft by (intro search_tcam_hit_ok[where n = n]) (simp_all add: entries_def)
  have miss: "\<not> ?P i \<Longrightarrow> best ?P ?es (Suc i) = best ?P ?es i \<and>
      bump_table ?P (Suc i) (flow_table t) = bump_table ?P i (flow_table t)" by simp
  have c: "length (filter marker (take (Suc i) ?es)) = ?g" by (simp add: group_def)
  have "search_tcam_loop ?u f (int (length (filter marker (take i ?es)))) (int i)
      (best_pos (best ?P ?es i)) (best_mask ?es (best ?P ?es i) mp) =
    search_tcam_loop (t\<lparr>flow_table := bump_table ?P (Suc i) (flow_table t)\<rparr>) f (int ?g)
      (int (Suc i)) (best_pos (best ?P ?es (Suc i))) (best_mask ?es (best ?P ?es (Suc i)) mp)"
    using i k h miss search_marker[OF assms(1,2,4,3), of ?P] assms(2,4,6)
    by (subst search_tcam_loop.simps, cases "?P i")
      (simp_all add: search_mask_no add.commute[of 1] del: best.simps bump_table.simps)
  then show ?thesis by (simp add: search_at_def Let_def c del: best.simps bump_table.simps)
qed

lemma search_from_start: "search_tcam t f mp = search_at t f mp 0"
  by (simp add: search_tcam_def search_at_def best_pos_def best_mask_def Let_def)

lemma search_to_end:
  "flow_tail t = int n \<Longrightarrow>
   search_at t f mp n = Some (best_pos (best (hit (masks t) (entries t) f) (entries t) n), searched t f mp n)"
  by (simp add: search_at_def searched_def Let_def, subst search_tcam_loop.simps) simp

lemma search_reach:
  assumes "tables_ok t" "flow_tail t = int n" "n \<le> 20" "mask_tail t \<le> 20"
    and "45 \<le> length f" "0 < length mp"
  shows "(\<And>j. j < i \<Longrightarrow> int (group (entries t) j) < mask_tail t) \<Longrightarrow> i \<le> n \<Longrightarrow>
     search_tcam t f mp = search_at t f mp i"
proof (induction i)
  case (Suc i)
  then have "search_tcam t f mp = search_at t f mp i" by simp
  also have "\<dots> = search_at t f mp (Suc i)"
    by (rule search_step[OF assms(1-3) _ assms(4) Suc.prems(1) assms(5,6)]) (use Suc.prems in simp_all)
  finally show ?case .
qed (simp add: search_from_start)

lemma search_tcam_ok:
  assumes "tables_ok t" "flow_tail t = int n" "n \<le> 20" "mask_tail t \<le> 20"
    and "\<And>i. i < n \<Longrightarrow> int (group (entries t) i) < mask_tail t" "45 \<le> length f" "0 < length mp"
  shows "search_tcam t f mp =
     Some (best_pos (best (hit (masks t) (entries t) f) (entries t) n), searched t f mp n)"
  using search_reach[OF assms(1-4,6,7) assms(5) order_refl] search_to_end[OF assms(2)] by simp

lemma search_tcam_str_err:
  assumes "tables_ok t" "flow_tail t = int n" "n \<le> 20" "mask_tail t \<le> 20"
    and "k < n" "mask_tail t \<le> int (group (entries t) k)"
    and "\<And>i. i < k \<Longrightarrow> int (group (entries t) i) < mask_tail t" "45 \<le> length f" "0 < length mp"
  shows "search_tcam t f mp = Some (STR_ERR, searched t f mp k)"
  using search_reach[OF assms(1-4,8,9) assms(7) less_imp_le[OF assms(5)]]
    search_stop[OF assms(1-3,5,6)] by simp

text \<open>The entries after a search: the hits have a higher counter.\<close>

lemma entries_searched:
  assumes "tables_ok t" "flow_tail t = int n" "n \<le> 20"
  shows "entries (fst (searched t f mp n)) =
     map (\<lambda>i. if hit (masks t) (entries t) f i then bump (entries t ! i) else entries t ! i) [0..<n]"
  using assms bump_table_rows(2)[of "flow_table t" n]
  by (intro nth_equalityI) (auto simp: searched_def Let_def entries_def tables_ok_def)

lemma masks_searched [simp]: "masks (fst (searched t f mp n)) = masks t"
  by (simp add: searched_def Let_def masks_def)

lemma tables_ok_searched:
  "tables_ok t \<Longrightarrow> n \<le> 20 \<Longrightarrow> tables_ok (fst (searched t f mp n))"
  by (simp add: searched_def Let_def tables_ok_def bump_table_rows(1))

section \<open>Finding groups\<close>

lemma get_mask_pos_ok:
  assumes "tables_ok t" "flow_tail t = int n" "n \<le> 20" "p < n"
  shows "get_mask_pos t (int p) = Some (int (group (entries t) p))"
proof -
  let ?c = "\<lambda>i. int (length (filter marker (take i (entries t))))"
  have "i \<le> Suc p \<Longrightarrow> get_mask_pos_loop t (int p) (?c i) (int i) = Some (?c (Suc p))" for i
  proof (induction "Suc p - i" arbitrary: i)
    case 0
    then have "i = Suc p" by simp
    then show ?case by (simp add: get_mask_pos_loop.simps)
  next
    case (Suc d)
    then have i: "i < n" "i \<le> p" using assms by simp_all
    then have "read_bit (flow_table t) ((int i * FLW_ENT_LEN + 44) * 8 + 4) =
        Some (if marker (entries t ! i) then 1 else 0)"
      using assms read_marker[of "flow_table t" "int i" i] by (simp add: tables_ok_def entries_def)
    moreover have "?c (Suc i) = ?c i + (if marker (entries t ! i) then 1 else 0)"
      using i assms by (simp add: take_Suc_conv_app_nth)
    moreover have "d = Suc p - Suc i" using Suc.hyps(2) by simp
    from Suc.hyps(1)[OF this] have "get_mask_pos_loop t (int p) (?c (Suc i)) (int i + 1) = Some (?c (Suc p))"
      using i by (simp add: add.commute[of 1])
    ultimately show ?case
      using i assms by (subst get_mask_pos_loop.simps) auto
  qed
  from this[of 0] show ?thesis by (simp add: get_mask_pos_def group_def)
qed

lemma length_filter_take_mono:
  "i \<le> j \<Longrightarrow> length (filter P (take i xs)) \<le> length (filter P (take j xs))"
  by (metis filter_append le_add1 le_add_diff_inverse length_append take_add)

text \<open>The entry that opens group \<open>k > 0\<close> is the one with a marker in it.\<close>

lemma locate_mask_group_ok:
  assumes "tables_ok t" "flow_tail t = int n" "n \<le> 20" "p < n"
    and "marker (entries t ! p)" "group (entries t) p = k"
  shows "locate_mask_group t (int k) = Some (int p)"
proof -
  let ?c = "\<lambda>i. length (filter marker (take i (entries t)))"
  have "k = Suc (?c p)" using assms group_step[of p "entries t"] by simp
  moreover have "i \<le> p \<Longrightarrow> locate_mask_group_loop t (int (Suc (?c p))) (int (?c i)) (int i) = Some (int p)" for i
  proof (induction "p - i" arbitrary: i)
    case 0
    then have "i = p" by simp
    moreover have "read_bit (flow_table t) ((int p * FLW_ENT_LEN + 44) * 8 + 4) = Some 1"
      using assms read_marker[of "flow_table t" "int p" p] by (simp add: tables_ok_def entries_def)
    ultimately show ?case using assms by (subst locate_mask_group_loop.simps) simp
  next
    case (Suc d)
    then have i: "i < n" "i < p" using assms by simp_all
    then have "read_bit (flow_table t) ((int i * FLW_ENT_LEN + 44) * 8 + 4) =
        Some (if marker (entries t ! i) then 1 else 0)"
      using assms read_marker[of "flow_table t" "int i" i] by (simp add: tables_ok_def entries_def)
    moreover have s: "?c (Suc i) = ?c i + (if marker (entries t ! i) then 1 else 0)"
      using i assms by (simp add: take_Suc_conv_app_nth)
    moreover have "?c (Suc i) \<le> ?c p"
      using i by (metis Suc_leI length_filter_take_mono)
    ultimately show ?case
      using Suc.hyps(1)[of "Suc i"] Suc.hyps(2) i assms
      by (subst locate_mask_group_loop.simps) (auto simp: add.commute[of 1] s)
  qed
  from this[of 0] have "locate_mask_group_loop t (int (Suc (?c p))) 0 0 = Some (int p)" by simp
  ultimately show ?thesis using assms(2,4) by (simp add: locate_mask_group_def)
qed

text \<open>The redundancy test runs over the rest of the group and ends behind it.\<close>

lemma search_within_mask_group_ok:
  assumes "length m = 45" "length (flow_table t) = 960" "20 \<le> length f"
    and "i < e" "e < 20" "\<And>j. i < j \<Longrightarrow> j < e \<Longrightarrow> \<not> marker (row 48 j (flow_table t)) \<and> int j < flow_tail t"
    and "marker (row 48 e (flow_table t)) \<or> flow_tail t \<le> int e"
  shows "search_within_mask_group t m f (int i) =
     Some (if \<exists>j. i \<le> j \<and> j < e \<and> looks_redundant m f j (row 48 j (flow_table t))
           then RDNDNT else int e)"
  using assms(4,6)
proof (induction "e - i" arbitrary: i)
  case 0
  then show ?case by simp
next
  case (Suc d)
  let ?r = "\<lambda>j. looks_redundant m f j (row 48 j (flow_table t))"
  have d: "differs_from_entry t m f (int i) = Some (\<not> ?r i)"
    using assms Suc.prems by (intro differs_from_entry_ok) auto
  have mk: "read_bit (flow_table t) (((int i + 1) * FLW_ENT_LEN + 44) * 8 + 4) =
      Some (if marker (row 48 (Suc i) (flow_table t)) then 1 else 0)"
    using assms(2,5) Suc.prems(1) by (intro read_marker) auto
  show ?case
  proof (cases "?r i")
    case True
    with d Suc.prems show ?thesis by (subst search_within_mask_group.simps) auto
  next
    case nr: False
    have ex: "(\<exists>j. i \<le> j \<and> j < e \<and> ?r j) = (\<exists>j. Suc i \<le> j \<and> j < e \<and> ?r j)"
      using nr by (metis Suc_leD le_neq_implies_less Suc_leI)
    show ?thesis
    proof (cases "Suc i = e")
      case True
      then show ?thesis
        using d mk nr ex assms(7) by (subst search_within_mask_group.simps) auto
    next
      case False
      with Suc.prems have "Suc i < e" by simp
      moreover from this have "\<not> marker (row 48 (Suc i) (flow_table t))" "int (Suc i) < flow_tail t"
        using Suc.prems(2)[of "Suc i"] by auto
      ultimately show ?thesis
        using d mk nr ex Suc.hyps(1)[of "Suc i"] Suc.hyps(2) Suc.prems(2)
        by (subst search_within_mask_group.simps) (simp add: add.commute[of 1])
    qed
  qed
qed

section \<open>The lookup returns the best entry\<close>

text \<open>For the witnesses: empty tables with some rows declared live.\<close>

definition example_tcam :: "int \<Rightarrow> int \<Rightarrow> tcam_unit" where
  "example_tcam n m = \<lparr>flow_table = replicate 960 0, mask_table = replicate 900 0,
     action_table = replicate 620 0, flag_table = replicate 40 0, flow_tail = n, mask_tail = m\<rparr>"

lemma row_replicate: "w * Suc i \<le> n \<Longrightarrow> row w i (replicate n x) = replicate w x"
  by (simp add: row_def slice_def)

lemma example_tcam_facts:
  "tables_ok (example_tcam n m)" "flow_tail (example_tcam n m) = n" "mask_tail (example_tcam n m) = m"
  "n \<le> 20 \<Longrightarrow> entries (example_tcam n m) = replicate (nat n) (replicate 48 0)"
  "m \<le> 20 \<Longrightarrow> masks (example_tcam n m) = replicate (nat m) (replicate 45 0)"
  by (auto simp: example_tcam_def tables_ok_def entries_def masks_def row_replicate intro!: nth_equalityI)

lemma not_marker_zero: "\<not> marker (replicate 48 0)"
  by (simp add: marker_def abit_def)

lemma group_zero: "group (replicate n (replicate 48 0)) i = 0"
  by (simp add: group_def take_replicate not_marker_zero)

text \<open>
  C6. A lookup returns the entry it should: among the live entries that agree with the flow on
  every bit the mask of their group selects, the first one of the highest priority, or \<open>-1\<close> when
  there is none; it stores the group of that entry, adds one to the counter of every entry that
  agrees and changes nothing else of the entries and the masks.
\<close>

theorem search_tcam_best:
  assumes "tables_ok t" "flow_tail t = int n" "n \<le> 20" "mask_tail t \<le> 20"
    and "\<And>i. i < n \<Longrightarrow> int (group (entries t) i) < mask_tail t" "45 \<le> length f" "0 < length mp"
  defines "es \<equiv> entries t" and "P \<equiv> hit (masks t) (entries t) f"
  shows "\<exists>pos t' mp'. search_tcam t f mp = Some (pos, t', mp') \<and>
     (pos = - 1 \<and> mp' = mp \<and> (\<forall>i<n. \<not> P i) \<or>
      (\<exists>r<n. pos = int r \<and> mp' = mp[0 := int (group es r)] \<and> P r \<and>
        (\<forall>i<n. P i \<longrightarrow> prio (es ! i) \<le> prio (es ! r) \<and> (prio (es ! i) = prio (es ! r) \<longrightarrow> r \<le> i)))) \<and>
     entries t' = map (\<lambda>i. if P i then bump (es ! i) else es ! i) [0..<n] \<and> masks t' = masks t"
proof -
  have "search_tcam t f mp = Some (best_pos (best P es n), fst (searched t f mp n), best_mask es (best P es n) mp)"
    using search_tcam_ok[OF assms(1-7)] by (simp add: es_def P_def searched_def Let_def)
  moreover have "best_pos (best P es n) = - 1 \<and> best_mask es (best P es n) mp = mp \<and> (\<forall>i<n. \<not> P i) \<or>
      (\<exists>r<n. best_pos (best P es n) = int r \<and> best_mask es (best P es n) mp = mp[0 := int (group es r)] \<and> P r \<and>
        (\<forall>i<n. P i \<longrightarrow> prio (es ! i) \<le> prio (es ! r) \<and> (prio (es ! i) = prio (es ! r) \<longrightarrow> r \<le> i)))"
    using best_None[of P es n] best_Some[of P es n]
    by (cases "best P es n") (simp_all add: best_pos_def best_mask_def)
  ultimately show ?thesis
    using entries_searched[OF assms(1-3), of f mp] by (simp add: es_def P_def)
qed

theorem search_tcam_best_witness:
  "\<exists>pos t' mp'. search_tcam (example_tcam 2 1) (replicate 45 7) [0, 0] = Some (pos, t', mp') \<and>
     masks t' = masks (example_tcam 2 1)"
  using search_tcam_best[of "example_tcam 2 1" 2 "replicate 45 7" "[0, 0]"]
  by (auto simp: example_tcam_facts group_zero)

text \<open>
  A table with more groups than masks is reported: when entry \<open>k\<close> is the first whose group
  has no mask, the lookup returns \<open>STR_ERR\<close>, whatever it had matched before.
\<close>

theorem search_tcam_reports_structure:
  assumes "tables_ok t" "flow_tail t = int n" "n \<le> 20" "mask_tail t \<le> 20"
    and "k < n" "mask_tail t \<le> int (group (entries t) k)"
    and "\<And>i. i < k \<Longrightarrow> int (group (entries t) i) < mask_tail t" "45 \<le> length f" "0 < length mp"
  shows "\<exists>t' mp'. search_tcam t f mp = Some (STR_ERR, t', mp') \<and> masks t' = masks t"
  using search_tcam_str_err[OF assms] masks_searched[of t f mp k] by (metis prod.collapse)

theorem search_tcam_reports_structure_witness:
  "\<exists>t' mp'. search_tcam (example_tcam 1 0) (replicate 45 7) [0, 0] = Some (STR_ERR, t', mp') \<and>
     masks t' = masks (example_tcam 1 0)"
  by (rule search_tcam_reports_structure[of _ 1 0]) (simp_all add: example_tcam_facts group_zero)

section \<open>The cache\<close>

lemma c_any_None: "test 0 = None \<Longrightarrow> 0 < n \<Longrightarrow> c_any n test = None"
proof (induction n)
  case (Suc n)
  then show ?case by (cases n) auto
qed simp

lemma mismatch_negative: "a \<le> - 1 \<Longrightarrow> mismatch ms (a * MTCH_FLD_LEN_i) f es e = None"
proof -
  assume "a \<le> - 1"
  then have "read_bit ms ((a * 45) * 8) = None" by (intro read_bit_out) auto
  then show ?thesis
    by (simp add: mismatch_def MTCH_FLD_LEN_i_def c_any_None)
qed

text \<open>
  What a hit does to the cache and to the action set: the action row is copied out, and the pair of
  mask and entry position goes to slot \<open>5 - cache_top\<close>.
\<close>

lemma search_flow_ok:
  assumes "search_tcam t f mp = Some (int r, t', m # mp')" "r < 20" "length (action_table t') = 620"
    and "31 \<le> length a" "length (flow_cache c) = 5" "1 \<le> cache_top c" "cache_top c \<le> 5"
  shows "search_flow c t f a mp = Some (int r,
     c\<lparr>flow_cache := (flow_cache c)[nat (5 - cache_top c) := (m, int r)],
       cache_top := if cache_top c = 5 then 1 else cache_top c + 1\<rparr>,
     t', blit a 0 (row 31 r (action_table t')), m # mp')"
proof -
  have "c_for 31 (\<lambda>i a. do { b \<leftarrow> cget (action_table t') (int r * 31 + int i); cput a (int 0 + int i) b }) a
     = Some (blit a 0 (map (\<lambda>i. action_table t' ! (31 * r + i)) [0..<31]))"
    using assms cget_int[of "31 * r + _" "action_table t'"]
    by (intro c_for_copy) (auto simp: mult.commute)
  moreover have "map (\<lambda>i. action_table t' ! (31 * r + i)) [0..<31] = row 31 r (action_table t')"
    using assms(2,3) by (simp add: row_def slice_eq_map)
  moreover have "cput (flow_cache c) (5 - cache_top c) v =
      Some ((flow_cache c)[nat (5 - cache_top c) := v])" for v
    using assms by (intro cput_in) auto
  ultimately show ?thesis
    using assms cget_int[of 0 "m # mp'"]
    by (auto simp: search_flow_def tcam_consts CACHE_SIZE_def Let_def)
qed

lemma init_ok:
  assumes "length (flow_cache c) = 5"
  shows "init c = Some (c\<lparr>flow_cache := map (\<lambda>s. (- 1, snd s)) (flow_cache c), cache_top := 1\<rparr>)"
proof -
  obtain p q r s u where "flow_cache c = [p, q, r, s, u]"
    using assms by (auto simp: length_Suc_conv numeral_eq_Suc)
  then show ?thesis
    by (simp add: init_def CACHE_SIZE_def numeral_eq_Suc cget_def cput_def)
qed

lemma search_cache_first_slot:
  assumes "length (flow_cache c) = 5" "cache_top c = 2" "fst (flow_cache c ! 3) = - 1"
  shows "search_cache c f t = None"
proof -
  obtain x where "flow_cache c ! 3 = (- 1, x)" using assms(3) by (metis prod.collapse)
  then have "cget (flow_cache c) 3 = Some (- 1, x)" using assms(1) by (simp add: cget_def)
  moreover have "mismatch (mask_table t) (- 45) f (flow_table t) e = None" for e
    using mismatch_negative[of "- 1" "mask_table t" f "flow_table t" e] by (simp add: MTCH_FLD_LEN_i_def)
  ultimately show ?thesis
    using assms(2) by (simp add: search_cache_def CACHE_SIZE_def numeral_2_eq_2 MTCH_FLD_LEN_i_def)
qed

lemma search_flow_cache:
  assumes "search_flow c t f a mp = Some (pos, c', t', a', mp')" "0 \<le> pos"
  shows "\<exists>m. cput (flow_cache c) (5 - cache_top c) (m, pos) = Some (flow_cache c') \<and>
     cache_top c' = (if cache_top c + 1 > 5 then 1 else cache_top c + 1)"
  using assms by (auto simp: search_flow_def CACHE_SIZE_def Let_def split: bind_splits if_splits) blast+

text \<open>
  The cache cannot be used as it is initialised: after \<open>init\<close> and one successful lookup the
  next search of the cache reads the mask with index \<open>-1\<close>, outside the mask table, whatever
  the flow and the tables are by then.
\<close>

lemma cache_search_after_first_hit:
  assumes "length (flow_cache c) = 5" "init c = Some c0"
    and "search_flow c0 t f a mp = Some (pos, c1, t1, a1, mp1)" "0 \<le> pos"
  shows "search_cache c1 g u = None"
proof -
  have c0: "c0 = c\<lparr>flow_cache := map (\<lambda>s. (- 1, snd s)) (flow_cache c), cache_top := 1\<rparr>"
    using assms(1,2) by (simp add: init_ok)
  obtain m where "cput (flow_cache c0) 4 (m, pos) = Some (flow_cache c1)" "cache_top c1 = 2"
    using search_flow_cache[OF assms(3,4)] c0 by auto
  then show ?thesis
    using assms(1) c0 by (intro search_cache_first_slot) (auto simp: cput_Some_iff)
qed

end
