(* ===== verification/Tcam_Entries.thy ===== *)
theory Tcam_Entries
  imports Tcam_Search
begin

text \<open>
  \<^verbatim>\<open>flow-processing-unit/flow_unit.h\<close>, third part: adding entries. The tables hold the
  groups of a flow table one after the other; \<open>tcam_abs\<close> reads them as the list of the groups,
  each with its mask and its entries, and the operation is proved against that list.
\<close>

section \<open>Adding\<close>

definition mask_differs :: "tcam_unit \<Rightarrow> byte list \<Rightarrow> int \<Rightarrow> bool option" where
  "mask_differs tcam msk i = c_any (nat MTCH_FLD_LEN_i) (\<lambda>j. do {
     a \<leftarrow> cget (mask_table tcam) (i * MTCH_FLD_LEN_i + int j);
     b \<leftarrow> cget msk (int j);
     Some (a \<noteq> b) })"

text \<open>The mask exists: the entry goes to the end of its group, unless it looks redundant.\<close>

definition add_to_group ::
  "tcam_unit \<Rightarrow> byte list \<Rightarrow> byte list \<Rightarrow> int \<Rightarrow> (int \<times> tcam_unit \<times> byte list \<times> byte list) option"
where
  "add_to_group tcam msk flow_entry i = do {
     mask_group_start \<leftarrow> locate_mask_group tcam i;
     pos \<leftarrow> search_within_mask_group tcam msk flow_entry mask_group_start;
     if pos = RDNDNT then Some (RDNDNT, tcam, msk, flow_entry)
     else do {
       tcam \<leftarrow> restructure_flow_table tcam pos;
       flow_entry \<leftarrow> reset_bit flow_entry (44 * 8 + 4);
       let ch = flow_tail tcam;
       tcam \<leftarrow> write_new_flow_entry (tcam\<lparr>flow_tail := pos\<rparr>) flow_entry;
       Some (pos, tcam\<lparr>flow_tail := ch\<rparr>, msk, flow_entry) } }"

text \<open>The mask is new: it opens a group behind all others.\<close>

definition add_new_group ::
  "tcam_unit \<Rightarrow> byte list \<Rightarrow> byte list \<Rightarrow> (int \<times> tcam_unit \<times> byte list \<times> byte list) option"
where
  "add_new_group tcam msk flow_entry = do {
     flow_entry \<leftarrow> (if flow_tail tcam = 0 then reset_bit flow_entry (44 * 8 + 4)
                    else set_bit_c flow_entry (44 * 8 + 4));
     (tcam, msk) \<leftarrow> write_new_mask tcam msk;
     tcam \<leftarrow> write_new_flow_entry tcam flow_entry;
     Some (flow_tail tcam - 1, tcam, msk, flow_entry) }"

function add_loop ::
  "tcam_unit \<Rightarrow> byte list \<Rightarrow> byte list \<Rightarrow> int \<Rightarrow> (int \<times> tcam_unit \<times> byte list \<times> byte list) option"
where
  "add_loop tcam msk flow_entry i =
     (if i < mask_tail tcam then do {
        k \<leftarrow> mask_differs tcam msk i;
        if \<not> k then add_to_group tcam msk flow_entry i
        else add_loop tcam msk flow_entry (i + 1) }
      else add_new_group tcam msk flow_entry)"
  by pat_completeness auto
termination
  by (relation "measure (\<lambda>(t, _, _, i). nat (mask_tail t - i))") auto

declare add_loop.simps [simp del]

text \<open>The caller's two arrays are changed too, so they are part of the answer.\<close>

definition add_new_flow_entry ::
  "tcam_unit \<Rightarrow> byte list \<Rightarrow> byte list \<Rightarrow> (int \<times> tcam_unit \<times> byte list \<times> byte list) option"
where
  "add_new_flow_entry tcam msk flow_entry =
     (if flow_tail tcam \<ge> NO_F_FLWS then Some (TBL_FULL, tcam, msk, flow_entry)
      else add_loop tcam msk flow_entry 0)"

definition add_new_entry ::
  "tcam_unit \<Rightarrow> byte list \<Rightarrow> byte list \<Rightarrow> byte list \<Rightarrow> byte list \<Rightarrow>
   (int \<times> tcam_unit \<times> byte list \<times> byte list) option"
where
  "add_new_entry flow_unit msk flow_entry action_set flag = do {
     (pos, flow_unit, msk, flow_entry) \<leftarrow> add_new_flow_entry flow_unit msk flow_entry;
     if pos = TBL_FULL \<or> pos = RDNDNT then Some (pos, flow_unit, msk, flow_entry)
     else do {
       flow_unit \<leftarrow> (if pos < flow_tail flow_unit - 1 then restructure_action_tables flow_unit pos
                     else Some flow_unit);
       flow_unit \<leftarrow> write_new_action flow_unit action_set flag pos;
       Some (pos, flow_unit, msk, flow_entry) } }"

section \<open>The tables as a list of groups\<close>

type_synonym mgroup = "byte list \<times> byte list list"

text \<open>In every group but the first the first entry, and no other, carries the marker.\<close>

definition marked :: "nat \<Rightarrow> byte list list \<Rightarrow> bool" where
  "marked k es \<longleftrightarrow> es \<noteq> [] \<and> (marker (hd es) \<longleftrightarrow> 0 < k) \<and> (\<forall>e \<in> set (tl es). \<not> marker e)"

definition flat :: "mgroup list \<Rightarrow> byte list list" where
  "flat gs = concat (map snd gs)"

definition tcam_abs :: "tcam_unit \<Rightarrow> mgroup list \<Rightarrow> bool" where
  "tcam_abs t gs \<longleftrightarrow> tables_ok t \<and> flow_tail t = int (length (flat gs)) \<and> length (flat gs) \<le> 20
     \<and> mask_tail t = int (length gs) \<and> entries t = flat gs \<and> masks t = map fst gs
     \<and> (\<forall>k < length gs. marked k (snd (gs ! k)))"

text \<open>Where group \<open>k\<close> starts.\<close>

definition group_start :: "mgroup list \<Rightarrow> nat \<Rightarrow> nat" where
  "group_start gs k = length (flat (take k gs))"

lemma flat_Nil [simp]: "flat [] = []"
  by (simp add: flat_def)

lemma flat_Cons [simp]: "flat (g # gs) = snd g @ flat gs"
  by (simp add: flat_def)

lemma flat_append [simp]: "flat (xs @ ys) = flat xs @ flat ys"
  by (simp add: flat_def)

lemma flat_split:
  assumes "k < length gs"
  shows "flat gs = flat (take k gs) @ snd (gs ! k) @ flat (drop (Suc k) gs)"
  by (metis assms flat_append flat_Cons id_take_nth_drop)

lemma length_flat_ge: "(\<forall>k < length gs. snd (gs ! k) \<noteq> []) \<Longrightarrow> length gs \<le> length (flat gs)"
proof (induction gs)
  case (Cons g gs)
  have "\<forall>k < length gs. snd (gs ! k) \<noteq> []" using Cons.prems by auto
  moreover have "snd g \<noteq> []" using Cons.prems by auto
  then have "1 \<le> length (snd g)" by (cases "snd g") auto
  ultimately show ?case using Cons.IH by simp
qed simp

lemma length_filter_marked:
  "marked k es \<Longrightarrow> length (filter marker es) = (if 0 < k then 1 else 0)"
  by (cases es) (auto simp: marked_def filter_empty_conv)

lemma marked_take: "marked k es \<Longrightarrow> 0 < j \<Longrightarrow> marked k (take j es)"
  by (cases es; cases j) (auto simp: marked_def dest: in_set_takeD)

lemma markers_before:
  assumes "\<forall>k < length gs. marked k (snd (gs ! k))" "k \<le> length gs"
  shows "length (filter marker (flat (take k gs))) = k - 1"
  using assms(2)
proof (induction k)
  case (Suc k)
  then have "take (Suc k) gs = take k gs @ [gs ! k]"
    by (simp add: take_Suc_conv_app_nth)
  then show ?case
    using Suc assms(1) length_filter_marked[of k "snd (gs ! k)"] by simp
qed simp

text \<open>The markers give every entry the number of the group it is in.\<close>

lemma group_of_entry:
  assumes "\<forall>k < length gs. marked k (snd (gs ! k))" "k < length gs" "j < length (snd (gs ! k))"
  shows "group (flat gs) (group_start gs k + j) = k"
proof -
  have "take (Suc (group_start gs k + j)) (flat gs) = flat (take k gs) @ take (Suc j) (snd (gs ! k))"
    using assms(2,3) by (subst flat_split[OF assms(2)]) (simp add: group_start_def)
  then show ?thesis
    using assms markers_before[OF assms(1), of k] length_filter_marked[OF marked_take[of k _ "Suc j"]]
    by (auto simp: group_def)
qed

lemma entry_in_group:
  assumes "i < length (flat gs)"
  obtains k j where "k < length gs" "j < length (snd (gs ! k))" "i = group_start gs k + j"
    "flat gs ! i = snd (gs ! k) ! j"
proof -
  have "\<exists>k j. k < length gs \<and> j < length (snd (gs ! k)) \<and> i = group_start gs k + j"
    using assms
  proof (induction gs arbitrary: i)
    case (Cons g gs)
    show ?case
    proof (cases "i < length (snd g)")
      case True
      then show ?thesis by (intro exI[of _ 0] exI[of _ i]) (simp add: group_start_def)
    next
      case False
      then have "i - length (snd g) < length (flat gs)" using Cons.prems by simp
      from Cons.IH[OF this] obtain k j where "k < length gs" "j < length (snd (gs ! k))"
        "i - length (snd g) = group_start gs k + j" by blast
      with False show ?thesis
        by (intro exI[of _ "Suc k"] exI[of _ j]) (simp add: group_start_def)
    qed
  qed simp
  then obtain k j where *: "k < length gs" "j < length (snd (gs ! k))" "i = group_start gs k + j" by blast
  moreover have "flat gs ! i = snd (gs ! k) ! j"
    using *(2,3) by (subst flat_split[OF *(1)]) (simp add: group_start_def nth_append)
  ultimately show thesis using that by blast
qed

lemma tcam_abs_group_bound:
  assumes "tcam_abs t gs" "i < length (flat gs)"
  shows "int (group (entries t) i) < mask_tail t"
proof -
  obtain k j where "k < length gs" "j < length (snd (gs ! k))" "i = group_start gs k + j"
    using entry_in_group[OF assms(2)] by metis
  then show ?thesis using assms(1) group_of_entry[of gs k j] by (simp add: tcam_abs_def)
qed

section \<open>Adding, against the list of groups\<close>

lemma length_entries_row: "tables_ok t \<Longrightarrow> flow_tail t \<le> 20 \<Longrightarrow> e \<in> set (entries t) \<Longrightarrow> length e = 48"
  by (auto simp: entries_def rows_def tables_ok_def length_row)

lemma entries_nth: "i < nat (flow_tail t) \<Longrightarrow> entries t ! i = row 48 i (flow_table t)"
  by (simp add: entries_def)

lemma mask_differs_ok:
  assumes "tables_ok t" "i < 20" "length m = 45"
  shows "mask_differs t m (int i) = Some (row 45 i (mask_table t) \<noteq> m)"
proof -
  have mt: "length (mask_table t) = 900" using assms(1) by (simp add: tables_ok_def)
  have "mask_differs t m (int i) = Some (\<exists>k<45. mask_table t ! (45 * i + k) \<noteq> m ! k)"
    unfolding mask_differs_def MTCH_FLD_LEN_i_def nat_numeral
    using assms mt cget_int[of "45 * i + _" "mask_table t"]
    by (intro c_any_total) (auto simp: cget_int mult.commute)
  moreover have "(\<exists>k<45. mask_table t ! (45 * i + k) \<noteq> m ! k) \<longleftrightarrow> row 45 i (mask_table t) \<noteq> m"
    using assms mt by (auto simp: list_eq_iff_nth_eq length_row nth_row)
  ultimately show ?thesis by simp
qed

lemma add_loop_skip:
  assumes "tables_ok t" "mask_tail t = int n" "n \<le> 20" "length m = 45"
    and "\<And>j. j < i \<Longrightarrow> masks t ! j \<noteq> m" "i \<le> n"
  shows "add_loop t m fe 0 = add_loop t m fe (int i)"
  using assms(5,6)
proof (induction i)
  case (Suc i)
  then have "add_loop t m fe 0 = add_loop t m fe (int i)" by simp
  also have "mask_differs t m (int i) = Some True"
    using mask_differs_ok[OF assms(1) _ assms(4), of i] Suc.prems(1)[of i] Suc.prems(2) assms(2,3)
    by (simp add: masks_def)
  then have "add_loop t m fe (int i) = add_loop t m fe (int (Suc i))"
    using Suc.prems(2) assms(2) by (subst add_loop.simps) (simp add: add.commute[of 1])
  finally show ?case .
qed simp

lemma add_loop_found:
  assumes "tables_ok t" "mask_tail t = int n" "n \<le> 20" "length m = 45"
    and "k < n" "masks t ! k = m" "\<And>j. j < k \<Longrightarrow> masks t ! j \<noteq> m"
  shows "add_loop t m fe 0 = add_to_group t m fe (int k)"
proof -
  have "mask_differs t m (int k) = Some False"
    using mask_differs_ok[OF assms(1) _ assms(4), of k] assms by (simp add: masks_def)
  then have "add_loop t m fe (int k) = add_to_group t m fe (int k)"
    using assms(2,5) by (subst add_loop.simps) simp
  then show ?thesis using add_loop_skip[OF assms(1-4,7), of k fe] assms(5) by simp
qed

lemma add_loop_new:
  assumes "tables_ok t" "mask_tail t = int n" "n \<le> 20" "length m = 45" "m \<notin> set (masks t)"
  shows "add_loop t m fe 0 = add_new_group t m fe"
proof -
  have "masks t ! j \<noteq> m" if "j < n" for j
    using assms(2,5) that nth_mem[of j "masks t"] by auto
  then have "add_loop t m fe 0 = add_loop t m fe (int n)" by (intro add_loop_skip[OF assms(1-4)]) auto
  also have "\<dots> = add_new_group t m fe"
    using assms(2) by (subst add_loop.simps) simp
  finally show ?thesis .
qed

lemma group_start_Suc:
  "k < length gs \<Longrightarrow> group_start gs (Suc k) = group_start gs k + length (snd (gs ! k))"
  by (simp add: group_start_def take_Suc_conv_app_nth)

lemma group_start_le: "group_start gs k \<le> length (flat gs)"
  by (metis append_take_drop_id flat_append group_start_def le_add1 length_append)

lemma flat_at:
  "k < length gs \<Longrightarrow> j < length (snd (gs ! k)) \<Longrightarrow> flat gs ! (group_start gs k + j) = snd (gs ! k) ! j"
  by (subst flat_split, assumption, simp add: group_start_def, simp add: nth_append)

lemma marked_at: "marked k es \<Longrightarrow> j < length es \<Longrightarrow> marker (es ! j) \<longleftrightarrow> 0 < k \<and> j = 0"
  by (cases es; cases j) (auto simp: marked_def)

lemma locate_ok:
  assumes "tcam_abs t gs" "k < length gs"
  shows "locate_mask_group t (int k) = Some (int (group_start gs k))"
proof (cases "k = 0")
  case True
  then show ?thesis by (simp add: locate_mask_group_def group_start_def)
next
  case False
  have m: "marked k (snd (gs ! k))" and n: "0 < length (snd (gs ! k))"
    using assms by (auto simp: tcam_abs_def marked_def)
  have "group_start gs k < length (flat gs)"
    using n group_start_le[of gs "Suc k"] group_start_Suc[OF assms(2)] by linarith
  moreover have "marker (flat gs ! group_start gs k)"
    using flat_at[OF assms(2) n] marked_at[OF m n] False by simp
  moreover have "group (flat gs) (group_start gs k) = k"
    using assms group_of_entry[of gs k 0] n by (simp add: tcam_abs_def)
  ultimately show ?thesis
    using assms locate_mask_group_ok[of t "length (flat gs)" "group_start gs k" k]
    by (simp add: tcam_abs_def)
qed

definition redundant_in :: "mgroup list \<Rightarrow> nat \<Rightarrow> byte list \<Rightarrow> bool" where
  "redundant_in gs k fe \<longleftrightarrow> (\<exists>j < length (snd (gs ! k)).
     looks_redundant (fst (gs ! k)) fe (group_start gs k + j) (snd (gs ! k) ! j))"

lemma flat_row:
  assumes "tcam_abs t gs" "k < length gs" "j < length (snd (gs ! k))"
  shows "row 48 (group_start gs k + j) (flow_table t) = snd (gs ! k) ! j"
    and "group_start gs k + j < length (flat gs)"
proof -
  show *: "group_start gs k + j < length (flat gs)"
    using assms(3) group_start_Suc[OF assms(2)] group_start_le[of gs "Suc k"] by linarith
  show "row 48 (group_start gs k + j) (flow_table t) = snd (gs ! k) ! j"
    using flat_at[OF assms(2,3)] assms(1) * entries_nth[of "group_start gs k + j" t]
    by (simp add: tcam_abs_def)
qed

text \<open>Behind the last entry of a group stands the first of the next one, or the table ends.\<close>

lemma next_row_marked:
  assumes "tcam_abs t gs" "k < length gs" "group_start gs (Suc k) < length (flat gs)"
  shows "marker (row 48 (group_start gs (Suc k)) (flow_table t))"
proof -
  have k: "Suc k < length gs" using assms(2,3) by (cases "Suc k = length gs") (auto simp: group_start_def)
  then have m: "marked (Suc k) (snd (gs ! Suc k))" using assms(1) by (simp add: tcam_abs_def)
  then have "0 < length (snd (gs ! Suc k))" by (simp add: marked_def)
  then show ?thesis using flat_row(1)[OF assms(1) k, of 0] marked_at[OF m, of 0] by simp
qed

lemma search_within_ok:
  assumes "tcam_abs t gs" "k < length gs" "length (flat gs) < 20" "length (fst (gs ! k)) = 45" "20 \<le> length fe"
  shows "search_within_mask_group t (fst (gs ! k)) fe (int (group_start gs k)) =
     Some (if redundant_in gs k fe then RDNDNT else int (group_start gs (Suc k)))"
proof -
  let ?s = "group_start gs k" and ?e = "group_start gs (Suc k)" and ?es = "snd (gs ! k)"
  let ?red = "\<lambda>j. looks_redundant (fst (gs ! k)) fe j (row 48 j (flow_table t))"
  have m: "marked k ?es" and n: "0 < length ?es" and e: "?e = ?s + length ?es" "?e \<le> length (flat gs)"
    and ft: "length (flow_table t) = 960" and tl: "flow_tail t = int (length (flat gs))"
    using assms group_start_Suc[OF assms(2)] group_start_le[of gs "Suc k"]
    by (auto simp: tcam_abs_def marked_def tables_ok_def)
  have in_group: "row 48 j (flow_table t) = ?es ! (j - ?s)" if "?s \<le> j" "j < ?e" for j
    using flat_row(1)[OF assms(1,2), of "j - ?s"] that e by simp
  have "\<not> marker (row 48 j (flow_table t)) \<and> int j < flow_tail t" if "?s < j" "j < ?e" for j
    using in_group[of j] marked_at[OF m, of "j - ?s"] that e tl by auto
  moreover have "marker (row 48 ?e (flow_table t)) \<or> flow_tail t \<le> int ?e"
    using next_row_marked[OF assms(1,2)] tl by (cases "?e < length (flat gs)") auto
  moreover have "(\<exists>j. ?s \<le> j \<and> j < ?e \<and> ?red j) \<longleftrightarrow> redundant_in gs k fe"
  proof
    assume "\<exists>j. ?s \<le> j \<and> j < ?e \<and> ?red j"
    then obtain j where "?s \<le> j" "j < ?e" "?red j" by blast
    then show "redundant_in gs k fe"
      unfolding redundant_in_def using e in_group[of j] by (intro exI[of _ "j - ?s"]) auto
  next
    assume "redundant_in gs k fe"
    then obtain j where "j < length ?es" "looks_redundant (fst (gs ! k)) fe (?s + j) (?es ! j)"
      by (auto simp: redundant_in_def)
    then show "\<exists>j. ?s \<le> j \<and> j < ?e \<and> ?red j"
      using e in_group[of "?s + j"] by (intro exI[of _ "?s + j"]) auto
  qed
  ultimately show ?thesis
    using search_within_mask_group_ok[of "fst (gs ! k)" t fe ?s ?e] assms(3-5) ft e n by auto
qed

text \<open>What an insertion into group \<open>k\<close> makes of the list: the later entries are written again.\<close>

definition put_in_group :: "mgroup list \<Rightarrow> nat \<Rightarrow> byte list \<Rightarrow> mgroup list" where
  "put_in_group gs k e = take k gs @ (fst (gs ! k), snd (gs ! k) @ [e]) #
     map (\<lambda>g. (fst g, map fresh (snd g))) (drop (Suc k) gs)"

definition actions :: "tcam_unit \<Rightarrow> byte list list" where
  "actions t = rows 31 (nat (flow_tail t)) (action_table t)"

definition flags :: "tcam_unit \<Rightarrow> byte list list" where
  "flags t = rows 2 (nat (flow_tail t)) (flag_table t)"

lemma marker_fresh: "46 \<le> length e \<Longrightarrow> marker (fresh e) = marker e"
  by (simp add: marker_def fresh_def abit_def nth_append)

lemma marker_put_bit: "46 \<le> length e \<Longrightarrow> marker (put_bit 356 v e) = v"
  by (simp add: marker_def abit_put_bit)

lemma marked_fresh:
  "(\<And>e. e \<in> set es \<Longrightarrow> 46 \<le> length e) \<Longrightarrow> marked k (map fresh es) = marked k es"
  by (cases es) (auto simp: marked_def marker_fresh)

lemma marked_snoc: "marked k es \<Longrightarrow> \<not> marker e \<Longrightarrow> marked k (es @ [e])"
  by (cases es) (auto simp: marked_def)

lemma flat_map_fresh: "flat (map (\<lambda>g. (fst g, map fresh (snd g))) gs) = map fresh (flat gs)"
  by (induction gs) auto

lemma flat_put_in_group:
  assumes "k < length gs"
  shows "flat (put_in_group gs k e) =
     take (group_start gs (Suc k)) (flat gs) @ e # map fresh (drop (group_start gs (Suc k)) (flat gs))"
proof -
  have "take (Suc k) gs = take k gs @ [gs ! k]"
    using assms by (simp add: take_Suc_conv_app_nth)
  then have "flat gs = (flat (take k gs) @ snd (gs ! k)) @ flat (drop (Suc k) gs)"
    "group_start gs (Suc k) = length (flat (take k gs) @ snd (gs ! k))"
    using flat_split[OF assms] by (simp_all add: group_start_def)
  then show ?thesis by (simp add: put_in_group_def flat_map_fresh)
qed

lemma marked_put_in_group:
  assumes "\<forall>i < length gs. marked i (snd (gs ! i))" "k < length gs" "\<not> marker e"
    and "\<And>x. x \<in> set (flat gs) \<Longrightarrow> 46 \<le> length x" "i < length (put_in_group gs k e)"
  shows "marked i (snd (put_in_group gs k e ! i))"
proof -
  have i: "i < length gs" using assms(2,5) by (simp add: put_in_group_def)
  then have mi: "marked i (snd (gs ! i))" using assms(1) by blast
  consider "i < k" | "i = k" | "k < i" by linarith
  then show ?thesis
  proof cases
    case 1
    then show ?thesis using mi i assms(2) by (simp add: put_in_group_def nth_append)
  next
    case 2
    then show ?thesis using mi assms(2,3) by (simp add: put_in_group_def nth_append marked_snoc)
  next
    case 3
    then obtain d where d: "i = Suc (k + d)" using less_iff_Suc_add by auto
    have "put_in_group gs k e ! i = (fst (gs ! i), map fresh (snd (gs ! i)))"
      using d i assms(2) by (simp add: put_in_group_def nth_append)
    moreover have "46 \<le> length x" if "x \<in> set (snd (gs ! i))" for x
      using assms(4)[of x] that nth_mem[OF i] by (auto simp: flat_def)
    ultimately show ?thesis using mi by (simp add: marked_fresh)
  qed
qed

lemma abs_entry_length:
  "tcam_abs t gs \<Longrightarrow> x \<in> set (flat gs) \<Longrightarrow> 46 \<le> length x"
  using length_entries_row[of t x] by (simp add: tcam_abs_def)

lemma abs_masks_le: "tcam_abs t gs \<Longrightarrow> length gs \<le> length (flat gs)"
  by (rule length_flat_ge) (auto simp: tcam_abs_def marked_def)

lemma map_fst_put_in_group:
  "k < length gs \<Longrightarrow> map fst (put_in_group gs k x) = map fst gs"
  using id_take_nth_drop[of k "map fst gs"] by (simp add: put_in_group_def take_map drop_map comp_def)

text \<open>Tables whose rows are those of the list with the new entry stand for that list.\<close>

lemma abs_put_in_group:
  assumes abs: "tcam_abs t gs" and k: "k < length gs" and room: "length (flat gs) < 20"
    and x: "length x = 48" "\<not> marker x" and ft: "length ft = 960"
    and rows: "rows 48 (Suc (length (flat gs))) ft = flat (put_in_group gs k x)"
  shows "tcam_abs (t\<lparr>flow_table := ft, flow_tail := int (length (flat gs)) + 1\<rparr>) (put_in_group gs k x)"
    (is "tcam_abs ?t _")
proof -
  let ?gs = "put_in_group gs k x"
  have "entries ?t = flat ?gs" using rows by (simp add: entries_def nat_add_distrib)
  moreover have "masks ?t = map fst ?gs"
    using abs map_fst_put_in_group[OF k, of x] by (auto simp: tcam_abs_def masks_def)
  moreover have "tables_ok ?t" using abs ft by (simp add: tcam_abs_def tables_ok_def)
  moreover have "length (flat ?gs) = Suc (length (flat gs))"
    using group_start_le[of gs "Suc k"] by (simp add: flat_put_in_group[OF k])
  moreover have "\<forall>i < length ?gs. marked i (snd (?gs ! i))"
    using abs k x abs_entry_length[OF abs]
    by (intro allI impI marked_put_in_group) (auto simp: tcam_abs_def)
  moreover have "length ?gs = length gs" using k by (simp add: put_in_group_def)
  ultimately show ?thesis using abs room by (simp add: tcam_abs_def)
qed

lemma add_to_group_ok:
  assumes abs: "tcam_abs t gs" and k: "k < length gs" and room: "length (flat gs) < 20"
    and m: "length (fst (gs ! k)) = 45" and fe: "46 \<le> length fe" and nr: "\<not> redundant_in gs k fe"
  defines "e \<equiv> group_start gs (Suc k)" and "fe' \<equiv> put_bit 356 False fe"
  shows "\<exists>t'. add_to_group t (fst (gs ! k)) fe (int k) = Some (int e, t', fst (gs ! k), fe') \<and>
     tcam_abs t' (put_in_group gs k (fresh fe')) \<and>
     action_table t' = action_table t \<and> flag_table t' = flag_table t"
proof -
  let ?n = "length (flat gs)"
  have ft: "length (flow_table t) = 960" and tl: "flow_tail t = int ?n" and e: "e \<le> ?n"
    and en: "rows 48 ?n (flow_table t) = flat gs"
    using abs group_start_le[of gs "Suc k"] by (auto simp: tcam_abs_def tables_ok_def e_def entries_def)
  let ?d = "shift_down 48 fresh e (?n - e) (flow_table t)"
  have d: "length ?d = 960"
    using flow_rows.shift_down_row(1)[of e "?n - e" "flow_table t"] ft e room by simp
  let ?ft = "blit ?d (48 * e) (fresh fe')"
  let ?t1 = "t\<lparr>flow_table := ?d, flow_tail := int ?n + 1\<rparr>"
  let ?t2 = "t\<lparr>flow_table := ?ft, flow_tail := int ?n + 1\<rparr>"
  have l: "length (fresh fe') = 48" using fe by (simp add: fe'_def length_fresh)
  have "locate_mask_group t (int k) = Some (int (group_start gs k))"
    by (rule locate_ok[OF abs k])
  moreover have "search_within_mask_group t (fst (gs ! k)) fe (int (group_start gs k)) = Some (int e)"
    using search_within_ok[OF abs k room m] fe nr by (simp add: e_def)
  moreover have "restructure_flow_table t (int e) = Some ?t1"
    using ft tl e room by (intro restructure_flow_table_ok) auto
  moreover have "reset_bit fe 356 = Some fe'"
    using reset_bit_put[of 356 fe] fe by (simp add: fe'_def)
  moreover have "write_new_flow_entry (?t1\<lparr>flow_tail := int e\<rparr>) fe' =
      Some (t\<lparr>flow_table := ?ft, flow_tail := int e + 1\<rparr>)"
    using write_new_flow_entry_ok[of "?t1\<lparr>flow_tail := int e\<rparr>" e fe'] d e room fe by (simp add: fe'_def)
  ultimately have run: "add_to_group t (fst (gs ! k)) fe (int k) = Some (int e, ?t2, fst (gs ! k), fe')"
    by (simp add: add_to_group_def RDNDNT_def)
  have "rows 48 (Suc ?n) ?ft = take e (rows 48 ?n (flow_table t)) @ fresh fe' # map fresh (drop e (rows 48 ?n (flow_table t)))"
    using e ft room l by (intro flow_rows.rows_insert) auto
  then have "tcam_abs ?t2 (put_in_group gs k (fresh fe'))"
    using d e room l fe
    by (intro abs_put_in_group[OF abs k room])
      (simp_all add: en flat_put_in_group[OF k] e_def length_blit fe'_def marker_fresh marker_put_bit)
  with run show ?thesis by (intro exI[of _ ?t2]) simp
qed

lemma unused_length: "length (unused_reset m) = 45 \<longleftrightarrow> length m = 45"
  by simp

lemma add_new_group_ok:
  assumes abs: "tcam_abs t gs" and room: "length (flat gs) < 20"
    and m: "length m = 45" and fe: "46 \<le> length fe"
  defines "fe' \<equiv> put_bit 356 (gs \<noteq> []) fe"
  shows "\<exists>t'. add_new_group t m fe = Some (int (length (flat gs)), t', unused_reset m, fe') \<and>
     tcam_abs t' (gs @ [(unused_reset m, [fresh fe'])]) \<and>
     action_table t' = action_table t \<and> flag_table t' = flag_table t"
proof -
  let ?n = "length (flat gs)" and ?k = "length gs"
  have ok: "length (flow_table t) = 960" "length (mask_table t) = 900" "tables_ok t"
    and tl: "flow_tail t = int ?n" "mask_tail t = int ?k" and k: "?k \<le> ?n"
    and en: "rows 48 ?n (flow_table t) = flat gs" and ms: "rows 45 ?k (mask_table t) = map fst gs"
    using abs abs_masks_le[OF abs] by (auto simp: tcam_abs_def tables_ok_def entries_def masks_def)
  have empty: "flow_tail t = 0 \<longleftrightarrow> gs = []"
  proof
    assume "flow_tail t = 0"
    then have "?n = 0" using tl by simp
    then show "gs = []" using k by simp
  qed (use tl in simp)
  let ?t1 = "t\<lparr>mask_table := blit (mask_table t) (45 * ?k) (unused_reset m), mask_tail := int ?k + 1\<rparr>"
  let ?t2 = "?t1\<lparr>flow_table := blit (flow_table t) (48 * ?n) (fresh fe'), flow_tail := int ?n + 1\<rparr>"
  have l: "length (fresh fe') = 48" "length fe' = length fe" using fe by (simp_all add: fe'_def length_fresh)
  have "(if flow_tail t = 0 then reset_bit fe 356 else set_bit_c fe 356) = Some fe'"
    using reset_bit_put[of 356 fe] set_bit_c_put[of 356 fe] fe empty by (simp add: fe'_def)
  moreover have "write_new_mask t m = Some (?t1, unused_reset m)"
    using ok tl k room m by (intro write_new_mask_ok) auto
  moreover have "write_new_flow_entry ?t1 fe' = Some ?t2"
    using write_new_flow_entry_ok[of ?t1 ?n fe'] ok tl room fe l by simp
  ultimately have run: "add_new_group t m fe = Some (int ?n, ?t2, unused_reset m, fe')"
    by (cases "flow_tail t = 0") (simp_all add: add_new_group_def)
  have "rows 48 ?n (blit (flow_table t) (48 * ?n) (fresh fe')) = rows 48 ?n (flow_table t)"
    using ok l room by (intro rows_cong row_blit_other) auto
  moreover have "row 48 ?n (blit (flow_table t) (48 * ?n) (fresh fe')) = fresh fe'"
    using ok l room by (intro row_blit_same) auto
  ultimately have "entries ?t2 = flat (gs @ [(unused_reset m, [fresh fe'])])"
    using en by (simp add: entries_def nat_add_distrib rows_Suc)
  moreover have "rows 45 ?k (blit (mask_table t) (45 * ?k) (unused_reset m)) = rows 45 ?k (mask_table t)"
    using ok m k room by (intro rows_cong row_blit_other) auto
  moreover have "row 45 ?k (blit (mask_table t) (45 * ?k) (unused_reset m)) = unused_reset m"
    using ok m k room by (intro row_blit_same) auto
  ultimately have "entries ?t2 = flat (gs @ [(unused_reset m, [fresh fe'])]) \<and>
      masks ?t2 = map fst (gs @ [(unused_reset m, [fresh fe'])])"
    using ms by (simp add: masks_def nat_add_distrib rows_Suc)
  moreover have "tables_ok ?t2" using ok l m k room by (simp add: tables_ok_def length_blit)
  moreover have "marked i (snd ((gs @ [(unused_reset m, [fresh fe'])]) ! i))" if "i < Suc ?k" for i
    using that abs fe
    by (auto simp: nth_append tcam_abs_def marked_def fe'_def marker_fresh marker_put_bit less_Suc_eq)
  ultimately have "tcam_abs ?t2 (gs @ [(unused_reset m, [fresh fe'])])"
    using room by (simp add: tcam_abs_def)
  with run show ?thesis by (intro exI[of _ ?t2]) simp
qed

lemma write_action_keeps:
  "write_new_action t a f p = Some t' \<Longrightarrow> length (action_table t') = 620 \<Longrightarrow> length (flag_table t') = 40 \<Longrightarrow>
   tcam_abs t gs \<Longrightarrow> tcam_abs t' gs"
  by (auto simp: write_new_action_def tcam_abs_def tables_ok_def entries_def masks_def split: bind_splits)

text \<open>The action and flag rows make room and the new ones go to row \<open>pos\<close>.\<close>

lemma add_action_ok:
  assumes abs: "tcam_abs t gs" and n: "length (flat gs) = Suc n" and pos: "pos \<le> n"
    and a: "31 \<le> length a" "2 \<le> length f"
  shows "\<exists>t'. do { u \<leftarrow> (if int pos < flow_tail t - 1 then restructure_action_tables t (int pos) else Some t);
        write_new_action u a f (int pos) } = Some t' \<and> tcam_abs t' gs \<and>
     actions t' = take pos (rows 31 n (action_table t)) @ take 31 a # drop pos (rows 31 n (action_table t)) \<and>
     flags t' = take pos (rows 2 n (flag_table t)) @ take 2 f # drop pos (rows 2 n (flag_table t))"
proof -
  have ok: "length (action_table t) = 620" "length (flag_table t) = 40" and tl: "flow_tail t = int n + 1"
    and n20: "n < 20" using abs n by (auto simp: tcam_abs_def tables_ok_def)
  let ?a = "shift_down 31 (\<lambda>r. r) pos (n - pos) (action_table t)"
  let ?f = "shift_down 2 (\<lambda>r. r) pos (n - pos) (flag_table t)"
  let ?u = "t\<lparr>action_table := ?a, flag_table := ?f\<rparr>"
  have l: "length ?a = 620" "length ?f = 40"
    using action_rows.shift_down_row(1)[of pos "n - pos" "action_table t"]
      flag_rows.shift_down_row(1)[of pos "n - pos" "flag_table t"] ok pos n20 by simp_all
  have "(if int pos < flow_tail t - 1 then restructure_action_tables t (int pos) else Some t) = Some ?u"
  proof (cases "pos < n")
    case True
    then show ?thesis using restructure_action_tables_ok[OF ok tl pos n20] tl by simp
  next
    case False
    then show ?thesis using pos tl by simp
  qed
  moreover
  let ?t = "?u\<lparr>action_table := blit ?a (31 * pos) (take 31 a), flag_table := blit ?f (2 * pos) (take 2 f)\<rparr>"
  have w: "write_new_action ?u a f (int pos) = Some ?t"
    using write_new_action_ok[of ?u "int pos" pos a f] l pos n20 a by simp
  moreover have "actions ?t = take pos (rows 31 n (action_table t)) @ take 31 a # drop pos (rows 31 n (action_table t))"
    using action_rows.rows_insert[OF pos, of "action_table t" "take 31 a"] ok n20 a tl
    by (simp add: actions_def nat_add_distrib)
  moreover have "flags ?t = take pos (rows 2 n (flag_table t)) @ take 2 f # drop pos (rows 2 n (flag_table t))"
    using flag_rows.rows_insert[OF pos, of "flag_table t" "take 2 f"] ok n20 a tl
    by (simp add: flags_def nat_add_distrib)
  moreover have "tcam_abs ?u gs"
    using abs l by (auto simp: tcam_abs_def tables_ok_def entries_def masks_def)
  then have "tcam_abs ?t gs"
    using write_action_keeps[OF w] l a pos n20 by (simp add: length_blit)
  ultimately show ?thesis by (intro exI[of _ ?t]) simp
qed

lemma add_new_entry_group:
  assumes abs: "tcam_abs t gs" and k: "k < length gs" and room: "length (flat gs) < 20"
    and m: "length (fst (gs ! k)) = 45" "\<And>j. j < k \<Longrightarrow> fst (gs ! j) \<noteq> fst (gs ! k)"
    and len: "46 \<le> length fe" "31 \<le> length a" "2 \<le> length f" and nr: "\<not> redundant_in gs k fe"
  defines "e \<equiv> group_start gs (Suc k)" and "fe' \<equiv> put_bit 356 False fe"
  shows "\<exists>t'. add_new_entry t (fst (gs ! k)) fe a f = Some (int e, t', fst (gs ! k), fe') \<and>
     tcam_abs t' (put_in_group gs k (fresh fe')) \<and>
     actions t' = take e (actions t) @ take 31 a # drop e (actions t) \<and>
     flags t' = take e (flags t) @ take 2 f # drop e (flags t)"
proof -
  let ?m = "fst (gs ! k)" and ?gs = "put_in_group gs k (fresh fe')" and ?n = "length (flat gs)"
  have ok: "tables_ok t" and tl: "flow_tail t = int ?n" "mask_tail t = int (length gs)"
    and ms: "masks t = map fst gs" and g20: "length gs \<le> 20"
    using abs abs_masks_le[OF abs] by (auto simp: tcam_abs_def)
  obtain t1 where t1: "add_to_group t ?m fe (int k) = Some (int e, t1, ?m, fe')" "tcam_abs t1 ?gs"
    "action_table t1 = action_table t" "flag_table t1 = flag_table t"
    using add_to_group_ok[OF abs k room m(1) len(1) nr] by (auto simp: e_def fe'_def)
  have "add_loop t ?m fe 0 = add_to_group t ?m fe (int k)"
    using add_loop_found[OF ok tl(2) g20 m(1) k] ms m(2) k by simp
  then have add: "add_new_flow_entry t ?m fe = Some (int e, t1, ?m, fe')"
    using t1(1) tl room by (simp add: add_new_flow_entry_def NO_F_FLWS_def)
  have e: "e \<le> ?n" by (simp add: e_def group_start_le)
  have "length (flat ?gs) = Suc ?n"
    using e by (simp add: flat_put_in_group[OF k] e_def[symmetric])
  from add_action_ok[OF t1(2) this e len(2,3)] obtain t2 where
    t2: "do { u \<leftarrow> (if int e < flow_tail t1 - 1 then restructure_action_tables t1 (int e) else Some t1);
      write_new_action u a f (int e) } = Some t2" "tcam_abs t2 ?gs"
    "actions t2 = take e (rows 31 ?n (action_table t)) @ take 31 a # drop e (rows 31 ?n (action_table t))"
    "flags t2 = take e (rows 2 ?n (flag_table t)) @ take 2 f # drop e (rows 2 ?n (flag_table t))"
    using t1(3,4) by auto
  from t2(1) obtain u where "(if int e < flow_tail t1 - 1 then restructure_action_tables t1 (int e) else Some t1) = Some u"
    "write_new_action u a f (int e) = Some t2" unfolding Option.bind_eq_Some_conv by blast
  then have "add_new_entry t ?m fe a f = Some (int e, t2, ?m, fe')"
    using add by (simp add: add_new_entry_def TBL_FULL_def RDNDNT_def)
  then show ?thesis using t2 tl by (auto simp: actions_def flags_def)
qed

lemma add_new_entry_new:
  assumes abs: "tcam_abs t gs" and room: "length (flat gs) < 20" and m: "length m = 45" "m \<notin> fst ` set gs"
    and len: "46 \<le> length fe" "31 \<le> length a" "2 \<le> length f"
  defines "fe' \<equiv> put_bit 356 (gs \<noteq> []) fe"
  shows "\<exists>t'. add_new_entry t m fe a f = Some (int (length (flat gs)), t', unused_reset m, fe') \<and>
     tcam_abs t' (gs @ [(unused_reset m, [fresh fe'])]) \<and>
     actions t' = actions t @ [take 31 a] \<and> flags t' = flags t @ [take 2 f]"
proof -
  let ?gs = "gs @ [(unused_reset m, [fresh fe'])]" and ?n = "length (flat gs)"
  have ok: "tables_ok t" and tl: "flow_tail t = int ?n" "mask_tail t = int (length gs)"
    and ms: "m \<notin> set (masks t)" and g20: "length gs \<le> 20"
    using abs abs_masks_le[OF abs] m(2) by (auto simp: tcam_abs_def)
  obtain t1 where t1: "add_new_group t m fe = Some (int ?n, t1, unused_reset m, fe')" "tcam_abs t1 ?gs"
    "action_table t1 = action_table t" "flag_table t1 = flag_table t"
    using add_new_group_ok[OF abs room m(1) len(1)] by (auto simp: fe'_def)
  have add: "add_new_flow_entry t m fe = Some (int ?n, t1, unused_reset m, fe')"
    using t1(1) tl room add_loop_new[OF ok tl(2) g20 m(1) ms]
    by (simp add: add_new_flow_entry_def NO_F_FLWS_def)
  have "length (flat ?gs) = Suc ?n" by simp
  from add_action_ok[OF t1(2) this order_refl len(2,3)] obtain t2 where
    t2: "do { u \<leftarrow> (if int ?n < flow_tail t1 - 1 then restructure_action_tables t1 (int ?n) else Some t1);
      write_new_action u a f (int ?n) } = Some t2" "tcam_abs t2 ?gs"
    "actions t2 = rows 31 ?n (action_table t) @ [take 31 a]"
    "flags t2 = rows 2 ?n (flag_table t) @ [take 2 f]"
    using t1(3,4) by auto
  from t2(1) obtain u where "(if int ?n < flow_tail t1 - 1 then restructure_action_tables t1 (int ?n) else Some t1) = Some u"
    "write_new_action u a f (int ?n) = Some t2" unfolding Option.bind_eq_Some_conv by blast
  then have "add_new_entry t m fe a f = Some (int ?n, t2, unused_reset m, fe')"
    using add by (simp add: add_new_entry_def TBL_FULL_def RDNDNT_def)
  then show ?thesis using t2 tl by (auto simp: actions_def flags_def)
qed

lemma add_new_entry_refused:
  assumes abs: "tcam_abs t gs" and m: "length m = 45" and fe: "20 \<le> length fe"
  shows "length (flat gs) = 20 \<Longrightarrow> add_new_entry t m fe a f = Some (TBL_FULL, t, m, fe)"
    and "length (flat gs) < 20 \<Longrightarrow> k < length gs \<Longrightarrow> fst (gs ! k) = m \<Longrightarrow>
      (\<And>j. j < k \<Longrightarrow> fst (gs ! j) \<noteq> m) \<Longrightarrow> redundant_in gs k fe \<Longrightarrow>
      add_new_entry t m fe a f = Some (RDNDNT, t, m, fe)"
proof -
  show "length (flat gs) = 20 \<Longrightarrow> add_new_entry t m fe a f = Some (TBL_FULL, t, m, fe)"
    using abs by (simp add: add_new_entry_def add_new_flow_entry_def tcam_abs_def NO_F_FLWS_def)
next
  assume room: "length (flat gs) < 20" and k: "k < length gs" and mk: "fst (gs ! k) = m"
    and before: "\<And>j. j < k \<Longrightarrow> fst (gs ! j) \<noteq> m" and red: "redundant_in gs k fe"
  have "tables_ok t" "mask_tail t = int (length gs)" "length gs \<le> 20" "masks t = map fst gs"
    "flow_tail t = int (length (flat gs))"
    using abs abs_masks_le[OF abs] by (auto simp: tcam_abs_def)
  moreover from this have "add_loop t m fe 0 = add_to_group t m fe (int k)"
    using k mk before m by (intro add_loop_found[where n = "length gs"]) auto
  moreover have "add_to_group t m fe (int k) = Some (RDNDNT, t, m, fe)"
    using locate_ok[OF abs k] search_within_ok[OF abs k room _ fe] mk m red
    by (simp add: add_to_group_def)
  ultimately show "add_new_entry t m fe a f = Some (RDNDNT, t, m, fe)"
    using room by (simp add: add_new_entry_def add_new_flow_entry_def NO_F_FLWS_def)
qed

text \<open>An initialised TCAM: no entry and no mask.\<close>

lemma example_abs: "tcam_abs (example_tcam 0 0) []"
  by (simp add: tcam_abs_def example_tcam_facts)

lemma example_abs_one: "tcam_abs (example_tcam 1 1) [(replicate 45 0, [replicate 48 0])]"
  using not_marker_zero by (simp add: tcam_abs_def example_tcam_facts marked_def)

definition example_ones :: tcam_unit where
  "example_ones = (example_tcam 1 1)\<lparr>mask_table := replicate 45 255 @ replicate 855 0\<rparr>"

lemma example_ones_abs: "tcam_abs example_ones [(replicate 45 255, [replicate 48 0])]"
  using not_marker_zero
  by (simp add: tcam_abs_def example_ones_def example_tcam_def tables_ok_def entries_def masks_def
      marked_def rows_def row_replicate) (simp add: row_def slice_def)

text \<open>
  C9. Adding an entry under a mask the table has puts it at the end of that mask's group, moves
  the entries, actions and flags of the later groups down by one row and returns the row
  of the new entry. The new entry loses its marker bit and starts with counter 0 and timeout 255;
  the moved entries start with them again too.
\<close>

theorem add_new_entry_existing_mask:
  assumes "tcam_abs t gs" "k < length gs" "length (flat gs) < 20"
    and "length (fst (gs ! k)) = 45" "\<And>j. j < k \<Longrightarrow> fst (gs ! j) \<noteq> fst (gs ! k)"
    and "46 \<le> length fe" "31 \<le> length a" "2 \<le> length f" "\<not> redundant_in gs k fe"
  defines "e \<equiv> group_start gs (Suc k)" and "fe' \<equiv> put_bit 356 False fe"
  shows "\<exists>t'. add_new_entry t (fst (gs ! k)) fe a f = Some (int e, t', fst (gs ! k), fe') \<and>
     tcam_abs t' (put_in_group gs k (fresh fe')) \<and>
     actions t' = take e (actions t) @ take 31 a # drop e (actions t) \<and>
     flags t' = take e (flags t) @ take 2 f # drop e (flags t)"
  unfolding e_def fe'_def using assms(1-9) by (rule add_new_entry_group)

theorem add_new_entry_existing_mask_witness:
  "\<exists>t'. add_new_entry example_ones (replicate 45 255) (replicate 46 1) (replicate 31 2) [3, 4] =
      Some (1, t', replicate 45 255, put_bit 356 False (replicate 46 1)) \<and>
     flags t' = [replicate 2 0, [3, 4]]"
proof -
  have "\<not> redundant_in [(replicate 45 255, [replicate 48 0])] 0 (replicate 46 1)"
    by (auto simp: redundant_in_def looks_redundant_def abit_def group_start_def intro!: exI[of _ 7])
  then show ?thesis
    using add_new_entry_existing_mask[OF example_ones_abs, of 0 "replicate 46 1" "replicate 31 2" "[3, 4]"]
    by (auto simp: group_start_def flags_def example_ones_def example_tcam_def rows_def row_replicate)
qed

text \<open>
  C10. Adding an entry under a new mask opens a group at the end of the table: the mask is stored
  without its bits 357 to 359, the entry carries the marker unless it is the first of the whole
  table, and the actions and flags are appended.
\<close>

theorem add_new_entry_new_mask:
  assumes "tcam_abs t gs" "length (flat gs) < 20" "length m = 45" "m \<notin> fst ` set gs"
    and "46 \<le> length fe" "31 \<le> length a" "2 \<le> length f"
  defines "fe' \<equiv> put_bit 356 (gs \<noteq> []) fe"
  shows "\<exists>t'. add_new_entry t m fe a f = Some (int (length (flat gs)), t', unused_reset m, fe') \<and>
     tcam_abs t' (gs @ [(unused_reset m, [fresh fe'])]) \<and>
     actions t' = actions t @ [take 31 a] \<and> flags t' = flags t @ [take 2 f]"
  unfolding fe'_def using assms(1-7) by (rule add_new_entry_new)

theorem add_new_entry_new_mask_witness:
  "\<exists>t'. add_new_entry (example_tcam 0 0) (replicate 45 7) (replicate 46 1) (replicate 31 2) [3, 4] =
      Some (0, t', unused_reset (replicate 45 7), put_bit 356 False (replicate 46 1)) \<and>
     actions t' = [replicate 31 2]"
  using add_new_entry_new_mask[OF example_abs, of "replicate 45 7" "replicate 46 1" "replicate 31 2" "[3, 4]"]
  by (auto simp: actions_def example_tcam_def rows_def)

text \<open>
  The two refusals change nothing: a table of twenty entries answers \<open>TBL_FULL\<close>, and an entry
  that looks redundant in the group of its mask answers \<open>RDNDNT\<close>; tables, mask and entry stay
  as they were.
\<close>

theorem add_new_entry_refusals:
  assumes "tcam_abs t gs" "length m = 45" "20 \<le> length fe"
  shows "(length (flat gs) = 20 \<longrightarrow> add_new_entry t m fe a f = Some (TBL_FULL, t, m, fe)) \<and>
    (length (flat gs) < 20 \<and> k < length gs \<and> fst (gs ! k) = m \<and> (\<forall>j<k. fst (gs ! j) \<noteq> m) \<and>
      redundant_in gs k fe \<longrightarrow> add_new_entry t m fe a f = Some (RDNDNT, t, m, fe))"
  using add_new_entry_refused[OF assms] by blast

theorem add_new_entry_refusals_witness:
  "add_new_entry (example_tcam 1 1) (replicate 45 0) (replicate 46 1) (replicate 31 2) [3, 4] =
     Some (RDNDNT, example_tcam 1 1, replicate 45 0, replicate 46 1)"
  using add_new_entry_refusals[OF example_abs_one, of "replicate 45 0" "replicate 46 1" "replicate 31 2" "[3, 4]" 0]
  by (simp add: redundant_in_def looks_redundant_def abit_def)

text \<open>
  The redundancy test compares the wrong byte. An entry equal, bit for bit, to one its mask
  group has is not recognised unless byte \<open>i\<close> of it agrees with all its bytes the mask selects,
  \<open>i\<close> being the row: a duplicate whose mask selects two bytes that differ in some bit is added.
\<close>

theorem duplicate_not_recognised:
  assumes "length m = 45" "length (flow_table t) = 960" "20 \<le> length f" "i < 20"
    and "q < 360" "q' < 360" "abit m q" "abit m q'" "q mod 8 = q' mod 8"
    and "abit (row 48 i (flow_table t)) q \<noteq> abit (row 48 i (flow_table t)) q'"
  shows "differs_from_entry t m f (int i) = Some True"
proof -
  have "\<not> looks_redundant m f i (row 48 i (flow_table t))"
    using assms(5-10) unfolding looks_redundant_def by metis
  then show ?thesis using differs_from_entry_ok[OF assms(1-3) refl assms(4)] by simp
qed

theorem duplicate_not_recognised_witness:
  "differs_from_entry ((example_tcam 1 1)\<lparr>flow_table := [1] @ replicate 959 0\<rparr>)
     (replicate 45 255) ([1] @ replicate 45 0) 0 = Some True"
  using duplicate_not_recognised[of "replicate 45 255"
      "(example_tcam 1 1)\<lparr>flow_table := [1] @ replicate 959 0\<rparr>" "[1] @ replicate 45 0" 0 7 15]
  by (simp add: abit_def row_def slice_def)

section \<open>An addition always returns\<close>

lemma abs_mask_length: "tcam_abs t gs \<Longrightarrow> k < length gs \<Longrightarrow> length (fst (gs ! k)) = 45"
proof -
  assume abs: "tcam_abs t gs" and k: "k < length gs"
  have "fst (gs ! k) = masks t ! k" "k < nat (mask_tail t)" "k < 20" "length (mask_table t) = 900"
    using abs k abs_masks_le[OF abs] by (auto simp: tcam_abs_def tables_ok_def)
  then show ?thesis by (simp add: masks_def length_row)
qed

lemma first_index:
  "m \<in> fst ` set gs \<Longrightarrow> \<exists>k < length gs. fst (gs ! k) = m \<and> (\<forall>j<k. fst (gs ! j) \<noteq> m)"
proof -
  assume "m \<in> fst ` set gs"
  then have ex: "\<exists>k. k < length gs \<and> fst (gs ! k) = m"
    by (metis (no_types, lifting) image_iff in_set_conv_nth)
  define k where "k = (LEAST k. k < length gs \<and> fst (gs ! k) = m)"
  have "k < length gs \<and> fst (gs ! k) = m" unfolding k_def by (rule LeastI_ex[OF ex])
  moreover have "fst (gs ! j) \<noteq> m" if "j < k" for j
    using not_less_Least[OF that[unfolded k_def]] that calculation by auto
  ultimately show ?thesis by blast
qed

lemma add_new_entry_total:
  assumes abs: "tcam_abs t gs" and m: "length m = 45"
    and len: "46 \<le> length fe" "31 \<le> length a" "2 \<le> length f"
  shows "\<exists>r t' m' fe' gs'. add_new_entry t m fe a f = Some (r, t', m', fe') \<and> tcam_abs t' gs' \<and>
     length m' = 45 \<and> length fe' = length fe \<and> length (flat gs') \<le> Suc (length (flat gs))"
proof -
  have fe: "20 \<le> length fe" using len(1) by simp
  consider (full) "length (flat gs) = 20" | (room) "length (flat gs) < 20"
    using abs by (auto simp: tcam_abs_def le_less)
  then show ?thesis
  proof cases
    case full
    from add_new_entry_refused(1)[OF abs m fe full]
    have "add_new_entry t m fe a f = Some (TBL_FULL, t, m, fe)" .
    with abs m show ?thesis using le_SucI[OF order_refl] by blast
  next
    case room
    show ?thesis
    proof (cases "m \<in> fst ` set gs")
      case True
      from first_index[OF this] obtain k where k: "k < length gs" "fst (gs ! k) = m"
        "\<And>j. j < k \<Longrightarrow> fst (gs ! j) \<noteq> m" by auto
      show ?thesis
      proof (cases "redundant_in gs k fe")
        case True
        from add_new_entry_refused(2)[OF abs m fe room k True]
        have "add_new_entry t m fe a f = Some (RDNDNT, t, m, fe)" .
        with abs m show ?thesis using le_SucI[OF order_refl] by blast
      next
        case False
        have "\<And>j. j < k \<Longrightarrow> fst (gs ! j) \<noteq> fst (gs ! k)" using k(2,3) by simp
        from add_new_entry_group[OF abs k(1) room abs_mask_length[OF abs k(1)] this len False]
        show ?thesis using m flat_put_in_group[OF k(1)] group_start_le[of gs "Suc k"] unfolding k(2) by force
      qed
    next
      case False
      from add_new_entry_new[OF abs room m False len] show ?thesis using m by force
    qed
  qed
qed

end
