(* ===== verification/Tcam_Deleting.thy ===== *)
theory Tcam_Deleting
  imports Tcam_Entries
begin

text \<open>
  \<^verbatim>\<open>flow-processing-unit/flow_unit.h\<close>, fourth part: deleting an entry. It is looked up, its mask goes with
  the last entry of its group, the marker is passed on, and the rows behind it move up; all of it
  against the list of groups of \<open>tcam_abs\<close>, which a lookup only changes in its counters.
\<close>

section \<open>Deleting\<close>

text \<open>
  The two conditions are the code's, with its short-circuit order: the bit of the next row is
  read only when the first part asks for it. \<open>fmask\<close> is the local \<open>int mask[2]\<close>.
\<close>

definition first_bit :: "tcam_unit \<Rightarrow> int \<Rightarrow> bool option" where
  "first_bit tcam pos = do {
     b \<leftarrow> read_bit (flow_table tcam) ((pos * FLW_ENT_LEN + 44) * 8 + 4);
     Some (b \<noteq> 0) }"

definition delete_found :: "tcam_unit \<Rightarrow> int \<Rightarrow> tcam_unit option" where
  "delete_found tcam flow_pos = do {
     first \<leftarrow> first_bit tcam flow_pos;
     only \<leftarrow> (if first then
                (if flow_pos = flow_tail tcam - 1 then Some True
                 else first_bit tcam (flow_pos + 1))
              else Some False);
     tcam \<leftarrow> (if only then do {
                mask_pos \<leftarrow> get_mask_pos tcam flow_pos;
                delete_restructure_mask tcam mask_pos }
              else Some tcam);
     first \<leftarrow> first_bit tcam flow_pos;
     tcam \<leftarrow> (if first then do {
                next_first \<leftarrow> first_bit tcam (flow_pos + 1);
                if \<not> next_first then do {
                  table \<leftarrow> set_bit_c (flow_table tcam) (((flow_pos + 1) * FLW_ENT_LEN + 44) * 8 + 4);
                  Some (tcam\<lparr>flow_table := table\<rparr>) }
                else Some tcam }
              else Some tcam);
     tcam \<leftarrow> delete_restructure_flow tcam flow_pos;
     delete_restructure_action tcam flow_pos }"

definition delete_flow_entry ::
  "int list \<Rightarrow> tcam_unit \<Rightarrow> byte list \<Rightarrow> (int \<times> tcam_unit) option" where
  "delete_flow_entry fmask tcam flow_entry = do {
     (flow_pos, tcam, fmask) \<leftarrow> search_tcam tcam flow_entry fmask;
     tcam \<leftarrow> delete_found tcam flow_pos;
     Some (flow_pos, tcam) }"

section \<open>Deleting, against the list of groups\<close>

lemma rows_removed:
  assumes ok: "tables_ok t" and tl: "flow_tail t = int n" and pos: "pos < n" and n: "n \<le> 20"
  shows "\<exists>t'. do { u \<leftarrow> delete_restructure_flow t (int pos); delete_restructure_action u (int pos) } = Some t' \<and>
     tables_ok t' \<and> flow_tail t' = int n - 1 \<and>
     mask_table t' = mask_table t \<and> mask_tail t' = mask_tail t \<and>
     entries t' = take pos (entries t) @ map fresh (drop (Suc pos) (entries t)) \<and>
     actions t' = take pos (actions t) @ drop (Suc pos) (actions t) \<and>
     flags t' = take pos (flags t) @ drop (Suc pos) (flags t)"
proof -
  have l: "length (flow_table t) = 960" "length (action_table t) = 620" "length (flag_table t) = 40"
    using ok by (simp_all add: tables_ok_def)
  let ?k = "n - 1 - pos"
  let ?u = "t\<lparr>flow_table := shift_up 48 fresh pos ?k (flow_table t), flow_tail := int n - 1\<rparr>"
  let ?t = "?u\<lparr>action_table := shift_up 31 (\<lambda>r. r) pos ?k (action_table t),
       flag_table := shift_up 2 (\<lambda>r. r) pos ?k (flag_table t)\<rparr>"
  have "delete_restructure_flow t (int pos) = Some ?u"
    using l tl pos n by (intro delete_restructure_flow_ok) auto
  moreover have "delete_restructure_action ?u (int pos) = Some ?t"
    using delete_restructure_action_ok[of ?u n pos] l pos n by simp
  moreover have "tables_ok ?t"
    using ok l pos n flow_rows.shift_up_row(1)[of pos ?k "flow_table t"]
      action_rows.shift_up_row(1)[of pos ?k "action_table t"] flag_rows.shift_up_row(1)[of pos ?k "flag_table t"]
    by (simp add: tables_ok_def)
  moreover have "nat (int n - 1) = n - 1" by simp
  then have "entries ?t = take pos (entries t) @ map fresh (drop (Suc pos) (entries t))"
    "actions ?t = take pos (actions t) @ drop (Suc pos) (actions t)"
    "flags ?t = take pos (flags t) @ drop (Suc pos) (flags t)"
    using flow_rows.rows_remove[OF pos, of "flow_table t"] action_rows.rows_remove[OF pos, of "action_table t"]
      flag_rows.rows_remove[OF pos, of "flag_table t"] l n tl
    by (simp_all add: entries_def actions_def flags_def)
  ultimately show ?thesis by (intro exI[of _ ?t]) simp
qed

text \<open>The list after a deletion: the later entries and, with a whole group, the later masks move.\<close>

definition promote :: "nat \<Rightarrow> nat \<Rightarrow> byte list list \<Rightarrow> byte list list" where
  "promote k j es = (if j = 0 \<and> 0 < k \<and> 1 < length es then es[1 := put_bit 356 True (es ! 1)] else es)"

definition drop_in_group :: "mgroup list \<Rightarrow> nat \<Rightarrow> nat \<Rightarrow> mgroup list" where
  "drop_in_group gs k j = (let es = snd (gs ! k) in
     if length es = 1 then
       take k gs @ map (\<lambda>g. (unused_reset (fst g), map fresh (snd g))) (drop (Suc k) gs)
     else take k gs @ (fst (gs ! k), take j es @ map fresh (drop (Suc j) (promote k j es))) #
       map (\<lambda>g. (fst g, map fresh (snd g))) (drop (Suc k) gs))"

text \<open>What the flow table holds once the next entry has become the first of its group.\<close>

definition promoted :: "mgroup list \<Rightarrow> nat \<Rightarrow> nat \<Rightarrow> byte list list" where
  "promoted gs k j = flat (take k gs) @ promote k j (snd (gs ! k)) @ flat (drop (Suc k) gs)"

lemma length_promote [simp]: "length (promote k j es) = length es"
  by (simp add: promote_def)

lemma take_promote [simp]: "take j (promote k j es) = take j es"
  by (simp add: promote_def)

lemma flat_map_fresh': "flat (map (\<lambda>g. (h g, map fresh (snd g))) gs) = map fresh (flat gs)"
  by (induction gs) auto

lemma flat_drop_in_group:
  assumes "k < length gs" "j < length (snd (gs ! k))"
  shows "flat (drop_in_group gs k j) = take (group_start gs k + j) (promoted gs k j) @
     map fresh (drop (Suc (group_start gs k + j)) (promoted gs k j))"
proof -
  have "flat (drop_in_group gs k j) = flat (take k gs) @
      (take j (snd (gs ! k)) @ map fresh (drop (Suc j) (promote k j (snd (gs ! k))))) @
      map fresh (flat (drop (Suc k) gs))"
    using assms by (auto simp: drop_in_group_def Let_def flat_map_fresh')
  then show ?thesis
    using assms by (simp add: promoted_def group_start_def)
qed

lemma marked_drop_first:
  assumes "marked k es" "1 < length es" "\<And>e. e \<in> set es \<Longrightarrow> 46 \<le> length e"
  shows "marked k (drop 1 (promote k 0 es))"
proof -
  obtain a b bs where es: "es = a # b # bs"
    using assms(2) by (cases es; cases "tl es") auto
  then have "46 \<le> length b" using assms(3) by simp
  then show ?thesis
    using assms(1) es by (auto simp: marked_def promote_def marker_put_bit)
qed

lemma marked_drop_entry:
  assumes mk: "marked k es" and j: "j < length es" "length es \<noteq> 1" and len: "\<And>e. e \<in> set es \<Longrightarrow> 46 \<le> length e"
  shows "marked k (take j es @ map fresh (drop (Suc j) (promote k j es)))"
proof (cases "j = 0")
  case True
  have "46 \<le> length e" if "e \<in> set (drop 1 (promote k 0 es))" for e
    using that len in_set_dropD[OF that]
    by (auto simp: promote_def split: if_splits dest!: set_update_subset_insert[THEN subsetD])
  then show ?thesis using True marked_drop_first[OF mk] j len by (simp add: marked_fresh)
next
  case False
  have "marked k (take j es)" using mk False by (simp add: marked_take)
  moreover have "\<not> marker (fresh e)" if "e \<in> set (drop (Suc j) es)" for e
  proof -
    have "e \<in> set (tl es)" using that by (metis drop_Suc in_set_dropD)
    then show ?thesis using mk len[of e] in_set_dropD[OF that] by (simp add: marked_def marker_fresh)
  qed
  ultimately show ?thesis using False by (cases "take j es") (auto simp: marked_def promote_def)
qed

lemma marked_drop_in_group:
  assumes gs: "\<forall>i < length gs. marked i (snd (gs ! i))" and k: "k < length gs"
    and j: "j < length (snd (gs ! k))" and not_last: "0 < k \<or> 1 < length (snd (gs ! k))"
    and len: "\<And>x. x \<in> set (flat gs) \<Longrightarrow> 46 \<le> length x" and i: "i < length (drop_in_group gs k j)"
  shows "marked i (snd (drop_in_group gs k j ! i))"
proof -
  have lens: "46 \<le> length x" if "x \<in> set (snd (gs ! l))" "l < length gs" for x l
    by (rule len) (use that in \<open>force simp: flat_def\<close>)
  have fr: "marked l (map fresh (snd (gs ! l)))" if "l < length gs" for l
    using gs lens[of _ l] that by (simp add: marked_fresh)
  consider (before) "i < k" | (one) "k \<le> i" "length (snd (gs ! k)) = 1"
    | (same) "i = k" "length (snd (gs ! k)) \<noteq> 1" | (behind) "k < i" "length (snd (gs ! k)) \<noteq> 1" by linarith
  then show ?thesis
  proof cases
    case before
    then show ?thesis using gs k by (simp add: drop_in_group_def Let_def nth_append)
  next
    case one
    then have s: "Suc i < length gs" using i k by (simp add: drop_in_group_def Let_def)
    then have "marked i (map fresh (snd (gs ! Suc i)))" using fr[of "Suc i"] not_last one by (simp add: marked_def)
    then show ?thesis using one k s by (simp add: drop_in_group_def Let_def nth_append)
  next
    case same
    have "marked k (take j (snd (gs ! k)) @ map fresh (drop (Suc j) (promote k j (snd (gs ! k)))))"
      using gs k lens[OF _ k] by (intro marked_drop_entry[OF _ j same(2)]) auto
    then show ?thesis using same k by (simp add: drop_in_group_def Let_def nth_append)
  next
    case behind
    then have il: "i < length gs" using i k by (simp add: drop_in_group_def Let_def)
    obtain d where d: "i = Suc (k + d)" using behind(1) less_iff_Suc_add by auto
    then have "snd (drop_in_group gs k j ! i) = map fresh (snd (gs ! i))"
      using il behind(2) k by (simp add: drop_in_group_def Let_def nth_append)
    then show ?thesis using fr[OF il] by simp
  qed
qed

lemma first_bit_ok:
  "length (flow_table t) = 960 \<Longrightarrow> p = int i \<Longrightarrow> i < 20 \<Longrightarrow>
   first_bit t p = Some (marker (row 48 i (flow_table t)))"
  using read_marker[of "flow_table t" p i] by (simp add: first_bit_def)

text \<open>The three situations of the entry at \<open>pos\<close>, before its rows are removed.\<close>

definition before_removal :: "tcam_unit \<Rightarrow> int \<Rightarrow> tcam_unit option" where
  "before_removal tcam flow_pos = do {
     first \<leftarrow> first_bit tcam flow_pos;
     only \<leftarrow> (if first then
                (if flow_pos = flow_tail tcam - 1 then Some True
                 else first_bit tcam (flow_pos + 1))
              else Some False);
     tcam \<leftarrow> (if only then do {
                mask_pos \<leftarrow> get_mask_pos tcam flow_pos;
                delete_restructure_mask tcam mask_pos }
              else Some tcam);
     first \<leftarrow> first_bit tcam flow_pos;
     (if first then do {
        next_first \<leftarrow> first_bit tcam (flow_pos + 1);
        if \<not> next_first then do {
          table \<leftarrow> set_bit_c (flow_table tcam) (((flow_pos + 1) * FLW_ENT_LEN + 44) * 8 + 4);
          Some (tcam\<lparr>flow_table := table\<rparr>) }
        else Some tcam }
      else Some tcam) }"

lemma delete_found_split:
  "delete_found t p = do { u \<leftarrow> before_removal t p; u \<leftarrow> delete_restructure_flow u p;
     delete_restructure_action u p }"
  unfolding delete_found_def before_removal_def by simp

lemma put_row_bit:
  assumes "w * Suc i \<le> length t" "w * Suc j \<le> length t" "q < 8 * w"
  shows "row w j (put_bit (8 * (w * i) + q) v t) = (if j = i then put_bit q v (row w i t) else row w j t)"
proof -
  have "q div 8 < w" using assms(3) by auto
  moreover have "(8 * (w * i) + q) div 8 = w * i + q div 8" by simp
  moreover have "bit_flag (int (8 * (w * i) + q)) = bit_flag (int q)"
    by (rule bit_word_eqI) (simp only: bit_bit_flag mod_mult_self4)
  ultimately show ?thesis
    using assms row_update[OF assms(1,2), of "q div 8"] nth_row[OF assms(1), of "q div 8"]
    by (auto simp: put_bit_def)
qed

lemma set_next_first:
  assumes "length (flow_table t) = 960" "pos < 19"
  shows "set_bit_c (flow_table t) (((int pos + 1) * FLW_ENT_LEN + 44) * 8 + 4) =
     Some (put_bit (8 * (48 * Suc pos) + 356) True (flow_table t))"
proof -
  have "((int pos + 1) * FLW_ENT_LEN + 44) * 8 + 4 = int (8 * (48 * Suc pos) + 356)"
    by (simp add: FLW_ENT_LEN_def)
  then show ?thesis using assms by (simp only:) (rule set_bit_c_put, simp)
qed

text \<open>Not the first of a later group: nothing to prepare.\<close>

lemma before_removal_plain:
  assumes "tcam_abs t gs" "k < length gs" "j < length (snd (gs ! k))" "\<not> (j = 0 \<and> 0 < k)"
  shows "before_removal t (int (group_start gs k + j)) = Some t"
proof -
  have "\<not> marker (snd (gs ! k) ! j)"
    using assms marked_at[of k "snd (gs ! k)" j] by (auto simp: tcam_abs_def)
  then have "first_bit t (int (group_start gs k + j)) = Some False"
    using flat_row[OF assms(1-3)] assms(1) first_bit_ok[of t _ "group_start gs k + j"]
    by (simp add: tcam_abs_def tables_ok_def)
  then show ?thesis by (simp add: before_removal_def)
qed

text \<open>The first of several: the next entry gets the marker.\<close>

lemma before_removal_first:
  assumes abs: "tcam_abs t gs" and k: "k < length gs" "0 < k" and many: "1 < length (snd (gs ! k))"
  defines "p \<equiv> group_start gs k"
  shows "before_removal t (int p) =
     Some (t\<lparr>flow_table := put_bit (8 * (48 * Suc p) + 356) True (flow_table t)\<rparr>)" "Suc p < length (flat gs)"
proof -
  have ft: "length (flow_table t) = 960" and n20: "length (flat gs) \<le> 20"
    and tl: "flow_tail t = int (length (flat gs))" and m: "marked k (snd (gs ! k))"
    using abs k by (auto simp: tcam_abs_def tables_ok_def)
  show n: "Suc p < length (flat gs)" using flat_row(2)[OF abs k(1), of 1] many by (simp add: p_def)
  have "0 < length (snd (gs ! k))" using many by linarith
  then have "first_bit t (int p) = Some True"
    using flat_row(1)[OF abs k(1), of 0] marked_at[OF m, of 0] k n n20 ft first_bit_ok[of t "int p" p]
    by (simp add: p_def)
  moreover have "first_bit t (int p + 1) = Some False"
    using flat_row(1)[OF abs k(1), of 1] many marked_at[OF m, of 1] n n20 ft first_bit_ok[of t "int p + 1" "Suc p"]
    by (simp add: p_def)
  moreover have "int p \<noteq> flow_tail t - 1" using n tl by simp
  ultimately show "before_removal t (int p) =
     Some (t\<lparr>flow_table := put_bit (8 * (48 * Suc p) + 356) True (flow_table t)\<rparr>)"
    using set_next_first[OF ft, of p] n n20 by (simp add: before_removal_def)
qed

text \<open>The mask of a later group of one entry is found and taken out.\<close>

lemma only_mask_gone:
  assumes abs: "tcam_abs t gs" and k: "k < length gs" "0 < k" and one: "length (snd (gs ! k)) = 1"
  shows "do { mp \<leftarrow> get_mask_pos t (int (group_start gs k)); delete_restructure_mask t mp } =
     Some (t\<lparr>mask_table := shift_up 45 unused_reset k (length gs - 1 - k) (mask_table t), mask_tail := int (length gs) - 1\<rparr>)"
proof -
  have ok: "tables_ok t" "length (mask_table t) = 900" and n20: "length (flat gs) \<le> 20"
    and tl: "flow_tail t = int (length (flat gs))" "mask_tail t = int (length gs)"
    using abs by (auto simp: tcam_abs_def tables_ok_def)
  have n: "group_start gs k < length (flat gs)" using flat_row(2)[OF abs k(1), of 0] one by simp
  have "get_mask_pos t (int (group_start gs k)) = Some (int (group (entries t) (group_start gs k)))"
    by (rule get_mask_pos_ok[OF ok(1) tl(1) n20 n])
  moreover have "group (entries t) (group_start gs k) = k"
    using group_of_entry[of gs k 0] abs k one by (simp add: tcam_abs_def)
  moreover have "delete_restructure_mask t (int k) =
      Some (t\<lparr>mask_table := shift_up 45 unused_reset k (length gs - 1 - k) (mask_table t), mask_tail := int (length gs) - 1\<rparr>)"
    using ok(2) tl k abs_masks_le[OF abs] n20 by (intro delete_restructure_mask_ok) auto
  ultimately show ?thesis by simp
qed

text \<open>The only one of a later group: its mask goes. Row \<open>Suc p\<close> may get a marker it does not need.\<close>

lemma before_removal_only:
  assumes abs: "tcam_abs t gs" and k: "k < length gs" "0 < k" and one: "length (snd (gs ! k)) = 1"
    and room: "group_start gs k < 19"
  defines "p \<equiv> group_start gs k"
  shows "\<exists>ft'. before_removal t (int p) =
     Some (t\<lparr>flow_table := ft', mask_table := shift_up 45 unused_reset k (length gs - 1 - k) (mask_table t),
       mask_tail := int (length gs) - 1\<rparr>) \<and> length ft' = 960 \<and>
     (\<forall>i < length (flat gs). row 48 i ft' = row 48 i (flow_table t))"
proof -
  let ?n = "length (flat gs)" and ?g = "length gs"
  have ft: "length (flow_table t) = 960" "length (mask_table t) = 900" and n20: "?n \<le> 20" and ok: "tables_ok t"
    and tl: "flow_tail t = int ?n" "mask_tail t = int ?g" and m: "marked k (snd (gs ! k))"
    using abs k by (auto simp: tcam_abs_def tables_ok_def)
  have n: "p < ?n" using flat_row(2)[OF abs k(1), of 0] one by (simp add: p_def)
  define u where "u = t\<lparr>mask_table := shift_up 45 unused_reset k (?g - 1 - k) (mask_table t), mask_tail := int ?g - 1\<rparr>"
  have uft: "flow_table u = flow_table t" by (simp add: u_def)
  have f: "first_bit t (int p) = Some True" "first_bit u (int p) = Some True"
    using flat_row(1)[OF abs k(1), of 0] one marked_at[OF m, of 0] k n n20 ft
      first_bit_ok[of t "int p" p] first_bit_ok[of u "int p" p] by (simp_all add: p_def uft)
  have next_ok: "first_bit t (int p + 1) = Some (marker (row 48 (Suc p) (flow_table t)))"
    "first_bit u (int p + 1) = Some (marker (row 48 (Suc p) (flow_table t)))"
    using first_bit_ok[of t "int p + 1" "Suc p"] first_bit_ok[of u "int p + 1" "Suc p"] ft room
    by (simp_all add: p_def uft)
  have next_m: "marker (row 48 (Suc p) (flow_table t))" if "Suc p < ?n"
    using next_row_marked[OF abs k(1)] group_start_Suc[OF k(1)] one that by (simp add: p_def)
  have del: "do { mp \<leftarrow> get_mask_pos t (int p); delete_restructure_mask t mp } = Some u"
    using only_mask_gone[OF abs k one] by (simp add: p_def u_def)
  have only: "(if int p = flow_tail t - 1 then Some True else first_bit t (int p + 1)) = Some True"
    using next_ok next_m n tl by auto
  show ?thesis
  proof (cases "marker (row 48 (Suc p) (flow_table t))")
    case True
    have "before_removal t (int p) = Some u"
      unfolding before_removal_def by (simp add: f only del next_ok True)
    with ft show ?thesis by (intro exI[of _ "flow_table t"]) (simp add: u_def)
  next
    case False
    let ?ft = "put_bit (8 * (48 * Suc p) + 356) True (flow_table t)"
    have sn: "set_bit_c (flow_table u) (((int p + 1) * FLW_ENT_LEN + 44) * 8 + 4) = Some ?ft"
      using set_next_first[of u p] ft room by (simp add: p_def uft)
    have "before_removal t (int p) = Some (u\<lparr>flow_table := ?ft\<rparr>)"
      unfolding before_removal_def using sn by (simp add: f only del next_ok False)
    moreover have "row 48 i ?ft = row 48 i (flow_table t)" if "i < ?n" for i
      using put_row_bit[of 48 "Suc p" "flow_table t" i 356 True] that next_m False ft n20 room
      by (cases "i = Suc p") (auto simp: p_def)
    ultimately show ?thesis using ft by (intro exI[of _ ?ft]) (simp add: u_def)
  qed
qed

lemma map_fst_replace:
  assumes "k < length gs"
  shows "map fst (take k gs @ (fst (gs ! k), x) # map (\<lambda>g. (fst g, h g)) (drop (Suc k) gs)) = map fst gs"
proof -
  have "map fst (take k gs @ (fst (gs ! k), x) # map (\<lambda>g. (fst g, h g)) (drop (Suc k) gs)) =
      take k (map fst gs) @ map fst gs ! k # drop (Suc k) (map fst gs)"
    using assms by (simp add: take_map drop_map comp_def)
  also have "\<dots> = map fst gs" using id_take_nth_drop[of k "map fst gs"] assms by simp
  finally show ?thesis .
qed

text \<open>The tables with everything done but the removal of the rows of entry \<open>j\<close> of group \<open>k\<close>.\<close>

definition prepared :: "mgroup list \<Rightarrow> nat \<Rightarrow> nat \<Rightarrow> tcam_unit \<Rightarrow> tcam_unit \<Rightarrow> bool" where
  "prepared gs k j t u \<longleftrightarrow> tables_ok u \<and> flow_tail u = int (length (flat gs)) \<and>
     entries u = promoted gs k j \<and> masks u = map fst (drop_in_group gs k j) \<and>
     mask_tail u = int (length (drop_in_group gs k j)) \<and>
     action_table u = action_table t \<and> flag_table u = flag_table t"

lemma drop_keeps_masks:
  assumes "k < length gs" "length (snd (gs ! k)) \<noteq> 1"
  shows "map fst (drop_in_group gs k j) = map fst gs" "length (drop_in_group gs k j) = length gs"
proof -
  show "map fst (drop_in_group gs k j) = map fst gs"
    using map_fst_replace[OF assms(1)] assms(2) by (simp only: drop_in_group_def Let_def if_False)
  from arg_cong[OF this, of length] show "length (drop_in_group gs k j) = length gs" by simp
qed

lemma prepared_plain:
  assumes abs: "tcam_abs t gs" and k: "k < length gs" and j: "j < length (snd (gs ! k))"
    and plain: "\<not> (j = 0 \<and> 0 < k)" and not_last: "0 < k \<or> 1 < length (snd (gs ! k))"
  shows "prepared gs k j t t"
proof -
  have "length (snd (gs ! k)) \<noteq> 1" using plain not_last j by auto
  note drop_keeps_masks[OF k this]
  moreover have "promoted gs k j = flat gs"
    using plain flat_split[OF k] by (auto simp: promoted_def promote_def)
  ultimately show ?thesis using abs by (simp add: tcam_abs_def prepared_def)
qed

lemma prepared_first:
  assumes abs: "tcam_abs t gs" and k: "k < length gs" "0 < k" and many: "1 < length (snd (gs ! k))"
  shows "\<exists>u. before_removal t (int (group_start gs k)) = Some u \<and> prepared gs k 0 t u"
proof -
  let ?p = "group_start gs k" and ?n = "length (flat gs)"
  let ?u = "t\<lparr>flow_table := put_bit (8 * (48 * Suc ?p) + 356) True (flow_table t)\<rparr>"
  have ok: "tables_ok t" and tl: "flow_tail t = int ?n" and n20: "?n \<le> 20"
    and en: "rows 48 ?n (flow_table t) = flat gs"
    using abs by (auto simp: tcam_abs_def entries_def)
  note bf = before_removal_first[OF abs k many]
  have "entries ?u = promoted gs k 0"
  proof (rule nth_equalityI)
    show "length (entries ?u) = length (promoted gs k 0)"
      using tl arg_cong[OF flat_split[OF k(1)], of length] by (simp add: promoted_def)
  next
    fix i assume "i < length (entries ?u)"
    then have i: "i < ?n" using tl by simp
    have "entries ?u ! i = (if i = Suc ?p then put_bit 356 True (flat gs ! i) else flat gs ! i)"
      using put_row_bit[of 48 "Suc ?p" "flow_table t" i 356 True] i tl ok n20 bf(2)
        arg_cong[OF en, of "\<lambda>xs. xs ! i"]
      by (auto simp: entries_def tables_ok_def)
    also have "\<dots> = promoted gs k 0 ! i"
      using k many i by (subst (1 2) flat_split[OF k(1)])
        (auto simp: promoted_def promote_def nth_append group_start_def nth_list_update)
    finally show "entries ?u ! i = promoted gs k 0 ! i" .
  qed
  moreover have "masks ?u = map fst gs" using abs by (auto simp: tcam_abs_def masks_def)
  ultimately have "prepared gs k 0 t ?u"
    using drop_keeps_masks[OF k(1), of 0] many abs by (simp add: prepared_def tcam_abs_def tables_ok_def)
  then show ?thesis using bf(1) by blast
qed

lemma prepared_only:
  assumes abs: "tcam_abs t gs" and k: "k < length gs" "0 < k" and one: "length (snd (gs ! k)) = 1"
    and room: "group_start gs k < 19"
  shows "\<exists>u. before_removal t (int (group_start gs k)) = Some u \<and> prepared gs k 0 t u"
proof -
  let ?n = "length (flat gs)" and ?gs = "drop_in_group gs k 0" and ?p = "group_start gs k"
  have ok: "tables_ok t" and tl: "flow_tail t = int ?n" and n20: "?n \<le> 20"
    and en: "rows 48 ?n (flow_table t) = flat gs" and ms: "rows 45 (length gs) (mask_table t) = map fst gs"
    using abs by (auto simp: tcam_abs_def entries_def masks_def)
  let ?mt = "shift_up 45 unused_reset k (length gs - 1 - k) (mask_table t)"
  obtain ft' where ft': "before_removal t (int ?p) =
      Some (t\<lparr>flow_table := ft', mask_table := ?mt, mask_tail := int (length gs) - 1\<rparr>)" "length ft' = 960"
    "\<forall>i < ?n. row 48 i ft' = row 48 i (flow_table t)"
    using before_removal_only[OF abs k one room] by auto
  let ?u = "t\<lparr>flow_table := ft', mask_table := ?mt, mask_tail := int (length gs) - 1\<rparr>"
  have mt: "length (mask_table t) = 900" "length gs \<le> 20"
    using ok abs_masks_le[OF abs] n20 by (simp_all add: tables_ok_def)
  have "rows 45 (length gs - 1) ?mt = take k (map fst gs) @ map unused_reset (drop (Suc k) (map fst gs))"
    using mask_rows.rows_remove[OF k(1), of "mask_table t"] mt ms by simp
  moreover have "nat (int (length gs) - 1) = length gs - 1" by simp
  ultimately have "masks ?u = map fst ?gs"
    using one by (simp add: masks_def drop_in_group_def Let_def take_map drop_map comp_def)
  moreover have "rows 48 ?n ft' = flat gs"
    using ft'(3) en rows_cong[of ?n 48 ft' "flow_table t"] by simp
  then have "entries ?u = flat gs" using tl(1) by (simp add: entries_def)
  then have "entries ?u = promoted gs k 0"
    using one flat_split[OF k(1)] by (simp add: promoted_def promote_def)
  moreover have "tables_ok ?u"
    using ok ft'(2) mt k mask_rows.shift_up_row(1)[of k "length gs - 1 - k" "mask_table t"]
    by (simp add: tables_ok_def)
  moreover have "int (length gs) - 1 = int (length ?gs)"
    using one k by (simp add: drop_in_group_def Let_def)
  ultimately show ?thesis using ft'(1) tl by (simp add: prepared_def)
qed

lemma before_removal_ok:
  assumes abs: "tcam_abs t gs" and k: "k < length gs" and j: "j < length (snd (gs ! k))"
    and not_last: "0 < k \<or> 1 < length (snd (gs ! k))"
    and room: "length (snd (gs ! k)) = 1 \<Longrightarrow> group_start gs k < 19"
  shows "\<exists>u. before_removal t (int (group_start gs k + j)) = Some u \<and> prepared gs k j t u"
proof -
  consider (plain) "\<not> (j = 0 \<and> 0 < k)" | (first) "j = 0" "0 < k" "1 < length (snd (gs ! k))"
    | (only) "j = 0" "0 < k" "length (snd (gs ! k)) = 1" using j by linarith
  then show ?thesis
  proof cases
    case plain
    then show ?thesis using before_removal_plain[OF abs k j] prepared_plain[OF abs k j _ not_last] by blast
  next
    case first
    then show ?thesis using prepared_first[OF abs k] by simp
  next
    case only
    then show ?thesis using prepared_only[OF abs k] room by simp
  qed
qed

lemma delete_found_ok:
  assumes abs: "tcam_abs t gs" and k: "k < length gs" and j: "j < length (snd (gs ! k))"
    and not_last: "0 < k \<or> 1 < length (snd (gs ! k))"
    and room: "length (snd (gs ! k)) = 1 \<Longrightarrow> group_start gs k < 19"
  defines "p \<equiv> group_start gs k + j"
  shows "\<exists>t'. delete_found t (int p) = Some t' \<and> tcam_abs t' (drop_in_group gs k j) \<and>
     actions t' = take p (actions t) @ drop (Suc p) (actions t) \<and>
     flags t' = take p (flags t) @ drop (Suc p) (flags t)"
proof -
  let ?n = "length (flat gs)" and ?gs = "drop_in_group gs k j"
  have tl: "flow_tail t = int ?n" and n20: "?n \<le> 20" and p: "p < ?n"
    using abs flat_row(2)[OF abs k j] by (auto simp: tcam_abs_def p_def)
  obtain u where u: "before_removal t (int p) = Some u" "tables_ok u" "flow_tail u = int ?n"
    "entries u = promoted gs k j" "masks u = map fst ?gs" "mask_tail u = int (length ?gs)"
    "action_table u = action_table t" "flag_table u = flag_table t"
    using before_removal_ok[OF abs k j not_last room] by (auto simp: p_def prepared_def)
  obtain t' where t': "do { w \<leftarrow> delete_restructure_flow u (int p); delete_restructure_action w (int p) } = Some t'"
    "tables_ok t'" "flow_tail t' = int ?n - 1" "mask_table t' = mask_table u" "mask_tail t' = mask_tail u"
    "entries t' = take p (entries u) @ map fresh (drop (Suc p) (entries u))"
    "actions t' = take p (actions u) @ drop (Suc p) (actions u)"
    "flags t' = take p (flags u) @ drop (Suc p) (flags u)"
    using rows_removed[OF u(2,3) p n20] by blast
  have "delete_found t (int p) = Some t'"
    using u(1) t'(1) by (simp add: delete_found_split)
  moreover have "actions u = actions t" "flags u = flags t"
    using u(3,7,8) tl by (simp_all add: actions_def flags_def)
  moreover have "tcam_abs t' ?gs"
  proof -
    have e: "entries t' = flat ?gs"
      using t'(6) u(4) flat_drop_in_group[OF k j] by (simp add: p_def)
    have "length (promoted gs k j) = ?n"
      using arg_cong[OF flat_split[OF k], of length] by (simp add: promoted_def)
    then have "length (flat ?gs) = ?n - 1"
      using p by (simp add: flat_drop_in_group[OF k j] p_def[symmetric])
    moreover have "marked i (snd (?gs ! i))" if "i < length ?gs" for i
      using abs abs_entry_length[OF abs] that
      by (intro marked_drop_in_group[OF _ k j not_last]) (auto simp: tcam_abs_def)
    moreover have "masks t' = map fst ?gs" using u(5) t'(4,5) by (simp add: masks_def)
    ultimately show ?thesis
      using e t'(2,3,5) u(6) p n20 by (simp add: tcam_abs_def of_nat_diff)
  qed
  ultimately show ?thesis using t'(7,8) by auto
qed

section \<open>Deleting by a lookup\<close>

text \<open>Entries changed in place, each by its row number.\<close>

fun map_entries :: "(nat \<Rightarrow> byte list \<Rightarrow> byte list) \<Rightarrow> nat \<Rightarrow> mgroup list \<Rightarrow> mgroup list" where
  "map_entries h i [] = []"
| "map_entries h i (g # gs) = (fst g, map (\<lambda>j. h (i + j) (snd g ! j)) [0..<length (snd g)]) #
     map_entries h (i + length (snd g)) gs"

lemma map_entries_shape [simp]:
  "length (map_entries h i gs) = length gs" "map fst (map_entries h i gs) = map fst gs"
  by (induction gs arbitrary: i) auto

lemma flat_map_entries:
  "flat (map_entries h i gs) = map (\<lambda>j. h (i + j) (flat gs ! j)) [0..<length (flat gs)]"
proof (induction gs arbitrary: i)
  case (Cons g gs)
  show ?case
    by (rule nth_equalityI) (auto simp: Cons.IH nth_append)
qed simp

lemma map_entries_nth:
  "k < length gs \<Longrightarrow> snd (map_entries h i gs ! k) =
     map (\<lambda>j. h (i + group_start gs k + j) (snd (gs ! k) ! j)) [0..<length (snd (gs ! k))]"
proof (induction gs arbitrary: i k)
  case (Cons g gs)
  then show ?case by (cases k) (auto simp: group_start_def add.assoc)
qed simp

lemma group_start_map_entries [simp]: "group_start (map_entries h i gs) k = group_start gs k"
proof (induction gs arbitrary: i k)
  case (Cons g gs)
  then show ?case by (cases k) (auto simp: group_start_def)
qed (simp add: group_start_def)

lemma marked_map_nth:
  assumes "marked k es" "\<And>j. j < length es \<Longrightarrow> marker (h j) = marker (es ! j)"
  shows "marked k (map h [0..<length es])"
proof -
  have ne: "0 < length es" using assms(1) by (simp add: marked_def)
  have "\<not> marker (h j)" if "0 < j" "j < length es" for j
    using that assms(2) marked_at[OF assms(1) that(2)] by simp
  moreover have "tl [0..<length es] = [1..<length es]" using ne by (simp add: upt_conv_Cons)
  moreover have "hd (map h [0..<length es]) = h 0" using ne by (simp add: hd_map)
  ultimately show ?thesis
    using ne assms marked_at[OF assms(1) ne] by (auto simp: marked_def map_tl[symmetric])
qed

text \<open>The list of groups after a lookup.\<close>

definition bumped :: "(nat \<Rightarrow> bool) \<Rightarrow> mgroup list \<Rightarrow> mgroup list" where
  "bumped P gs = map_entries (\<lambda>i e. if P i then bump e else e) 0 gs"

lemma search_abs:
  assumes abs: "tcam_abs t gs" and len: "45 \<le> length f" "0 < length mp"
  defines "P \<equiv> hit (map fst gs) (flat gs) f"
  shows "\<exists>t' mp'. search_tcam t f mp = Some (best_pos (best P (flat gs) (length (flat gs))), t', mp') \<and>
     tcam_abs t' (bumped P gs) \<and> actions t' = actions t \<and> flags t' = flags t"
proof -
  let ?n = "length (flat gs)"
  have ok: "tables_ok t" and tl: "flow_tail t = int ?n" and n20: "?n \<le> 20"
    and en: "entries t = flat gs" and ms: "masks t = map fst gs" and mt: "mask_tail t = int (length gs)"
    using abs by (auto simp: tcam_abs_def)
  let ?s = "fst (searched t f mp ?n)"
  have "search_tcam t f mp = Some (best_pos (best P (flat gs) ?n), searched t f mp ?n)"
    using search_tcam_ok[OF ok tl n20 _ tcam_abs_group_bound[OF abs] len] abs_masks_le[OF abs] n20 mt
    by (simp add: en ms P_def)
  moreover have "tcam_abs ?s (bumped P gs)"
  proof -
    have "entries ?s = flat (bumped P gs)"
      using entries_searched[OF ok tl n20] by (simp add: bumped_def flat_map_entries en ms P_def)
    moreover have "marked k (snd (bumped P gs ! k))" if k: "k < length gs" for k
      unfolding bumped_def map_entries_nth[OF k]
    proof (rule marked_map_nth)
      show "marked k (snd (gs ! k))" using abs k by (simp add: tcam_abs_def)
      fix j assume j: "j < length (snd (gs ! k))"
      have "snd (gs ! k) ! j \<in> set (flat gs)"
        using flat_at[OF k j] flat_row(2)[OF abs k j] by (metis nth_mem)
      then have "length (snd (gs ! k) ! j) = 48"
        using length_entries_row[OF ok, of "snd (gs ! k) ! j"] tl n20 en by simp
      then show "marker (if P (0 + group_start gs k + j) then bump (snd (gs ! k) ! j) else snd (gs ! k) ! j)
          = marker (snd (gs ! k) ! j)" by (simp add: marker_bump)
    qed
    ultimately show ?thesis
      using tables_ok_searched[OF ok n20, of f mp] tl n20 mt ms
      by (simp add: tcam_abs_def bumped_def flat_map_entries) (simp add: searched_def Let_def)
  qed
  moreover have "actions ?s = actions t" "flags ?s = flags t"
    by (simp_all add: searched_def Let_def actions_def flags_def)
  ultimately show ?thesis by (metis prod.collapse)
qed

lemma first_bit_negative: "first_bit t (- 1) = None"
  using read_bit_out[of "flow_table t" "- 28"] by (simp add: first_bit_def FLW_ENT_LEN_def)

lemma delete_entry_groups:
  assumes "tcam_abs t gs" "45 \<le> length f" "0 < length mp"
    and "k < length gs" "j < length (snd (gs ! k))" "0 < k \<or> 1 < length (snd (gs ! k))"
    and "length (snd (gs ! k)) = 1 \<Longrightarrow> group_start gs k < 19"
  defines "P \<equiv> hit (map fst gs) (flat gs) f" and "p \<equiv> group_start gs k + j"
  assumes "best P (flat gs) (length (flat gs)) = Some p"
  shows "\<exists>t'. delete_flow_entry mp t f = Some (int p, t') \<and>
     tcam_abs t' (drop_in_group (bumped P gs) k j) \<and>
     actions t' = take p (actions t) @ drop (Suc p) (actions t) \<and>
     flags t' = take p (flags t) @ drop (Suc p) (flags t)"
proof -
  obtain s mp' where s: "search_tcam t f mp = Some (int p, s, mp')" "tcam_abs s (bumped P gs)"
    "actions s = actions t" "flags s = flags t"
    using search_abs[OF assms(1-3)] assms(10) by (auto simp: P_def best_pos_def)
  have len: "length (snd (bumped P gs ! k)) = length (snd (gs ! k))"
    using assms(4) by (simp add: bumped_def map_entries_nth)
  have "\<exists>t'. delete_found s (int p) = Some t' \<and> tcam_abs t' (drop_in_group (bumped P gs) k j) \<and>
     actions t' = take p (actions s) @ drop (Suc p) (actions s) \<and>
     flags t' = take p (flags s) @ drop (Suc p) (flags s)"
    using delete_found_ok[OF s(2), of k j] len assms(4-7)
    by (simp add: bumped_def p_def)
  then show ?thesis using s by (auto simp: delete_flow_entry_def)
qed

text \<open>
  C11. Deleting removes the entry the lookup finds, with its actions and flags, and closes the
  gap; the mask goes with the last entry of a group, and a group whose first entry goes passes
  the marker on. This holds for every entry but the only one of the first group, and but one alone
  in its group in the last row of a full table.
\<close>

theorem delete_flow_entry_removes:
  assumes "tcam_abs t gs" "45 \<le> length f" "0 < length mp"
    and "k < length gs" "j < length (snd (gs ! k))" "0 < k \<or> 1 < length (snd (gs ! k))"
    and "length (snd (gs ! k)) = 1 \<longrightarrow> group_start gs k < 19"
  defines "P \<equiv> hit (map fst gs) (flat gs) f" and "p \<equiv> group_start gs k + j"
  assumes "best P (flat gs) (length (flat gs)) = Some p"
  shows "\<exists>t'. delete_flow_entry mp t f = Some (int p, t') \<and>
     tcam_abs t' (drop_in_group (bumped P gs) k j) \<and>
     actions t' = take p (actions t) @ drop (Suc p) (actions t) \<and>
     flags t' = take p (flags t) @ drop (Suc p) (flags t)"
  unfolding P_def p_def using assms(7,10) unfolding P_def p_def by (intro delete_entry_groups[OF assms(1-6)]) auto

text \<open>Deleting an entry that is not there: the answer \<open>-1\<close> of the lookup is used as a position.\<close>

lemma delete_unmatched:
  assumes "tcam_abs t gs" "45 \<le> length f" "0 < length mp"
    and "\<And>i. i < length (flat gs) \<Longrightarrow> \<not> hit (map fst gs) (flat gs) f i"
  shows "delete_flow_entry mp t f = None"
proof -
  have "best (hit (map fst gs) (flat gs) f) (flat gs) (length (flat gs)) = None"
    using assms(4) by (simp add: best_None)
  then obtain s mp' where "search_tcam t f mp = Some (- 1, s, mp')"
    using search_abs[OF assms(1-3)] by (auto simp: best_pos_def)
  then show ?thesis
    by (simp add: delete_flow_entry_def delete_found_def first_bit_negative)
qed

theorem delete_flow_entry_removes_witness:
  "\<exists>t'. delete_flow_entry [0, 0] (example_tcam 2 1) (replicate 45 0) = Some (0, t') \<and>
     actions t' = [replicate 31 0]"
proof -
  let ?gs = "[(replicate 45 0, [replicate 48 0, replicate 48 0])] :: mgroup list"
  have "tcam_abs (example_tcam 2 1) ?gs"
    using not_marker_zero
    by (simp add: tcam_abs_def example_tcam_facts marked_def numeral_2_eq_2)
  moreover have "hit (map fst ?gs) (flat ?gs) (replicate 45 0) i" if "i < 2" for i
    using that not_marker_zero group_zero[of 2 i]
    by (auto simp: hit_def matches_def abit_def numeral_2_eq_2 less_Suc_eq)
  then have "best (hit (map fst ?gs) (flat ?gs) (replicate 45 0)) (flat ?gs) (length (flat ?gs)) = Some (group_start ?gs 0 + 0)"
    by (simp add: numeral_2_eq_2 group_start_def prio_def)
  moreover have "actions (example_tcam 2 1) = [replicate 31 0, replicate 31 0]"
    by (simp add: actions_def example_tcam_def rows_def row_replicate upt_rec)
  ultimately show ?thesis
    using delete_flow_entry_removes[of "example_tcam 2 1" ?gs "replicate 45 0" "[0, 0]" 0 0]
    by (auto simp: group_start_def)
qed

text \<open>
  The mask of the first group outlives its last entry. After the only entry of a table
  is deleted the table is empty but still has the mask; an entry added under that mask is
  compared with the deleted one, and is either refused as redundant or written to row 1 behind
  it: then the deleted entry is the live one again and the new one is not in the table.
\<close>

theorem delete_only_entry_leaves_mask:
  assumes "tcam_abs t [(m, [e])]" "length m = 45" "46 \<le> length fe"
  shows "\<exists>t'. delete_found t 0 = Some t' \<and> flow_tail t' = 0 \<and> mask_tail t' = 1 \<and>
     (looks_redundant m fe 0 e \<longrightarrow> add_new_flow_entry t' m fe = Some (RDNDNT, t', m, fe)) \<and>
     (\<not> looks_redundant m fe 0 e \<longrightarrow>
       (\<exists>t''. add_new_flow_entry t' m fe = Some (1, t'', m, put_bit 356 False fe) \<and> entries t'' = [e]))"
proof -
  note abs = assms(1)
  have ok: "tables_ok t" and tl: "flow_tail t = 1" "mask_tail t = 1" and row: "row 48 0 (flow_table t) = e"
    and ms: "masks t = [m]" and ft: "length (flow_table t) = 960"
    using abs by (auto simp: tcam_abs_def entries_def rows_def tables_ok_def)
  have "before_removal t 0 = Some t"
    using before_removal_plain[OF abs, of 0 0] by (simp add: group_start_def)
  then have "delete_found t 0 = do { u \<leftarrow> delete_restructure_flow t 0; delete_restructure_action u 0 }"
    by (simp add: delete_found_split)
  also have "\<dots> = Some (t\<lparr>flow_tail := 0\<rparr>)"
    using delete_restructure_flow_ok[of t 1 0] delete_restructure_action_ok[of "t\<lparr>flow_tail := 0\<rparr>" 1 0]
      ok tl by (simp add: tables_ok_def)
  finally have del: "delete_found t 0 = Some (t\<lparr>flow_tail := 0\<rparr>)" .
  let ?t = "t\<lparr>flow_tail := 0\<rparr>"
  have "add_new_flow_entry ?t m fe = add_to_group ?t m fe 0"
    using add_loop_found[of ?t 1 m 0 fe] ok tl ms assms(2)
    by (simp add: add_new_flow_entry_def NO_F_FLWS_def tables_ok_def masks_def rows_def)
  moreover have "search_within_mask_group ?t m fe (int 0) =
      Some (if \<exists>j. 0 \<le> j \<and> j < 1 \<and> looks_redundant m fe j (row 48 j (flow_table ?t)) then RDNDNT else int 1)"
    using assms ft by (intro search_within_mask_group_ok) auto
  then have "search_within_mask_group ?t m fe 0 = Some (if looks_redundant m fe 0 e then RDNDNT else 1)"
    using row by simp
  ultimately have add: "add_new_flow_entry ?t m fe = (if looks_redundant m fe 0 e then Some (RDNDNT, ?t, m, fe)
      else do {
        t1 \<leftarrow> restructure_flow_table ?t 1;
        fe1 \<leftarrow> reset_bit fe 356;
        t2 \<leftarrow> write_new_flow_entry (t1\<lparr>flow_tail := 1\<rparr>) fe1;
        Some (1, t2\<lparr>flow_tail := flow_tail t1\<rparr>, m, fe1) })"
    by (simp add: add_to_group_def locate_mask_group_def RDNDNT_def)
  have r: "restructure_flow_table ?t 1 = Some (t\<lparr>flow_tail := 1\<rparr>)"
    by (simp add: restructure_flow_table_def restructure_flow_table_loop.simps)
  have "reset_bit fe 356 = Some (put_bit 356 False fe)"
    using reset_bit_put[of 356 fe] assms(3) by simp
  moreover have "write_new_flow_entry (t\<lparr>flow_tail := 1\<rparr>) (put_bit 356 False fe) =
      Some (t\<lparr>flow_table := blit (flow_table t) 48 (fresh (put_bit 356 False fe)), flow_tail := 2\<rparr>)"
    using write_new_flow_entry_ok[of "t\<lparr>flow_tail := 1\<rparr>" 1 "put_bit 356 False fe"] ft assms(3) by simp
  moreover have "row 48 0 (blit (flow_table t) (48 * 1) (fresh (put_bit 356 False fe))) = e"
    using row ft assms(3) row_blit_other[of "fresh (put_bit 356 False fe)" 48 1 "flow_table t" 0]
    by (simp add: length_fresh)
  ultimately show ?thesis
    using del add r tl by (simp add: entries_def rows_def)
qed

theorem delete_only_entry_leaves_mask_witness:
  "\<exists>t'. delete_found example_ones 0 = Some t' \<and>
     (\<exists>t''. add_new_flow_entry t' (replicate 45 255) (replicate 46 1) =
        Some (1, t'', replicate 45 255, put_bit 356 False (replicate 46 1)) \<and> entries t'' = [replicate 48 0])"
proof -
  have "\<not> looks_redundant (replicate 45 255) (replicate 46 1) 0 (replicate 48 0)"
    by (auto simp: looks_redundant_def abit_def intro!: exI[of _ 7])
  then show ?thesis
    using delete_only_entry_leaves_mask[OF example_ones_abs, of "replicate 46 1"] by auto
qed

end
