(* ===== verification/Tcam_Actions.thy ===== *)
theory Tcam_Actions
  imports Tcam_Deleting
begin

text \<open>
  \<^verbatim>\<open>flow-processing-unit/flow_unit.h\<close>, fifth part, \<^verbatim>\<open>modify_entry\<close>: changing an entry in place. An
  action row is 31 bytes, twelve fields of some bits each and the output port; a flag of 16 bits
  says which fields, and which of priority, counter and timeout, are meant. The values of the
  fields that are meant follow each other without gaps.
\<close>

section \<open>Modifying an entry\<close>

text \<open>The eleven fields of an action row in the order of the code: flag bit, first and last bit.\<close>

definition action_fields :: "(int \<times> int \<times> int) list" where
  "action_fields = [(1, 0, 47), (2, 48, 95), (3, 96, 107), (4, 108, 110), (5, 111, 130),
     (6, 131, 133), (7, 134, 165), (8, 166, 197), (9, 198, 203), (10, 204, 219), (11, 220, 235)]"

text \<open>The blocks of the code for the fields, one after the other.\<close>

fun modify_action_fields ::
  "(int \<times> int \<times> int) list \<Rightarrow> byte list \<Rightarrow> byte list \<Rightarrow> int \<Rightarrow> byte list \<times> byte list \<times> int \<Rightarrow>
   (byte list \<times> byte list \<times> int) option"
where
  "modify_action_fields [] flag new_values pos st = Some st"
| "modify_action_fields ((fbit, lo, hi) # fs) flag new_values pos (table, val, val_pos) = do {
     b \<leftarrow> read_bit flag fbit;
     st \<leftarrow> (if b \<noteq> 0 then do {
        val \<leftarrow> extract_field new_values 0 val_pos (val_pos + (hi - lo)) val;
        table \<leftarrow> replace_field table pos lo hi val;
        Some (table, val, val_pos + (hi - lo + 1)) }
      else Some (table, val, val_pos));
     modify_action_fields fs flag new_values pos st }"

text \<open>A block that writes one whole byte of a table.\<close>

definition modify_byte ::
  "byte list \<Rightarrow> int \<Rightarrow> byte list \<Rightarrow> int \<Rightarrow> byte list \<times> byte list \<times> int \<Rightarrow>
   (byte list \<times> byte list \<times> int) option"
where
  "modify_byte flag fbit new_values at = (\<lambda>(table, val, val_pos). do {
     b \<leftarrow> read_bit flag fbit;
     if b \<noteq> 0 then do {
       val \<leftarrow> extract_field new_values 0 val_pos (val_pos + 7) val;
       v \<leftarrow> cget val 0;
       table \<leftarrow> cput table at v;
       Some (table, val, val_pos + 8) }
     else Some (table, val, val_pos) })"

definition modify_counter :: "byte list \<Rightarrow> int \<Rightarrow> byte \<Rightarrow> byte list option" where
  "modify_counter table at d = do { c \<leftarrow> cget table at; cput table at (c + d) }"

text \<open>The action set: nothing of it when the flag asks to drop, else the fields and the port.\<close>

definition modify_action_set ::
  "byte list \<Rightarrow> byte list \<Rightarrow> int \<Rightarrow> byte list \<times> byte list \<times> int \<Rightarrow> (byte list \<times> byte list \<times> int) option"
where
  "modify_action_set flag new_values pos st = do {
     drop_flag \<leftarrow> read_bit flag 0;
     if drop_flag = 0 then do {
       st \<leftarrow> modify_action_fields action_fields flag new_values pos st;
       modify_byte flag 12 new_values (pos * ACTN_ST_LEN + 30) st }
     else Some st }"

text \<open>
  Priority, counter and timeout. The counter is written and counted up, and after the timeout
  counted down once in every case.
\<close>

definition modify_flow ::
  "byte list \<Rightarrow> byte list \<Rightarrow> int \<Rightarrow> byte list \<times> byte list \<times> int \<Rightarrow> byte list option"
where
  "modify_flow flag new_values pos st = do {
     st \<leftarrow> modify_byte flag 13 new_values (pos * FLW_ENT_LEN + 45) st;
     (flows, val, val_pos) \<leftarrow> modify_byte flag 14 new_values (pos * FLW_ENT_LEN + 46) st;
     counter_flag \<leftarrow> read_bit flag 14;
     flows \<leftarrow> (if counter_flag \<noteq> 0 then modify_counter flows (pos * FLW_ENT_LEN + 46) 1 else Some flows);
     (flows, val, val_pos) \<leftarrow> modify_byte flag 15 new_values (pos * FLW_ENT_LEN + 47) (flows, val, val_pos);
     modify_counter flows (pos * FLW_ENT_LEN + 46) (- 1) }"

definition modify_flags :: "byte list \<Rightarrow> byte list \<Rightarrow> int \<Rightarrow> byte list option" where
  "modify_flags flag ftab pos = do {
     f0 \<leftarrow> cget flag 0;
     g0 \<leftarrow> cget ftab (2 * pos);
     ftab \<leftarrow> cput ftab (2 * pos) (g0 OR f0);
     f1 \<leftarrow> cget flag 1;
     g1 \<leftarrow> cget ftab (2 * pos + 1);
     cput ftab (2 * pos + 1) (g1 OR f1) }"

text \<open>\<open>fmask\<close> and \<open>val\<close> are the two local arrays, which hold anything at the start.\<close>

definition modify_entry ::
  "int list \<Rightarrow> byte list \<Rightarrow> tcam_unit \<Rightarrow> byte list \<Rightarrow> byte list \<Rightarrow> byte list \<Rightarrow> (int \<times> tcam_unit) option"
where
  "modify_entry fmask val tcam match_fields flag new_values = do {
     (pos, tcam, fmask) \<leftarrow> search_tcam tcam match_fields fmask;
     if pos = STR_ERR then Some (STR_ERR, tcam)
     else do {
       (actions, val, val_pos) \<leftarrow> modify_action_set flag new_values pos (action_table tcam, val, 0);
       flows \<leftarrow> modify_flow flag new_values pos (flow_table tcam, val, val_pos);
       flags \<leftarrow> modify_flags flag (flag_table tcam) pos;
       Some (pos, tcam\<lparr>action_table := actions, flow_table := flows, flag_table := flags\<rparr>) } }"

section \<open>Rows as blocks of bits\<close>

lemma abit_blit:
  assumes "b + length xs \<le> length t" "q < 8 * length t"
  shows "abit (blit t b xs) q =
     (if 8 * b \<le> q \<and> q < 8 * (b + length xs) then abit xs (q - 8 * b) else abit t q)"
proof -
  have *: "q div 8 < length t" using assms(2) by auto
  show ?thesis
  proof (cases "8 * b \<le> q")
    case True
    then obtain r where "q = 8 * b + r" using le_Suc_ex by blast
    then show ?thesis using assms(1) * by (auto simp: abit_def nth_blit)
  next
    case False
    then show ?thesis using assms(1) * by (auto simp: abit_def nth_blit)
  qed
qed

lemma blit_row: "w * Suc i \<le> length t \<Longrightarrow> blit t (w * i) (row w i t) = t"
  by (intro nth_equalityI) (auto simp: length_blit length_row nth_blit nth_row)

lemma blit_blit:
  "b + length xs \<le> length t \<Longrightarrow> length ys = length xs \<Longrightarrow> blit (blit t b xs) b ys = blit t b ys"
  by (intro nth_equalityI) (auto simp: length_blit nth_blit)

lemma put_bits_blit:
  assumes "b + length xs \<le> length t" "lo + n \<le> 8 * length xs" "d = 8 * b + lo"
  shows "put_bits d n g (blit t b xs) = blit t b (put_bits lo n g xs)"
proof (rule abit_ext)
  show "length (put_bits d n g (blit t b xs)) = length (blit t b (put_bits lo n g xs))"
    using assms(1) by (simp add: length_blit)
next
  fix q assume "q < 8 * length (put_bits d n g (blit t b xs))"
  then have q: "q < 8 * length t" using assms(1) by (simp add: length_blit)
  have "d + n \<le> 8 * length (blit t b xs)" using assms by (simp add: length_blit)
  then show "abit (put_bits d n g (blit t b xs)) q = abit (blit t b (put_bits lo n g xs)) q"
    using q assms by (auto simp: abit_put_bits abit_blit length_blit diff_diff_left split: if_splits)
qed

lemma update_blit:
  "b + length xs \<le> length t \<Longrightarrow> k < length xs \<Longrightarrow> (blit t b xs)[b + k := v] = blit t b (xs[k := v])"
  by (intro nth_equalityI) (auto simp: length_blit nth_blit nth_list_update)

section \<open>What a modification does to a row\<close>

text \<open>Flag bit, first bit and width of the eleven fields.\<close>

definition field_widths :: "(nat \<times> nat \<times> nat) list" where
  "field_widths = [(1, 0, 48), (2, 48, 48), (3, 96, 12), (4, 108, 3), (5, 111, 20),
     (6, 131, 3), (7, 134, 32), (8, 166, 32), (9, 198, 6), (10, 204, 16), (11, 220, 16)]"

fun set_fields ::
  "(nat \<times> nat \<times> nat) list \<Rightarrow> byte list \<Rightarrow> byte list \<Rightarrow> byte list \<Rightarrow> nat \<Rightarrow> byte list \<times> nat"
where
  "set_fields [] flag new r vp = (r, vp)"
| "set_fields ((b, lo, n) # fs) flag new r vp =
     (if abit flag b then set_fields fs flag new (put_bits lo n (\<lambda>k. abit new (vp + k)) r) (vp + n)
      else set_fields fs flag new r vp)"

text \<open>The byte at bit \<open>vp\<close> of the new values, and a byte of a row set to it.\<close>

definition byte_at :: "byte list \<Rightarrow> nat \<Rightarrow> byte" where
  "byte_at new vp = put_bits 0 8 (\<lambda>k. abit new (vp + k)) [0] ! 0"

definition set_byte :: "byte list \<Rightarrow> nat \<Rightarrow> nat \<Rightarrow> byte list \<Rightarrow> byte list \<times> nat \<Rightarrow> byte list \<times> nat" where
  "set_byte flag b k new = (\<lambda>(r, vp). if abit flag b then (r[k := byte_at new vp], vp + 8) else (r, vp))"

definition new_actions :: "byte list \<Rightarrow> byte list \<Rightarrow> byte list \<Rightarrow> byte list \<times> nat" where
  "new_actions flag new r = (if abit flag 0 then (r, 0)
     else set_byte flag 12 30 new (set_fields field_widths flag new r 0))"

definition new_flow :: "byte list \<Rightarrow> byte list \<Rightarrow> nat \<Rightarrow> byte list \<Rightarrow> byte list" where
  "new_flow flag new vp e =
     fst (set_byte flag 15 47 new (set_byte flag 14 46 new (set_byte flag 13 45 new (e, vp))))"

lemma length_set_fields [simp]: "length (fst (set_fields fs flag new r vp)) = length r"
  by (induction fs flag new r vp rule: set_fields.induct) simp_all

lemma set_fields_le: "snd (set_fields fs flag new r vp) \<le> vp + sum_list (map (snd \<circ> snd) fs)"
  by (induction fs flag new r vp rule: set_fields.induct) auto

definition field_bounds :: "nat \<times> nat \<times> nat \<Rightarrow> int \<times> int \<times> int" where
  "field_bounds = (\<lambda>(b, lo, n). (int b, int lo, int lo + int n - 1))"

lemma action_fields_widths: "action_fields = map field_bounds field_widths"
  by (simp add: action_fields_def field_widths_def field_bounds_def)

lemma modify_action_fields_ok:
  assumes "length flag = 2" "31 * Suc p \<le> length t" "length r = 31" "length val = 6"
    and "\<forall>(b, lo, n) \<in> set fs. b < 16 \<and> 0 < n \<and> n \<le> 48 \<and> lo + n \<le> 248"
    and "vp + sum_list (map (snd \<circ> snd) fs) \<le> 8 * length new"
  shows "\<exists>val'. modify_action_fields (map field_bounds fs) flag new (int p) (blit t (31 * p) r, val, int vp) =
      Some (blit t (31 * p) (fst (set_fields fs flag new r vp)), val', int (snd (set_fields fs flag new r vp))) \<and>
      length val' = 6"
  using assms(3-6)
proof (induction fs arbitrary: r val vp)
  case Nil
  then show ?case by simp
next
  case (Cons f fs)
  obtain b lo n where f: "f = (b, lo, n)" by (cases f)
  have b: "b < 16" and n: "0 < n" "n \<le> 48" and lo: "lo + n \<le> 248" and new: "vp + n \<le> 8 * length new"
    using Cons.prems by (auto simp: f)
  have rd: "read_bit flag (int b) = Some (if abit flag b then 1 else 0)"
    using b assms(1) by (intro read_bit_abit) simp
  show ?case
  proof (cases "abit flag b")
    case False
    then show ?thesis using Cons.IH[of r val vp] Cons.prems rd by (simp add: f field_bounds_def)
  next
    case True
    let ?val = "put_bits 0 n (\<lambda>k. abit new (vp + k)) val"
    let ?r = "put_bits lo n (\<lambda>k. abit new (vp + k)) r"
    have ex: "extract_field new 0 (int vp) (int vp + (int lo + int n - 1 - int lo)) val = Some ?val"
      using Cons.prems n new by (intro extract_field_bits) auto
    have "replace_field (blit t (31 * p) r) (int p) (int lo) (int lo + int n - 1) ?val =
        Some (put_bits (248 * p + lo) n (abit ?val) (blit t (31 * p) r))"
      using Cons.prems n lo assms(2) by (intro replace_field_bits) (auto simp: length_blit)
    also have "put_bits (248 * p + lo) n (abit ?val) (blit t (31 * p) r) =
        put_bits (248 * p + lo) n (\<lambda>k. abit new (vp + k)) (blit t (31 * p) r)"
      using Cons.prems n by (intro put_bits_cong) (simp add: abit_put_bits)
    also have "\<dots> = blit t (31 * p) ?r"
      using Cons.prems lo assms(2) by (intro put_bits_blit) auto
    finally have rp: "replace_field (blit t (31 * p) r) (int p) (int lo) (int lo + int n - 1) ?val =
        Some (blit t (31 * p) ?r)" .
    have vp: "int vp + (int lo + int n - 1 - int lo + 1) = int (vp + n)" by simp
    show ?thesis
      using Cons.IH[of ?r ?val "vp + n"] Cons.prems rd True ex rp
      by (simp add: f field_bounds_def vp del: of_nat_add) (simp add: add.assoc)
  qed
qed

lemma byte_at_put:
  assumes "length val = 6"
  shows "put_bits 0 8 (\<lambda>k. abit new (vp + k)) val ! 0 = byte_at new vp"
proof (rule byte_eqI)
  fix k :: nat assume "k < 8"
  then have *: "7 - (7 - k) = k" "(7 - k) div 8 = 0" "(7 - k) mod 8 = 7 - k" "7 - k < 8" by auto
  then have "bit (xs ! 0) k = abit xs (7 - k)" for xs by (simp add: abit_def)
  with *(4) show "bit (put_bits 0 8 (\<lambda>k. abit new (vp + k)) val ! 0) k = bit (byte_at new vp) k"
    using assms unfolding byte_at_def by (simp add: abit_put_bits)
qed

lemma modify_byte_ok:
  assumes "length flag = 2" "b < 16" "length val = 6" "vp + 8 \<le> 8 * length new"
    and "at + length r \<le> length t" "k < length r" "a = int (at + k)"
  shows "\<exists>val'. modify_byte flag (int b) new a (blit t at r, val, int vp) =
      Some (blit t at (fst (set_byte flag b k new (r, vp))), val', int (snd (set_byte flag b k new (r, vp)))) \<and>
      length val' = 6"
proof (cases "abit flag b")
  case True
  have "read_bit flag (int b) = Some 1" using assms(1,2) True read_bit_abit[of b flag] by simp
  moreover have "extract_field new 0 (int vp) (int vp + 7) val = Some (put_bits 0 8 (\<lambda>k. abit new (vp + k)) val)"
    using assms by (intro extract_field_bits) auto
  moreover have "cget (put_bits 0 8 (\<lambda>k. abit new (vp + k)) val) 0 = Some (byte_at new vp)"
    using assms(3) byte_at_put[OF assms(3), of new vp] by (simp add: cget_def)
  moreover have "cput (blit t at r) a v = Some (blit t at (r[k := v]))" for v
    using assms cput_int[of "at + k" "blit t at r" v] by (simp add: length_blit update_blit)
  ultimately show ?thesis
    using True assms(3) by (simp add: modify_byte_def set_byte_def)
next
  case False
  have "read_bit flag (int b) = Some 0" using assms(1,2) False read_bit_abit[of b flag] by simp
  then show ?thesis using False assms(3) by (simp add: modify_byte_def set_byte_def)
qed

lemma modify_counter_ok:
  assumes "at + length r \<le> length t" "k < length r" "a = int (at + k)"
  shows "modify_counter (blit t at r) a d = Some (blit t at (r[k := r ! k + d]))"
  using assms cput_int[of "at + k" "blit t at r"] cget_int[of "at + k" "blit t at r"]
  by (simp add: modify_counter_def length_blit update_blit nth_blit)

section \<open>Modifying the entry a lookup finds\<close>

lemma search_abs_tables:
  assumes abs: "tcam_abs t gs" and len: "45 \<le> length f" "0 < length mp"
    and s: "search_tcam t f mp = Some (r, t', mp')"
  shows "action_table t' = action_table t" "flag_table t' = flag_table t"
    "mask_table t' = mask_table t" "flow_tail t' = flow_tail t" "mask_tail t' = mask_tail t"
proof -
  have "tables_ok t" "flow_tail t = int (length (flat gs))" "length (flat gs) \<le> 20" "mask_tail t \<le> 20"
    using abs abs_masks_le[OF abs] by (auto simp: tcam_abs_def)
  then have "t' = fst (searched t f mp (length (flat gs)))"
    using search_tcam_ok[OF _ _ _ _ tcam_abs_group_bound[OF abs] len] s by (metis Pair_inject fst_conv option.inject prod.collapse)
  then show "action_table t' = action_table t" "flag_table t' = flag_table t"
    "mask_table t' = mask_table t" "flow_tail t' = flow_tail t" "mask_tail t' = mask_tail t"
    by (simp_all add: searched_def Let_def)
qed

lemma rows_blit:
  assumes "w * n \<le> length t" "p < n" "length r = w"
  shows "rows w n (blit t (w * p) r) = (rows w n t)[p := r]"
proof (rule nth_equalityI)
  fix i assume "i < length (rows w n (blit t (w * p) r))"
  then have i: "i < n" by simp
  have "w * Suc p \<le> length t" "w * Suc i \<le> length t"
    using assms(1) i assms(2) by (meson Suc_leI le_trans mult_le_mono2)+
  then show "rows w n (blit t (w * p) r) ! i = (rows w n t)[p := r] ! i"
    using i assms row_blit_same[of r w p t] row_blit_other[of r w p t i]
    by (cases "i = p") (simp_all add: nth_list_update)
qed simp

lemma set_byte_le: "snd (set_byte flag b k new st) \<le> snd st + 8"
  by (cases st) (simp add: set_byte_def)

lemma length_set_byte [simp]: "length (fst (set_byte flag b k new st)) = length (fst st)"
  by (cases st) (simp add: set_byte_def)

text \<open>The counter: what the search adds is taken off again.\<close>

lemma counter_cancels:
  fixes e :: "byte list"
  assumes "length e = 48" "s = set_byte flag 14 46 new (set_byte flag 13 45 new (bump e, vp))"
    and "x = (if abit flag 14 then (fst s)[46 := fst s ! 46 + 1] else fst s)"
    and "y = fst (set_byte flag 15 47 new (x, snd s))"
  shows "y[46 := y ! 46 + - 1] = new_flow flag new vp e"
  using assms
  by (intro nth_equalityI)
    (auto simp: new_flow_def set_byte_def bump_def nth_list_update split: if_splits)

lemma modify_action_set_ok:
  assumes sizes: "length flag = 2" "34 \<le> length new" "length val = 6"
    and t: "31 * Suc p \<le> length t" and r: "row 31 p t = r"
  defines "na \<equiv> new_actions flag new r"
  shows "\<exists>val'. modify_action_set flag new (int p) (t, val, 0) =
     Some (blit t (31 * p) (fst na), val', int (snd na)) \<and> length val' = 6 \<and> snd na \<le> 244"
proof -
  have len: "length r = 31" and bt: "blit t (31 * p) r = t"
    using t r by (auto simp: length_row blit_row)
  have d0: "read_bit flag 0 = Some (if abit flag 0 then 1 else 0)"
    using sizes(1) read_bit_abit[of 0 flag] by simp
  show ?thesis
  proof (cases "abit flag 0")
    case True
    then show ?thesis using sizes(3) bt d0 by (simp add: modify_action_set_def na_def new_actions_def)
  next
    case False
    let ?sf = "set_fields field_widths flag new r 0"
    have w: "sum_list (map (snd \<circ> snd) field_widths) = 236"
      "\<forall>(b, lo, n) \<in> set field_widths. b < 16 \<and> 0 < n \<and> n \<le> 48 \<and> lo + n \<le> 248"
      by (simp_all add: field_widths_def)
    obtain v0 where v0: "modify_action_fields action_fields flag new (int p) (t, val, 0) =
        Some (blit t (31 * p) (fst ?sf), v0, int (snd ?sf))" "length v0 = 6"
      using modify_action_fields_ok[OF sizes(1) t len sizes(3) w(2), of 0 new] sizes(2) w(1) bt
      by (auto simp: action_fields_widths)
    have le: "snd ?sf \<le> 236" using set_fields_le[of field_widths flag new r 0] w(1) by simp
    have "31 * p + length (fst ?sf) \<le> length t" using t len by simp
    from modify_byte_ok[OF sizes(1) _ v0(2) _ this, of 12 "snd ?sf" new 30 "int p * ACTN_ST_LEN + 30"]
    obtain v1 where "modify_byte flag 12 new (int p * ACTN_ST_LEN + 30)
        (blit t (31 * p) (fst ?sf), v0, int (snd ?sf)) =
        Some (blit t (31 * p) (fst na), v1, int (snd na))" "length v1 = 6"
      using len le sizes(2) False by (auto simp: ACTN_ST_LEN_def na_def new_actions_def mult.commute)
    moreover have "snd na \<le> 244"
      using False le set_byte_le[of flag 12 30 new ?sf] by (simp add: na_def new_actions_def)
    ultimately show ?thesis using v0 d0 False by (simp add: modify_action_set_def)
  qed
qed

lemma modify_flow_ok:
  assumes sizes: "length flag = 2" "34 \<le> length new" "length val = 6" "vp \<le> 244"
    and t: "48 * Suc p \<le> length t" and e: "row 48 p t = bump e" "length e = 48"
  shows "modify_flow flag new (int p) (t, val, int vp) = Some (blit t (48 * p) (new_flow flag new vp e))"
proof -
  have rng: "48 * p + 48 \<le> length t" and fl: "blit t (48 * p) (bump e) = t" and lb: "length (bump e) = 48"
    using t e blit_row[of 48 p t] by (simp_all add: bump_def)
  have d: "read_bit flag 14 = Some (if abit flag 14 then 1 else 0)"
    using sizes(1) read_bit_abit[of 14 flag] by simp
  let ?s13 = "set_byte flag 13 45 new (bump e, vp)"
  let ?s14 = "set_byte flag 14 46 new ?s13"
  define x where "x = (if abit flag 14 then (fst ?s14)[46 := fst ?s14 ! 46 + 1] else fst ?s14)"
  let ?s15 = "set_byte flag 15 47 new (x, snd ?s14)"
  have lx: "length x = 48" by (simp add: x_def lb)
  have l: "snd ?s13 \<le> 252" "snd ?s14 \<le> 260"
    using set_byte_le[of flag 13 45 new "(bump e, vp)"] set_byte_le[of flag 14 46 new ?s13] sizes(4) by simp_all
  obtain v2 where v2: "modify_byte flag 13 new (int p * FLW_ENT_LEN + 45) (t, val, int vp) =
      Some (blit t (48 * p) (fst ?s13), v2, int (snd ?s13))" "length v2 = 6"
    using modify_byte_ok[OF sizes(1), of 13 val vp new "48 * p" "bump e" t 45] sizes lb rng fl
    by (auto simp: FLW_ENT_LEN_def mult.commute)
  obtain v3 where v3: "modify_byte flag 14 new (int p * FLW_ENT_LEN + 46)
      (blit t (48 * p) (fst ?s13), v2, int (snd ?s13)) =
      Some (blit t (48 * p) (fst ?s14), v3, int (snd ?s14))" "length v3 = 6"
    using modify_byte_ok[OF sizes(1), of 14 v2 "snd ?s13" new "48 * p" "fst ?s13" t 46] v2(2) l sizes(2) lb rng
    by (auto simp: FLW_ENT_LEN_def mult.commute)
  have up: "(if (if abit flag 14 then 1 else 0) \<noteq> (0 :: byte)
        then modify_counter (blit t (48 * p) (fst ?s14)) (int p * FLW_ENT_LEN + 46) 1
        else Some (blit t (48 * p) (fst ?s14))) = Some (blit t (48 * p) x)"
    using modify_counter_ok[of "48 * p" "fst ?s14" t 46 "int p * FLW_ENT_LEN + 46" 1] lb rng
    by (simp add: FLW_ENT_LEN_def mult.commute x_def)
  obtain v4 where v4: "modify_byte flag 15 new (int p * FLW_ENT_LEN + 47) (blit t (48 * p) x, v3, int (snd ?s14)) =
      Some (blit t (48 * p) (fst ?s15), v4, int (snd ?s15))"
    using modify_byte_ok[OF sizes(1), of 15 v3 "snd ?s14" new "48 * p" x t 47] v3(2) l sizes(2) lx rng
    by (auto simp: FLW_ENT_LEN_def mult.commute)
  have "(fst ?s15)[46 := fst ?s15 ! 46 + - 1] = new_flow flag new vp e"
    by (rule counter_cancels[OF e(2) refl x_def refl])
  then have "modify_counter (blit t (48 * p) (fst ?s15)) (int p * FLW_ENT_LEN + 46) (- 1) =
      Some (blit t (48 * p) (new_flow flag new vp e))"
    using modify_counter_ok[of "48 * p" "fst ?s15" t 46 "int p * FLW_ENT_LEN + 46" "- 1"] lx rng
    by (simp add: FLW_ENT_LEN_def mult.commute)
  then show ?thesis using v2 v3 v4 d up by (simp add: modify_flow_def)
qed

lemma modify_flags_ok:
  assumes "length flag = 2" "2 * Suc p \<le> length t" "row 2 p t = r"
  shows "modify_flags flag t (int p) = Some (blit t (2 * p) [r ! 0 OR flag ! 0, r ! 1 OR flag ! 1])"
proof -
  have len: "length r = 2" and bt: "blit t (2 * p) r = t" using assms by (auto simp: length_row blit_row)
  have f: "cget flag 0 = Some (flag ! 0)" "cget flag 1 = Some (flag ! 1)"
    using assms(1) by (simp_all add: cget_def)
  have c0: "cget t (2 * int p) = Some (r ! 0)" "cput t (2 * int p) v = Some (blit t (2 * p) (r[0 := v]))" for v
    using cget_int[of "2 * p" t] cput_int[of "2 * p" t v] nth_row[of 2 p t 0] assms(2,3)
      update_blit[of "2 * p" r t 0 v] len bt by simp_all
  have c1: "cget (blit t (2 * p) xs) (2 * int p + 1) = Some (xs ! 1)"
    "cput (blit t (2 * p) xs) (2 * int p + 1) v = Some (blit t (2 * p) (xs[1 := v]))" if "length xs = 2" for xs v
    using that assms(2) cget_int[of "2 * p + 1" "blit t (2 * p) xs"] update_blit[of "2 * p" xs t 1]
      cput_int[of "2 * p + 1" "blit t (2 * p) xs" v] by (simp_all add: length_blit nth_blit add.commute)
  have "(r[0 := r ! 0 OR flag ! 0])[1 := r ! 1 OR flag ! 1] = [r ! 0 OR flag ! 0, r ! 1 OR flag ! 1]"
    using len by (intro nth_equalityI) (auto simp: nth_list_update less_2_cases_iff)
  then show ?thesis using len by (simp add: modify_flags_def f c0 c1)
qed

lemma modify_entry_ok:
  assumes abs: "tcam_abs t gs" and len: "45 \<le> length f" "0 < length mp"
    and sizes: "length flag = 2" "34 \<le> length new" "length val = 6"
  defines "P \<equiv> hit (map fst gs) (flat gs) f" and "n \<equiv> length (flat gs)"
  assumes b: "best P (flat gs) n = Some p"
  defines "na \<equiv> new_actions flag new (actions t ! p)"
  shows "\<exists>t'. modify_entry mp val t f flag new = Some (int p, t') \<and>
     actions t' = (actions t)[p := fst na] \<and>
     flags t' = (flags t)[p := [flags t ! p ! 0 OR flag ! 0, flags t ! p ! 1 OR flag ! 1]] \<and>
     entries t' = (map (\<lambda>i. if P i then bump (flat gs ! i) else flat gs ! i) [0..<n])
       [p := new_flow flag new (snd na) (flat gs ! p)] \<and> masks t' = masks t \<and>
     tables_ok t' \<and> flow_tail t' = flow_tail t \<and> mask_tail t' = mask_tail t"
proof -
  have ok: "length (action_table t) = 620" "length (flag_table t) = 40" "length (flow_table t) = 960"
    and tl: "flow_tail t = int n" "n \<le> 20" and pn: "p < n" and hitp: "P p"
    and en: "rows 48 n (flow_table t) = flat gs"
    using abs best_Some[OF b] by (auto simp: tcam_abs_def tables_ok_def n_def entries_def)
  obtain s mp' where s: "search_tcam t f mp = Some (int p, s, mp')" "tcam_abs s (bumped P gs)"
    using search_abs[OF abs len] b by (auto simp: P_def n_def best_pos_def)
  note st = search_abs_tables[OF abs len s(1)]
  have sft: "length (flow_table s) = 960" using s(2) by (simp add: tcam_abs_def tables_ok_def)
  have sen: "rows 48 n (flow_table s) = map (\<lambda>i. if P i then bump (flat gs ! i) else flat gs ! i) [0..<n]"
    using s(2) st(4) tl by (simp add: tcam_abs_def entries_def bumped_def flat_map_entries n_def)
  have e: "row 48 p (flow_table s) = bump (flat gs ! p)" "length (flat gs ! p) = 48"
    using arg_cong[OF sen, of "\<lambda>xs. xs ! p"] arg_cong[OF en, of "\<lambda>xs. xs ! p"]
      length_row[of 48 p "flow_table t"] pn hitp ok tl by auto
  let ?f' = "[flags t ! p ! 0 OR flag ! 0, flags t ! p ! 1 OR flag ! 1]"
  let ?e' = "new_flow flag new (snd na) (flat gs ! p)"
  obtain v1 where v1: "modify_action_set flag new (int p) (action_table s, val, 0) =
      Some (blit (action_table t) (31 * p) (fst na), v1, int (snd na))" "length v1 = 6" "snd na \<le> 244"
    using modify_action_set_ok[OF sizes, of p "action_table t" "actions t ! p"] ok st tl pn
    by (auto simp: actions_def na_def)
  moreover have "modify_flow flag new (int p) (flow_table s, v1, int (snd na)) =
      Some (blit (flow_table s) (48 * p) ?e')"
    using modify_flow_ok[OF sizes(1,2) v1(2,3) _ e] sft tl pn by simp
  moreover have "modify_flags flag (flag_table s) (int p) = Some (blit (flag_table t) (2 * p) ?f')"
    using modify_flags_ok[OF sizes(1), of p "flag_table t" "flags t ! p"] ok st tl pn by (simp add: flags_def)
  ultimately have run: "modify_entry mp val t f flag new = Some (int p,
      s\<lparr>action_table := blit (action_table t) (31 * p) (fst na),
        flow_table := blit (flow_table s) (48 * p) ?e', flag_table := blit (flag_table t) (2 * p) ?f'\<rparr>)"
    using s(1) by (simp add: modify_entry_def STR_ERR_def)
  have "length (fst na) = 31"
    using ok tl pn length_row[of 31 p "action_table t"] by (simp add: na_def new_actions_def actions_def)
  then have "rows 31 n (blit (action_table t) (31 * p) (fst na)) = (actions t)[p := fst na]"
    using rows_blit[of 31 n "action_table t" p "fst na"] ok tl pn by (simp add: actions_def)
  moreover have "rows 2 n (blit (flag_table t) (2 * p) ?f') = (flags t)[p := ?f']"
    using rows_blit[of 2 n "flag_table t" p ?f'] ok tl pn by (simp add: flags_def)
  moreover have "rows 48 n (blit (flow_table s) (48 * p) ?e') = (rows 48 n (flow_table s))[p := ?e']"
    using rows_blit[of 48 n "flow_table s" p] sft tl pn e by (simp add: new_flow_def)
  moreover have "length ?e' = 48" "length (mask_table s) = 900"
    using e s(2) by (simp_all add: new_flow_def tcam_abs_def tables_ok_def)
  ultimately show ?thesis
    using run sen st tl ok sft pn \<open>length (fst na) = 31\<close>
    by (simp add: actions_def flags_def entries_def masks_def tables_ok_def length_blit)
qed

text \<open>A field that is meant gets its run of the new values, any other keeps its bits.\<close>

lemma set_fields_other:
  assumes "\<forall>(b, lo, n) \<in> set fs. lo + n \<le> 8 * length r \<and> (q < lo \<or> lo + n \<le> q)" "q < 8 * length r"
  shows "abit (fst (set_fields fs flag new r vp)) q = abit r q"
  using assms
proof (induction fs flag new r vp rule: set_fields.induct)
  case (2 b lo n fs flag new r vp)
  then show ?case by (auto simp: abit_put_bits)
qed simp

lemma set_fields_field:
  assumes "\<forall>(b', lo', n') \<in> set (pre @ post). lo' + n' \<le> 8 * length r \<and> (lo + n \<le> lo' \<or> lo' + n' \<le> lo)"
    and "lo + n \<le> 8 * length r" "k < n"
  shows "abit (fst (set_fields (pre @ (b, lo, n) # post) flag new r vp)) (lo + k) =
     (if abit flag b
      then abit new (vp + sum_list (map (\<lambda>(b', lo', n'). if abit flag b' then n' else 0) pre) + k)
      else abit r (lo + k))"
  using assms
proof (induction pre arbitrary: r vp)
  case Nil
  have "\<forall>(b', lo', n') \<in> set post. lo' + n' \<le> 8 * length r \<and> (lo + k < lo' \<or> lo' + n' \<le> lo + k)"
    using Nil by fastforce
  then have "abit (fst (set_fields post flag new (put_bits lo n g r) v)) (lo + k) = abit (put_bits lo n g r) (lo + k)"
    "abit (fst (set_fields post flag new r v)) (lo + k) = abit r (lo + k)" for g v
    using Nil by (intro set_fields_other; simp)+
  then show ?case using Nil by (simp add: abit_put_bits)
next
  case (Cons f pre)
  obtain b' lo' n' where f: "f = (b', lo', n')" by (cases f)
  have d: "lo' + n' \<le> 8 * length r" "lo + n \<le> lo' \<or> lo' + n' \<le> lo" using Cons.prems(1) by (auto simp: f)
  let ?r = "put_bits lo' n' (\<lambda>k. abit new (vp + k)) r"
  have "abit ?r (lo + k) = abit r (lo + k)" using d Cons.prems by (auto simp: abit_put_bits)
  then show ?case
    using Cons.IH[of r vp] Cons.IH[of ?r "vp + n'"] Cons.prems by (auto simp: f add.assoc)
qed

text \<open>
  C13. Modifying changes the entry the lookup finds, and no other. Its action fields, its output
  port, priority, counter and timeout become what the flags ask for, the
  flags are added to its flags, and the count of the lookup itself is taken back (the other
  entries that agree with the flow keep theirs). The two uninitialised local arrays
  make no difference.
\<close>

theorem modify_entry_effect:
  assumes "tcam_abs t gs" "45 \<le> length f" "0 < length mp"
    and "length flag = 2" "34 \<le> length new" "length val = 6"
  defines "P \<equiv> hit (map fst gs) (flat gs) f" and "n \<equiv> length (flat gs)"
  assumes "best P (flat gs) n = Some p"
  defines "na \<equiv> new_actions flag new (actions t ! p)"
  shows "\<exists>t'. modify_entry mp val t f flag new = Some (int p, t') \<and>
     actions t' = (actions t)[p := fst na] \<and>
     flags t' = (flags t)[p := [flags t ! p ! 0 OR flag ! 0, flags t ! p ! 1 OR flag ! 1]] \<and>
     entries t' = (map (\<lambda>i. if P i then bump (flat gs ! i) else flat gs ! i) [0..<n])
       [p := new_flow flag new (snd na) (flat gs ! p)] \<and> masks t' = masks t"
  unfolding na_def P_def n_def
  using modify_entry_ok[OF assms(1-6) assms(9)[unfolded P_def n_def]] by blast

lemma example_best:
  "best (hit [replicate 45 0] [replicate 48 0] (replicate 45 0)) [replicate 48 0] 1 = Some 0"
  by (simp add: hit_def matches_def abit_def)

theorem modify_entry_effect_witness:
  "\<exists>t'. modify_entry [0, 0] (replicate 6 9) (example_tcam 1 1) (replicate 45 0) [0, 8] (replicate 34 5) = Some (0, t') \<and>
     flags t' = [[0, 8]]"
proof -
  have "flags (example_tcam 1 1) = [replicate 2 0]"
    by (simp add: flags_def example_tcam_def rows_def row_replicate)
  then show ?thesis
    using modify_entry_effect[OF example_abs_one, of "replicate 45 0" "[0, 0]" "[0, 8]" "replicate 34 5" "replicate 6 9" 0]
    example_best by auto
qed

text \<open>
  Within an action row every field that is meant becomes its own run of the new values, which
  starts behind the fields meant before it, and every other field keeps its bits.
\<close>

lemma modified_fields:
  assumes "length r = 31" "field_widths = pre @ (b, lo, n) # post" "k < n"
  shows "abit (fst (set_fields field_widths flag new r 0)) (lo + k) =
     (if abit flag b
      then abit new (sum_list (map (\<lambda>(b', lo', n'). if abit flag b' then n' else 0) pre) + k)
      else abit r (lo + k))"
proof -
  have "sorted_wrt (\<lambda>(b, lo, n) (b', lo', n'). lo + n \<le> lo') field_widths"
    "\<forall>(b, lo, n) \<in> set field_widths. lo + n \<le> 248"
    by (simp_all add: field_widths_def)
  note w = this[unfolded assms(2)]
  have "\<forall>(b', lo', n') \<in> set (pre @ post). lo' + n' \<le> 8 * length r \<and> (lo + n \<le> lo' \<or> lo' + n' \<le> lo)"
    using w assms(1) by (fastforce simp: sorted_wrt_append)
  moreover have "lo + n \<le> 8 * length r" using w(2) assms(1) by simp
  ultimately show ?thesis
    using set_fields_field[of pre post r lo n k b flag new 0] assms(2,3) by simp
qed

lemma modify_without_entry:
  assumes "search_tcam t f mp = Some (- 1, s, mp')"
  shows "modify_entry mp val t f flag new = None"
proof -
  have "modify_counter xs (- 1 * FLW_ENT_LEN + 46) (- 1) = None" for xs
    by (simp add: modify_counter_def FLW_ENT_LEN_def cget_out)
  then show ?thesis
    by (auto simp: modify_entry_def modify_flow_def assms STR_ERR_def split: bind_splits)
qed

lemma modify_unmatched:
  assumes "tcam_abs t gs" "45 \<le> length f" "0 < length mp"
    and "\<And>i. i < length (flat gs) \<Longrightarrow> \<not> hit (map fst gs) (flat gs) f i"
  shows "modify_entry mp val t f flag new = None"
proof -
  have "best (hit (map fst gs) (flat gs) f) (flat gs) (length (flat gs)) = None"
    using assms(4) by (simp add: best_None)
  then obtain s mp' where s: "search_tcam t f mp = Some (- 1, s, mp')"
    using search_abs[OF assms(1-3)] by (auto simp: best_pos_def)
  then show ?thesis by (rule modify_without_entry)
qed

text \<open>
  C40. Deleting or modifying an entry that is not there is undefined: when no entry agrees with the
  flow the lookup answers \<open>-1\<close>; \<^verbatim>\<open>delete_flow_entry\<close> does not test it and reads before the start
  of the flow table, \<^verbatim>\<open>modify_entry\<close> tests it against \<open>STR_ERR\<close> only and writes before the start
  of the flow table.
\<close>

theorem unmatched_undefined:
  assumes "tcam_abs t gs" "45 \<le> length f" "0 < length mp"
    and "\<And>i. i < length (flat gs) \<Longrightarrow> \<not> hit (map fst gs) (flat gs) f i"
  shows "delete_flow_entry mp t f = None \<and> modify_entry mp val t f flag new = None"
  using delete_unmatched[OF assms] modify_unmatched[OF assms] by simp

theorem unmatched_undefined_witness:
  "delete_flow_entry [0, 0] (example_tcam 0 0) (replicate 45 1) = None \<and>
   modify_entry [0, 0] (replicate 6 0) (example_tcam 0 0) (replicate 45 1) [0, 0] (replicate 34 0) = None"
  using unmatched_undefined[OF example_abs, of "replicate 45 1" "[0, 0]"] by simp

end
