(* ===== verification/Tcam_Apply.thy ===== *)
theory Tcam_Apply
  imports Tcam_Actions
begin

text \<open>
  \<^verbatim>\<open>flow-processing-unit/flow_unit.h\<close>, last part: \<^verbatim>\<open>apply_action\<close>, which looks a flow up in the cache
  and then in the table and prints what is to be done with the packet.
\<close>

section \<open>Applying actions\<close>

text \<open>What \<open>apply_action\<close> prints of a packet's treatment: a field with its bytes, or the drop.\<close>

datatype action_out =
    Drop_Packet
  | Mac_Src "byte list" | Mac_Dst "byte list"
  | Vlan_Id "byte list" | Vlan_Priority "byte list"
  | Mpls_Label "byte list" | Mpls_Traffic_Cls "byte list"
  | Ipv4_Src "byte list" | Ipv4_Dst "byte list" | Ipv4_Tos "byte list"
  | Tcp_Src "byte list" | Tcp_Dst "byte list"
  | Output_Port byte

text \<open>
  One block: with flag bit \<open>fbit\<close> set, clear the first \<open>z\<close> bytes of \<open>val\<close>, extract the bits
  from \<open>lo\<close> to \<open>hi\<close> and print the first \<open>n\<close> bytes.
\<close>

definition print_field ::
  "byte list \<Rightarrow> byte list \<Rightarrow> int \<Rightarrow> nat \<Rightarrow> int \<Rightarrow> int \<Rightarrow> nat \<Rightarrow> (byte list \<Rightarrow> action_out) \<Rightarrow>
   byte list \<times> action_out list \<Rightarrow> (byte list \<times> action_out list) option"
where
  "print_field action_flag action_set fbit z lo hi n tag = (\<lambda>(val, out). do {
     b \<leftarrow> read_bit action_flag fbit;
     if b \<noteq> 0 then do {
       val \<leftarrow> c_for z (\<lambda>i val. cput val (int i) 0) val;
       val \<leftarrow> extract_field action_set 0 lo hi val;
       bs \<leftarrow> c_for n (\<lambda>i bs. do { v \<leftarrow> cget val (int i); Some (bs @ [v]) }) [];
       Some (val, out @ [tag bs]) }
     else Some (val, out) })"

definition print_actions ::
  "byte list \<Rightarrow> byte list \<Rightarrow> byte list \<Rightarrow> (action_out list) option" where
  "print_actions val action_flag action_set = do {
     drop_flag \<leftarrow> read_bit action_flag 0;
     if drop_flag \<noteq> 0 then Some [Drop_Packet]
     else do {
       st \<leftarrow> print_field action_flag action_set 1 0 0 47 6 Mac_Src (val, []);
       st \<leftarrow> print_field action_flag action_set 2 0 48 95 6 Mac_Dst st;
       st \<leftarrow> print_field action_flag action_set 3 6 96 107 2 Vlan_Id st;
       st \<leftarrow> print_field action_flag action_set 4 6 108 110 1 Vlan_Priority st;
       st \<leftarrow> print_field action_flag action_set 5 6 111 130 3 Mpls_Label st;
       st \<leftarrow> print_field action_flag action_set 6 6 131 133 1 Mpls_Traffic_Cls st;
       st \<leftarrow> print_field action_flag action_set 7 0 134 165 4 Ipv4_Src st;
       st \<leftarrow> print_field action_flag action_set 8 0 166 197 4 Ipv4_Dst st;
       st \<leftarrow> print_field action_flag action_set 9 1 198 203 1 Ipv4_Tos st;
       st \<leftarrow> print_field action_flag action_set 10 0 204 219 2 Tcp_Src st;
       (val, out) \<leftarrow> print_field action_flag action_set 11 0 220 235 2 Tcp_Dst st;
       port \<leftarrow> cget action_set 30;
       Some (out @ [Output_Port port]) } }"

text \<open>
  The three local arrays \<open>action_set\<close>, \<open>mask\<close> and \<open>val\<close> hold anything at the start. The result
  is the code's \<open>int\<close> and what it printed.
\<close>

definition apply_action ::
  "byte list \<Rightarrow> int list \<Rightarrow> byte list \<Rightarrow> cache \<Rightarrow> tcam_unit \<Rightarrow> byte list \<Rightarrow>
   (int \<times> cache \<times> tcam_unit \<times> action_out list) option"
where
  "apply_action action_set fmask val c tcam flow = do {
     (pos, tcam) \<leftarrow> search_cache c flow tcam;
     (pos, c, tcam, action_set) \<leftarrow>
       (if pos \<ge> 0 then do {
          action_set \<leftarrow> c_for (nat ACTN_ST_LEN) (\<lambda>v action_set. do {
            b \<leftarrow> cget (action_table tcam) (pos * ACTN_ST_LEN + int v);
            cput action_set (int v) b }) action_set;
          Some (pos, c, tcam, action_set) }
        else do {
          (pos, c, tcam, action_set, fmask) \<leftarrow> search_flow c tcam flow action_set fmask;
          Some (pos, c, tcam, action_set) });
     if pos < 0 then Some (pos, c, tcam, [])
     else do {
       f0 \<leftarrow> cget (flag_table tcam) (2 * pos);
       f1 \<leftarrow> cget (flag_table tcam) (2 * pos + 1);
       out \<leftarrow> print_actions val [f0, f1] action_set;
       Some (1, c, tcam, out) } }"

section \<open>What is printed, on rows\<close>

text \<open>The bytes of a field of \<open>w\<close> bits that starts at bit \<open>lo\<close>: its bits from the left, zeros behind them.\<close>

definition field_bytes :: "nat \<Rightarrow> nat \<Rightarrow> nat \<Rightarrow> byte list \<Rightarrow> byte list" where
  "field_bytes lo w m r = put_bits 0 w (\<lambda>k. abit r (lo + k)) (replicate m 0)"

definition out_fields :: "(nat \<times> nat \<times> nat \<times> nat \<times> (byte list \<Rightarrow> action_out)) list" where
  "out_fields = [(1, 0, 48, 6, Mac_Src), (2, 48, 48, 6, Mac_Dst), (3, 96, 12, 2, Vlan_Id),
     (4, 108, 3, 1, Vlan_Priority), (5, 111, 20, 3, Mpls_Label), (6, 131, 3, 1, Mpls_Traffic_Cls),
     (7, 134, 32, 4, Ipv4_Src), (8, 166, 32, 4, Ipv4_Dst), (9, 198, 6, 1, Ipv4_Tos),
     (10, 204, 16, 2, Tcp_Src), (11, 220, 16, 2, Tcp_Dst)]"

definition actions_of :: "byte list \<Rightarrow> byte list \<Rightarrow> action_out list" where
  "actions_of flag r = (if abit flag 0 then [Drop_Packet]
     else concat (map (\<lambda>(b, lo, w, m, tag). if abit flag b then [tag (field_bytes lo w m r)] else []) out_fields)
          @ [Output_Port (r ! 30)])"

lemma c_for_zero:
  assumes "z \<le> length val"
  shows "c_for z (\<lambda>i val. cput val (int i) 0) val = Some (replicate z 0 @ drop z (val :: byte list))"
proof -
  have "c_for z (\<lambda>k t. do { v \<leftarrow> Some 0; cput t (int 0 + int k) v }) val = Some (blit val 0 (map (\<lambda>_. 0) [0..<z]))"
    using assms by (intro c_for_copy) auto
  then show ?thesis by (simp add: blit_def map_replicate_const)
qed

lemma c_for_take:
  assumes "n \<le> length xs"
  shows "c_for n (\<lambda>i bs. do { v \<leftarrow> cget xs (int i); Some (bs @ [v]) }) [] = Some (take n xs)"
  using assms by (induction n) (simp_all add: cget_int take_Suc_conv_app_nth)

lemma take_put_bits:
  assumes "w \<le> 8 * n" "n \<le> length xs" "n \<le> length ys" "w = 8 * n \<or> take n xs = take n ys"
  shows "take n (put_bits 0 w g xs) = take n (put_bits 0 w g ys)"
proof (rule abit_ext)
  show "length (take n (put_bits 0 w g xs)) = length (take n (put_bits 0 w g ys))" using assms by simp
next
  fix q assume "q < 8 * length (take n (put_bits 0 w g xs))"
  then have q: "q < 8 * n" "q div 8 < n" using assms(2) by auto
  have t: "abit (take n zs) q = abit zs q" for zs using q by (simp add: abit_def)
  have "w = 8 * n \<or> abit xs q = abit ys q" using assms(4) t[of xs] t[of ys] by auto
  then show "abit (take n (put_bits 0 w g xs)) q = abit (take n (put_bits 0 w g ys)) q"
    using q assms(1-3) by (auto simp: t abit_put_bits)
qed

lemma print_field_ok:
  assumes "length flag = 2" "fb < 16" "length r = 31" "length val = 6" "n \<le> 6" "z \<le> 6"
    and "w \<le> 8 * n" "lo + w \<le> 248" "n \<le> z \<or> w = 8 * n" "hi = int lo + int w - 1"
  shows "\<exists>val'. print_field flag r (int fb) z (int lo) hi n tag (val, out) =
     Some (val', out @ (if abit flag fb then [tag (field_bytes lo w n r)] else [])) \<and> length val' = 6"
proof (cases "abit flag fb")
  case True
  let ?z = "replicate z 0 @ drop z val"
  have "read_bit flag (int fb) = Some 1" using True assms by (simp add: read_bit_abit)
  moreover have "extract_field r 0 (int lo) hi ?z = Some (put_bits 0 w (\<lambda>k. abit r (lo + k)) ?z)"
    using assms by (intro extract_field_bits) auto
  moreover have "c_for z (\<lambda>i val. cput val (int i) 0) val = Some ?z"
    using assms by (intro c_for_zero) simp
  moreover have "c_for n (\<lambda>i bs. do { v \<leftarrow> cget (put_bits 0 w g ?z) (int i); Some (bs @ [v]) }) [] =
      Some (take n (put_bits 0 w g ?z))" for g
    using assms by (intro c_for_take) simp
  moreover have "take n (put_bits 0 w (\<lambda>k. abit r (lo + k)) ?z) = take n (field_bytes lo w n r)"
    unfolding field_bytes_def using assms by (intro take_put_bits) (auto simp: take_append)
  moreover have "length (field_bytes lo w n r) = n" by (simp add: field_bytes_def)
  ultimately show ?thesis using True assms(4,6) by (auto simp: print_field_def)
next
  case False
  then have "read_bit flag (int fb) = Some 0" using assms by (simp add: read_bit_abit)
  then show ?thesis using False assms(4) by (simp add: print_field_def)
qed

text \<open>One block and then the rest: the rest may not depend on what is left in \<open>val\<close>.\<close>

lemma print_field_then:
  assumes "length flag = 2" "length r = 31" "length val = 6"
    and "0 \<le> b \<and> b < 16 \<and> n \<le> 6 \<and> z \<le> 6 \<and> 0 \<le> lo \<and> hi < 248 \<and> lo \<le> hi \<and> hi - lo + 1 \<le> 8 * int n
       \<and> (n \<le> z \<or> hi - lo + 1 = 8 * int n)"
    and "\<And>val'. length val' = 6 \<Longrightarrow>
       K (val', out @ (if abit flag (nat b) then [tag (field_bytes (nat lo) (nat (hi - lo + 1)) n r)] else [])) = y"
  shows "(print_field flag r b z lo hi n tag (val, out) \<bind> K) = y"
proof -
  have int: "int (nat b) = b" "int (nat lo) = lo" "hi = int (nat lo) + int (nat (hi - lo + 1)) - 1"
    using assms(4) by auto
  have "nat (hi - lo + 1) \<le> 8 * n" "nat lo + nat (hi - lo + 1) \<le> 248" "n \<le> z \<or> nat (hi - lo + 1) = 8 * n"
    using assms(4) by linarith+
  then obtain val' where "length val' = 6" "print_field flag r b z lo hi n tag (val, out) =
      Some (val', out @ (if abit flag (nat b) then [tag (field_bytes (nat lo) (nat (hi - lo + 1)) n r)] else []))"
    using print_field_ok[of flag "nat b" r val n z "nat (hi - lo + 1)" "nat lo" hi tag out] assms(1-4) int by auto
  then show ?thesis using assms(5) by simp
qed

lemma print_actions_ok:
  assumes "length flag = 2" "length r = 31" "length val = 6"
  shows "print_actions val flag r = Some (actions_of flag r)"
proof (cases "abit flag 0")
  case True
  then show ?thesis using assms read_bit_abit[of 0 flag] by (simp add: print_actions_def actions_of_def)
next
  case False
  have d: "read_bit flag 0 = Some 0" using False assms read_bit_abit[of 0 flag] by simp
  have p: "cget r 30 = Some (r ! 30)" using assms by (simp add: cget_def)
  show ?thesis
    unfolding print_actions_def d bind.bind_lunit
    apply (simp only: simp_thms if_False)
    apply (insert assms(3))
    apply (rule print_field_then[OF assms(1,2)], assumption, simp)+
    apply (simp add: p actions_of_def out_fields_def False)
    done
qed

section \<open>Looking a flow up and acting on it\<close>

lemma search_abs_mask:
  assumes abs: "tcam_abs t gs" and len: "45 \<le> length f" "0 < length mp"
    and s: "search_tcam t f mp = Some (r, t', mp')"
  shows "length mp' = length mp"
proof -
  have "tables_ok t" "flow_tail t = int (length (flat gs))" "length (flat gs) \<le> 20" "mask_tail t \<le> 20"
    using abs abs_masks_le[OF abs] by (auto simp: tcam_abs_def)
  then have "mp' = snd (searched t f mp (length (flat gs)))"
    using search_tcam_ok[OF _ _ _ _ tcam_abs_group_bound[OF abs] len] s by (metis Pair_inject snd_conv option.inject prod.collapse)
  then show ?thesis by (simp add: searched_def Let_def best_mask_def split: option.split)
qed

lemma search_cache_empty: "cache_top c \<le> 1 \<Longrightarrow> search_cache c f t = Some (- 1, t)"
  by (simp add: search_cache_def)

definition applied :: "tcam_unit \<Rightarrow> nat option \<Rightarrow> action_out list" where
  "applied t q = (case q of None \<Rightarrow> [] | Some p \<Rightarrow> actions_of (flags t ! p) (actions t ! p))"

lemma search_flow_abs:
  assumes abs: "tcam_abs t gs" and len: "45 \<le> length f" "0 < length mp" "length a = 31"
    and cache: "length (flow_cache c) = 5" "cache_top c = 1"
  defines "q \<equiv> best (hit (map fst gs) (flat gs) f) (flat gs) (length (flat gs))"
    and "P \<equiv> hit (map fst gs) (flat gs) f"
  shows "\<exists>c' t' a' mp'. search_flow c t f a mp = Some (best_pos q, c', t', a', mp') \<and>
     tcam_abs t' (bumped P gs) \<and> actions t' = actions t \<and> flags t' = flags t \<and> length a' = 31 \<and>
     cache_top c' = (if q = None then 1 else 2) \<and> flag_table t' = flag_table t \<and>
     (\<forall>p. q = Some p \<longrightarrow> a' = actions t ! p)"
proof -
  obtain t' mp' where s: "search_tcam t f mp = Some (best_pos q, t', mp')" "tcam_abs t' (bumped P gs)"
      "actions t' = actions t" "flags t' = flags t"
    using search_abs[OF abs len(1,2)] by (auto simp: P_def q_def)
  note st = search_abs_tables[OF abs len(1,2) s(1)]
  have ok: "length (action_table t) = 620" "flow_tail t = int (length (flat gs))" "length (flat gs) \<le> 20"
    using abs by (auto simp: tcam_abs_def tables_ok_def)
  show ?thesis
  proof (cases q)
    case None
    then show ?thesis using s st cache len(3) by (auto simp: search_flow_def best_pos_def)
  next
    case (Some p)
    have p: "p < length (flat gs)" using best_Some[OF Some[unfolded q_def]] by simp
    obtain m mp'' where mp'': "mp' = m # mp''"
      using search_abs_mask[OF abs len(1,2) s(1)] len(2) by (cases mp') auto
    have "blit a 0 (row 31 p (action_table t')) = actions t ! p"
      using ok p st len(3) by (simp add: actions_def blit_def row_def slice_def)
    then show ?thesis
      using search_flow_ok[of t f mp p t' m mp'' a c] s st Some p ok cache len(3) mp''
        length_row[of 31 p "action_table t'"]
      by (auto simp: best_pos_def actions_def)
  qed
qed

lemma apply_action_ok:
  assumes abs: "tcam_abs t gs" and len: "45 \<le> length f" "0 < length mp" "length a = 31" "length val = 6"
    and cache: "length (flow_cache c) = 5" "cache_top c = 1"
  defines "q \<equiv> best (hit (map fst gs) (flat gs) f) (flat gs) (length (flat gs))"
    and "P \<equiv> hit (map fst gs) (flat gs) f"
  shows "\<exists>c' t'. apply_action a mp val c t f =
      Some (if q = None then - 1 else 1, c', t', applied t q) \<and>
     tcam_abs t' (bumped P gs) \<and> actions t' = actions t \<and> flags t' = flags t \<and>
     cache_top c' = (if q = None then 1 else 2)"
proof -
  have c0: "search_cache c f t = Some (- 1, t)" using cache by (intro search_cache_empty) simp
  obtain c' t' a' mp' where s: "search_flow c t f a mp = Some (best_pos q, c', t', a', mp')"
      "tcam_abs t' (bumped P gs)" "actions t' = actions t" "flags t' = flags t" "length a' = 31"
      "cache_top c' = (if q = None then 1 else 2)" "flag_table t' = flag_table t"
      "\<forall>p. q = Some p \<longrightarrow> a' = actions t ! p"
    using search_flow_abs[OF abs len(1-3) cache] unfolding q_def P_def by blast
  show ?thesis
  proof (cases q)
    case None
    then show ?thesis using s by (simp add: apply_action_def c0 best_pos_def applied_def)
  next
    case (Some p)
    have p: "p < length (flat gs)" using best_Some[OF Some[unfolded q_def]] by simp
    then have l: "length (flag_table t) = 40" "p < 20" "p < nat (flow_tail t)"
      using abs by (auto simp: tcam_abs_def tables_ok_def)
    then have f: "cget (flag_table t) (2 * int p) = Some (flags t ! p ! 0)"
      "cget (flag_table t) (2 * int p + 1) = Some (flags t ! p ! 1)" "length (flags t ! p) = 2"
      by (auto simp: flags_def cget_def nth_row length_row nat_add_distrib nat_mult_distrib)
    then have "[flags t ! p ! 0, flags t ! p ! 1] = flags t ! p"
      by (intro nth_equalityI) (auto simp: less_Suc_eq)
    then have "print_actions val [flags t ! p ! 0, flags t ! p ! 1] a' = Some (applied t q)"
      using print_actions_ok[of "flags t ! p" a' val] f s len(4) Some by (simp add: applied_def)
    then show ?thesis
      using s Some f by (simp add: apply_action_def c0 best_pos_def)
  qed
qed

section \<open>What apply_action promises\<close>

text \<open>
  C12. Right after \<open>init\<close>, applying actions to a flow prints exactly the actions of the best entry that
  agrees with it: the drop when its flag asks for it, otherwise every field its flags
  name, with the bits of the action row, and the output port, and answers 1 (not the port or the
  position). A flow without an entry prints nothing and answers \<open>-1\<close>.
  What the three local arrays held before makes no difference.
\<close>

theorem apply_action_best:
  assumes "tcam_abs t gs" "45 \<le> length f" "0 < length mp" "length a = 31" "length val = 6"
    and "length (flow_cache c) = 5" "cache_top c = 1"
  defines "q \<equiv> best (hit (map fst gs) (flat gs) f) (flat gs) (length (flat gs))"
    and "P \<equiv> hit (map fst gs) (flat gs) f"
  shows "\<exists>c' t'. apply_action a mp val c t f =
      Some (if q = None then - 1 else 1, c', t', applied t q) \<and>
     tcam_abs t' (bumped P gs) \<and> actions t' = actions t \<and> flags t' = flags t \<and>
     cache_top c' = (if q = None then 1 else 2)"
  unfolding P_def q_def using assms(1-7) by (rule apply_action_ok)

theorem apply_action_best_witness:
  "\<exists>c' t'. apply_action (replicate 31 3) [0, 0] (replicate 6 9) \<lparr>flow_cache = replicate 5 (0, 0), cache_top = 1\<rparr>
      (example_tcam 1 1) (replicate 45 0) = Some (1, c', t', [Output_Port 0])"
proof -
  have "flags (example_tcam 1 1) = [replicate 2 0]" "actions (example_tcam 1 1) = [replicate 31 0]"
    by (simp_all add: flags_def actions_def example_tcam_def rows_def row_replicate)
  then have "applied (example_tcam 1 1) (Some 0) = [Output_Port 0]"
    by (simp add: applied_def actions_of_def out_fields_def abit_def)
  then show ?thesis
    using apply_action_best[OF example_abs_one, of "replicate 45 0" "[0, 0]" "replicate 31 3" "replicate 6 9"
        "\<lparr>flow_cache = replicate 5 (0, 0), cache_top = 1\<rparr>"] example_best by auto
qed

text \<open>A packet that is not found leaves the cache as it was.\<close>

lemma apply_missed:
  assumes "apply_action a mp val c t f = Some (r, c', t', out)" "r < 0"
  shows "c' = c"
  using assms by (auto simp: apply_action_def search_flow_def split: bind_splits if_splits)

text \<open>After one packet that was found the search of the cache is undefined.\<close>

lemma second_apply_closed:
  assumes "length (flow_cache c) = 5" "init c = Some c0"
    and "apply_action a mp val c0 t f = Some (1, c1, t1, out)"
  shows "apply_action b mq w c1 u g = None"
proof -
  have "cache_top c0 = 1" using assms(1,2) by (auto simp: init_ok)
  then have sc: "search_cache c0 f t = Some (- 1, t)" by (intro search_cache_empty) simp
  obtain pos t' a' mp' where sf: "search_flow c0 t f a mp = Some (pos, c1, t', a', mp')" "0 \<le> pos"
    using assms(3) by (auto simp: apply_action_def sc split: bind_splits if_splits)
  have "search_cache c1 g u = None" by (rule cache_search_after_first_hit[OF assms(1,2) sf])
  then show ?thesis by (simp add: apply_action_def)
qed

text \<open>
  C39. Only one packet in the life of the switch is acted on: after \<open>init\<close> and one flow that was
  found, every further call of \<open>apply_action\<close>, for any flow and any tables, is undefined,
  since the search of the cache takes an unused slot for an entry.
\<close>

theorem second_apply_undefined:
  assumes "length (flow_cache c) = 5" "init c = Some c0"
    and "apply_action a mp val c0 t f = Some (1, c1, t1, out)"
  shows "apply_action b mq w c1 u g = None"
  by (rule second_apply_closed[OF assms])

theorem second_apply_undefined_witness:
  "\<exists>c0 c1 t1 out. init \<lparr>flow_cache = replicate 5 (0, 0), cache_top = 0\<rparr> = Some c0 \<and>
     apply_action (replicate 31 0) [0, 0] (replicate 6 0) c0 (example_tcam 1 1) (replicate 45 0) = Some (1, c1, t1, out) \<and>
     apply_action (replicate 31 0) [0, 0] (replicate 6 0) c1 t1 (replicate 45 0) = None"
proof -
  let ?c = "\<lparr>flow_cache = replicate 5 (0, 0), cache_top = 0\<rparr>"
  let ?d = "?c\<lparr>flow_cache := map (\<lambda>s. (- 1, snd s)) (flow_cache ?c), cache_top := 1\<rparr>"
  have i: "init ?c = Some ?d" by (rule init_ok) simp
  obtain c1 t1 out where "apply_action (replicate 31 0) [0, 0] (replicate 6 0) ?d (example_tcam 1 1)
      (replicate 45 0) = Some (1, c1, t1, out)"
    using apply_action_ok[OF example_abs_one, of "replicate 45 0" "[0, 0]" "replicate 31 0" "replicate 6 0" ?d]
      example_best by auto
  then show ?thesis
    using i second_apply_undefined[OF _ i, of "replicate 31 0" "[0, 0]" "replicate 6 0" "example_tcam 1 1"] by auto
qed

end
