(* ===== verification/Pipeline.thy ===== *)
theory Pipeline
  imports Match_Fields Tcam_Apply
begin

text \<open>
  The components together: packets that are loaded, pre-processed and returned in any order of these
  steps, and the way of one packet from the buffer through its match field and the flow table
  to the actions it is given.
\<close>

section \<open>Loading, pre-processing and returning, interleaved\<close>

text \<open>
  \<open>pp_run pp ls rs pp'\<close>: from \<open>pp\<close> some steps lead to \<open>pp'\<close>; \<open>ls\<close> are the packets loaded
  (ingress port, metadata and data), \<open>rs\<close> the pairs returned. The steps are the calls of a caller who loads
  a packet that was captured whole where it fits and is short enough for its length byte and for the arrays of the readers, pre-processes when one is
  pending and asks for one when one is ready. The code refuses none of the other calls; what they do is
  \<open>packet_buffer_full_forever\<close>, \<open>long_packet_is_cut\<close>, \<open>early_prepare_shifts\<close> and the last part of
  \<open>pipeline_in_order\<close>. Whether there is room for the match field is not tested by this caller either. The arrays
  from \<open>malloc\<close> and the caller's arrays hold anything.
\<close>

inductive pp_run ::
  "pre_processor \<Rightarrow> byte list list \<Rightarrow> (byte list \<times> byte list) list \<Rightarrow> pre_processor \<Rightarrow> bool"
  for start where
  run_start: "pp_run start [] [] start"
| run_load: "pp_run start ls rs pp \<Longrightarrow> length ip = 4 \<Longrightarrow> length md = 8 \<Longrightarrow> caplen k = len k \<Longrightarrow>
    length (pkt_data k) = unat (caplen k) \<Longrightarrow> unat (caplen k) < 88 \<Longrightarrow>
    unat (caplen k) + 13 \<le> pb_room (pp_pb pp) \<Longrightarrow>
    load_a_packet_to_the_packet_buffer k (pp_pb pp) ip md = Some pb \<Longrightarrow>
    pp_run start (ls @ [ip @ md @ pkt_data k]) rs (pp\<lparr>pp_pb := pb\<rparr>)"
| run_prepare: "pp_run start ls rs pp \<Longrightarrow> pb_pending (pp_pb pp) \<noteq> [] \<Longrightarrow>
    prepare_match_field h1 h2 pp = Some pp' \<Longrightarrow> pp_run start ls rs pp'"
| run_return: "pp_run start ls rs pp \<Longrightarrow> pb_ready (pp_pb pp) \<noteq> [] \<Longrightarrow> length mf = 45 \<Longrightarrow> length pk = 100 \<Longrightarrow>
    return_match_field_and_packet pp mf pk = Some (f, q, pp') \<Longrightarrow> pp_run start ls (rs @ [(f, q)]) pp'"

text \<open>A pair that belongs to a packet: its match field and, at the front of the array, its bytes.\<close>

definition made_for :: "byte list \<Rightarrow> byte list \<Rightarrow> bool" where
  "made_for p f \<longleftrightarrow> (\<exists>h1 h2. f = match_field_of h1 h2 p)"

definition delivered :: "byte list \<Rightarrow> byte list \<times> byte list \<Rightarrow> bool" where
  "delivered p r \<longleftrightarrow> take (Suc (length p)) (snd r) = frame p"

definition pair_of :: "byte list \<Rightarrow> byte list \<times> byte list \<Rightarrow> bool" where
  "pair_of p r \<longleftrightarrow> made_for p (fst r) \<and> delivered p r"

text \<open>
  The packets returned, ready and pending, their match fields behind those that were there before (\<open>pre\<close>), and the
  room all match fields have used up.
\<close>

definition runs_ok ::
  "byte list list \<Rightarrow> nat \<Rightarrow> byte list list \<Rightarrow> (byte list \<times> byte list) list \<Rightarrow> pre_processor \<Rightarrow> bool" where
  "runs_ok pre room ls rs pp \<longleftrightarrow> (\<exists>out rdy ps fs gs. ls = out @ rdy @ ps \<and> pp_lists pp ps rdy fs \<and>
     list_all2 delivered out rs \<and> map fst rs @ fs = pre @ gs \<and> list_all2 made_for (out @ rdy) gs \<and>
     mfb_room (pp_mf pp) + 45 * (length rs + length fs) = room)"

lemma runs_okE:
  assumes "runs_ok pre room ls rs pp"
  obtains out rdy ps fs gs where "ls = out @ rdy @ ps" "pp_lists pp ps rdy fs" "list_all2 delivered out rs"
    "map fst rs @ fs = pre @ gs" "list_all2 made_for (out @ rdy) gs" "mfb_room (pp_mf pp) + 45 * (length rs + length fs) = room"
    "length out = length rs" "length fs = length pre + length rdy"
proof -
  obtain out rdy ps fs gs where r: "ls = out @ rdy @ ps" "pp_lists pp ps rdy fs" "list_all2 delivered out rs"
    "map fst rs @ fs = pre @ gs" "list_all2 made_for (out @ rdy) gs" "mfb_room (pp_mf pp) + 45 * (length rs + length fs) = room"
    using assms unfolding runs_ok_def by blast
  have "length out = length rs" "length fs = length pre + length rdy"
    using list_all2_lengthD[OF r(3)] list_all2_lengthD[OF r(5)] arg_cong[OF r(4), of length] by simp_all
  with r show thesis by (rule that)
qed

lemma runs_okI:
  "ls = out @ rdy @ ps \<Longrightarrow> pp_lists pp ps rdy fs \<Longrightarrow> list_all2 delivered out rs \<Longrightarrow> map fst rs @ fs = pre @ gs \<Longrightarrow>
   list_all2 made_for (out @ rdy) gs \<Longrightarrow> mfb_room (pp_mf pp) + 45 * (length rs + length fs) = room \<Longrightarrow>
   runs_ok pre room ls rs pp"
  unfolding runs_ok_def by blast

lemma load_lists:
  assumes "pp_lists pp ps rs fs" "length ip = 4" "length md = 8" "caplen k = len k"
    and "length (pkt_data k) = unat (caplen k)" "unat (caplen k) < 88"
    and "unat (caplen k) + 13 \<le> pb_room (pp_pb pp)"
  shows "\<exists>pb. load_a_packet_to_the_packet_buffer k (pp_pb pp) ip md = Some pb \<and>
     pp_lists (pp\<lparr>pp_pb := pb\<rparr>) (ps @ [ip @ md @ pkt_data k]) rs fs"
proof -
  have "pb_ok (pp_pb pp)" using assms(1) by (simp add: pp_lists_def)
  then obtain pb where pb: "load_a_packet_to_the_packet_buffer k (pp_pb pp) ip md = Some pb" "pb_ok pb"
      "pb_pending pb = pb_pending (pp_pb pp) @ frame (ip @ md @ pkt_data k)" "pb_ready pb = pb_ready (pp_pb pp)"
    using load_a_packet_ok[OF _ assms(2,3,5,7)] assms(4,6) stored_frame[OF assms(2,3,5,4)] by auto
  have "length (ip @ md @ pkt_data k) < 100" using assms(2,3,5,6) by simp
  then have "pp_lists (pp\<lparr>pp_pb := pb\<rparr>) (ps @ [ip @ md @ pkt_data k]) rs fs"
    using assms(1) pb by (auto simp: pp_lists_def)
  then show ?thesis using pb(1) by blast
qed

lemma load_abs:
  assumes "pp_abs pp ps qs" "length ip = 4" "length md = 8" "caplen k = len k"
    and "length (pkt_data k) = unat (caplen k)" "unat (caplen k) < 88"
    and "unat (caplen k) + 13 \<le> pb_room (pp_pb pp)"
  shows "\<exists>pb. load_a_packet_to_the_packet_buffer k (pp_pb pp) ip md = Some pb \<and>
     pp_abs (pp\<lparr>pp_pb := pb\<rparr>) (ps @ [ip @ md @ pkt_data k]) qs"
  using load_lists assms unfolding pp_abs_lists by blast

lemma runs_ok_load:
  assumes "runs_ok pre room ls rs pp" "length ip = 4" "length md = 8" "caplen k = len k"
    and "length (pkt_data k) = unat (caplen k)" "unat (caplen k) < 88"
    and "unat (caplen k) + 13 \<le> pb_room (pp_pb pp)"
    and "load_a_packet_to_the_packet_buffer k (pp_pb pp) ip md = Some pb"
  shows "runs_ok pre room (ls @ [ip @ md @ pkt_data k]) rs (pp\<lparr>pp_pb := pb\<rparr>)"
proof -
  obtain out rdy ps fs gs where r: "ls = out @ rdy @ ps" "pp_lists pp ps rdy fs" "list_all2 delivered out rs"
    "map fst rs @ fs = pre @ gs" "list_all2 made_for (out @ rdy) gs" "mfb_room (pp_mf pp) + 45 * (length rs + length fs) = room"
    using assms(1) by (rule runs_okE)
  have "pp_lists (pp\<lparr>pp_pb := pb\<rparr>) (ps @ [ip @ md @ pkt_data k]) rdy fs"
    using load_lists[OF r(2) assms(2-7)] assms(8) by auto
  then show ?thesis using r by (intro runs_okI[of _ out rdy "ps @ [ip @ md @ pkt_data k]"]) auto
qed

text \<open>A match field is only ever made where there is room for it: past the end of the array the code is undefined.\<close>

lemma c_for_room:
  "c_for n (\<lambda>i mfb. do { b \<leftarrow> cget f (int i); add_a_byte_to_the_match_field_buffer mfb b }) m = Some m' \<Longrightarrow>
   mfb_ok m \<Longrightarrow> mfb_ok m' \<and> mfb_room m' + n = mfb_room m"
proof (induction n arbitrary: m')
  case (Suc n)
  then obtain u b where u: "add_a_byte_to_the_match_field_buffer u b = Some m'" "mfb_ok u" "mfb_room u + n = mfb_room m"
    by (auto split: bind_splits)
  moreover have "0 < mfb_room u" using mfb_add_full[OF u(2)] u(1) by (cases "mfb_room u") auto
  ultimately show ?case using mfb_add_ok[OF u(2), of b] by auto
qed simp

lemma prepare_room:
  assumes "prepare_match_field h1 h2 pp = Some pp'" "mfb_ok (pp_mf pp)"
  shows "45 \<le> mfb_room (pp_mf pp)"
proof -
  obtain f m' where "c_for 45 (\<lambda>i mfb. do { b \<leftarrow> cget f (int i); add_a_byte_to_the_match_field_buffer mfb b }) (pp_mf pp) = Some m'"
    using assms(1) by (auto simp: prepare_match_field_def simp del: c_for.simps split: bind_splits)
  then show ?thesis using c_for_room[OF _ assms(2)] by fastforce
qed

lemma runs_ok_prepare:
  assumes "runs_ok pre room ls rs pp" "pb_pending (pp_pb pp) \<noteq> []" "45 \<le> mfb_room (pp_mf pp)"
  shows "\<exists>pp'. prepare_match_field h1 h2 pp = Some pp' \<and> runs_ok pre room ls rs pp'"
proof -
  obtain out rdy ps fs gs where r: "ls = out @ rdy @ ps" "pp_lists pp ps rdy fs" "list_all2 delivered out rs"
    "map fst rs @ fs = pre @ gs" "list_all2 made_for (out @ rdy) gs" "mfb_room (pp_mf pp) + 45 * (length rs + length fs) = room"
    using assms(1) by (rule runs_okE)
  obtain p ps' where ps: "ps = p # ps'" using r(2) assms(2) by (cases ps) (auto simp: pp_lists_def)
  let ?f = "match_field_of h1 h2 p"
  obtain pp' where p': "prepare_match_field h1 h2 pp = Some pp'" "pp_lists pp' ps' (rdy @ [p]) (fs @ [?f])"
      "mfb_room (pp_mf pp') = mfb_room (pp_mf pp) - 45"
    using prepare_lists[of pp p ps' rdy fs h1 h2] r(2) assms(3) ps by blast
  have "list_all2 made_for (out @ rdy @ [p]) (gs @ [?f])"
    using list_all2_appendI[OF r(5), of "[p]" "[?f]"] by (auto simp: made_for_def)
  then have "runs_ok pre room ls rs pp'"
    using r p'(3) ps assms(3) by (intro runs_okI[OF _ p'(2), of _ out _ _ "gs @ [?f]"]) auto
  then show ?thesis using p'(1) by blast
qed

lemma runs_ok_return:
  assumes "runs_ok pre room ls rs pp" "pb_ready (pp_pb pp) \<noteq> []" "length mf = 45" "length pk = 100"
  shows "\<exists>f q pp'. return_match_field_and_packet pp mf pk = Some (f, q, pp') \<and> runs_ok pre room ls (rs @ [(f, q)]) pp'"
proof -
  obtain out rdy ps fs gs where r: "ls = out @ rdy @ ps" "pp_lists pp ps rdy fs" "list_all2 delivered out rs"
    "map fst rs @ fs = pre @ gs" "list_all2 made_for (out @ rdy) gs" "mfb_room (pp_mf pp) + 45 * (length rs + length fs) = room"
    "length fs = length pre + length rdy"
    using assms(1) by (rule runs_okE)
  obtain p rdy' where rdy: "rdy = p # rdy'" using r(2) assms(2) by (cases rdy) (auto simp: pp_lists_def)
  obtain f fs' where fs: "fs = f # fs'" using r(7) rdy by (cases fs) auto
  have l: "length p < 100" "length f = 45" using r(2) rdy fs by (auto simp: pp_lists_def)
  obtain pp' where p': "return_match_field_and_packet pp mf pk = Some (f, blit pk 0 (frame p), pp')"
      "pp_lists pp' ps rdy' fs'" "mfb_room (pp_mf pp') = mfb_room (pp_mf pp)"
    using return_lists[of pp ps p rdy' f fs' mf pk] r(2) rdy fs assms(3,4) l by (auto simp: blit_def)
  have "take (Suc (length p)) (blit pk 0 (frame p)) = frame p" using l assms(4) by (simp add: blit_def frame_def)
  then have "list_all2 delivered (out @ [p]) (rs @ [(f, blit pk 0 (frame p))])"
    using r(3) by (intro list_all2_appendI) (auto simp: delivered_def)
  then have "runs_ok pre room ls (rs @ [(f, blit pk 0 (frame p))]) pp'"
    using r p'(3) rdy fs by (intro runs_okI[OF _ p'(2), of _ "out @ [p]" _ _ gs]) auto
  then show ?thesis using p'(1) by blast
qed

lemma pp_run_ok:
  "pp_run start ls rs pp \<Longrightarrow> pp_lists start [] [] pre \<Longrightarrow> mfb_room (pp_mf start) + 45 * length pre = room \<Longrightarrow>
   runs_ok pre room ls rs pp"
proof (induction rule: pp_run.induct)
  case run_start
  then show ?case by (intro runs_okI[of _ "[]" "[]" "[]" _ pre _ _ "[]"]) auto
next
  case (run_load ls rs pp ip md k pb)
  show ?case by (rule runs_ok_load) (use run_load in auto)
next
  case (run_prepare ls rs pp h1 h2 pp')
  then have ok: "runs_ok pre room ls rs pp" by blast
  then have "mfb_ok (pp_mf pp)" by (auto simp: runs_ok_def pp_lists_def)
  then show ?case
    using runs_ok_prepare[OF ok run_prepare.hyps(2) prepare_room[OF run_prepare.hyps(3)], of h1 h2] run_prepare.hyps(3) by auto
next
  case (run_return ls rs pp mf pk f q pp')
  then show ?case using runs_ok_return[of pre room ls rs pp mf pk] by auto
qed

lemma runs_ok_pairs:
  assumes "runs_ok [] room ls rs pp"
  shows "length rs \<le> length ls" "i < length rs \<Longrightarrow> pair_of (ls ! i) (rs ! i)"
proof -
  obtain out rdy ps fs gs where r: "ls = out @ rdy @ ps" "list_all2 delivered out rs"
    "map fst rs @ fs = [] @ gs" "list_all2 made_for (out @ rdy) gs" "length out = length rs"
    using assms by (rule runs_okE)
  show "length rs \<le> length ls" using r(1,5) by simp
  show "pair_of (ls ! i) (rs ! i)" if "i < length rs"
    using list_all2_nthD[OF r(2), of i] list_all2_nthD[OF r(4), of i] r(3)[symmetric] that r(5)
    by (simp add: pair_of_def r(1) nth_append)
qed

text \<open>Asking for a packet when none is ready changes nothing but, when none is loaded either, the length in the caller's array.\<close>

lemma return_nothing:
  assumes ok: "runs_ok [] room ls rs pp" and none: "pb_ready (pp_pb pp) = []" and pk: "length pk = 100"
  shows "return_match_field_and_packet pp mf pk =
     Some (mf, if pb_pending (pp_pb pp) = [] then pk[0 := 0] else pk, pp)"
proof -
  obtain out rdy ps fs gs where r: "pp_lists pp ps rdy fs" "length fs = length ([] :: byte list list) + length rdy"
    using ok by (rule runs_okE)
  let ?pb = "pp_pb pp"
  have ok: "pb_ok ?pb" "mfb_ok (pp_mf pp)" using r(1) by (simp_all add: pp_lists_def)
  have "rdy = []" using r(1) none by (cases rdy) (auto simp: pp_lists_def frame_def)
  then have "mfb_contents (pp_mf pp) = []" using r by (simp add: pp_lists_def)
  then have "mfb_empty_flag (pp_mf pp) = 1"
    using length_mfb_contents[OF ok(2)] ok(2) by (auto simp: mfb_ok_def)
  then have f: "read_a_match_field (pp_mf pp) mf = Some (mf, pp_mf pp)" by (simp add: read_a_match_field_def)
  have "read_a_packet ?pb pk = Some (if pb_pending ?pb = [] then pk[0 := 0] else pk, ?pb)"
  proof (cases "pb_pending ?pb = []")
    case True
    then have "pb_empty_flag ?pb = 1" using empty_flagged[OF ok(1)] none pb_stored_split[of ?pb] by simp
    then show ?thesis using True pk by (simp add: read_a_packet_def cput_def)
  next
    case False
    then have c: "0 < pb_count ?pb" using pb_stored_split[of ?pb] none by (metis length_greater_0_conv length_pb_stored append_self_conv2)
    then have "pb_done ?pb = 0" using none by (auto simp: pb_ready_def simp flip: length_0_conv)
    then have "buffer_reading_head ?pb = packet_buffer_head ?pb"
      using pb_reading_pos[of ?pb] ok(1) by (simp add: pb_ok_def pb_wf_def)
    moreover have "pb_empty_flag ?pb \<noteq> 1" using c by (auto simp: pb_count_def)
    ultimately show ?thesis using False by (simp add: read_a_packet_def)
  qed
  with f show ?thesis by (simp add: return_match_field_and_packet_def)
qed

text \<open>
  C1. A caller who pre-processes only when a packet is pending and asks for one only when one is ready, and whose packets
  were captured whole, have fewer than 88 bytes and fit into the packet buffer, gets the packets in the order in which
  they were loaded, however the three are interleaved: each whole and with its own match field, none lost, doubled or changed.
  It is known when the next step is possible: a pending packet can be pre-processed exactly while the match-field buffer has 45 bytes left
  (which it has twenty times in its life), a ready one can always be returned, and to ask when none is ready changes neither the buffers
  nor the match field given.
\<close>

theorem pipeline_in_order:
  assumes "pp_run start ls rs pp" "pp_abs start [] []"
  shows "length rs \<le> length ls \<and> (\<forall>i < length rs. pair_of (ls ! i) (rs ! i)) \<and>
    (pb_pending (pp_pb pp) = [] \<and> pb_ready (pp_pb pp) = [] \<longrightarrow> length rs = length ls) \<and>
    (pb_pending (pp_pb pp) \<noteq> [] \<longrightarrow> (prepare_match_field h1 h2 pp \<noteq> None \<longleftrightarrow> 45 \<le> mfb_room (pp_mf pp))) \<and>
    (length mf = 45 \<and> length pk = 100 \<longrightarrow>
      (if pb_ready (pp_pb pp) \<noteq> [] then return_match_field_and_packet pp mf pk \<noteq> None
       else return_match_field_and_packet pp mf pk =
         Some (mf, if pb_pending (pp_pb pp) = [] then pk[0 := 0] else pk, pp)))"
proof -
  have ok: "runs_ok [] (mfb_room (pp_mf start)) ls rs pp" using pp_run_ok[OF assms(1)] assms(2) by (simp add: pp_abs_lists)
  then obtain out rdy ps fs gs where r: "ls = out @ rdy @ ps" "pp_lists pp ps rdy fs" "length out = length rs" by (rule runs_okE)
  have "rdy = []" if "pb_ready (pp_pb pp) = []" using r(2) that by (cases rdy) (auto simp: pp_lists_def frame_def)
  moreover have "ps = []" if "pb_pending (pp_pb pp) = []" using r(2) that by (cases ps) (auto simp: pp_lists_def frame_def)
  moreover have "prepare_match_field h1 h2 pp \<noteq> None \<longleftrightarrow> 45 \<le> mfb_room (pp_mf pp)" if "pb_pending (pp_pb pp) \<noteq> []"
    using runs_ok_prepare[OF ok that, of h1 h2] prepare_room[of h1 h2 pp] r(2) by (auto simp: pp_lists_def)
  moreover have "return_match_field_and_packet pp mf pk \<noteq> None" if "pb_ready (pp_pb pp) \<noteq> []" "length mf = 45" "length pk = 100"
    using runs_ok_return[OF ok that] by auto
  ultimately show ?thesis
    using r(1,3) runs_ok_pairs[OF ok] return_nothing[OF ok, of pk mf] by simp
qed

text \<open>
  C2. The switch lives for twenty packets. However loading, pre-processing and returning are interleaved from
  the initialised state, at most twenty packets are ever pre-processed and come out: while fewer were, the oldest
  pending packet can be pre-processed, whatever was read out in between; when twenty were, the next
  pre-processing writes outside the array of the match-field buffer.
\<close>

theorem twenty_packets:
  assumes "pp_run (initialize_preprocessor pp0) ls rs pp"
    and "length (packet_buffer_bytes (pp_pb pp0)) = nat PACKET_BUFFER_LEN"
    and "length (match_field_buffer_array (pp_mf pp0)) = MTCH_FLD_LEN * NO_OF_MATCH_FIELDS_IN_THE_BUFFER"
  shows "\<exists>n. length rs \<le> n \<and> n \<le> 20 \<and> n \<le> length ls \<and> pb_pending (pp_pb pp) = concat (map frame (drop n ls)) \<and>
    (n < 20 \<and> n < length ls \<longrightarrow> (\<forall>h1 h2. prepare_match_field h1 h2 pp \<noteq> None)) \<and>
    (n = 20 \<longrightarrow> (\<forall>h1 h2. prepare_match_field h1 h2 pp = None))"
proof -
  have len: "length (packet_buffer_bytes (pp_pb pp0)) = 1000" "length (match_field_buffer_array (pp_mf pp0)) = 900"
    using assms(2,3) by (simp_all add: PACKET_BUFFER_LEN_def MTCH_FLD_LEN_def NO_OF_MATCH_FIELDS_IN_THE_BUFFER_def)
  have start: "pp_lists (initialize_preprocessor pp0) [] [] []" "mfb_room (pp_mf (initialize_preprocessor pp0)) = 900"
    using pb_ok_initialize[OF len(1)] mfb_ok_initialize[OF len(2)]
    by (simp_all add: pp_lists_def initialize_preprocessor_def)
  have ok: "runs_ok [] 900 ls rs pp" by (rule pp_run_ok[OF assms(1) start(1)]) (simp add: start(2))
  obtain out rdy ps fs gs where r: "ls = out @ rdy @ ps" "pp_lists pp ps rdy fs" "list_all2 delivered out rs"
    "map fst rs @ fs = [] @ gs" "list_all2 made_for (out @ rdy) gs"
    "mfb_room (pp_mf pp) + 45 * (length rs + length fs) = 900" "length out = length rs" "length fs = length ([] :: byte list list) + length rdy"
    using ok by (rule runs_okE)
  let ?n = "length rs + length rdy"
  have a: "pb_pending (pp_pb pp) = concat (map frame ps)" "mfb_ok (pp_mf pp)" using r(2) by (auto simp: pp_lists_def)
  have "drop ?n ls = ps" using r(1,7) by simp
  moreover have "prepare_match_field h1 h2 pp \<noteq> None" if "?n < 20" "?n < length ls" for h1 h2
  proof -
    have "ps \<noteq> []" "45 \<le> mfb_room (pp_mf pp)" using that r(1,6-8) by auto
    then show ?thesis using runs_ok_prepare[OF ok, of h1 h2] a(1) by (auto simp: frame_def neq_Nil_conv)
  qed
  moreover have "prepare_match_field h1 h2 pp = None" if "?n = 20" for h1 h2
    using prepare_room[OF _ a(2), of h1 h2] r(6,8) that by (cases "prepare_match_field h1 h2 pp") auto
  ultimately show ?thesis using a(1) r(1,6-8) by (intro exI[of _ ?n]) auto
qed

text \<open>
  C3. Pre-processing an empty buffer is not refused, and nothing after it is right again: the call makes a match
  field of no packet, and from then on, however loading, pre-processing and returning are interleaved, the first
  packet comes out with that field and every other packet with the match field of the packet before it.
\<close>

theorem early_prepare_shifts:
  assumes "pp_abs pp0 [] []" "45 \<le> mfb_room (pp_mf pp0)"
  shows "\<exists>start. prepare_match_field h1 h2 pp0 = Some start \<and> (\<forall>ls rs pp. pp_run start ls rs pp \<longrightarrow>
    (\<forall>i < length rs. delivered (ls ! i) (rs ! i) \<and>
      (if i = 0 then fst (rs ! i) = match_field_of h1 h2 [] else made_for (ls ! (i - 1)) (fst (rs ! i)))))"
proof -
  let ?f = "match_field_of h1 h2 []"
  obtain start where start: "prepare_match_field h1 h2 pp0 = Some start" "pp_lists start [] [] [?f]"
    using prepare_empty[of pp0 "[]" h1 h2] assms by (auto simp: pp_abs_lists)
  have "delivered (ls ! i) (rs ! i) \<and> (if i = 0 then fst (rs ! i) = ?f else made_for (ls ! (i - 1)) (fst (rs ! i)))"
    if run: "pp_run start ls rs pp" and i: "i < length rs" for ls rs pp i
  proof -
    have "runs_ok [?f] (mfb_room (pp_mf start) + 45) ls rs pp" using pp_run_ok[OF run start(2)] by simp
    then obtain out rdy ps fs gs where r: "ls = out @ rdy @ ps" "pp_lists pp ps rdy fs" "list_all2 delivered out rs"
      "map fst rs @ fs = [?f] @ gs" "list_all2 made_for (out @ rdy) gs" "length out = length rs"
      by (rule runs_okE)
    have f: "fst (rs ! i) = (?f # gs) ! i" using arg_cong[OF r(4), of "\<lambda>xs. xs ! i"] i by (simp add: nth_append)
    have "made_for (ls ! (i - 1)) (gs ! (i - 1))" if "0 < i"
      using list_all2_nthD[OF r(5), of "i - 1"] that i r(1,6) by (auto simp: nth_append)
    then show ?thesis using list_all2_nthD[OF r(3), of i] i r(1,6) f by (auto simp: nth_append nth_Cons')
  qed
  then show ?thesis using start(1) by blast
qed

definition example_start :: pre_processor where
  "example_start = initialize_preprocessor (example_pp 0)"

lemma example_start_abs: "pp_abs example_start [] []" "pb_room (pp_pb example_start) = 999"
  "mfb_room (pp_mf example_start) = 900"
proof -
  have "length (packet_buffer_bytes (pp_pb (example_pp 0))) = 1000"
    by (simp add: example_pp_def example_pb_def frame_def)
  from pb_ok_initialize[OF this] example_mfb_facts
  show "pp_abs example_start [] []" "pb_room (pp_pb example_start) = 999" "mfb_room (pp_mf example_start) = 900"
    by (simp_all add: example_start_def initialize_preprocessor_def pp_abs_def example_pp_def)
      (simp_all add: initialize_match_field_buffer_def mfb_room_def mfb_ok_def mfb_contents_def slice_def)
qed

text \<open>One packet, loaded and pre-processed.\<close>

lemma one_packet_run:
  fixes k :: packet
  assumes "pp_lists s [] [] pre" "45 \<le> mfb_room (pp_mf s)" "pb_room (pp_pb s) = 999"
    and "length ip = 4" "length md = 8" "caplen k = len k" "length (pkt_data k) = unat (caplen k)" "unat (caplen k) < 88"
  defines "p \<equiv> ip @ md @ pkt_data k"
  shows "\<exists>pp f. pp_run s [p] [] pp \<and> pp_lists pp [] [p] (pre @ [f])"
proof -
  obtain pb where pb: "load_a_packet_to_the_packet_buffer k (pp_pb s) ip md = Some pb"
      "pp_lists (s\<lparr>pp_pb := pb\<rparr>) ([] @ [p]) [] pre"
    using load_lists[OF assms(1,4-8)] assms(3,8) by (auto simp: p_def)
  have 1: "pp_run s ([] @ [p]) [] (s\<lparr>pp_pb := pb\<rparr>)"
    unfolding p_def by (rule run_load[OF run_start _ _ _ _ _ _ pb(1)]) (use assms(3-8) in simp_all)
  obtain pp f where pp: "prepare_match_field (\<lambda>_. 0) (\<lambda>_. 0) (s\<lparr>pp_pb := pb\<rparr>) = Some pp" "pp_lists pp [] [p] (pre @ [f])"
    using prepare_lists[of "s\<lparr>pp_pb := pb\<rparr>" p "[]" "[]" pre "\<lambda>_. 0" "\<lambda>_. 0"] pb(2) assms(2) by auto
  have "pp_run s ([] @ [p]) [] pp"
    by (rule run_prepare[OF 1 _ pp(1)]) (use pb(2) in \<open>auto simp: pp_lists_def frame_def\<close>)
  then show ?thesis using pp(2) by auto
qed

lemma example_run:
  assumes "pp_lists s [] [] pre" "45 \<le> mfb_room (pp_mf s)" "pb_room (pp_pb s) = 999"
  shows "\<exists>r pp. pp_run s [replicate 4 1 @ replicate 8 2 @ [1, 2, 3]] [r] pp"
proof -
  let ?p = "replicate 4 1 @ replicate 8 2 @ pkt_data example_packet"
  obtain pp f where pp: "pp_run s [?p] [] pp" "pp_lists pp [] [?p] (pre @ [f])"
    using one_packet_run[OF assms, of "replicate 4 1" "replicate 8 2" example_packet] by (auto simp: example_packet_def)
  obtain g gs where "pre @ [f] = g # gs" by (cases "pre @ [f]") auto
  then obtain r pp' where r: "return_match_field_and_packet pp (replicate 45 0) (replicate 100 0) = Some (fst r, snd r, pp')"
    using return_lists[of pp "[]" ?p "[]" g gs "replicate 45 0" "replicate 100 0"] pp(2) by (auto simp: example_packet_def)
  have "pp_run s [?p] ([] @ [(fst r, snd r)]) pp'"
    by (rule run_return[OF pp(1) _ _ _ r]) (use pp(2) in \<open>auto simp: pp_lists_def frame_def\<close>)
  then show ?thesis by (intro exI[of _ r] exI[of _ pp']) (simp add: example_packet_def)
qed

lemma example_start_run: "\<exists>r pp. pp_run example_start [replicate 4 1 @ replicate 8 2 @ [1, 2, 3]] [r] pp"
  by (rule example_run[of _ "[]"]) (use example_start_abs in \<open>simp_all add: pp_abs_lists\<close>)

theorem pipeline_in_order_witness:
  "\<exists>r pp. pp_run example_start [replicate 4 1 @ replicate 8 2 @ [1, 2, 3]] [r] pp \<and>
     pair_of (replicate 4 1 @ replicate 8 2 @ [1, 2, 3]) r"
proof -
  obtain r pp where run: "pp_run example_start [replicate 4 1 @ replicate 8 2 @ [1, 2, 3]] [r] pp"
    using example_start_run by blast
  from pipeline_in_order[OF run example_start_abs(1)]
  have "\<forall>i<length [r]. pair_of ([replicate 4 1 @ replicate 8 2 @ [1, 2, 3]] ! i) ([r] ! i)" by blast
  then show ?thesis using run by (intro exI[of _ r] exI[of _ pp]) simp
qed

theorem twenty_packets_witness:
  "\<exists>r pp n. pp_run example_start [replicate 4 1 @ replicate 8 2 @ [1, 2, 3]] [r] pp \<and> 1 \<le> n \<and>
     pb_pending (pp_pb pp) = concat (map frame (drop n [replicate 4 1 @ replicate 8 2 @ [1, 2, 3]]))"
proof -
  obtain r pp where run: "pp_run (initialize_preprocessor (example_pp 0)) [replicate 4 1 @ replicate 8 2 @ [1, 2, 3]] [r] pp"
    using example_start_run by (auto simp: example_start_def)
  have l: "length (packet_buffer_bytes (pp_pb (example_pp 0))) = nat PACKET_BUFFER_LEN"
    "length (match_field_buffer_array (pp_mf (example_pp 0))) = MTCH_FLD_LEN * NO_OF_MATCH_FIELDS_IN_THE_BUFFER"
    by (simp_all add: example_pp_def example_pb_def frame_def initialize_match_field_buffer_def example_mfb_def
        PACKET_BUFFER_LEN_def MTCH_FLD_LEN_def NO_OF_MATCH_FIELDS_IN_THE_BUFFER_def)
  obtain n where "length [r] \<le> n"
    "pb_pending (pp_pb pp) = concat (map frame (drop n [replicate 4 1 @ replicate 8 2 @ [1, 2, 3]]))"
    using twenty_packets[OF run l] by blast
  then show ?thesis using run unfolding example_start_def by (intro exI[of _ r] exI[of _ pp] exI[of _ n]) simp
qed

theorem early_prepare_shifts_witness:
  "\<exists>s r pp. prepare_match_field (\<lambda>_. 7) (\<lambda>_. 7) example_start = Some s \<and>
     pp_run s [replicate 4 1 @ replicate 8 2 @ [1, 2, 3]] [r] pp \<and> fst r = match_field_of (\<lambda>_. 7) (\<lambda>_. 7) []"
proof -
  obtain s where s: "prepare_match_field (\<lambda>_. 7) (\<lambda>_. 7) example_start = Some s"
    "pp_lists s [] [] ([] @ [match_field_of (\<lambda>_. 7) (\<lambda>_. 7) []])" "pb_room (pp_pb s) = 999" "mfb_room (pp_mf s) = 855"
    using prepare_empty[of example_start "[]" "\<lambda>_. 7" "\<lambda>_. 7"] example_start_abs by (auto simp: pp_abs_lists)
  obtain r pp where run: "pp_run s [replicate 4 1 @ replicate 8 2 @ [1, 2, 3]] [r] pp"
    using example_run[OF s(2)] s(3,4) by auto
  have "\<forall>i < length [r]. if i = 0 then fst ([r] ! i) = match_field_of (\<lambda>_. 7) (\<lambda>_. 7) [] else
      made_for ([replicate 4 1 @ replicate 8 2 @ [1, 2, 3]] ! (i - 1)) (fst ([r] ! i))"
    using early_prepare_shifts[OF example_start_abs(1), of "\<lambda>_. 7" "\<lambda>_. 7"] example_start_abs(3) s(1) run by fastforce
  then have "fst r = match_field_of (\<lambda>_. 7) (\<lambda>_. 7) []" by simp
  with s(1) run show ?thesis by blast
qed


section \<open>What the switch does with a packet\<close>

text \<open>Where bit \<open>q\<close> of the first 208 bits of a match field is in the packet: the MAC addresses change places.\<close>

definition packet_bit :: "nat \<Rightarrow> nat" where
  "packet_bit q = (if q < 96 then q else if q < 144 then q + 48 else if q < 192 then q - 48 else q)"

text \<open>
  The rule the flow table stands for: entry \<open>i\<close> wants the packet when every bit of its mask is as in
  the entry, read straight from the header of the packet.
\<close>

definition wants :: "mgroup list \<Rightarrow> byte list \<Rightarrow> nat \<Rightarrow> bool" where
  "wants gs p i \<longleftrightarrow> (\<forall>q<208. abit (map fst gs ! group (flat gs) i) q \<longrightarrow>
     abit p (packet_bit q) = abit (flat gs ! i) q)"

lemma abit_of_bits: "bits_of f d n = bits_of p s n \<Longrightarrow> k < n \<Longrightarrow> abit f (d + k) = abit p (s + k)"
  by (auto simp: bits_of_def)

lemma abit_packet_bit:
  assumes "length p < 100" "26 \<le> length p" "q < 208"
  shows "abit (match_field_of h1 h2 p) q = abit p (packet_bit q)"
proof -
  note b = ethernet_bits[OF assms(1,2), of h1 h2]
  have "(q < 96 \<and> q = 0 + q) \<or> (q = 96 + (q - 96) \<and> q - 96 < 48) \<or> (q = 144 + (q - 144) \<and> q - 144 < 48)
    \<or> (q = 192 + (q - 192) \<and> q - 192 < 16)" using assms(3) by linarith
  then obtain d k where k: "q = d + k" "d = 0 \<and> k < 96 \<or> d = 96 \<and> k < 48 \<or> d = 144 \<and> k < 48 \<or> d = 192 \<and> k < 16"
    by blast
  then consider "d = 0" "k < 96" | "d = 96" "k < 48" | "d = 144" "k < 48" | "d = 192" "k < 16" by blast
  then show ?thesis
  proof cases
    case 1
    then show ?thesis using abit_of_bits[OF conjunct1[OF b], of k] by (simp add: k(1) packet_bit_def)
  next
    case 2
    then show ?thesis using abit_of_bits[OF conjunct1[OF conjunct2[OF b]], of k] by (simp add: k(1) packet_bit_def add.commute)
  next
    case 3
    then show ?thesis using abit_of_bits[OF conjunct1[OF conjunct2[OF conjunct2[OF b]]], of k] by (simp add: k(1) packet_bit_def)
  next
    case 4
    then show ?thesis using abit_of_bits[OF conjunct2[OF conjunct2[OF conjunct2[OF b]]], of k] by (simp add: k(1) packet_bit_def)
  qed
qed

lemma best_cong: "(\<And>i. i < n \<Longrightarrow> P i = Q i) \<Longrightarrow> best P es n = best Q es n"
  by (induction n) (auto split: option.splits)

lemma hit_wants:
  assumes abs: "tcam_abs t gs" and p: "length p < 100" "26 \<le> length p" and i: "i < length (flat gs)"
    and low: "\<forall>(m, es) \<in> set gs. \<forall>q<360. abit m q \<longrightarrow> q < 208"
  shows "hit (map fst gs) (flat gs) (match_field_of h1 h2 p) i = wants gs p i"
proof -
  have "group (flat gs) i < length gs"
    using tcam_abs_group_bound[OF abs i] abs by (simp add: tcam_abs_def)
  then have "gs ! group (flat gs) i \<in> set gs" "map fst gs ! group (flat gs) i = fst (gs ! group (flat gs) i)"
    by simp_all
  then have "\<forall>q<360. abit (map fst gs ! group (flat gs) i) q \<longrightarrow> q < 208" using low by fastforce
  then show ?thesis
    using abit_packet_bit[OF p, of _ h1 h2] by (fastforce simp: hit_def wants_def matches_def)
qed

lemma pp_run_short: "pp_run start ls rs pp \<Longrightarrow> p \<in> set ls \<Longrightarrow> length p < 100"
  by (induction rule: pp_run.induct) auto

text \<open>
  C4. The decision of the switch on a packet, from the packet buffer to the actions. In any run of loading, pre-processing
  and returning, when the masks of the flow table look only at ingress port, metadata, MAC addresses and Ethernet type,
  the next packet that is handed out is the oldest one not yet handed out, and applying its match field right after \<^verbatim>\<open>init\<close>
  gives it the actions of the entry of the highest priority, the first of these, that
  agrees with its own header, and tells that it has no entry when there is none. In that case the cache stays
  as \<^verbatim>\<open>init\<close> left it and the same holds for the packet after it; after the first packet that has an entry no
  further application is defined. What the arrays from \<open>malloc\<close>, the caller's and the local arrays held makes no difference.
\<close>

theorem switched_by_ethernet_fields:
  assumes "pp_run start ls rs pp" "pp_abs start [] []" "pb_ready (pp_pb pp) \<noteq> []" "length mf = 45" "length pk = 100"
    and "26 \<le> length (ls ! length rs)" "tcam_abs t gs" "\<forall>(m, es) \<in> set gs. \<forall>q<360. abit m q \<longrightarrow> q < 208"
    and "0 < length mp" "length a = 31" "length val = 6" "length (flow_cache c0) = 5" "init c0 = Some c"
  defines "p \<equiv> ls ! length rs"
  defines "q \<equiv> best (wants gs p) (flat gs) (length (flat gs))"
  shows "\<exists>f pk' pp' c' t'. return_match_field_and_packet pp mf pk = Some (f, pk', pp') \<and>
     take (Suc (length p)) pk' = frame p \<and>
     apply_action a mp val c t f = Some (if q = None then - 1 else 1, c', t', applied t q) \<and>
     (if q = None then c' = c else \<forall>b mq w u g. apply_action b mq w c' u g = None)"
proof -
  have ok: "runs_ok [] (mfb_room (pp_mf start)) ls rs pp" using pp_run_ok[OF assms(1)] assms(2) by (simp add: pp_abs_lists)
  obtain f pk' pp' where ret: "return_match_field_and_packet pp mf pk = Some (f, pk', pp')"
    "runs_ok [] (mfb_room (pp_mf start)) ls (rs @ [(f, pk')]) pp'"
    using runs_ok_return[OF ok assms(3-5)] by blast
  have pair: "pair_of p (f, pk')" using runs_ok_pairs(2)[OF ret(2), of "length rs"] by (simp add: p_def)
  have "length rs < length ls" using runs_ok_pairs(1)[OF ret(2)] by simp
  then have l: "length p < 100" "26 \<le> length p" using pp_run_short[OF assms(1)] assms(6) by (simp_all add: p_def)
  obtain h1 h2 where f: "f = match_field_of h1 h2 p" using pair by (auto simp: pair_of_def made_for_def)
  have best: "best (hit (map fst gs) (flat gs) f) (flat gs) (length (flat gs)) = q"
    unfolding q_def f using hit_wants[OF assms(7) l _ assms(8)] by (rule best_cong)
  have c: "length (flow_cache c) = 5" "cache_top c = 1" using assms(12,13) init_ok[OF assms(12)] by auto
  obtain c' t' where app: "apply_action a mp val c t f = Some (if q = None then - 1 else 1, c', t', applied t q)"
    using apply_action_ok[OF assms(7) _ assms(9-11) c, of f] unfolding best by (auto simp: f)
  then have "if q = None then c' = c else \<forall>b mq w u g. apply_action b mq w c' u g = None"
    using apply_missed[OF app] second_apply_closed[OF assms(12,13)] by auto
  then show ?thesis using ret(1) pair app by (auto simp: pair_of_def delivered_def)
qed

text \<open>For the witness: an entry for every packet with the Ethernet type of IPv4.\<close>

definition ipv4_mask :: "byte list" where
  "ipv4_mask = replicate 24 0 @ [255, 255] @ replicate 19 0"

definition ipv4_entry :: "byte list" where
  "ipv4_entry = replicate 24 0 @ [8, 0] @ replicate 20 0"

lemma ipv4_mask_bit: "q < 360 \<Longrightarrow> abit ipv4_mask q \<Longrightarrow> 192 \<le> q \<and> q < 208"
proof -
  assume "q < 360" "abit ipv4_mask q"
  then have "q div 8 \<in> {24, 25}" by (auto simp: ipv4_mask_def abit_def nth_append nth_Cons' split: if_splits)
  then show "192 \<le> q \<and> q < 208" by auto
qed

lemma ipv4_wants:
  "wants [(unused_reset ipv4_mask, [fresh (put_bit 356 False ipv4_entry)])] example_ipv4 0"
proof -
  have "abit example_ipv4 (packet_bit q) = abit (fresh (put_bit 356 False ipv4_entry)) q"
    if "q < 208" "abit (unused_reset ipv4_mask) q" for q
  proof -
    have "abit ipv4_mask q" using that by (simp add: unused_reset_def abit_put_bits ipv4_mask_def)
    then have q: "192 \<le> q" "q < 208" using ipv4_mask_bit[of q] that(1) by auto
    have "q div 8 < 46" using that(1) by auto
    then have "abit (fresh (put_bit 356 False ipv4_entry)) q = abit (put_bit 356 False ipv4_entry) q"
      by (simp add: fresh_def abit_def nth_append ipv4_entry_def)
    also have "\<dots> = abit ipv4_entry q" using that(1) by (simp add: abit_put_bit ipv4_entry_def)
    also have "\<dots> = abit example_ipv4 q"
      using q by (auto simp: ipv4_entry_def example_ipv4_def abit_def nth_append nth_Cons')
    finally show ?thesis using q by (simp add: packet_bit_def)
  qed
  moreover have "\<not> marker (fresh (put_bit 356 False ipv4_entry))"
    by (simp add: marker_def fresh_def put_bit_def ipv4_entry_def abit_def nth_append)
  ultimately show ?thesis by (simp add: wants_def group_def flat_def)
qed

theorem switched_by_ethernet_fields_witness:
  "\<exists>pp f pk pp' t r c' t'. pp_run example_start [example_ipv4] [] pp \<and>
     return_match_field_and_packet pp (replicate 45 0) (replicate 100 0) = Some (f, pk, pp') \<and>
     add_new_entry (example_tcam 0 0) ipv4_mask ipv4_entry (replicate 31 2) [1, 0] = Some (0, t, r) \<and>
     apply_action (replicate 31 0) [0, 0] (replicate 6 0) \<lparr>flow_cache = replicate 5 (- 1, 0), cache_top = 1\<rparr> t f =
       Some (1, c', t', actions_of [1, 0] (replicate 31 2))"
proof -
  let ?gs = "[(unused_reset ipv4_mask, [fresh (put_bit 356 False ipv4_entry)])]"
    and ?c = "\<lparr>flow_cache = replicate 5 (0, 0), cache_top = 0\<rparr>" and ?p = example_ipv4
  obtain t r where t: "add_new_entry (example_tcam 0 0) ipv4_mask ipv4_entry (replicate 31 2) [1, 0] = Some (0, t, r)"
      "tcam_abs t ?gs" "actions t = [replicate 31 2]" "flags t = [[1, 0]]"
    using add_new_entry_new[OF example_abs, of ipv4_mask ipv4_entry "replicate 31 2" "[1, 0]"]
    by (auto simp: ipv4_mask_def ipv4_entry_def actions_def flags_def example_tcam_def rows_def)
  have m: "\<forall>(m, es) \<in> set ?gs. \<forall>q<360. abit m q \<longrightarrow> q < 208"
    using ipv4_mask_bit by (auto simp: unused_reset_def abit_put_bits ipv4_mask_def split: if_splits)
  have b: "best (wants ?gs ?p) (flat ?gs) (length (flat ?gs)) = Some 0" using ipv4_wants by (simp add: flat_def)
  have l: "length ?p = 60" by (simp add: example_ipv4_def)
  obtain pp f where pp: "pp_run example_start [?p] [] pp" "pp_lists pp [] [?p] ([] @ [f])"
    using one_packet_run[of example_start "[]" "take 4 ?p" "take 8 (drop 4 ?p)" "\<lparr>caplen = 48, len = 48, pkt_data = drop 12 ?p\<rparr>"]
      example_start_abs l append_take_drop_id[of 8 "drop 4 ?p"] by (auto simp: pp_abs_lists)
  have "pb_ready (pp_pb pp) \<noteq> []" using pp(2) by (auto simp: pp_lists_def frame_def)
  moreover have "init ?c = Some \<lparr>flow_cache = replicate 5 (- 1, 0), cache_top = 1\<rparr>" by (simp add: init_ok)
  ultimately show ?thesis
    using switched_by_ethernet_fields[OF pp(1) example_start_abs(1) _ _ _ _ t(2) m, of "replicate 45 0" "replicate 100 0"
        "[0, 0]" "replicate 31 0" "replicate 6 0" ?c] pp(1) t(1,3,4) b l by (auto simp: applied_def)
qed

end
