(* ===== verification/C_Output.thy ===== *)
theory C_Output
  imports C_Prelude
begin

text \<open>
  Pointers into byte arrays and what \<open>printf\<close> makes of bytes. A pointer to bytes is an array and
  the position it points to; the functions that follow it may leave the array on either side, which
  is \<open>None\<close>. Two pointers that are passed to one function point into different
  arrays, as they do in every call of the program. What a function prints is part of its answer.
\<close>

section \<open>Text\<close>

abbreviation nl :: string where "nl \<equiv> [CHR 0x0A]"

definition hex_digit :: "nat \<Rightarrow> char" where
  "hex_digit n = (if n < 10 then char_of (48 + n) else char_of (87 + n))"

definition unhex_digit :: "char \<Rightarrow> nat" where
  "unhex_digit c = (if of_char c < (58 :: nat) then of_char c - 48 else of_char c - 87)"

text \<open>\<open>%.2x\<close> and \<open>%.4x\<close>.\<close>

definition hex2 :: "byte \<Rightarrow> string" where
  "hex2 b = [hex_digit (unat b div 16), hex_digit (unat b mod 16)]"

definition hex4 :: "16 word \<Rightarrow> string" where
  "hex4 w = map (\<lambda>k. hex_digit (unat w div 16 ^ k mod 16)) [3, 2, 1, 0]"

definition unhex2 :: "string \<Rightarrow> byte" where
  "unhex2 s = of_nat (16 * unhex_digit (s ! 0) + unhex_digit (s ! 1))"

text \<open>\<open>%d\<close>.\<close>

fun dec :: "nat \<Rightarrow> string" where
  "dec n = (if n < 10 then [hex_digit n] else dec (n div 10) @ [hex_digit (n mod 10)])"

declare dec.simps [simp del]

definition dec_int :: "int \<Rightarrow> string" where
  "dec_int i = (if i < 0 then CHR ''-'' # dec (nat (- i)) else dec (nat i))"

definition dec_byte :: "byte \<Rightarrow> string" where
  "dec_byte b = dec (unat b)"

definition undec :: "string \<Rightarrow> nat" where
  "undec s = foldl (\<lambda>n c. 10 * n + unhex_digit c) 0 s"

lemma unhex_hex_digit: "n < 16 \<Longrightarrow> unhex_digit (hex_digit n) = n"
  by (simp add: unhex_digit_def hex_digit_def of_char_of)

lemma unhex2_hex2 [simp]: "unhex2 (hex2 b) = b"
proof -
  have "unat b < 2 ^ LENGTH(8)" by (rule unsigned_less)
  then have "unhex_digit (hex_digit (unat b div 16)) = unat b div 16"
    "unhex_digit (hex_digit (unat b mod 16)) = unat b mod 16" by (simp_all add: unhex_hex_digit)
  moreover have "16 * (unat b div 16) + unat b mod 16 = unat b" by simp
  ultimately show ?thesis
    by (simp only: unhex2_def hex2_def nth_Cons_0 nth_Cons_Suc One_nat_def) (simp flip: of_nat_mult of_nat_add)
qed

lemma length_hex2 [simp]: "length (hex2 b) = 2"
  by (simp add: hex2_def)

lemma undec_dec [simp]: "undec (dec n) = n"
proof (induction n rule: dec.induct)
  case (1 n)
  show ?case
  proof (cases "n < 10")
    case True
    then show ?thesis by (subst dec.simps) (simp add: undec_def unhex_hex_digit)
  next
    case False
    then have "undec (dec n) = 10 * undec (dec (n div 10)) + n mod 10"
      by (subst dec.simps) (simp add: undec_def unhex_hex_digit)
    then show ?thesis using 1 False by simp
  qed
qed

lemma dec_digits: "c \<in> set (dec n) \<Longrightarrow> c \<noteq> CHR ''.''"
proof (induction n rule: dec.induct)
  case (1 n)
  have d: "hex_digit k \<noteq> CHR ''.''" if "k < 10" for k
  proof
    assume "hex_digit k = CHR ''.''"
    then have "of_char (hex_digit k) = (46 :: nat)" by simp
    then show False using that by (simp add: hex_digit_def of_char_of)
  qed
  show ?case
  proof (cases "n < 10")
    case True
    then show ?thesis using 1(2) d by (subst (asm) dec.simps) auto
  next
    case False
    then show ?thesis using 1 d[of "n mod 10"] by (subst (asm) (2) dec.simps) auto
  qed
qed

section \<open>Pointers\<close>

type_synonym ptr = "byte list \<times> int"

definition deref :: "ptr \<Rightarrow> nat \<Rightarrow> byte option" where
  "deref p k = cget (fst p) (snd p + int k)"

definition in_ptr :: "ptr \<Rightarrow> nat \<Rightarrow> bool" where
  "in_ptr p n \<longleftrightarrow> 0 \<le> snd p \<and> nat (snd p) + n \<le> length (fst p)"

text \<open>The \<open>n\<close> bytes behind a pointer.\<close>

definition at :: "ptr \<Rightarrow> nat \<Rightarrow> byte list" where
  "at p n = slice (nat (snd p)) n (fst p)"

definition print_bytes :: "(byte \<Rightarrow> string) \<Rightarrow> nat \<Rightarrow> ptr \<Rightarrow> string option" where
  "print_bytes fmt n p = do {
     out \<leftarrow> c_for n (\<lambda>i out. do { b \<leftarrow> deref p i; Some (out @ fmt b) }) [];
     Some (out @ nl) }"

definition write_bytes :: "nat \<Rightarrow> ptr \<Rightarrow> ptr \<Rightarrow> byte list option" where
  "write_bytes n p q = c_for n (\<lambda>i t. do { b \<leftarrow> deref p i; cput t (snd q + int i) b }) (fst q)"

text \<open>Whether some of the first \<open>n\<close> bytes differ; the loop stops at the first that do.\<close>

definition bytes_differ :: "nat \<Rightarrow> ptr \<Rightarrow> ptr \<Rightarrow> bool option" where
  "bytes_differ n p q = c_any n (\<lambda>i. do { a \<leftarrow> deref p i; b \<leftarrow> deref q i; Some (a \<noteq> b) })"

lemma length_at [simp]: "in_ptr p n \<Longrightarrow> length (at p n) = n"
  by (simp add: in_ptr_def at_def length_slice)

lemma deref_at: "in_ptr p n \<Longrightarrow> k < n \<Longrightarrow> deref p k = Some (at p n ! k)"
  by (auto simp: in_ptr_def at_def deref_def nth_slice cget_def nat_add_distrib)

lemma at_eq_map: "in_ptr p n \<Longrightarrow> at p n = map (\<lambda>k. fst p ! (nat (snd p) + k)) [0..<n]"
  by (simp add: at_def in_ptr_def slice_eq_map)

lemma print_bytes_ok:
  assumes "in_ptr p n"
  shows "print_bytes fmt n p = Some (concat (map fmt (at p n)) @ nl)"
proof -
  have "c_for m (\<lambda>i out. do { b \<leftarrow> deref p i; Some (out @ fmt b) }) [] = Some (concat (map fmt (take m (at p n))))"
    if "m \<le> n" for m
    using that assms by (induction m) (simp_all add: deref_at take_Suc_conv_app_nth)
  from this[of n] show ?thesis using assms by (simp add: print_bytes_def)
qed

lemma write_bytes_ok:
  assumes "in_ptr p n" "in_ptr q n"
  shows "write_bytes n p q = Some (blit (fst q) (nat (snd q)) (at p n))"
proof -
  have "c_for n (\<lambda>i t. do { b \<leftarrow> deref p i; cput t (int (nat (snd q)) + int i) b }) (fst q) =
      Some (blit (fst q) (nat (snd q)) (map ((!) (at p n)) [0..<n]))"
    using assms by (intro c_for_copy) (auto simp: deref_at in_ptr_def)
  moreover have "map ((!) (at p n)) [0..<n] = at p n"
    using assms(1) by (metis length_at map_nth)
  moreover have "int (nat (snd q)) = snd q" using assms(2) by (simp add: in_ptr_def)
  ultimately show ?thesis by (simp add: write_bytes_def)
qed

lemma bytes_differ_ok:
  assumes "in_ptr p n" "in_ptr q n"
  shows "bytes_differ n p q = Some (at p n \<noteq> at q n)"
proof -
  have "bytes_differ n p q = Some (\<exists>k<n. at p n ! k \<noteq> at q n ! k)"
    unfolding bytes_differ_def using assms by (intro c_any_total) (simp add: deref_at)
  then show ?thesis using assms by (simp add: list_eq_iff_nth_eq)
qed

lemma print_bytes_out: "0 < n \<Longrightarrow> \<not> (0 \<le> snd p \<and> snd p + int n \<le> int (length (fst p))) \<Longrightarrow> print_bytes fmt n p = None"
proof -
  assume n: "0 < n" and out: "\<not> (0 \<le> snd p \<and> snd p + int n \<le> int (length (fst p)))"
  have "c_for m (\<lambda>i out. do { b \<leftarrow> deref p i; Some (out @ fmt b) }) [] = None"
    if "0 < m" "\<not> (0 \<le> snd p \<and> snd p + int m \<le> int (length (fst p)))" for m
    using that
  proof (induction m)
    case (Suc m)
    show ?case
    proof (cases "0 < m \<and> \<not> (0 \<le> snd p \<and> snd p + int m \<le> int (length (fst p)))")
      case True
      then show ?thesis using Suc by simp
    next
      case False
      then have "deref p m = None" using Suc.prems by (auto simp: deref_def cget_def)
      then show ?thesis by (auto split: bind_splits)
    qed
  qed simp
  from this[OF n out] show ?thesis by (simp add: print_bytes_def)
qed

section \<open>Functions that write beside what they compute\<close>

text \<open>
  Such a function hands back what it computes with the texts it wrote; forgetting the texts, step by step,
  gives the function without them.
\<close>

named_theorems forget "a function that writes, with what it wrote forgotten"

lemma forget_bind:
  assumes "map_option fst m = p" "\<And>x l. m = Some (x, l) \<Longrightarrow> map_option fst (K (x, l)) = k x"
  shows "map_option fst (m \<bind> K) = p \<bind> k"
  using assms by (cases m) auto

lemma forget_plain:
  "(\<And>x. m = Some x \<Longrightarrow> map_option fst (K x) = k x) \<Longrightarrow> map_option fst (m \<bind> K) = m \<bind> k"
  by (cases m) auto

lemma forget_return: "map_option fst (Some (x, l)) = Some x"
  by simp

lemma forget_if:
  "(b \<Longrightarrow> map_option fst f = f') \<Longrightarrow> (\<not> b \<Longrightarrow> map_option fst g = g') \<Longrightarrow>
   map_option fst (if b then f else g) = (if b then f' else g')"
  by simp

lemmas forget_rules = forget_plain forget_return forget_if

lemma forget_Some: "map_option fst f = f' \<Longrightarrow> f = Some (x, l) \<Longrightarrow> f' = Some x"
  by auto

lemma c_for_forget:
  assumes "\<And>i s l. map_option fst (body' i (s, l)) = body i s"
  shows "map_option fst (c_for n body' (s, l)) = c_for n body s"
proof (induction n)
  case (Suc n)
  then show ?case using assms by (simp add: forget_bind)
qed simp

end
