(* ===== verification/Packet_Printing.thy ===== *)
theory Packet_Printing
  imports C_Output Pre_Processing
begin

text \<open>
  What the program prints of its buffers and packets: the print functions of
  \<^verbatim>\<open>packet-buffer/packet_buffer.h\<close>, \<^verbatim>\<open>packet-buffer/match_field_buffer.h\<close>, \<^verbatim>\<open>packet/packet.h\<close> and
  \<^verbatim>\<open>pre-composer/pre_processing.h\<close>. Bytes are printed as two hexadecimal digits and a blank, sixteen
  to a line.
\<close>

definition LINE_LEN :: int where "LINE_LEN = 16"

text \<open>One byte; the state is the text so far and the variable \<open>line_count\<close>.\<close>

definition print_in_line :: "byte \<Rightarrow> string \<times> int \<Rightarrow> string \<times> int" where
  "print_in_line b = (\<lambda>(out, line_count).
     let out = out @ hex2 b @ '' ''; line_count = line_count + 1 in
     if line_count = LINE_LEN then (out @ nl, 0) else (out, line_count))"

definition print_range :: "byte list \<Rightarrow> int \<Rightarrow> int \<Rightarrow> string \<times> int \<Rightarrow> (string \<times> int) option" where
  "print_range arr lo hi = c_for (nat (hi - lo)) (\<lambda>k st. do {
     b \<leftarrow> cget arr (lo + int k); Some (print_in_line b st) })"

section \<open>The buffers\<close>

definition print_buffer :: "packet_buffer \<Rightarrow> string option" where
  "print_buffer pb = (let out = nl @ ''-------------Packet Buffer-------------------'' @ nl in
     if pb_empty_flag pb = 1 then Some (out @ ''Packet buffer is empty'')
     else if packet_buffer_head pb < packet_buffer_tail pb then do {
       (out, line_count) \<leftarrow>
         print_range (packet_buffer_bytes pb) (packet_buffer_head pb) (packet_buffer_tail pb) (out, 0);
       Some out }
     else do {
       st \<leftarrow> print_range (packet_buffer_bytes pb) (packet_buffer_head pb) PACKET_BUFFER_LEN (out, 0);
       (out, line_count) \<leftarrow> print_range (packet_buffer_bytes pb) 0 (packet_buffer_tail pb) st;
       Some out })"

definition print_mtch_field_buffer :: "match_field_buffer \<Rightarrow> string option" where
  "print_mtch_field_buffer mfb = (let out = nl @ ''-------------Match Field Buffer-------------------'' @ nl in
     if mfb_empty_flag mfb = 1 then Some (out @ ''Match Field buffer is empty'')
     else if match_field_buffer_head mfb < match_field_buffer_tail mfb then do {
       (out, line_count) \<leftarrow> print_range (match_field_buffer_array mfb) (match_field_buffer_head mfb)
         (match_field_buffer_tail mfb) (out, 0);
       Some out }
     else do {
       st \<leftarrow> print_range (match_field_buffer_array mfb) (match_field_buffer_head mfb) match_field_buffer_LEN (out, 0);
       (out, line_count) \<leftarrow> print_range (match_field_buffer_array mfb) 0 (match_field_buffer_tail mfb) st;
       Some out })"

definition print_packet_buffer :: "pre_processor \<Rightarrow> string option" where
  "print_packet_buffer pp = print_buffer (pp_pb pp)"

definition print_match_field_buffer :: "pre_processor \<Rightarrow> string option" where
  "print_match_field_buffer pp = print_mtch_field_buffer (pp_mf pp)"

section \<open>Single packets and match fields\<close>

text \<open>A stored packet: its length byte and that many bytes behind it.\<close>

definition print_packet :: "byte list \<Rightarrow> string option" where
  "print_packet pkt = do {
     length \<leftarrow> cget pkt 0;
     let out = nl @ ''-------------Packet Recieved-------------------'' @ nl @ ''length - '' @ hex2 length @ '' '' @ nl;
     (out, line_count) \<leftarrow> print_range pkt 1 (uint length + 1) (out, 0);
     Some out }"

text \<open>
  \<open>heap\<close> is what the array from \<open>malloc\<close> holds. The messages of the functions called are
  left out of the text.
\<close>

definition read_and_print_packet :: "(nat \<Rightarrow> byte) \<Rightarrow> packet_buffer \<Rightarrow> (string \<times> packet_buffer) option" where
  "read_and_print_packet heap pb = do {
     (a, pb) \<leftarrow> read_a_packet pb (map heap [0..<MAX_PACKET_SIZE]);
     out \<leftarrow> print_packet a;
     Some (out, pb) }"

definition print_match_field :: "byte list \<Rightarrow> string option" where
  "print_match_field mf = do {
     let out = nl @ ''-------------Match Field Recieved-------------------'' @ nl;
     (out, line_count) \<leftarrow> print_range mf 0 (int MTCH_FLD_LEN) (out, 0);
     Some out }"

text \<open>The loop of \<open>print_data_buffer\<close> counts from 1; round \<open>k\<close> here is the one with \<open>i = k + 1\<close>.\<close>

definition print_data_buffer :: "ptr \<Rightarrow> string option" where
  "print_data_buffer data_buffer = do {
     length \<leftarrow> deref data_buffer 0;
     out \<leftarrow> c_for (unat length) (\<lambda>k out. let i = Suc k in do {
       b \<leftarrow> deref data_buffer i;
       let out = out @ hex2 b @ '' '';
       Some (if i mod 16 = 0 then out @ nl else out) }) [];
     Some (out @ nl) }"

section \<open>What is shown\<close>

text \<open>The text of some bytes in lines.\<close>

definition shown :: "string \<Rightarrow> byte list \<Rightarrow> string" where
  "shown out bs = fst (fold print_in_line bs (out, 0))"

lemma print_range_ok:
  assumes "h \<le> t" "t \<le> length arr"
  shows "print_range arr (int h) (int t) st = Some (fold print_in_line (slice h (t - h) arr) st)"
proof -
  have "c_for n (\<lambda>k st. do { b \<leftarrow> cget arr (int h + int k); Some (print_in_line b st) }) st =
      Some (fold print_in_line (slice h n arr) st)" if "h + n \<le> length arr" for n
    using that
  proof (induction n)
    case 0
    then show ?case by (simp add: slice_def)
  next
    case (Suc n)
    have "slice h (Suc n) arr = slice h n arr @ [arr ! (h + n)]"
      using Suc.prems by (simp add: slice_def take_Suc_conv_app_nth)
    moreover have "cget arr (int h + int n) = Some (arr ! (h + n))"
      using Suc.prems cget_int[of "h + n" arr] by simp
    ultimately show ?case using Suc by simp
  qed
  from this[of "t - h"] assms show ?thesis by (simp add: print_range_def nat_diff_distrib' flip: of_nat_diff)
qed

lemma pb_stored_straight:
  assumes "pb_ok pb" "packet_buffer_head pb = int h" "packet_buffer_tail pb = int t" "h < t"
    and "pb_empty_flag pb \<noteq> 1"
  shows "pb_stored pb = slice h (t - h) (packet_buffer_bytes pb)"
proof -
  have t: "t < 1000" "length (packet_buffer_bytes pb) = 1000" using assms by (auto simp: pb_ok_def pb_wf_def)
  then have "pb_count pb = t - h" using assms(2-5) by (auto simp: pb_count_def simp flip: of_nat_diff zmod_int)
  moreover have "pb_at pb k = packet_buffer_bytes pb ! (h + k)" if "k < t - h" for k
    using that t assms(2) by (simp add: pb_at_def flip: of_nat_add)
  ultimately show ?thesis
    using assms(3,4) t by (auto simp: pb_stored_def slice_eq_map intro!: map_cong)
qed

lemma pb_stored_wrapped:
  assumes "pb_ok pb" "packet_buffer_head pb = int h" "packet_buffer_tail pb = int t" "t < h"
    and "pb_empty_flag pb \<noteq> 1"
  shows "pb_stored pb = slice h (1000 - h) (packet_buffer_bytes pb) @ slice 0 t (packet_buffer_bytes pb)"
proof (rule nth_equalityI)
  have t: "h < 1000" "length (packet_buffer_bytes pb) = 1000" using assms by (auto simp: pb_ok_def pb_wf_def)
  have "(int t - int h) mod 1000 = (int t - int h + 1000) mod 1000" by simp
  also have "\<dots> = int t - int h + 1000" by (rule mod_pos_pos_trivial) (use assms(4) t in auto)
  finally have "(int t - int h) mod 1000 = int t - int h + 1000" .
  then have c: "pb_count pb = 1000 - h + t" using assms(2-5) t by (auto simp: pb_count_def)
  then show "length (pb_stored pb) =
      length (slice h (1000 - h) (packet_buffer_bytes pb) @ slice 0 t (packet_buffer_bytes pb))"
    using t assms(4) by (simp add: length_slice)
  fix k assume "k < length (pb_stored pb)"
  then have k: "k < 1000 - h + t" using c by simp
  have "pb_at pb k = packet_buffer_bytes pb ! ((h + k) mod 1000)"
    using assms(2) by (simp add: pb_at_def nat_mod_distrib flip: of_nat_add)
  also have "(h + k) mod 1000 = (if k < 1000 - h then h + k else k - (1000 - h))"
    using k t assms(4) by (auto simp: mod_if)
  finally show "pb_stored pb ! k =
      (slice h (1000 - h) (packet_buffer_bytes pb) @ slice 0 t (packet_buffer_bytes pb)) ! k"
    using k t assms(4) c by (auto simp: pb_stored_def nth_append length_slice nth_slice)
qed

text \<open>A buffer that never was full shows exactly the bytes it stores, the oldest first.\<close>

lemma print_buffer_shows:
  assumes "pb_ok pb" "pb_empty_flag pb \<noteq> 1"
  shows "print_buffer pb = Some (shown (nl @ ''-------------Packet Buffer-------------------'' @ nl) (pb_stored pb))"
proof -
  define h t where "h = nat (packet_buffer_head pb)" and "t = nat (packet_buffer_tail pb)"
  then have ht: "packet_buffer_head pb = int h" "packet_buffer_tail pb = int t" "h < 1000" "t < 1000"
      "length (packet_buffer_bytes pb) = 1000"
    using assms(1) by (auto simp: pb_ok_def pb_wf_def)
  have "h \<noteq> t" using assms ht by (auto simp: pb_ok_def pb_wf_def)
  then consider "h < t" | "t < h" by linarith
  then show ?thesis
  proof cases
    case 1
    then show ?thesis
      using pb_stored_straight[OF assms(1) ht(1,2) _ assms(2)] print_range_ok[of h t "packet_buffer_bytes pb"] ht assms(2)
      by (simp add: print_buffer_def shown_def split_def)
  next
    case 2
    then show ?thesis
      using pb_stored_wrapped[OF assms(1) ht(1,2) _ assms(2)] print_range_ok[of h 1000 "packet_buffer_bytes pb"]
        print_range_ok[of 0 t "packet_buffer_bytes pb"] ht assms(2)
      by (simp add: print_buffer_def shown_def split_def PACKET_BUFFER_LEN_def)
  qed
qed

end
