(* ===== verification/Packet_Reading.thy ===== *)
theory Packet_Reading
  imports Packet_Capture Packet_Printing
begin

text \<open>
  \<^verbatim>\<open>packet/packet.h\<close>: the functions that fetch a packet from the capture and hand out an address, and those that
  print a packet or a byte array. The address handed out is the one of a local variable: \<open>Local x\<close>
  is such an address, \<open>x\<close> what was stored there when the function returned. Addresses printed and the
  time stamp of a packet are parameters, and so is libpcap; what goes to \<open>stderr\<close> is left out.
\<close>

datatype 'a address = Null | Minus_1 | Local 'a

section \<open>Opening and printing\<close>

definition openfile :: "(string \<Rightarrow> 'fp option) \<Rightarrow> string \<Rightarrow> 'fp option \<times> string" where
  "openfile pcap_open_offline filename = (case pcap_open_offline filename of
     None \<Rightarrow> (None, ''Error: Cannot Locate PCAP file'' @ nl)
   | Some fp \<Rightarrow> (Some fp, nl @ ''+++ PCAP File Located +++'' @ nl))"

text \<open>The loop all of them share; \<open>i\<close> counts from 1 and is compared with \<open>caplen + 1\<close> in 32 bits.\<close>

definition print_packet_bytes :: "packet \<Rightarrow> string \<Rightarrow> string option" where
  "print_packet_bytes pkt out = c_for (unat (caplen pkt + 1) - 1) (\<lambda>k out. let i = Suc k in do {
     b \<leftarrow> cget (pkt_data pkt) (int i - 1);
     let out = out @ hex2 b @ '' '';
     Some (if i mod 16 = 0 then out @ nl else out) }) out"

text \<open>\<open>stamp pkt\<close> is the line with the time and the length of the packet.\<close>

definition print_std_packet :: "(packet \<Rightarrow> string) \<Rightarrow> packet option \<Rightarrow> (int \<times> string) option" where
  "print_std_packet stamp pkt = (case pkt of None \<Rightarrow> Some (0, ''Error'')
   | Some pkt1 \<Rightarrow> do {
       let out = ''Here '' @ dec_int (sint (caplen pkt1)) @ nl @ stamp pkt1 @ dec_int (sint (caplen pkt1)) @ nl;
       out \<leftarrow> print_packet_bytes pkt1 out;
       Some (1, out @ nl @ nl) })"

text \<open>\<open>a\<close> and \<open>b\<close> are the addresses of the array and of the pointer to it, as \<open>printf\<close> shows them.\<close>

definition print_byte_array :: "string \<Rightarrow> string \<Rightarrow> ptr \<Rightarrow> string option" where
  "print_byte_array a b byte_array = do {
     let out = ''-----Byte_array----'' @ nl;
     x \<leftarrow> deref byte_array 0;
     y \<leftarrow> deref byte_array 1;
     let out = out @ ''Array: '' @ a @ '' '' @ b @ ''  '' @ dec_byte x @ '' '' @ dec_byte x @ '' '' @ hex2 y @ '' '' @ hex2 y @ nl;
     let out = out @ ''ptr '' @ a @ '' '' @ dec_byte x @ nl;
     let length = x;
     let out = out @ ''Start Printing The Array of Length '' @ dec_byte length @ '': '' @ nl;
     c_for (unat length) (\<lambda>i out. do {
       v \<leftarrow> deref byte_array (Suc i);
       Some (out @ hex2 v @ '' '' @ nl) }) out }"

section \<open>Fetching a packet\<close>

definition get_next_packet ::
  "(packet \<Rightarrow> string) \<Rightarrow> ('fp \<Rightarrow> int \<times> packet \<times> 'fp) \<Rightarrow> 'fp \<Rightarrow> (packet option address \<times> string \<times> 'fp) option" where
  "get_next_packet stamp next fp = (let (res, header, fp) = next fp in
     if res \<ge> 0 then
       (if res \<noteq> 0 then do {
          out \<leftarrow> print_packet_bytes header (stamp header);
          Some (Local (Some header), out @ nl @ nl, fp) }
        else Some (Local None, [], fp))
     else if res = - 1 then Some (Minus_1, [], fp)
     else Some (Local None, [], fp))"

text \<open>
  \<open>get_packets\<close> asks until it has \<open>PACKET_COUNT\<close> packets, which is one; \<open>new_packet\<close> is the local
  variable, \<open>fuel\<close> bounds the number of questions.
\<close>

definition PACKET_COUNT :: nat where "PACKET_COUNT = 1"

fun get_packets_loop ::
  "nat \<Rightarrow> (packet \<Rightarrow> string) \<Rightarrow> ('fp \<Rightarrow> int \<times> packet \<times> 'fp) \<Rightarrow> 'fp \<Rightarrow> packet option \<Rightarrow> nat \<Rightarrow> string \<Rightarrow>
   (packet option address \<times> string \<times> 'fp) option" where
  "get_packets_loop 0 stamp next fp new_packet packet_count out = None"
| "get_packets_loop (Suc fuel) stamp next fp new_packet packet_count out =
     (let (res, header, fp) = next fp in
      if res \<ge> 0 then
        (if res = 0 then get_packets_loop fuel stamp next fp new_packet packet_count out
         else do {
           let new_packet = Some header;
           out \<leftarrow> print_packet_bytes header (out @ stamp header @ ''Element : '' @ stamp header);
           let out = out @ nl @ nl;
           let packet_count = packet_count + 1;
           if packet_count \<ge> PACKET_COUNT then Some (Local new_packet, out, fp)
           else get_packets_loop fuel stamp next fp new_packet packet_count out })
      else if res = - 1 then Some (Minus_1, out, fp)
      else Some (Local new_packet, out, fp))"

definition get_packets ::
  "nat \<Rightarrow> (packet \<Rightarrow> string) \<Rightarrow> ('fp \<Rightarrow> int \<times> packet \<times> 'fp) \<Rightarrow> 'fp \<Rightarrow> (packet option address \<times> string \<times> 'fp) option" where
  "get_packets fuel stamp next fp = get_packets_loop fuel stamp next fp None 0 []"

section \<open>Fetching the bytes of a packet\<close>

text \<open>
  The array has one element more than the low byte of \<open>caplen\<close> says and holds \<open>g\<close> at first; the loop
  stores \<open>caplen\<close> bytes. After a negative answer the header was not set, and its length is read.
\<close>

definition store_packet_bytes :: "packet \<Rightarrow> byte list \<Rightarrow> string \<Rightarrow> (byte list \<times> string) option" where
  "store_packet_bytes header packet_header out = c_for (unat (caplen header + 1) - 1) (\<lambda>k (packet_header, out).
     let i = Suc k in do {
       b \<leftarrow> cget (pkt_data header) (int i - 1);
       let out = out @ hex2 b @ '' '';
       packet_header \<leftarrow> cput packet_header (int i) b;
       Some (packet_header, if i mod 16 = 0 then out @ nl else out) }) (packet_header, out)"

definition get_next_byte_array ::
  "(nat \<Rightarrow> byte) \<Rightarrow> string \<Rightarrow> string \<Rightarrow> (packet \<Rightarrow> string) \<Rightarrow> ('fp \<Rightarrow> int \<times> packet \<times> 'fp) \<Rightarrow> 'fp \<Rightarrow>
   (byte list address \<times> string \<times> 'fp) option" where
  "get_next_byte_array g a b stamp next fp = (let (res, header, fp) = next fp in
     if res < 0 then None
     else if res = 0 then Some (Null, [], fp)
     else do {
       let length = (ucast (caplen header) :: byte);
       let packet_header = map g [0..<unat length + 1];
       packet_header \<leftarrow> cput packet_header 0 length;
       (packet_header, out) \<leftarrow> store_packet_bytes header packet_header (stamp header);
       let out = out @ nl @ nl;
       t \<leftarrow> print_byte_array a b (packet_header, 0);
       Some (Local packet_header, out @ t, fp) })"

text \<open>
  The second one puts the bytes on the heap and answers 1: the caller's pointer was passed by value and
  does not change. The array is handed back here for the lemmas, the program has lost it.
\<close>

definition get_next_byte_array_2 ::
  "(nat \<Rightarrow> byte) \<Rightarrow> string \<Rightarrow> string \<Rightarrow> (packet \<Rightarrow> string) \<Rightarrow> ('fp \<Rightarrow> int \<times> packet \<times> 'fp) \<Rightarrow> 'fp \<Rightarrow>
   (int \<times> byte list \<times> string \<times> 'fp) option" where
  "get_next_byte_array_2 g a b stamp next fp = (let (res, header, fp) = next fp in
     if res < 0 then None
     else if res = 0 then Some (0, [], [], fp)
     else do {
       let length = (ucast (caplen header) :: byte);
       let packet_header = map g [0..<unat length + 1];
       packet_header \<leftarrow> cput packet_header 0 length;
       let out = stamp header @ ''Testttt '' @ dec_byte length @ nl;
       (packet_header, out) \<leftarrow> store_packet_bytes header packet_header out;
       let out = out @ nl @ nl @ ''Test1'' @ nl;
       t \<leftarrow> print_byte_array a b (packet_header, 0);
       Some (1, packet_header, out @ t @ ''Test2'' @ nl, fp) })"

section \<open>When the bytes fit\<close>

lemma c_for_prefix:
  "c_for n body s = Some s' \<Longrightarrow> k < n \<Longrightarrow> \<exists>t t'. c_for k body s = Some t \<and> body k t = Some t'"
proof (induction n arbitrary: s')
  case (Suc n)
  then obtain t where "c_for n body s = Some t" "body n t = Some s'" by (auto split: bind_splits)
  then show ?case using Suc by (cases "k = n") auto
qed simp

text \<open>The loop stores \<open>caplen\<close> bytes behind the length byte, and needs an array that has room for them.\<close>

lemma store_fits:
  assumes "length (pkt_data pkt) = unat (caplen pkt)" "caplen pkt \<noteq> - 1" "length arr = Suc (unat (caplen pkt))"
  shows "\<exists>out'. store_packet_bytes pkt arr out = Some (take 1 arr @ pkt_data pkt, out')"
proof -
  let ?n = "unat (caplen pkt)"
  let ?body = "\<lambda>k (packet_header, out). let i = Suc k in do {
       b \<leftarrow> cget (pkt_data pkt) (int i - 1);
       let out = out @ hex2 b @ '' '';
       packet_header \<leftarrow> cput packet_header (int i) b;
       Some (packet_header, if i mod 16 = 0 then out @ nl else out) }"
  have "\<exists>s'. c_for ?n ?body (arr, out) = Some s' \<and> fst s' = blit arr 1 (take ?n (pkt_data pkt))"
  proof (rule c_for_rule[where P = "\<lambda>k s. fst s = blit arr 1 (take k (pkt_data pkt))"])
    show "fst (arr, out) = blit arr 1 (take 0 (pkt_data pkt))" using assms(3) by simp
    fix k and s :: "byte list \<times> string" assume k: "k < ?n" and s: "fst s = blit arr 1 (take k (pkt_data pkt))"
    have "1 + length (take k (pkt_data pkt)) < length arr" using k assms(1,3) by simp
    from blit_snoc[OF this, of "pkt_data pkt ! k"]
    have "(blit arr 1 (take k (pkt_data pkt)))[Suc k := pkt_data pkt ! k] = blit arr 1 (take (Suc k) (pkt_data pkt))"
      using k assms(1) by (simp add: take_Suc_conv_app_nth)
    moreover have "length (blit arr 1 (take k (pkt_data pkt))) = length arr" using k assms(1,3) by (simp add: length_blit)
    ultimately show "\<exists>s'. ?body k s = Some s' \<and> fst s' = blit arr 1 (take (Suc k) (pkt_data pkt))"
      using k s assms(1,3) cput_int[of "Suc k" "blit arr 1 (take k (pkt_data pkt))" "pkt_data pkt ! k"]
      by (cases s) (auto simp: cget_int Let_def)
  qed
  then obtain s' where s': "c_for ?n ?body (arr, out) = Some s'" "fst s' = blit arr 1 (take ?n (pkt_data pkt))" by blast
  have "blit arr 1 (take ?n (pkt_data pkt)) = take 1 arr @ pkt_data pkt"
    using assms(1,3) by (simp add: blit_def)
  then show ?thesis using s' assms(2)
    by (cases s') (simp add: store_packet_bytes_def unat_plus_1_minus_1)
qed

lemma store_overflows:
  assumes "length arr \<le> unat (caplen pkt)" "caplen pkt \<noteq> - 1" "0 < length arr"
  shows "store_packet_bytes pkt arr out = None"
proof (rule ccontr)
  let ?body = "\<lambda>k (packet_header, out). let i = Suc k in do {
       b \<leftarrow> cget (pkt_data pkt) (int i - 1);
       let out = out @ hex2 b @ '' '';
       packet_header \<leftarrow> cput packet_header (int i) b;
       Some (packet_header, if i mod 16 = 0 then out @ nl else out) }"
  let ?k = "length arr - 1"
  assume "store_packet_bytes pkt arr out \<noteq> None"
  then obtain s' where s': "c_for (unat (caplen pkt)) ?body (arr, out) = Some s'"
    using assms(2) by (auto simp: store_packet_bytes_def unat_plus_1_minus_1)
  have "?k < unat (caplen pkt)" using assms(1,3) by linarith
  then obtain t t' where t: "c_for ?k ?body (arr, out) = Some t" "?body ?k t = Some t'"
    using c_for_prefix[OF s'] by blast
  have "length (fst t) = length arr"
    by (rule c_for_inv[OF t(1), where P = "\<lambda>s. length (fst s) = length arr"])
      (auto simp: Let_def cput_length split: bind_splits)
  then have "cput (fst t) (int (Suc ?k)) b = None" for b using assms(3) by (simp add: cput_out)
  then show False using t(2) assms(3) by (cases t) (auto simp: Let_def split: bind_splits)
qed

lemma print_byte_array_iff:
  assumes "length arr = Suc (unat (arr ! 0))"
  shows "print_byte_array a b (arr, 0) \<noteq> None \<longleftrightarrow> arr ! 0 \<noteq> 0"
proof (cases "arr ! 0 = 0")
  case True
  then have "deref (arr, 0) 1 = None" using assms by (simp add: deref_def cget_def)
  then show ?thesis using True by (simp add: print_byte_array_def split: bind_splits)
next
  case False
  then have pos: "0 < unat (arr ! 0)" by (simp add: unat_gt_0)
  have d: "deref (arr, 0) k = Some (arr ! k)" if "k \<le> unat (arr ! 0)" for k
    using that assms by (simp add: deref_def cget_int)
  have "\<exists>s'. c_for (unat (arr ! 0)) (\<lambda>i out. do { v \<leftarrow> deref (arr, 0) (Suc i); Some (out @ hex2 v @ '' '' @ nl) }) out
      = Some s' \<and> True" for out
    by (rule c_for_rule[where P = "\<lambda>_ _. True"]) (simp_all add: d)
  then show ?thesis using False d[of 0] d[of 1] pos by (auto simp: print_byte_array_def Let_def)
qed

text \<open>
  \<open>get_next_byte_array\<close> and \<open>get_next_byte_array_2\<close> are defined for packets of 1 to 255 bytes only: a
  longer one is stored past the end of an array as long as the low byte of its length says, and of an
  empty one the first byte is printed. What they hold then is the packet behind its length byte, but
  the address of the one is of a local array, and the other tells the caller nothing.
\<close>

theorem fetched_bytes_fit:
  assumes "next fp = (res, pkt, fp')" "0 < res" "length (pkt_data pkt) = unat (caplen pkt)" "caplen pkt \<noteq> - 1"
  shows "(get_next_byte_array g a b stamp next fp \<noteq> None \<longleftrightarrow> 1 \<le> unat (caplen pkt) \<and> unat (caplen pkt) < 256) \<and>
    (get_next_byte_array_2 g a b stamp next fp \<noteq> None \<longleftrightarrow> 1 \<le> unat (caplen pkt) \<and> unat (caplen pkt) < 256) \<and>
    (\<forall>r t s. get_next_byte_array g a b stamp next fp = Some (r, t, s) \<longrightarrow> r = Local (frame (pkt_data pkt))) \<and>
    (\<forall>r xs t s. get_next_byte_array_2 g a b stamp next fp = Some (r, xs, t, s) \<longrightarrow> r = 1 \<and> xs = frame (pkt_data pkt))"
proof -
  let ?l = "ucast (caplen pkt) :: byte"
  have l: "unat ?l = unat (caplen pkt) mod 256" by (simp add: unsigned_ucast_eq take_bit_eq_mod)
  let ?arr = "(map g [0..<unat ?l + 1])[0 := ?l]"
  have put: "cput (map g [0..<unat ?l + 1]) 0 ?l = Some ?arr"
    using cput_int[of 0 "map g [0..<unat ?l + 1]" ?l] by simp
  show ?thesis
  proof (cases "unat (caplen pkt) < 256")
    case False
    have "unat (caplen pkt) mod 256 < 256" by simp
    then have "store_packet_bytes pkt ?arr out = None" for out
      using False l by (intro store_overflows[OF _ assms(4)]) simp_all
    then show ?thesis using assms(1,2) put False
      by (simp add: get_next_byte_array_def get_next_byte_array_2_def Let_def)
  next
    case True
    have "length ?arr = Suc (unat (caplen pkt))" using True l by simp
    moreover have "take 1 ?arr @ pkt_data pkt = frame (pkt_data pkt)"
      using True assms(3) by (simp add: frame_def upt_conv_Cons del: upt_Suc)
    ultimately have st: "\<exists>out'. store_packet_bytes pkt ?arr out = Some (frame (pkt_data pkt), out')" for out
      using store_fits[OF assms(3,4), of ?arr out] by simp
    have "frame (pkt_data pkt) ! 0 = ?l" "unat ?l = unat (caplen pkt)"
      using assms(3) l True by (simp_all add: frame_def)
    then have p: "print_byte_array a b (frame (pkt_data pkt), 0) \<noteq> None \<longleftrightarrow> 1 \<le> unat (caplen pkt)"
      using print_byte_array_iff[of "frame (pkt_data pkt)" a b] assms(3) unat_gt_0[of ?l]
      by (simp add: frame_def Suc_le_eq del: unat_gt_0)
    obtain o1 where o1: "store_packet_bytes pkt ?arr (stamp pkt) = Some (frame (pkt_data pkt), o1)" using st by blast
    obtain o2 where o2: "store_packet_bytes pkt ?arr (stamp pkt @ ''Testttt '' @ dec_byte ?l @ nl) = Some (frame (pkt_data pkt), o2)"
      using st by blast
    show ?thesis
      using assms(1,2) put o1 o2 p True
      by (cases "print_byte_array a b (frame (pkt_data pkt), 0)")
        (auto simp: get_next_byte_array_def get_next_byte_array_2_def Let_def)
  qed
qed

theorem fetched_bytes_fit_witness:
  "get_next_byte_array (\<lambda>_. 7) [] [] (\<lambda>_. []) (\<lambda>_. (1, example_packet, ())) () \<noteq> None \<and>
   get_next_byte_array (\<lambda>_. 7) [] [] (\<lambda>_. []) (\<lambda>_. (1, example_packet\<lparr>caplen := 256, pkt_data := replicate 256 1\<rparr>, ())) () = None"
  using fetched_bytes_fit[of "\<lambda>_. (1, example_packet, ())" "()" 1 example_packet "()" "\<lambda>_. 7" "[]" "[]" "\<lambda>_. []"]
    fetched_bytes_fit[of "\<lambda>_. (1, example_packet\<lparr>caplen := 256, pkt_data := replicate 256 1\<rparr>, ())" "()" 1
      "example_packet\<lparr>caplen := 256, pkt_data := replicate 256 1\<rparr>" "()" "\<lambda>_. 7" "[]" "[]" "\<lambda>_. []"]
  by (simp add: example_packet_def del: not_None_eq not_Some_eq)

end
