(* ===== verification/Buffer_Messages.thy ===== *)
theory Buffer_Messages
  imports Packet_Reading
begin

text \<open>
  What the operations of the two buffers print while they work: a message for every byte that could not
  be added or taken out, and a new line after a packet or a match field that was read. Each operation
  is here once more with the text on the screen as a further argument and result; without the text it is
  the operation of the other theories, and where the abstract queue is neither full nor empty nothing but
  the new lines is printed. The same for the two functions that load a packet.
\<close>

section \<open>Loops that may print a message\<close>

definition drain_into_said ::
  "('s \<Rightarrow> (byte \<times> 's) option) \<Rightarrow> ('s \<Rightarrow> string) \<Rightarrow> int \<Rightarrow> nat \<Rightarrow> byte list \<times> 's \<times> string \<Rightarrow> (byte list \<times> 's \<times> string) option"
where
  "drain_into_said deq say off n = c_for n (\<lambda>k (pk, s, out). do {
     (b, s') \<leftarrow> deq s;
     pk' \<leftarrow> cput pk (off + int k) b;
     Some (pk', s', out @ say s) })"

text \<open>A source and a sink with a message, which is empty while there is something to take, or room.\<close>

locale quiet_source = byte_source deq contents inv
  for deq :: "'s \<Rightarrow> (byte \<times> 's) option" and contents :: "'s \<Rightarrow> byte list" and inv :: "'s \<Rightarrow> bool" +
  fixes say :: "'s \<Rightarrow> string"
  assumes quiet: "inv s \<Longrightarrow> contents s \<noteq> [] \<Longrightarrow> say s = []"
begin

lemma drain_into_quiet:
  assumes "inv s" "n \<le> length (contents s)" "off + n \<le> length pk"
  shows "\<exists>s'. drain_into_said deq say (int off) n (pk, s, out) = Some (blit pk off (take n (contents s)), s', out) \<and>
    drain_into deq (int off) n (pk, s) = Some (blit pk off (take n (contents s)), s') \<and>
    inv s' \<and> contents s' = drop n (contents s)"
  using assms(2,3)
proof (induction n)
  case 0
  then show ?case using assms(1) by (simp add: drain_into_said_def drain_into_def)
next
  case (Suc n)
  then obtain t where t: "drain_into_said deq say (int off) n (pk, s, out) = Some (blit pk off (take n (contents s)), t, out)"
    "drain_into deq (int off) n (pk, s) = Some (blit pk off (take n (contents s)), t)"
    "inv t" "contents t = drop n (contents s)" by auto
  obtain u where u: "drain_into deq (int off) (Suc n) (pk, s) = Some (blit pk off (take (Suc n) (contents s)), u)"
    "inv u" "contents u = drop (Suc n) (contents s)" using drain_into_ok[OF assms(1) Suc.prems] by auto
  have "contents t \<noteq> []" using t(4) Suc.prems(1) by auto
  then have "say t = []" using quiet[OF t(3)] by simp
  then have "drain_into_said deq say (int off) (Suc n) (pk, s, out) =
      map_option (\<lambda>(pk, u). (pk, u, out)) (drain_into deq (int off) (Suc n) (pk, s))"
    using t(1,2) by (simp add: drain_into_said_def drain_into_def split: Option.bind_split)
  then show ?case using u by simp
qed

end

locale quiet_sink = byte_sink enq contents room inv
  for enq :: "'s \<Rightarrow> byte \<Rightarrow> 's option" and contents :: "'s \<Rightarrow> byte list" and room :: "'s \<Rightarrow> nat" and inv :: "'s \<Rightarrow> bool" +
  fixes say :: "'s \<Rightarrow> string"
  assumes silent: "inv s \<Longrightarrow> 0 < room s \<Longrightarrow> say s = []"
begin

lemma feed_quiet:
  assumes "inv s" "n \<le> room s" "\<And>k. k < n \<Longrightarrow> g k = Some (v k)"
    and "c_for n (\<lambda>k out. do { b \<leftarrow> g k; Some (h k b out) }) out = Some out'"
  shows "\<exists>s'. c_for n (\<lambda>k (s, out). do { b \<leftarrow> g k; s' \<leftarrow> enq s b; Some (s', h k b (out @ say s)) }) (s, out) = Some (s', out') \<and>
    feed enq s (map v [0..<n]) = Some s' \<and> inv s' \<and> room s' = room s - n"
  using assms(2-4)
proof (induction n arbitrary: out')
  case 0
  then show ?case using assms(1) by simp
next
  case (Suc n)
  obtain o1 where o1: "c_for n (\<lambda>k out. do { b \<leftarrow> g k; Some (h k b out) }) out = Some o1" "out' = h n (v n) o1"
    using Suc.prems by (auto split: bind_splits)
  obtain t where t: "c_for n (\<lambda>k (s, out). do { b \<leftarrow> g k; s' \<leftarrow> enq s b; Some (s', h k b (out @ say s)) }) (s, out) = Some (t, o1)"
    "feed enq s (map v [0..<n]) = Some t" "inv t" "room t = room s - n"
    using Suc.IH[OF _ _ o1(1)] Suc.prems by auto
  then have r: "0 < room t" using Suc.prems(1) by simp
  obtain u where u: "enq t (v n) = Some u" "inv u" "room u = room t - 1" using enq_ok[OF t(3) r] by blast
  then show ?case using t o1(2) Suc.prems(2)[of n] silent[OF t(3) r] by (simp add: feed_append)
qed

end

section \<open>The packet buffer\<close>

abbreviation full_text :: string where "full_text \<equiv> ''Packet buffer is full. Can't add more bytes.''"
abbreviation empty_text :: string where "empty_text \<equiv> ''Packet buffer is empty. Can't read from it''"
abbreviation wait_text :: string where "wait_text \<equiv> ''Packet is still not pre-processed. Can't deque''"

definition add_message :: "packet_buffer \<Rightarrow> string" where
  "add_message pb = (if pb_full_flag pb = 1 then full_text else [])"

definition dqueue_message :: "packet_buffer \<Rightarrow> string" where
  "dqueue_message pb = (if pb_empty_flag pb = 1 then empty_text
     else if buffer_reading_head pb = packet_buffer_head pb then wait_text else [])"

definition dqueue_pre_message :: "packet_buffer \<Rightarrow> string" where
  "dqueue_pre_message pb = (if pb_empty_flag pb = 1 then empty_text else [])"

definition read_a_packet_said ::
  "packet_buffer \<Rightarrow> byte list \<Rightarrow> string \<Rightarrow> (byte list \<times> packet_buffer \<times> string) option" where
  "read_a_packet_said pb pk out =
     (if pb_empty_flag pb = 1 then do { pk \<leftarrow> cput pk 0 0; Some (pk, pb, out @ empty_text) }
      else if buffer_reading_head pb = packet_buffer_head pb then Some (pk, pb, out @ wait_text)
      else do {
        (packet_length, pb') \<leftarrow> dqueue_from_packet_buffer pb;
        let out = out @ dqueue_message pb;
        pk \<leftarrow> cput pk 0 packet_length;
        (pk, pb', out) \<leftarrow> drain_into_said dqueue_from_packet_buffer dqueue_message 1 (unat packet_length) (pk, pb', out);
        Some (pk, pb', out @ nl) })"

definition read_a_packet_for_preprocessing_said ::
  "packet_buffer \<Rightarrow> byte list \<Rightarrow> string \<Rightarrow> (byte list \<times> packet_buffer \<times> string) option" where
  "read_a_packet_for_preprocessing_said pb pk out =
     (if pb_empty_flag pb = 1 then do { pk \<leftarrow> cput pk 0 0; Some (pk, pb, out @ empty_text) }
      else do {
        (packet_length, pb') \<leftarrow> dqueue_from_packet_buffer_for_preprocessing pb;
        let out = out @ dqueue_pre_message pb;
        pk \<leftarrow> cput pk 0 packet_length;
        (pk, pb', out) \<leftarrow> drain_into_said dqueue_from_packet_buffer_for_preprocessing dqueue_pre_message 1
          (unat packet_length) (pk, pb', out);
        Some (pk, pb', out @ nl) })"

section \<open>The match-field buffer\<close>

definition mf_add_message :: "match_field_buffer \<Rightarrow> string" where
  "mf_add_message mfb = (if mfb_full_flag mfb = 1 then full_text else [])"

definition mf_dqueue_message :: "match_field_buffer \<Rightarrow> string" where
  "mf_dqueue_message mfb = (if mfb_empty_flag mfb = 1 then empty_text else [])"

definition read_a_match_field_said ::
  "match_field_buffer \<Rightarrow> byte list \<Rightarrow> string \<Rightarrow> (byte list \<times> match_field_buffer \<times> string) option" where
  "read_a_match_field_said mfb mf out =
     (if mfb_empty_flag mfb = 1 then Some (mf, mfb, out @ empty_text)
      else do {
        (mf, mfb, out) \<leftarrow> drain_into_said dqueue_from_match_field_buffer mf_dqueue_message 0 MTCH_FLD_LEN (mf, mfb, out);
        Some (mf, mfb, out @ nl) })"

section \<open>The pre-processor\<close>

definition prepare_match_field_said ::
  "(nat \<Rightarrow> byte) \<Rightarrow> (nat \<Rightarrow> byte) \<Rightarrow> pre_processor \<Rightarrow> string \<Rightarrow> (pre_processor \<times> string) option" where
  "prepare_match_field_said heap_mf heap_pkt pp out = do {
     let match_field = map heap_mf [0..<MTCH_FLD_LEN];
     let pkt = map heap_pkt [0..<MAX_PACKET_SIZE];
     (pkt, pb, out) \<leftarrow> read_a_packet_for_preprocessing_said (pp_pb pp) pkt out;
     st \<leftarrow> cut_ethernet pkt match_field;
     st \<leftarrow> cut_tags pkt st;
     match_field \<leftarrow> cut_ip_tcp pkt st;
     (mfb, out) \<leftarrow> c_for 45 (\<lambda>i (mfb, out). do {
       b \<leftarrow> cget match_field (int i);
       mfb' \<leftarrow> add_a_byte_to_the_match_field_buffer mfb b;
       Some (mfb', out @ mf_add_message mfb) }) (pp_mf pp, out);
     Some (pp\<lparr>pp_pb := pb, pp_mf := mfb\<rparr>, out) }"

definition return_match_field_and_packet_said ::
  "pre_processor \<Rightarrow> byte list \<Rightarrow> byte list \<Rightarrow> string \<Rightarrow> (byte list \<times> byte list \<times> pre_processor \<times> string) option" where
  "return_match_field_and_packet_said pp return_mtch_fld return_packet out = do {
     (return_mtch_fld, mf, out) \<leftarrow> read_a_match_field_said (pp_mf pp) return_mtch_fld out;
     (return_packet, pb, out) \<leftarrow> read_a_packet_said (pp_pb pp) return_packet out;
     Some (return_mtch_fld, return_packet, pp\<lparr>pp_pb := pb, pp_mf := mf\<rparr>, out) }"

section \<open>The text decides nothing\<close>

text \<open>Without the text these are the operations of the other theories.\<close>

abbreviation untold2 :: "'a \<times> 'b \<times> string \<Rightarrow> 'a \<times> 'b" where
  "untold2 \<equiv> \<lambda>(x, s, out). (x, s)"

lemma drain_into_forget:
  "drain_into deq off n (pk, s) = map_option untold2 (drain_into_said deq say off n (pk, s, out))"
proof (induction n)
  case (Suc n)
  then show ?case
    by (cases "drain_into_said deq say off n (pk, s, out)")
      (auto simp: drain_into_def drain_into_said_def map_option_bind comp_def split_def)
qed (simp add: drain_into_def drain_into_said_def)

lemma read_a_packet_forget: "map_option untold2 (read_a_packet_said pb pk out) = read_a_packet pb pk"
  by (simp add: read_a_packet_said_def read_a_packet_def map_conv_bind_option comp_def split_def
      drain_into_forget[where out = "out @ dqueue_message pb" and say = dqueue_message])

lemma read_a_packet_for_preprocessing_forget:
  "map_option untold2 (read_a_packet_for_preprocessing_said pb pk out) = read_a_packet_for_preprocessing pb pk"
  by (simp add: read_a_packet_for_preprocessing_said_def read_a_packet_for_preprocessing_def map_conv_bind_option comp_def split_def
      drain_into_forget[where out = "out @ dqueue_pre_message pb" and say = dqueue_pre_message])

lemma read_a_match_field_forget: "map_option untold2 (read_a_match_field_said m mf out) = read_a_match_field m mf"
  by (simp add: read_a_match_field_said_def read_a_match_field_def map_conv_bind_option comp_def split_def
      drain_into_forget[where out = out and say = mf_dqueue_message])

lemma untold_bind:
  assumes "map_option untold2 m = p" "\<And>x s out. map_option g (K (x, s, out)) = k (x, s)"
  shows "map_option g (m \<bind> K) = p \<bind> k"
  using assms by (cases m) auto

lemma prepare_match_field_forget [forget]:
  "map_option fst (prepare_match_field_said h1 h2 pp out) = prepare_match_field h1 h2 pp"
proof -
  have add: "map_option fst (c_for 45 (\<lambda>i (mfb, out). do {
       b \<leftarrow> cget f (int i);
       mfb' \<leftarrow> add_a_byte_to_the_match_field_buffer mfb b;
       Some (mfb', out @ mf_add_message mfb) }) (m, out)) =
    c_for 45 (\<lambda>i mfb. do { b \<leftarrow> cget f (int i); add_a_byte_to_the_match_field_buffer mfb b }) m" for f m out
    by (rule c_for_forget) (simp add: map_option_bind comp_def)
  show ?thesis
    unfolding prepare_match_field_said_def prepare_match_field_def Let_def
    apply (rule untold_bind[OF read_a_packet_for_preprocessing_forget], simp only: split_conv)
    apply (rule forget_plain)+
    apply (rule forget_bind[OF add], simp)
    done
qed

lemma return_match_field_and_packet_forget:
  "map_option (\<lambda>(f, p, pp, out). (f, p, pp)) (return_match_field_and_packet_said pp mf pk out) =
    return_match_field_and_packet pp mf pk"
  unfolding return_match_field_and_packet_said_def return_match_field_and_packet_def
  apply (rule untold_bind[OF read_a_match_field_forget], simp only: split_conv)
  apply (rule untold_bind[OF read_a_packet_forget], simp)
  done

section \<open>Nothing but new lines\<close>

interpretation said_pre: quiet_source dqueue_from_packet_buffer_for_preprocessing pb_pending pb_ok dqueue_pre_message
  by unfold_locales (auto simp: dqueue_pre_message_def pb_pending_def pb_stored_def pb_count_def)

interpretation said_ready: quiet_source dqueue_from_packet_buffer pb_ready
  "\<lambda>s. pb_ok s \<and> pb_pending s = X \<and> R \<le> pb_room s" dqueue_message for X R
  by unfold_locales (auto simp: dqueue_message_def pb_ready_def pb_stored_def pb_count_def pb_done_def)

interpretation said_add: quiet_sink add_a_byte_to_the_packet_buffer pb_pending pb_room pb_ok add_message
  by unfold_locales (simp add: add_message_def pb_ok_def)

interpretation said_mf: quiet_source dqueue_from_match_field_buffer mfb_contents mfb_ok mf_dqueue_message
  by unfold_locales (auto simp: mf_dqueue_message_def mfb_ok_def mfb_contents_def slice_def)

interpretation said_mf_add: quiet_sink add_a_byte_to_the_match_field_buffer mfb_contents mfb_room mfb_ok mf_add_message
  by unfold_locales (simp add: mf_add_message_def mfb_ok_def)

lemma unat_frame: "frame p = b # bs \<Longrightarrow> length p < 256 \<Longrightarrow> unat b = length p \<and> bs = p"
  by (auto simp: frame_def unat_of_nat)

lemma read_pre_said:
  assumes "pb_ok pb" "pb_pending pb = frame p @ rest" "length p < length pk" "length p < 256"
    and "read_a_packet_for_preprocessing pb pk = Some (r, pb')"
  shows "read_a_packet_for_preprocessing_said pb pk out = Some (r, pb', out @ nl)"
proof -
  obtain b where b: "frame p = b # p" "unat b = length p" using assms(4) by (simp add: frame_def unat_of_nat)
  obtain t where t: "dqueue_from_packet_buffer_for_preprocessing pb = Some (b, t)" "pb_ok t" "pb_pending t = p @ rest"
    using pending.deq_ok[OF assms(1)] assms(2) b(1) by auto
  have e: "pb_empty_flag pb \<noteq> 1" "dqueue_pre_message pb = []"
    using said_pre.quiet[OF assms(1)] assms(2) b(1) by (auto simp: dqueue_pre_message_def split: if_splits)
  obtain pk1 where pk1: "cput pk 0 b = Some pk1" "length pk1 = length pk"
    using cput_int[of 0 pk b] assms(3) by (cases pk) auto
  obtain u where "drain_into_said dqueue_from_packet_buffer_for_preprocessing dqueue_pre_message 1 (length p) (pk1, t, out) =
      Some (blit pk1 1 p, u, out)"
    "drain_into dqueue_from_packet_buffer_for_preprocessing 1 (length p) (pk1, t) = Some (blit pk1 1 p, u)"
    using said_pre.drain_into_quiet[OF t(2), of "length p" 1 pk1 out] t(3) pk1(2) assms(3) by auto
  then show ?thesis
    using assms(5) e t(1) pk1(1) b(2)
    by (simp add: read_a_packet_for_preprocessing_said_def read_a_packet_for_preprocessing_def)
qed

lemma read_a_packet_silent:
  assumes "pb_ok pb" "pb_ready pb = frame p @ rest" "length p < length pk" "length p < 256"
    and "read_a_packet pb pk = Some (r, pb')"
  shows "read_a_packet_said pb pk out = Some (r, pb', out @ nl)"
proof -
  let ?inv = "\<lambda>s. pb_ok s \<and> pb_pending s = pb_pending pb \<and> pb_room pb \<le> pb_room s"
  obtain b where b: "frame p = b # p" "unat b = length p" using assms(4) by (simp add: frame_def unat_of_nat)
  have i: "?inv pb" using assms(1) by simp
  obtain t where t: "dqueue_from_packet_buffer pb = Some (b, t)" "?inv t" "pb_ready t = p @ rest"
    using ready.deq_ok[OF i] assms(2) b(1) by auto
  have e: "pb_empty_flag pb \<noteq> 1" "buffer_reading_head pb \<noteq> packet_buffer_head pb" "dqueue_message pb = []"
    using said_ready.quiet[OF i] assms(2) b(1) by (auto simp: dqueue_message_def split: if_splits)
  obtain pk1 where pk1: "cput pk 0 b = Some pk1" "length pk1 = length pk"
    using cput_int[of 0 pk b] assms(3) by (cases pk) auto
  obtain u where "drain_into_said dqueue_from_packet_buffer dqueue_message 1 (length p) (pk1, t, out) = Some (blit pk1 1 p, u, out)"
    "drain_into dqueue_from_packet_buffer 1 (length p) (pk1, t) = Some (blit pk1 1 p, u)"
    using said_ready.drain_into_quiet[OF t(2), of "length p" 1 pk1 out] t(3) pk1(2) assms(3) by auto
  then show ?thesis
    using assms(5) e t(1) pk1(1) b(2) by (simp add: read_a_packet_said_def read_a_packet_def)
qed

lemma read_a_match_field_silent:
  assumes "mfb_ok m" "mfb_contents m = f @ rest" "length f = 45" "45 \<le> length mf"
    and "read_a_match_field m mf = Some (r, m')"
  shows "read_a_match_field_said m mf out = Some (r, m', out @ nl)"
proof -
  have "mfb_contents m \<noteq> []" using assms(2,3) by auto
  then have e: "mfb_empty_flag m \<noteq> 1"
    using said_mf.quiet[OF assms(1)] by (auto simp: mf_dqueue_message_def split: if_splits)
  obtain u where "drain_into_said dqueue_from_match_field_buffer mf_dqueue_message 0 45 (mf, m, out) =
      Some (blit mf 0 (take 45 (mfb_contents m)), u, out)"
    "drain_into dqueue_from_match_field_buffer 0 45 (mf, m) = Some (blit mf 0 (take 45 (mfb_contents m)), u)"
    using said_mf.drain_into_quiet[OF assms(1), of 45 0 mf out] assms(2-4) by auto
  then show ?thesis
    using assms(5) e by (simp add: read_a_match_field_said_def read_a_match_field_def MTCH_FLD_LEN_def)
qed

lemma prepare_silent:
  assumes "pp_abs pp (p # ps) qs" "45 \<le> mfb_room (pp_mf pp)" "prepare_match_field h1 h2 pp = Some pp'"
  shows "prepare_match_field_said h1 h2 pp out = Some (pp', out @ nl)"
proof -
  have a: "pb_ok (pp_pb pp)" "pb_pending (pp_pb pp) = frame p @ concat (map frame ps)" "length p < 100" "mfb_ok (pp_mf pp)"
    using assms(1) by (auto simp: pp_abs_def)
  obtain pkt pb st1 st2 f where r: "read_a_packet_for_preprocessing (pp_pb pp) (map h2 [0..<100]) = Some (pkt, pb)"
    "cut_ethernet pkt (map h1 [0..<45]) = Some st1" "cut_tags pkt st1 = Some st2" "cut_ip_tcp pkt st2 = Some f"
    "(do { mfb \<leftarrow> c_for 45 (\<lambda>i mfb. do {
       b \<leftarrow> cget f (int i); add_a_byte_to_the_match_field_buffer mfb b }) (pp_mf pp);
     Some (pp\<lparr>pp_pb := pb, pp_mf := mfb\<rparr>) }) = Some pp'"
    using assms(3) by (auto simp: prepare_match_field_def MTCH_FLD_LEN_def MAX_PACKET_SIZE_def split: bind_splits)
  have said: "read_a_packet_for_preprocessing_said (pp_pb pp) (map h2 [0..<100]) out = Some (pkt, pb, out @ nl)"
    by (rule read_pre_said[OF a(1,2) _ _ r(1)]) (use a(3) in simp_all)
  have "length pkt = 100"
    using read_for_preprocessing_frame[OF a(1,2), of "map h2 [0..<100]"] a(3) r(1) by (auto simp: length_blit frame_def)
  then have "length f = 45" using cut_plan[of pkt "map h1 [0..<45]"] r(2-4) by auto
  then have g: "cget f (int k) = Some (f ! k)" if "k < 45" for k using that by (simp add: cget_int)
  have t: "c_for 45 (\<lambda>k out. do { b \<leftarrow> cget f (int k); Some out }) out = Some out" for out :: string
    using c_for_rule[of "\<lambda>k x. x = out" out 45] g by fastforce
  obtain m where m: "c_for 45 (\<lambda>i (mfb, out). do { b \<leftarrow> cget f (int i); mfb' \<leftarrow> add_a_byte_to_the_match_field_buffer mfb b;
      Some (mfb', out @ mf_add_message mfb) }) (pp_mf pp, out @ nl) = Some (m, out @ nl)"
    "feed add_a_byte_to_the_match_field_buffer (pp_mf pp) (map ((!) f) [0..<45]) = Some m"
    using said_mf_add.feed_quiet[OF a(4) assms(2) g t] by auto
  have "map ((!) f) [0..<45] = f" using \<open>length f = 45\<close> by (metis map_nth)
  then have "c_for 45 (\<lambda>i mfb. do { b \<leftarrow> cget f (int i); add_a_byte_to_the_match_field_buffer mfb b }) (pp_mf pp) = Some m"
    using m(2) c_for_add_mfb[of 45 f "pp_mf pp"] \<open>length f = 45\<close> by simp
  then show ?thesis
    using r said m(1) by (simp add: prepare_match_field_said_def MTCH_FLD_LEN_def MAX_PACKET_SIZE_def)
qed

lemma return_silent:
  assumes "pp_abs pp ps ((p, f) # qs)" "45 \<le> length mf" "length p < length pk"
    and "return_match_field_and_packet pp mf pk = Some (r, q, pp')"
  shows "return_match_field_and_packet_said pp mf pk out = Some (r, q, pp', out @ nl @ nl)"
proof -
  have a: "pb_ok (pp_pb pp)" "pb_ready (pp_pb pp) = frame p @ concat (map (frame \<circ> fst) qs)" "length p < 100"
    "mfb_ok (pp_mf pp)" "mfb_contents (pp_mf pp) = f @ concat (map snd qs)" "length f = 45"
    using assms(1) by (auto simp: pp_abs_def)
  obtain m pb where r: "read_a_match_field (pp_mf pp) mf = Some (r, m)" "read_a_packet (pp_pb pp) pk = Some (q, pb)"
    "pp' = pp\<lparr>pp_pb := pb, pp_mf := m\<rparr>"
    using assms(4) by (auto simp: return_match_field_and_packet_def split: bind_splits)
  have l: "length p < 256" using a(3) by simp
  show ?thesis
    using read_a_match_field_silent[OF a(4-6) assms(2) r(1)] read_a_packet_silent[OF a(1,2) assms(3) l r(2)] r(3)
    by (simp add: return_match_field_and_packet_said_def)
qed

section \<open>Loading\<close>

text \<open>\<open>%.2x\<close> of an \<open>unsigned int\<close>.\<close>

fun hex :: "nat \<Rightarrow> string" where
  "hex n = (if n < 16 then [hex_digit n] else hex (n div 16) @ [hex_digit (n mod 16)])"

declare hex.simps [simp del]

definition hex_word :: "32 word \<Rightarrow> string" where
  "hex_word w = (if unat w < 16 then CHR ''0'' # hex (unat w) else hex (unat w))"

text \<open>The steps of the two functions that load a packet, with the text \<open>out\<close> that is on the screen.\<close>

definition load_bytes_printed ::
  "packet \<Rightarrow> packet_buffer \<Rightarrow> byte list \<Rightarrow> byte list \<Rightarrow> string \<Rightarrow> string \<Rightarrow> (packet_buffer \<times> string) option" where
  "load_bytes_printed pkt pb port_no meta lengths out = do {
     pb' \<leftarrow> add_a_byte_to_the_packet_buffer pb (ucast (len pkt + 12));
     let out = out @ add_message pb @ lengths;
     (pb', out) \<leftarrow> c_for 4 (\<lambda>i (pb, out). do {
       b \<leftarrow> cget port_no (int i);
       pb' \<leftarrow> add_a_byte_to_the_packet_buffer pb b;
       Some (pb', out @ add_message pb) }) (pb', out);
     (pb', out) \<leftarrow> c_for 8 (\<lambda>i (pb, out). do {
       b \<leftarrow> cget meta (int i);
       pb' \<leftarrow> add_a_byte_to_the_packet_buffer pb b;
       Some (pb', out @ add_message pb) }) (pb', out);
     (pb', out) \<leftarrow> c_for (unat (caplen pkt + 1) - 1) (\<lambda>k (pb, out). let i = Suc k in do {
       b \<leftarrow> cget (pkt_data pkt) (int i - 1);
       pb' \<leftarrow> add_a_byte_to_the_packet_buffer pb b;
       let out = (out @ add_message pb) @ hex2 b @ '' '';
       Some (pb', if i mod 16 = 0 then out @ nl else out) }) (pb', out);
     Some (pb', out @ nl @ nl) }"

definition load_a_packet_printed ::
  "(packet \<Rightarrow> string) \<Rightarrow> packet \<Rightarrow> packet_buffer \<Rightarrow> byte list \<Rightarrow> byte list \<Rightarrow> (packet_buffer \<times> string) option" where
  "load_a_packet_printed stamp pkt pb port_no meta =
     load_bytes_printed pkt pb port_no meta (''Length : '' @ hex_word (len pkt) @ '' '' @ nl @
       '' Total Length '' @ hex_word (len pkt + 12) @ nl) (stamp pkt)"

fun load_next_packet_printed ::
  "nat \<Rightarrow> (packet \<Rightarrow> string) \<Rightarrow> ('fp \<Rightarrow> int \<times> packet \<times> 'fp) \<Rightarrow> 'fp \<Rightarrow> packet_buffer \<Rightarrow> byte list \<Rightarrow> byte list \<Rightarrow>
   (packet_buffer \<times> 'fp \<times> string) option" where
  "load_next_packet_printed 0 stamp next fp pb port_no meta = None"
| "load_next_packet_printed (Suc fuel) stamp next fp pb port_no meta =
     (let (res, new_packet, fp') = next fp in
      if res \<ge> 0 then
        (if res \<noteq> 0 then do {
           (pb, out) \<leftarrow> load_bytes_printed new_packet pb port_no meta [] (stamp new_packet);
           Some (pb, fp', out) }
         else load_next_packet_printed fuel stamp next fp' pb port_no meta)
      else Some (pb, fp', []))"

text \<open>Again the text decides nothing: without it these are the functions of \<open>Packet_Capture\<close>.\<close>

lemma load_bytes_forget [forget]:
  "map_option fst (load_bytes_printed pkt pb port_no meta lengths out) =
    load_a_packet_to_the_packet_buffer pkt pb port_no meta"
proof -
  have last: "map_option fst (c_for n (\<lambda>k (pb, out). let i = Suc k in do {
       b \<leftarrow> cget (pkt_data pkt) (int i - 1);
       pb' \<leftarrow> add_a_byte_to_the_packet_buffer pb b;
       let out = (out @ add_message pb) @ hex2 b @ '' '';
       Some (pb', if i mod 16 = 0 then out @ nl else out) }) (pb, out)) =
     c_for n (\<lambda>i pb. do { b \<leftarrow> cget (pkt_data pkt) (int i); add_a_byte_to_the_packet_buffer pb b }) pb" for n pb out
    by (rule c_for_forget) (simp add: Let_def map_option_bind comp_def)
  have add: "map_option fst (c_for n (\<lambda>i (pb, out). do {
       b \<leftarrow> cget xs (int i);
       pb' \<leftarrow> add_a_byte_to_the_packet_buffer pb b;
       Some (pb', out @ add_message pb) }) (pb, out)) =
     c_for n (\<lambda>i pb. do { b \<leftarrow> cget xs (int i); add_a_byte_to_the_packet_buffer pb b }) pb" for n xs pb out
    by (rule c_for_forget) (simp add: map_option_bind comp_def)
  show ?thesis
    unfolding load_bytes_printed_def load_a_packet_to_the_packet_buffer_def Let_def
    apply (rule forget_plain)
    apply (rule forget_bind[OF add], simp only: split_conv)+
    apply (rule trans[OF forget_bind[OF last[unfolded Let_def]] Option.bind_runit])
    apply simp
    done
qed

lemma load_a_packet_forget [forget]:
  "map_option fst (load_a_packet_printed stamp pkt pb port_no meta) = load_a_packet_to_the_packet_buffer pkt pb port_no meta"
  by (simp add: load_a_packet_printed_def load_bytes_forget)

lemma load_next_packet_forget:
  "map_option (\<lambda>(pb, fp, out). (pb, fp)) (load_next_packet_printed fuel stamp next fp pb port_no meta) =
    load_next_packet_to_the_buffer fuel next fp pb port_no meta"
proof (induction fuel arbitrary: fp)
  case (Suc fuel)
  obtain res pkt fq where n: "next fp = (res, pkt, fq)" by (cases "next fp")
  note plain = load_bytes_forget[of pkt pb port_no meta "[]" "stamp pkt", symmetric]
  show ?case
    using Suc.IH[of fq] n plain by (cases "load_bytes_printed pkt pb port_no meta [] (stamp pkt)") auto
qed simp

text \<open>Sixteen bytes to a line, however the code counts them.\<close>

lemma shown_line_count: "snd (fold print_in_line bs (out, 0)) = int (length bs mod 16)"
proof (induction bs rule: rev_induct)
  case (snoc b bs)
  then show ?case by (auto simp: print_in_line_def split_def LINE_LEN_def Let_def mod_Suc)
qed simp

lemma shown_snoc:
  "shown out (bs @ [b]) = shown out bs @ hex2 b @ '' '' @ (if Suc (length bs) mod 16 = 0 then nl else [])"
proof -
  have "int (length bs mod 16) + 1 = 16 \<longleftrightarrow> Suc (length bs) mod 16 = 0" by (auto simp: mod_Suc)
  then show ?thesis using shown_line_count[of bs out]
    by (simp add: shown_def print_in_line_def split_def LINE_LEN_def Let_def)
qed

lemma packet_lines:
  assumes "n \<le> length data"
  shows "c_for n (\<lambda>k out. do { b \<leftarrow> cget data (int k);
     Some (if Suc k mod 16 = 0 then (out @ hex2 b @ '' '') @ nl else out @ hex2 b @ '' '') }) out = Some (shown out (take n data))"
  using assms
proof (induction n)
  case (Suc n)
  then have "take (Suc n) data = take n data @ [data ! n]" "length (take n data) = n" by (simp_all add: take_Suc_conv_app_nth)
  then show ?case using Suc by (simp add: cget_int shown_snoc)
qed (simp add: shown_def)

lemma load_bytes_silent:
  assumes "pb_ok pb" "length ip = 4" "length md = 8" "length (pkt_data pkt) = unat (caplen pkt)"
    and "unat (caplen pkt) + 13 \<le> pb_room pb" "load_a_packet_to_the_packet_buffer pkt pb ip md = Some pb'"
  shows "load_bytes_printed pkt pb ip md lengths out = Some (pb', shown (out @ lengths) (pkt_data pkt) @ nl @ nl)"
proof -
  have c: "caplen pkt \<noteq> - 1" using assms(5) by (auto simp: pb_room_def unsigned_minus_1_eq_mask mask_eq_exp_minus_1)
  have m: "add_message pb = []" using said_add.silent[OF assms(1)] assms(5) by simp
  have plain: "c_for n (\<lambda>k out. do { b \<leftarrow> cget xs (int k); Some out }) out = Some out"
    if "n \<le> length xs" for n and xs :: "byte list" and out :: string
    using c_for_rule[of "\<lambda>k x. x = out" out n "\<lambda>k out. do { b \<leftarrow> cget xs (int k); Some out }"] that by (auto simp: cget_int)
  obtain t0 where t0: "add_a_byte_to_the_packet_buffer pb (ucast (len pkt + 12)) = Some t0" "pb_ok t0"
    "pb_room t0 = pb_room pb - 1" using pending.enq_ok[OF assms(1)] assms(5) by auto
  then have r0: "4 \<le> pb_room t0" using assms(5) by linarith
  obtain t1 where t1: "c_for 4 (\<lambda>i (pb, out). do { b \<leftarrow> cget ip (int i); pb' \<leftarrow> add_a_byte_to_the_packet_buffer pb b;
      Some (pb', out @ add_message pb) }) (t0, out @ lengths) = Some (t1, out @ lengths)" "pb_ok t1" "pb_room t1 = pb_room t0 - 4"
    using said_add.feed_quiet[of t0 4 "\<lambda>k. cget ip (int k)" "(!) ip" "\<lambda>k b out. out" "out @ lengths" "out @ lengths"]
      plain[of 4 ip] t0(2) r0 assms(2) by (auto simp: cget_int)
  then have r1: "8 \<le> pb_room t1" using t0(3) assms(5) by linarith
  obtain t2 where t2: "c_for 8 (\<lambda>i (pb, out). do { b \<leftarrow> cget md (int i); pb' \<leftarrow> add_a_byte_to_the_packet_buffer pb b;
      Some (pb', out @ add_message pb) }) (t1, out @ lengths) = Some (t2, out @ lengths)" "pb_ok t2" "pb_room t2 = pb_room t1 - 8"
    using said_add.feed_quiet[of t1 8 "\<lambda>k. cget md (int k)" "(!) md" "\<lambda>k b out. out" "out @ lengths" "out @ lengths"]
      plain[of 8 md] t1(2) r1 assms(3) by (auto simp: cget_int)
  then have r2: "unat (caplen pkt) \<le> pb_room t2" using t0(3) t1(3) assms(5) by linarith
  obtain t3 where t3: "c_for (unat (caplen pkt)) (\<lambda>k (pb, out). do { b \<leftarrow> cget (pkt_data pkt) (int k);
      pb' \<leftarrow> add_a_byte_to_the_packet_buffer pb b;
      Some (pb', if Suc k mod 16 = 0 then ((out @ add_message pb) @ hex2 b @ '' '') @ nl else (out @ add_message pb) @ hex2 b @ '' '') })
      (t2, out @ lengths) = Some (t3, shown (out @ lengths) (pkt_data pkt))"
    using said_add.feed_quiet[of t2 "unat (caplen pkt)" "\<lambda>k. cget (pkt_data pkt) (int k)" "(!) (pkt_data pkt)"
        "\<lambda>k b out. if Suc k mod 16 = 0 then (out @ hex2 b @ '' '') @ nl else out @ hex2 b @ '' ''" "out @ lengths"
        "shown (out @ lengths) (pkt_data pkt)"]
      packet_lines[of "unat (caplen pkt)" "pkt_data pkt" "out @ lengths"] t2(2) r2 assms(4) by (auto simp: cget_int)
  have "load_bytes_printed pkt pb ip md lengths out = Some (t3, shown (out @ lengths) (pkt_data pkt) @ nl @ nl)"
    using t0(1) t1(1) t2(1) t3 m c
    by (simp add: load_bytes_printed_def unat_plus_1_minus_1 Let_def del: append_assoc)
  then show ?thesis using load_bytes_forget[of pkt pb ip md lengths out] assms(6) by simp
qed

text \<open>The capture answers 0, a timeout, fewer than \<open>fuel\<close> times and then gives a packet.\<close>

primrec delivers :: "nat \<Rightarrow> ('fp \<Rightarrow> int \<times> packet \<times> 'fp) \<Rightarrow> 'fp \<Rightarrow> packet \<Rightarrow> 'fp \<Rightarrow> bool" where
  "delivers 0 next fp pkt fp' = False"
| "delivers (Suc fuel) next fp pkt fp' = (case next fp of (res, q, fq) \<Rightarrow>
     if res = 0 then delivers fuel next fq pkt fp' else 0 < res \<and> q = pkt \<and> fq = fp')"

lemma load_next_delivered:
  "delivers fuel next fp pkt fp' \<Longrightarrow> load_next_packet_printed fuel stamp next fp pb ip md = do {
     (pb, out) \<leftarrow> load_bytes_printed pkt pb ip md [] (stamp pkt);
     Some (pb, fp', out) }"
  by (induction fuel arbitrary: fp) (auto split: if_splits)

end
