(* ===== verification/Packet_Test.thy ===== *)
theory Packet_Test
  imports Buffer_Messages Pipeline
begin

text \<open>
  \<^verbatim>\<open>packet/test_temp.c\<close>: the program that takes three packets from the capture through the pre-processor. It loads
  them, prepares the match field of the first, takes match field and packet off again, prints both, and
  prepares the next match field, printing the buffers in between. Its whole output is a function of the
  packets.
\<close>

section \<open>The program\<close>

definition load_into_preprocessor ::
  "nat \<Rightarrow> (packet \<Rightarrow> string) \<Rightarrow> ('fp \<Rightarrow> int \<times> packet \<times> 'fp) \<Rightarrow> 'fp \<Rightarrow> pre_processor \<Rightarrow> byte list \<Rightarrow> byte list \<Rightarrow>
   string \<Rightarrow> (pre_processor \<times> 'fp \<times> string) option" where
  "load_into_preprocessor fuel stamp next fp pp port_no meta out = do {
     (pb, fp, t) \<leftarrow> load_next_packet_printed fuel stamp next fp (pp_pb pp) port_no meta;
     Some (pp\<lparr>pp_pb := pb\<rparr>, fp, out @ t) }"

text \<open>
  \<open>heap j\<close> is what the \<open>j\<close>-th array from \<open>malloc\<close> holds. The numbers of the third port and its metadata are cut to
  bytes: 300 is 44, 400 is 144, and so on.
\<close>

definition packet_main ::
  "nat \<Rightarrow> (string \<Rightarrow> 'fp option) \<Rightarrow> (packet \<Rightarrow> string) \<Rightarrow> ('fp \<Rightarrow> int \<times> packet \<times> 'fp) \<Rightarrow> (nat \<Rightarrow> nat \<Rightarrow> byte) \<Rightarrow>
   pre_processor \<Rightarrow> string option" where
  "packet_main fuel pcap_open_offline stamp next heap pre_proc = do {
     let (fp, out) = openfile pcap_open_offline ''../dump/dump1.pcap'';
     let pre_proc = initialize_preprocessor pre_proc;
     fp \<leftarrow> fp;
     (pre_proc, fp, out) \<leftarrow> load_into_preprocessor fuel stamp next fp pre_proc [1, 2, 3, 4] [1, 2, 3, 4, 5, 6, 7, 8] out;
     (pre_proc, fp, out) \<leftarrow> load_into_preprocessor fuel stamp next fp pre_proc
       [10, 20, 30, 40] [10, 20, 30, 40, 50, 60, 70, 80] out;
     (pre_proc, fp, out) \<leftarrow> load_into_preprocessor fuel stamp next fp pre_proc
       [100, 200, 300, 400] [100, 200, 300, 400, 500, 600, 700, 800] out;
     t \<leftarrow> print_packet_buffer pre_proc;
     let out = out @ t;
     t \<leftarrow> print_match_field_buffer pre_proc;
     let out = out @ t;
     (pre_proc, out) \<leftarrow> prepare_match_field_said (heap 0) (heap 1) pre_proc out;
     t \<leftarrow> print_match_field_buffer pre_proc;
     let out = out @ t;
     let pkt = map (heap 2) [0..<MAX_PACKET_SIZE];
     let mtch_fld = map (heap 3) [0..<MTCH_FLD_LEN];
     (mtch_fld, pkt, pre_proc, out) \<leftarrow> return_match_field_and_packet_said pre_proc mtch_fld pkt out;
     t \<leftarrow> print_packet pkt;
     let out = out @ t;
     t \<leftarrow> print_match_field mtch_fld;
     let out = out @ t;
     t \<leftarrow> print_packet_buffer pre_proc;
     let out = out @ t;
     t \<leftarrow> print_match_field_buffer pre_proc;
     let out = out @ t;
     (pre_proc, out) \<leftarrow> prepare_match_field_said (heap 4) (heap 5) pre_proc out;
     t \<leftarrow> print_packet_buffer pre_proc;
     let out = out @ t;
     t \<leftarrow> print_match_field_buffer pre_proc;
     Some (out @ t) }"

section \<open>The texts, from the abstract queues\<close>

definition packets_text :: "byte list list \<Rightarrow> string" where
  "packets_text ps = shown (nl @ ''-------------Packet Buffer-------------------'' @ nl) (concat (map frame ps))"

definition match_fields_text :: "byte list list \<Rightarrow> string" where
  "match_fields_text fs = (let out = nl @ ''-------------Match Field Buffer-------------------'' @ nl in
     if fs = [] then out @ ''Match Field buffer is empty'' else shown out (concat fs))"

definition packet_text :: "byte list \<Rightarrow> string" where
  "packet_text p = shown (nl @ ''-------------Packet Recieved-------------------'' @ nl @ ''length - '' @
     hex2 (of_nat (length p)) @ '' '' @ nl) p"

definition match_field_text :: "byte list \<Rightarrow> string" where
  "match_field_text f = shown (nl @ ''-------------Match Field Recieved-------------------'' @ nl) f"

definition load_text :: "(packet \<Rightarrow> string) \<Rightarrow> packet \<Rightarrow> string" where
  "load_text stamp k = shown (stamp k) (pkt_data k) @ nl @ nl"

lemma print_packets:
  assumes "pp_abs pp ps qs" "ps \<noteq> [] \<or> qs \<noteq> []"
  shows "print_packet_buffer pp = Some (packets_text (map fst qs @ ps))"
proof -
  have ok: "pb_ok (pp_pb pp)" and s: "pb_stored (pp_pb pp) = concat (map frame (map fst qs @ ps))"
    using assms(1) pb_stored_split[of "pp_pb pp"] by (simp_all add: pp_abs_def comp_def)
  have "pb_stored (pp_pb pp) \<noteq> []" unfolding s using assms(2) by (cases qs; cases ps) (auto simp: frame_def)
  then have "pb_empty_flag (pp_pb pp) \<noteq> 1" by (auto simp: pb_stored_def pb_count_def)
  then show ?thesis using print_buffer_shows[OF ok] s by (simp add: print_packet_buffer_def packets_text_def)
qed

lemma print_match_fields:
  assumes "pp_abs pp ps qs"
  shows "print_match_field_buffer pp = Some (match_fields_text (map snd qs))"
proof -
  let ?m = "pp_mf pp"
  have m: "mfb_ok ?m" "mfb_contents ?m = concat (map snd qs)" "\<forall>q \<in> set qs. length (snd q) = 45"
    using assms by (auto simp: pp_abs_def)
  define h t where "h = nat (match_field_buffer_head ?m)" and "t = nat (match_field_buffer_tail ?m)"
  then have ht: "match_field_buffer_head ?m = int h" "match_field_buffer_tail ?m = int t" "h \<le> t"
    "t \<le> length (match_field_buffer_array ?m)" "mfb_empty_flag ?m = 1 \<longleftrightarrow> h = t"
    "mfb_contents ?m = slice h (t - h) (match_field_buffer_array ?m)"
    using m(1) by (auto simp: mfb_ok_def mfb_contents_def)
  have "qs = [] \<longleftrightarrow> mfb_contents ?m = []" using m(2,3) by (cases qs) auto
  moreover have "length (mfb_contents ?m) = t - h" using ht(3,4,6) by (simp add: length_slice)
  ultimately have "qs = [] \<longleftrightarrow> h = t" using ht(3) by auto
  then show ?thesis
    using ht m(2) print_range_ok[OF ht(3,4)]
    by (auto simp: print_match_field_buffer_def print_mtch_field_buffer_def match_fields_text_def shown_def split_def Let_def)
qed

lemma print_received:
  assumes "length p < length pk" "length p < 256"
  shows "print_packet (blit pk 0 (frame p)) = Some (packet_text p)"
proof -
  let ?a = "blit pk 0 (frame p)" and ?b = "of_nat (length p) :: byte"
  have l: "length ?a = length pk" using assms(1) by (simp add: length_blit frame_def)
  have "?a ! 0 = ?b" using assms(1) by (subst nth_blit) (auto simp: frame_def)
  moreover have "cget ?a 0 = Some (?a ! 0)" using assms(1) l cget_int[of 0 ?a] by fastforce
  moreover have "slice 1 (length p) ?a = p"
    using assms(1) l by (intro nth_equalityI) (simp_all add: length_slice nth_slice nth_blit frame_def)
  moreover have "uint ?b = int (length p)" using assms(2) by (simp add: uint_nat unat_of_nat)
  ultimately show ?thesis
    using print_range_ok[of 1 "Suc (length p)" ?a] assms(1) l
    by (simp add: print_packet_def packet_text_def shown_def split_def add.commute)
qed

lemma print_received_match_field:
  "length f = 45 \<Longrightarrow> print_match_field f = Some (match_field_text f)"
  using print_range_ok[of 0 45 f] by (simp add: print_match_field_def match_field_text_def shown_def split_def MTCH_FLD_LEN_def slice_def)

section \<open>The whole output\<close>

text \<open>A packet that was captured whole and that the readers with arrays of 100 bytes can take.\<close>

definition small :: "packet \<Rightarrow> bool" where
  "small k \<longleftrightarrow> caplen k = len k \<and> length (pkt_data k) = unat (caplen k) \<and> unat (caplen k) < 88"

lemma frames_length: "\<forall>p \<in> set ps. length p < 100 \<Longrightarrow> length (concat (map frame ps)) \<le> 100 * length ps"
  by (induction ps) (auto simp: frame_def)

lemma load_delivered:
  assumes "pp_abs pp ps []" "length ps \<le> 2" "small k" "length ip = 4" "length md = 8" "delivers fuel next fp k fp'"
  shows "\<exists>pp'. load_into_preprocessor fuel stamp next fp pp ip md out = Some (pp', fp', out @ load_text stamp k) \<and>
    pp_abs pp' (ps @ [ip @ md @ pkt_data k]) [] \<and> pp_mf pp' = pp_mf pp"
proof -
  have k: "caplen k = len k" "length (pkt_data k) = unat (caplen k)" "unat (caplen k) < 88"
    using assms(3) unfolding small_def by auto
  have a: "pb_ok (pp_pb pp)" "pb_stored (pp_pb pp) = concat (map frame ps)" "\<forall>p \<in> set ps. length p < 100"
    using assms(1) pb_stored_split[of "pp_pb pp"] by (simp_all add: pp_abs_def)
  have "pb_count (pp_pb pp) \<le> 200" using frames_length[OF a(3)] a(2) length_pb_stored[of "pp_pb pp"] assms(2) by simp
  then have r: "unat (caplen k) + 13 \<le> pb_room (pp_pb pp)" using k(3) by (simp add: pb_room_def)
  obtain pb where pb: "load_a_packet_to_the_packet_buffer k (pp_pb pp) ip md = Some pb"
    "pp_abs (pp\<lparr>pp_pb := pb\<rparr>) (ps @ [ip @ md @ pkt_data k]) []"
    using load_abs[OF assms(1,4,5) k r] by blast
  have "load_next_packet_printed fuel stamp next fp (pp_pb pp) ip md = Some (pb, fp', load_text stamp k)"
    using load_next_delivered[OF assms(6)] load_bytes_silent[OF a(1) assms(4,5) k(2) r pb(1)] by (simp add: load_text_def)
  then show ?thesis using pb(2) by (simp add: load_into_preprocessor_def)
qed

lemma blit_all: "length f = length xs \<Longrightarrow> blit xs 0 f = f"
  by (simp add: blit_def)

text \<open>
  C36. The program for the pre-processor prints what it should: for any three packets of at most 87 bytes that the
  capture gives, whatever the arrays from \<open>malloc\<close> hold, it returns, and its output is this text: the packets
  as they are loaded, a buffer of the three and no match field, then the match field of the first, the first packet and
  its match field as they are taken off, the other two packets, and the match field of the second.
\<close>

theorem packet_main_output:
  fixes heap :: "nat \<Rightarrow> nat \<Rightarrow> byte"
  assumes "pcap_open_offline ''../dump/dump1.pcap'' = Some fp0" "delivers fuel next fp0 k1 fp1"
    and "delivers fuel next fp1 k2 fp2" "delivers fuel next fp2 k3 fp3" "small k1" "small k2" "small k3"
    and "length (packet_buffer_bytes (pp_pb pp)) = 1000" "length (match_field_buffer_array (pp_mf pp)) = 900"
  defines "p1 \<equiv> [1, 2, 3, 4] @ [1, 2, 3, 4, 5, 6, 7, 8] @ pkt_data k1"
    and "p2 \<equiv> [10, 20, 30, 40] @ [10, 20, 30, 40, 50, 60, 70, 80] @ pkt_data k2"
    and "p3 \<equiv> [100, 200, 44, 144] @ [100, 200, 44, 144, 244, 88, 188, 32] @ pkt_data k3"
  defines "f1 \<equiv> match_field_of (heap 0) (heap 1) p1" and "f2 \<equiv> match_field_of (heap 4) (heap 5) p2"
  shows "packet_main fuel pcap_open_offline stamp next heap pp = Some
    (nl @ ''+++ PCAP File Located +++'' @ nl @ load_text stamp k1 @ load_text stamp k2 @ load_text stamp k3 @
     packets_text [p1, p2, p3] @ match_fields_text [] @
     nl @ match_fields_text [f1] @
     nl @ nl @ packet_text p1 @ match_field_text f1 @ packets_text [p2, p3] @ match_fields_text [] @
     nl @ packets_text [p2, p3] @ match_fields_text [f2])"
proof -
  let ?s = "initialize_preprocessor pp"
  have s: "pp_abs ?s [] []" "mfb_room (pp_mf ?s) = 900"
    using pb_ok_initialize[OF assms(8)] mfb_ok_initialize[OF assms(9)]
    by (simp_all add: pp_abs_def initialize_preprocessor_def)
  have w: "[100, 200, 300, 400] = ([100, 200, 44, 144] :: byte list)"
    "[100, 200, 300, 400, 500, 600, 700, 800] = ([100, 200, 44, 144, 244, 88, 188, 32] :: byte list)" by simp_all
  define o0 where "o0 = nl @ ''+++ PCAP File Located +++'' @ nl"
  obtain s1 where s1: "load_into_preprocessor fuel stamp next fp0 ?s [1, 2, 3, 4] [1, 2, 3, 4, 5, 6, 7, 8] o0 =
      Some (s1, fp1, o0 @ load_text stamp k1)" "pp_abs s1 [p1] []" "pp_mf s1 = pp_mf ?s"
    using load_delivered[OF s(1) _ assms(5) _ _ assms(2), of "[1, 2, 3, 4]" "[1, 2, 3, 4, 5, 6, 7, 8]" stamp o0]
    by (auto simp: p1_def)
  define o1 where "o1 = o0 @ load_text stamp k1"
  obtain s2 where s2: "load_into_preprocessor fuel stamp next fp1 s1 [10, 20, 30, 40] [10, 20, 30, 40, 50, 60, 70, 80] o1 =
      Some (s2, fp2, o1 @ load_text stamp k2)" "pp_abs s2 [p1, p2] []" "pp_mf s2 = pp_mf ?s"
    using load_delivered[OF s1(2) _ assms(6) _ _ assms(3), of "[10, 20, 30, 40]" "[10, 20, 30, 40, 50, 60, 70, 80]" stamp o1] s1(3)
    by (auto simp: p2_def)
  define o2 where "o2 = o1 @ load_text stamp k2"
  obtain s3 where s3: "load_into_preprocessor fuel stamp next fp2 s2 [100, 200, 44, 144] [100, 200, 44, 144, 244, 88, 188, 32] o2 =
      Some (s3, fp3, o2 @ load_text stamp k3)" "pp_abs s3 [p1, p2, p3] []" "pp_mf s3 = pp_mf ?s"
    using load_delivered[OF s2(2) _ assms(7) _ _ assms(4), of "[100, 200, 44, 144]" "[100, 200, 44, 144, 244, 88, 188, 32]" stamp o2] s2(3)
    by (auto simp: p3_def)
  obtain s4 where s4: "prepare_match_field (heap 0) (heap 1) s3 = Some s4" "pp_abs s4 [p2, p3] [(p1, f1)]"
    "mfb_room (pp_mf s4) = 855" using prepare_ok[OF s3(2), of "heap 0" "heap 1"] s3(3) s(2) by (auto simp: f1_def)
  have p4: "prepare_match_field_said (heap 0) (heap 1) s3 out = Some (s4, out @ nl)" for out
    by (rule prepare_silent[OF s3(2) _ s4(1)]) (simp add: s3(3) s(2))
  have l: "length p1 < 100" "length f1 = 45" using s4(2) by (auto simp: pp_abs_def)
  let ?mf = "map (heap 3) [0..<45]" and ?pk = "map (heap 2) [0..<100]"
  obtain s5 where s5: "return_match_field_and_packet s4 ?mf ?pk = Some (f1, blit ?pk 0 (frame p1), s5)"
    "pp_abs s5 [p2, p3] []" "mfb_room (pp_mf s5) = 855"
    using return_ok[OF s4(2), of ?mf ?pk] l s4(3) by (auto simp: blit_all)
  have r5: "return_match_field_and_packet_said s4 ?mf ?pk out = Some (f1, blit ?pk 0 (frame p1), s5, out @ nl @ nl)" for out
    by (rule return_silent[OF s4(2) _ _ s5(1)]) (use l in simp_all)
  obtain s6 where s6: "prepare_match_field (heap 4) (heap 5) s5 = Some s6" "pp_abs s6 [p3] [(p2, f2)]"
    using prepare_ok[OF s5(2), of "heap 4" "heap 5"] s5(3) by (auto simp: f2_def)
  have p6: "prepare_match_field_said (heap 4) (heap 5) s5 out = Some (s6, out @ nl)" for out
    by (rule prepare_silent[OF s5(2) _ s6(1)]) (simp add: s5(3))
  have q: "print_packet (blit ?pk 0 (frame p1)) = Some (packet_text p1)" "print_match_field f1 = Some (match_field_text f1)"
    using print_received[of p1 ?pk] print_received_match_field l by auto
  note texts = print_packets[OF s3(2)] print_match_fields[OF s3(2)] print_match_fields[OF s4(2)] print_packets[OF s5(2)]
    print_match_fields[OF s5(2)] print_packets[OF s6(2)] print_match_fields[OF s6(2)]
  have op: "openfile pcap_open_offline ''../dump/dump1.pcap'' = (Some fp0, o0)"
    using assms(1) by (simp add: openfile_def o0_def)
  show ?thesis
    using s1(1) s2(1)[unfolded o1_def] s3(1)[unfolded o2_def o1_def]
    by (simp add: packet_main_def op w p4 r5 p6 q texts MTCH_FLD_LEN_def MAX_PACKET_SIZE_def del: One_nat_def)
      (simp add: o0_def)
qed

definition three_packets :: "nat \<Rightarrow> int \<times> packet \<times> nat" where
  "three_packets n = (if n = 1 then 0 else 1, example_packet, Suc n)"

theorem packet_main_output_witness:
  "\<exists>t. packet_main 2 (\<lambda>_. Some 0) (\<lambda>_. []) three_packets (\<lambda>_ _. 0) (example_pp 0) =
    Some (nl @ ''+++ PCAP File Located +++'' @ nl @ shown [] [1, 2, 3] @ nl @ nl @ t)"
proof -
  have d: "delivers 2 three_packets 0 example_packet 1" "delivers 2 three_packets 1 example_packet 3"
    "delivers 2 three_packets 3 example_packet 4" by (simp_all add: three_packets_def numeral_2_eq_2)
  have k: "small example_packet" by (simp add: small_def example_packet_def)
  have l: "length (packet_buffer_bytes (pp_pb (example_pp 0))) = 1000"
    "length (match_field_buffer_array (pp_mf (example_pp 0))) = 900"
    by (simp_all add: example_pp_def example_pb_def frame_def initialize_match_field_buffer_def example_mfb_def)
  show ?thesis
    using packet_main_output[of "\<lambda>_. Some 0", OF refl d k k k l, of "\<lambda>_. []" "\<lambda>_ _. 0"]
    by (auto simp: load_text_def example_packet_def)
qed

end
