(* ===== verification/Tcam_Life.thy ===== *)
theory Tcam_Life
  imports Tcam_Apply
begin

text \<open>
  The life of a flow table: any sequence of the operations of \<^verbatim>\<open>flow-processing-unit/flow_unit.h\<close>,
  additions, lookups, deletions, modifications and the first application of actions.
\<close>

section \<open>Modifying keeps the groups\<close>

lemma set_byte_marker:
  assumes "45 \<le> at" "at < 48" "length (fst st) = 48"
  shows "marker (fst (set_byte flag b at new st)) = marker (fst st) \<and> length (fst (set_byte flag b at new st)) = 48"
  using assms by (cases st) (auto simp: set_byte_def marker_def abit_def)

lemma new_flow_marker:
  assumes "length e = 48"
  shows "marker (new_flow flag new vp e) = marker e" "length (new_flow flag new vp e) = 48"
  using assms set_byte_marker unfolding new_flow_def by simp_all

text \<open>The groups after a modification of entry \<open>p\<close>.\<close>

definition modified :: "(nat \<Rightarrow> bool) \<Rightarrow> nat \<Rightarrow> byte list \<Rightarrow> byte list \<Rightarrow> nat \<Rightarrow> mgroup list \<Rightarrow> mgroup list" where
  "modified P p flag new vp gs =
     map_entries (\<lambda>i e. if i = p then new_flow flag new vp e else if P i then bump e else e) 0 gs"

lemma modify_abs:
  assumes abs: "tcam_abs t gs" and len: "45 \<le> length f" "0 < length mp"
    and sizes: "length flag = 2" "34 \<le> length new" "length val = 6"
  defines "P \<equiv> hit (map fst gs) (flat gs) f"
  assumes b: "best P (flat gs) (length (flat gs)) = Some p"
  shows "\<exists>t' vp. modify_entry mp val t f flag new = Some (int p, t') \<and> tcam_abs t' (modified P p flag new vp gs)"
proof -
  let ?n = "length (flat gs)"
  let ?vp = "snd (new_actions flag new (actions t ! p))" and ?gs = "modified P p flag new"
  obtain t' where t': "modify_entry mp val t f flag new = Some (int p, t')"
      "entries t' = (map (\<lambda>i. if P i then bump (flat gs ! i) else flat gs ! i) [0..<?n])[p := new_flow flag new ?vp (flat gs ! p)]"
      "masks t' = masks t" "tables_ok t'" "flow_tail t' = flow_tail t" "mask_tail t' = mask_tail t"
    using modify_entry_ok[OF abs len sizes b[unfolded P_def]] unfolding P_def by blast
  have ok: "tables_ok t" "flow_tail t = int ?n" "?n \<le> 20" "mask_tail t = int (length gs)" "masks t = map fst gs"
      "entries t = flat gs" using abs by (simp_all add: tcam_abs_def)
  have e48: "length (flat gs ! i) = 48" if "i < ?n" for i
    using length_entries_row[OF ok(1), of "flat gs ! i"] that ok by simp
  have "entries t' = flat (?gs ?vp gs)"
    unfolding t'(2) modified_def flat_map_entries by (rule nth_equalityI) (auto simp: nth_list_update)
  moreover have "marked k (snd (?gs ?vp gs ! k))" if k: "k < length gs" for k
    unfolding modified_def map_entries_nth[OF k]
  proof (rule marked_map_nth)
    show "marked k (snd (gs ! k))" using abs k by (simp add: tcam_abs_def)
    fix j assume j: "j < length (snd (gs ! k))"
    have "length (snd (gs ! k) ! j) = 48" using e48 flat_row(2)[OF abs k j] flat_at[OF k j] by metis
    then show "marker (if 0 + group_start gs k + j = p then new_flow flag new ?vp (snd (gs ! k) ! j)
        else if P (0 + group_start gs k + j) then bump (snd (gs ! k) ! j) else snd (gs ! k) ! j) = marker (snd (gs ! k) ! j)"
      by (simp add: marker_bump new_flow_marker)
  qed
  ultimately have "tcam_abs t' (?gs ?vp gs)"
    using t'(3-6) ok by (simp add: tcam_abs_def modified_def flat_map_entries)
  then show ?thesis using t'(1) by blast
qed

section \<open>Deleting keeps the groups, with two exceptions\<close>

text \<open>
  Deleting the entry at \<open>p\<close> leaves a mask without entries behind: it is the only one of the first group.
  It can be deleted when it does not, and when it is not alone in its group in the last row of a full
  table, behind which there is no row to look at.
\<close>

definition leaves_mask :: "tcam_unit \<Rightarrow> int \<Rightarrow> bool" where
  "leaves_mask t p \<longleftrightarrow> p = 0 \<and> (flow_tail t \<le> 1 \<or> marker (entries t ! 1))"

definition removable :: "tcam_unit \<Rightarrow> int \<Rightarrow> bool" where
  "removable t p \<longleftrightarrow> \<not> leaves_mask t p \<and> \<not> (p = 19 \<and> marker (entries t ! 19))"

lemma first_of_group:
  assumes abs: "tcam_abs t gs" and k: "Suc k < length gs"
  shows "group_start gs (Suc k) < length (flat gs)" "marker (entries t ! group_start gs (Suc k))"
proof -
  have m: "marked (Suc k) (snd (gs ! Suc k))" and en: "entries t = flat gs" using abs k by (auto simp: tcam_abs_def)
  then have l: "0 < length (snd (gs ! Suc k))" by (simp add: marked_def)
  show "group_start gs (Suc k) < length (flat gs)" using flat_row(2)[OF abs k l] by simp
  show "marker (entries t ! group_start gs (Suc k))"
    using marked_at[OF m l] flat_at[OF k l] by (simp add: en)
qed

lemma removable_cond:
  assumes abs: "tcam_abs t gs" and kj: "k < length gs" "j < length (snd (gs ! k))"
    and r: "removable t (int (group_start gs k + j))"
  shows "0 < k \<or> 1 < length (snd (gs ! k))" "length (snd (gs ! k)) = 1 \<longrightarrow> group_start gs k < 19"
proof -
  have tl: "flow_tail t = int (length (flat gs))" "length (flat gs) \<le> 20" using abs by (auto simp: tcam_abs_def)
  show "0 < k \<or> 1 < length (snd (gs ! k))"
  proof (rule ccontr)
    assume "\<not> ?thesis"
    then have c: "k = 0" "j = 0" "length (snd (gs ! 0)) = 1" using kj by auto
    have s: "group_start gs 0 = 0" by (simp add: group_start_def)
    have s1: "group_start gs (Suc 0) = 1" using group_start_Suc[of 0 gs] kj(1) c s by simp
    have r1: "1 < length (flat gs)" "\<not> marker (entries t ! 1)" using r tl c s by (auto simp: removable_def leaves_mask_def)
    show False
    proof (cases "Suc 0 < length gs")
      case True
      then show False using first_of_group(2)[OF abs True] s1 r1 by simp
    next
      case False
      then have "length gs = Suc 0" using kj(1) by simp
      then have "length (flat gs) = 1" using s1 c(3) by (cases gs) auto
      then show False using r1 by simp
    qed
  qed
  show "length (snd (gs ! k)) = 1 \<longrightarrow> group_start gs k < 19"
  proof (rule impI, rule ccontr)
    assume one: "length (snd (gs ! k)) = 1" and "\<not> group_start gs k < 19"
    then have p: "group_start gs k = 19" "j = 0" using flat_row(2)[OF abs kj] tl(2) kj(2) by auto
    then have "0 < k" by (cases k) (auto simp: group_start_def)
    then obtain k' where k': "k = Suc k'" by (cases k) auto
    then show False using first_of_group(2)[OF abs, of k'] kj(1) r p by (simp add: removable_def)
  qed
qed

lemma delete_abs:
  assumes abs: "tcam_abs t gs" and len: "45 \<le> length f" "0 < length mp"
    and d: "best (hit (map fst gs) (flat gs) f) (flat gs) (length (flat gs)) = Some p" and r: "removable t (int p)"
  shows "\<exists>t' gs'. delete_flow_entry mp t f = Some (int p, t') \<and> tcam_abs t' gs'"
proof -
  have "p < length (flat gs)" using best_Some[OF d] by simp
  then obtain k j where kj: "k < length gs" "j < length (snd (gs ! k))" "p = group_start gs k + j"
    by (rule entry_in_group)
  note c = removable_cond[OF abs kj(1,2) r[unfolded kj(3)]]
  then show ?thesis
    using delete_entry_groups[OF abs len kj(1,2) c(1)] d kj(3) by auto
qed

text \<open>The last row of a full table is not deleted when it is a group of its own: the test of the next row leaves the table.\<close>

lemma delete_last_marked:
  assumes abs: "tcam_abs t gs" and len: "45 \<le> length f" "0 < length mp"
    and d: "best (hit (map fst gs) (flat gs) f) (flat gs) (length (flat gs)) = Some 19" and m: "marker (entries t ! 19)"
  shows "delete_flow_entry mp t f = None"
proof -
  let ?P = "hit (map fst gs) (flat gs) f"
  obtain s mp' where s: "search_tcam t f mp = Some (19, s, mp')" "tcam_abs s (bumped ?P gs)"
    using search_abs[OF abs len] d by (auto simp: best_pos_def)
  have n: "length (flat gs) = 20" using best_Some[OF d] abs by (simp add: tcam_abs_def)
  obtain k j where kj: "k < length gs" "j < length (snd (gs ! k))" "19 = group_start gs k + j" "flat gs ! 19 = snd (gs ! k) ! j"
    by (rule entry_in_group[of 19 gs]) (simp add: n)
  have first: "0 < k" "j = 0"
    using marked_at[of k "snd (gs ! k)" j] abs kj m by (auto simp: tcam_abs_def)
  let ?gs = "bumped ?P gs"
  have k': "k < length ?gs" "length (snd (?gs ! k)) = length (snd (gs ! k))" "group_start ?gs k = 19"
    using kj first by (simp_all add: bumped_def map_entries_nth)
  have "length (flat ?gs) = 20" using n by (simp add: bumped_def flat_map_entries)
  then have "length (snd (?gs ! k)) = 1"
    using group_start_Suc[OF k'(1)] group_start_le[of ?gs "Suc k"] k' kj(2) by simp
  from only_mask_gone[OF s(2) k'(1) first(1) this] obtain u where
    u: "do { mp \<leftarrow> get_mask_pos s 19; delete_restructure_mask s mp } = Some u" "flow_table u = flow_table s"
    by (auto simp: k'(3))
  have ft: "length (flow_table s) = 960" "flow_tail s = 20"
    using s(2) n by (auto simp: tcam_abs_def tables_ok_def bumped_def flat_map_entries)
  have "marker (row 48 19 (flow_table s))"
    using flat_row(1)[OF s(2) k'(1), of 0] marked_at[of k "snd (?gs ! k)" 0] s(2) k' kj(2) first
    by (simp add: tcam_abs_def)
  then have "first_bit s 19 = Some True" "first_bit u 19 = Some True"
    using first_bit_ok[of s 19 19] first_bit_ok[of u 19 19] ft u(2) by simp_all
  moreover have "first_bit u 20 = None"
    using read_bit_out[of "flow_table u" "8 * 1004 + 4"] ft u(2) by (simp add: first_bit_def FLW_ENT_LEN_def)
  ultimately have "before_removal s 19 = None"
    unfolding before_removal_def using u(1) ft by simp
  then show ?thesis using s(1) by (simp add: delete_flow_entry_def delete_found_split)
qed

text \<open>Deleting the only entry of the first group returns, and what is left is no list of groups.\<close>

lemma delete_leaves_mask:
  assumes abs: "tcam_abs t gs" and len: "45 \<le> length f" "0 < length mp"
    and d: "best (hit (map fst gs) (flat gs) f) (flat gs) (length (flat gs)) = Some p" and l: "leaves_mask t (int p)"
  shows "\<exists>u. delete_flow_entry mp t f = Some (int p, u) \<and> \<not> tcam_abs u hs"
proof -
  let ?P = "hit (map fst gs) (flat gs) f"
  let ?gs = "bumped ?P gs" and ?n = "length (flat gs)"
  have p: "p = 0" "0 < ?n" "?n \<le> 20" using l best_Some[OF d] abs by (auto simp: leaves_mask_def tcam_abs_def)
  obtain s mp' where s: "search_tcam t f mp = Some (0, s, mp')" "tcam_abs s ?gs"
    using search_abs[OF abs len] d p(1) by (auto simp: best_pos_def)
  have n: "length (flat ?gs) = ?n" by (simp add: bumped_def flat_map_entries)
  have g: "0 < length gs" using p(2) by (cases gs) auto
  have ne: "0 < length (snd (?gs ! 0))" "0 < length ?gs" using s(2) g by (auto simp: tcam_abs_def marked_def bumped_def)
  have "before_removal s 0 = Some s"
    using before_removal_plain[OF s(2) ne(2,1)] by (simp add: group_start_def)
  moreover obtain u where u: "do { u \<leftarrow> delete_restructure_flow s 0; delete_restructure_action u 0 } = Some u"
    "flow_tail u = int ?n - 1" "mask_tail u = int (length gs)"
    "entries u = map fresh (drop 1 (entries s))"
    using rows_removed[of s ?n 0] s(2) p(2,3) n by (auto simp: tcam_abs_def bumped_def)
  ultimately have "delete_found s 0 = Some u" by (simp add: delete_found_split)
  then have del: "delete_flow_entry mp t f = Some (0, u)" using s(1) by (simp add: delete_flow_entry_def)
  have False if u': "tcam_abs u hs"
  proof -
    have hs: "0 < length hs" using u' u(3) g by (simp add: tcam_abs_def)
    then have m0: "marked 0 (snd (hs ! 0))" using u' by (simp add: tcam_abs_def)
    then have h0: "0 < length (snd (hs ! 0))" by (simp add: marked_def)
    then have h1: "\<not> marker (flat hs ! 0)"
      using marked_at[OF m0 h0] flat_at[OF hs h0] by (simp add: group_start_def)
    have n2: "1 < ?n" using u' u(2) flat_row(2)[OF u' hs h0] by (simp add: tcam_abs_def)
    then have mk: "marker (flat gs ! 1)" using l abs by (simp add: leaves_mask_def tcam_abs_def)
    have e1: "flat hs ! 0 = fresh (flat ?gs ! 1)"
    proof -
      have "flat hs = map fresh (drop 1 (flat ?gs))" using u(4) u' s(2) by (simp add: tcam_abs_def)
      then show ?thesis using n2 n by simp
    qed
    have "46 \<le> length (flat ?gs ! 1)" using abs_entry_length[OF s(2)] n2 n by simp
    then have "marker (flat hs ! 0) = marker (flat ?gs ! 1)" using e1 by (simp add: marker_fresh)
    also have "flat ?gs ! 1 = (if ?P 1 then bump (flat gs ! 1) else flat gs ! 1)"
      using n2 by (simp add: bumped_def flat_map_entries)
    finally show False using mk h1 marker_bump[of "flat gs ! 1"] length_entries_row[of t "flat gs ! 1"] abs n2 by (auto simp: tcam_abs_def split: if_splits)
  qed
  then show ?thesis using del p(1) by auto
qed

section \<open>Any sequence of operations\<close>

text \<open>
  The steps are the calls with arrays of the size the code declares. One call is left out, a deletion that
  leaves a mask behind; the code does not refuse it.
\<close>

inductive tcam_step :: "tcam_unit \<Rightarrow> tcam_unit \<Rightarrow> bool" where
  step_add: "length m = 45 \<Longrightarrow> 46 \<le> length fe \<Longrightarrow> 31 \<le> length a \<Longrightarrow> 2 \<le> length f \<Longrightarrow>
     add_new_entry t m fe a f = Some (r, t', m', fe') \<Longrightarrow> tcam_step t t'"
| step_search: "45 \<le> length f \<Longrightarrow> 0 < length mp \<Longrightarrow>
     search_tcam t f mp = Some (r, t', mp') \<Longrightarrow> tcam_step t t'"
| step_delete: "45 \<le> length f \<Longrightarrow> 0 < length mp \<Longrightarrow>
     delete_flow_entry mp t f = Some (r, t') \<Longrightarrow> \<not> leaves_mask t r \<Longrightarrow> tcam_step t t'"
| step_modify: "45 \<le> length f \<Longrightarrow> 0 < length mp \<Longrightarrow> length flag = 2 \<Longrightarrow> 34 \<le> length new \<Longrightarrow> length val = 6 \<Longrightarrow>
     modify_entry mp val t f flag new = Some (r, t') \<Longrightarrow> tcam_step t t'"
| step_apply: "45 \<le> length f \<Longrightarrow> 0 < length mp \<Longrightarrow> length a = 31 \<Longrightarrow> length val = 6 \<Longrightarrow>
     length (flow_cache c) = 5 \<Longrightarrow> cache_top c = 1 \<Longrightarrow>
     apply_action a mp val c t f = Some (r, c', t', out) \<Longrightarrow> tcam_step t t'"

inductive tcam_run :: "tcam_unit \<Rightarrow> tcam_unit \<Rightarrow> bool" where
  tcam_run_refl: "tcam_run t t"
| tcam_run_step: "tcam_run t u \<Longrightarrow> tcam_step u v \<Longrightarrow> tcam_run t v"

text \<open>A deletion or modification that returns found an entry.\<close>

lemma returned_found:
  assumes "tcam_abs t gs" "45 \<le> length f" "0 < length mp"
    and "delete_flow_entry mp t f \<noteq> None \<or> modify_entry mp val t f flag new \<noteq> None"
  obtains p where "best (hit (map fst gs) (flat gs) f) (flat gs) (length (flat gs)) = Some p"
proof -
  have "\<exists>i<length (flat gs). hit (map fst gs) (flat gs) f i"
    using delete_unmatched[OF assms(1-3)] modify_unmatched[OF assms(1-3), of val flag new] assms(4) by blast
  then show thesis
    using that best_None[of "hit (map fst gs) (flat gs) f" "flat gs" "length (flat gs)"] by blast
qed

lemma tcam_step_abs: "tcam_step t t' \<Longrightarrow> tcam_abs t gs \<Longrightarrow> \<exists>gs'. tcam_abs t' gs'"
proof (induction rule: tcam_step.induct)
  case (step_add m fe a f t r t' m' fe')
  then show ?case using add_new_entry_total[of t gs m fe a f] by auto
next
  case (step_search f mp t r t' mp')
  then show ?case using search_abs[of t gs f mp] by auto
next
  case (step_delete f mp t r t')
  then obtain p where p: "best (hit (map fst gs) (flat gs) f) (flat gs) (length (flat gs)) = Some p"
    using returned_found[of t gs f mp] by blast
  obtain s mp' where "search_tcam t f mp = Some (int p, s, mp')"
    using search_abs[of t gs f mp] step_delete.hyps step_delete.prems p by (auto simp: best_pos_def)
  then have r: "r = int p" using step_delete.hyps(3) by (auto simp: delete_flow_entry_def split: bind_splits)
  then have "removable t (int p)"
    using delete_last_marked[OF step_delete.prems step_delete.hyps(1,2)] p step_delete.hyps(3,4) by (auto simp: removable_def)
  then show ?case using delete_abs[OF step_delete.prems step_delete.hyps(1,2) p] step_delete.hyps(3) by auto
next
  case (step_modify f mp flag new val t r t')
  then obtain p where p: "best (hit (map fst gs) (flat gs) f) (flat gs) (length (flat gs)) = Some p"
    using returned_found[of t gs f mp] by blast
  show ?case using modify_abs[OF step_modify.prems step_modify.hyps(1-5) p] step_modify.hyps(6) by auto
next
  case (step_apply f mp a val c t r c' t' out)
  then show ?case using apply_action_ok[of t gs f mp a val c] by auto
qed

lemma tcam_run_abs: "tcam_run t t' \<Longrightarrow> tcam_abs t gs \<Longrightarrow> \<exists>gs'. tcam_abs t' gs'"
  by (induction rule: tcam_run.induct) (auto dest: tcam_step_abs)

text \<open>What can be called in a state that is a list of groups.\<close>

lemma abs_can:
  assumes abs: "tcam_abs t gs" and len: "45 \<le> length f" "0 < length mp"
  shows "\<exists>pos u mp'. search_tcam t f mp = Some (pos, u, mp') \<and> - 1 \<le> pos \<and> pos < flow_tail t \<and>
     (length flag = 2 \<and> 34 \<le> length new \<and> length val = 6 \<longrightarrow> (modify_entry mp val t f flag new \<noteq> None \<longleftrightarrow> 0 \<le> pos)) \<and>
     (delete_flow_entry mp t f \<noteq> None \<longleftrightarrow> 0 \<le> pos \<and> \<not> (pos = 19 \<and> marker (entries t ! 19))) \<and>
     (0 \<le> pos \<and> leaves_mask t pos \<longrightarrow> (\<forall>r u hs. delete_flow_entry mp t f = Some (r, u) \<longrightarrow> \<not> tcam_abs u hs))"
proof -
  let ?P = "hit (map fst gs) (flat gs) f" and ?n = "length (flat gs)"
  have tl: "flow_tail t = int ?n" using abs by (simp add: tcam_abs_def)
  obtain u mp' where s: "search_tcam t f mp = Some (best_pos (best ?P (flat gs) ?n), u, mp')"
    using search_abs[OF abs len] by blast
  show ?thesis
  proof (cases "best ?P (flat gs) ?n")
    case None
    then have "\<not> ?P i" if "i < ?n" for i using best_None[of ?P "flat gs" ?n] that by blast
    then have "modify_entry mp val t f flag new = None" "delete_flow_entry mp t f = None"
      using modify_unmatched[OF abs len] delete_unmatched[OF abs len] by blast+
    then show ?thesis using s None tl by (simp add: best_pos_def)
  next
    case (Some p)
    have "p < ?n" using best_Some[OF Some] by simp
    moreover have "length flag = 2 \<Longrightarrow> 34 \<le> length new \<Longrightarrow> length val = 6 \<Longrightarrow> modify_entry mp val t f flag new \<noteq> None"
      using modify_abs[OF abs len _ _ _ Some, of flag new val] by auto
    moreover have "delete_flow_entry mp t f \<noteq> None \<longleftrightarrow> \<not> (int p = 19 \<and> marker (entries t ! 19))"
    proof (cases "int p = 19 \<and> marker (entries t ! 19)")
      case True
      then show ?thesis using delete_last_marked[OF abs len] Some by auto
    next
      case False
      then show ?thesis using delete_abs[OF abs len Some] delete_leaves_mask[OF abs len Some, of gs] unfolding removable_def by blast
    qed
    moreover have "\<not> tcam_abs v hs" if "leaves_mask t (int p)" "delete_flow_entry mp t f = Some (r, v)" for r v hs
      using delete_leaves_mask[OF abs len Some that(1), of hs] that(2) by auto
    ultimately show ?thesis using s Some tl by (simp add: best_pos_def)
  qed
qed

text \<open>
  C8. From empty tables additions, lookups, deletions, modifications and applications of actions right after
  \<^verbatim>\<open>init\<close>, in any order, keep the tables a list of groups with the markers where they belong, with one
  exception, which the steps leave out: deleting the only entry of the first group returns, and what it leaves
  behind never is such a list. In every state that is reached it is known which calls are defined: every addition, every
  lookup (which never reports \<open>STR_ERR\<close>) and every application right after \<^verbatim>\<open>init\<close>; a modification exactly when
  the lookup finds an entry; a deletion exactly when the lookup finds one that is not a group of its own in the last row
  of a full table.
\<close>

theorem tcam_run_safe:
  assumes "tables_ok t" "flow_tail t = 0" "mask_tail t = 0" "tcam_run t t'"
  shows "(\<exists>gs. tcam_abs t' gs) \<and>
    (\<forall>m fe a f. length m = 45 \<and> 46 \<le> length fe \<and> 31 \<le> length a \<and> 2 \<le> length f \<longrightarrow>
      (\<exists>r. add_new_entry t' m fe a f = Some r)) \<and>
    (\<forall>f mp a val c. 45 \<le> length f \<and> 0 < length mp \<and> length a = 31 \<and> length val = 6 \<and>
        length (flow_cache c) = 5 \<and> cache_top c = 1 \<longrightarrow> (\<exists>r. apply_action a mp val c t' f = Some r)) \<and>
    (\<forall>f mp flag new val. 45 \<le> length f \<and> 0 < length mp \<longrightarrow>
      (\<exists>pos u mp'. search_tcam t' f mp = Some (pos, u, mp') \<and> - 1 \<le> pos \<and> pos < flow_tail t' \<and>
        (length flag = 2 \<and> 34 \<le> length new \<and> length val = 6 \<longrightarrow> (modify_entry mp val t' f flag new \<noteq> None \<longleftrightarrow> 0 \<le> pos)) \<and>
        (delete_flow_entry mp t' f \<noteq> None \<longleftrightarrow> 0 \<le> pos \<and> \<not> (pos = 19 \<and> marker (entries t' ! 19))) \<and>
        (0 \<le> pos \<and> leaves_mask t' pos \<longrightarrow> (\<forall>r u hs. delete_flow_entry mp t' f = Some (r, u) \<longrightarrow> \<not> tcam_abs u hs))))"
proof -
  have "tcam_abs t []" using assms(1-3) by (simp add: tcam_abs_def entries_def masks_def rows_def)
  then obtain gs where gs: "tcam_abs t' gs" using tcam_run_abs[OF assms(4)] by blast
  have "\<exists>r. add_new_entry t' m fe a f = Some r"
    if "length m = 45" "46 \<le> length fe" "31 \<le> length a" "2 \<le> length f" for m fe a f
    using add_new_entry_total[OF gs that] by blast
  moreover have "\<exists>r. apply_action a mp val c t' f = Some r"
    if "45 \<le> length f" "0 < length mp" "length a = 31" "length val = 6" "length (flow_cache c) = 5" "cache_top c = 1" for f mp a val c
    using apply_action_ok[OF gs that] by blast
  ultimately show ?thesis using gs abs_can[OF gs] by (intro conjI) blast+
qed

theorem tcam_run_safe_witness:
  "\<exists>t gs. tcam_run (example_tcam 0 0) t \<and> flow_tail t = 1 \<and> tcam_abs t gs"
proof -
  obtain t r m' fe' where a: "add_new_entry (example_tcam 0 0) (replicate 45 7) (replicate 46 1) (replicate 31 2) [3, 4]
      = Some (r, t, m', fe')" "flow_tail t = 1"
    using add_new_entry_new[OF example_abs, of "replicate 45 7" "replicate 46 1" "replicate 31 2" "[3, 4]"]
    by (auto simp: tcam_abs_def)
  have "tcam_run (example_tcam 0 0) t"
    by (rule tcam_run_step[OF tcam_run_refl step_add[OF _ _ _ _ a(1)]]) simp_all
  then show ?thesis
    using tcam_run_safe[of "example_tcam 0 0" t] a(2) by (auto simp: example_tcam_facts)
qed

end
