(* ===== verification/Tcam_Logs.thy ===== *)
theory Tcam_Logs
  imports Tcam_Life C_Output
begin

text \<open>
  The log files of \<^verbatim>\<open>flow-processing-unit/flow_unit.h\<close>: every function that writes a row appends a line with the
  row to a text file. Each such function, and each that calls one, is here once more with the three
  files as a further argument and result, and without them it is the function of the other theories.
  What the files are good for is in \<open>Tcam_Log_Reading\<close>.
\<close>

section \<open>The writing functions with their files\<close>

record logs =
  mask_log :: string
  flow_log :: string
  action_log :: string

text \<open>\<open>fopen\<close> with mode \<open>a\<close> is taken to succeed: what is written goes behind the text there is.\<close>

definition write_new_mask_logged ::
  "tcam_unit \<Rightarrow> byte list \<Rightarrow> logs \<Rightarrow> ((tcam_unit \<times> byte list) \<times> logs) option" where
  "write_new_mask_logged tcam msk l = do {
     msk \<leftarrow> reset_bit msk 357;
     msk \<leftarrow> reset_bit msk 358;
     msk \<leftarrow> reset_bit msk 359;
     let fp = mask_log l @ dec_int (mask_tail tcam) @ ''. '';
     (table, fp) \<leftarrow> c_for (nat MTCH_FLD_LEN_i) (\<lambda>i (table, fp). do {
       b \<leftarrow> cget msk (int i);
       table \<leftarrow> cput table (mask_tail tcam * MTCH_FLD_LEN_i + int i) b;
       Some (table, fp @ dec_byte b @ '' '') }) (mask_table tcam, fp);
     let fp = fp @ nl;
     Some ((tcam\<lparr>mask_table := table, mask_tail := mask_tail tcam + 1\<rparr>, msk), l\<lparr>mask_log := fp\<rparr>)
   }"

definition write_new_flow_entry_logged ::
  "tcam_unit \<Rightarrow> byte list \<Rightarrow> logs \<Rightarrow> (tcam_unit \<times> logs) option" where
  "write_new_flow_entry_logged tcam flow_entry l = do {
     let fp = flow_log l @ dec_int (flow_tail tcam) @ ''. '';
     (table, fp) \<leftarrow> c_for (nat (MTCH_FLD_LEN_i + 1)) (\<lambda>i (table, fp). do {
       b \<leftarrow> cget flow_entry (int i);
       table \<leftarrow> cput table (flow_tail tcam * FLW_ENT_LEN + int i) b;
       Some (table, fp @ dec_byte b @ '' '') }) (flow_table tcam, fp);
     let i = MTCH_FLD_LEN_i + 1;
     table \<leftarrow> cput table (flow_tail tcam * FLW_ENT_LEN + i) 0;
     table \<leftarrow> cput table (flow_tail tcam * FLW_ENT_LEN + i + 1) 255;
     let fp = fp @ dec 0 @ '' '' @ dec 255 @ nl;
     Some (tcam\<lparr>flow_table := table, flow_tail := flow_tail tcam + 1\<rparr>, l\<lparr>flow_log := fp\<rparr>)
   }"

definition write_new_action_logged ::
  "tcam_unit \<Rightarrow> byte list \<Rightarrow> byte list \<Rightarrow> int \<Rightarrow> logs \<Rightarrow> (tcam_unit \<times> logs) option" where
  "write_new_action_logged tcam action_set flag pos l = do {
     let fp = action_log l @ dec_int pos @ ''. '';
     (table, fp) \<leftarrow> c_for (nat ACTN_ST_LEN) (\<lambda>i (table, fp). do {
       b \<leftarrow> cget action_set (int i);
       table \<leftarrow> cput table (pos * ACTN_ST_LEN + int i) b;
       Some (table, fp @ dec_byte b @ '' '') }) (action_table tcam, fp);
     let fp = fp @ nl;
     f0 \<leftarrow> cget flag 0;
     flags \<leftarrow> cput (flag_table tcam) (2 * pos) f0;
     f1 \<leftarrow> cget flag 1;
     flags \<leftarrow> cput flags (2 * pos + 1) f1;
     Some (tcam\<lparr>action_table := table, flag_table := flags\<rparr>, l\<lparr>action_log := fp\<rparr>)
   }"

lemma copy_forget:
  "map_option fst (c_for n (\<lambda>i (table, fp). do {
       b \<leftarrow> cget src (int i);
       table \<leftarrow> cput table (k + int i) b;
       Some (table, fp @ dec_byte b @ '' '') }) (tb, fp)) = c_for n (\<lambda>i table. do {
       b \<leftarrow> cget src (int i);
       cput table (k + int i) b }) tb"
proof (rule c_for_forget)
  fix i tb fp
  have "map_option fst (cget src (int i) \<bind> (\<lambda>b. cput tb (k + int i) b \<bind> (\<lambda>table. Some (table, fp @ dec_byte b @ '' '')))) =
      cget src (int i) \<bind> (\<lambda>b. cput tb (k + int i) b \<bind> Some)"
    by (rule forget_plain)+ simp
  then show "map_option fst (case (tb, fp) of (table, fp) \<Rightarrow> cget src (int i) \<bind> (\<lambda>b. cput table (k + int i) b \<bind>
      (\<lambda>table. Some (table, fp @ dec_byte b @ '' '')))) = cget src (int i) \<bind> (\<lambda>b. cput tb (k + int i) b)" by simp
qed

lemma write_new_mask_forget [forget]:
  "map_option fst (write_new_mask_logged t m l) = write_new_mask t m"
  unfolding write_new_mask_logged_def write_new_mask_def Let_def
  by (rule forget_rules | rule forget_bind, rule copy_forget | simp only: split_conv)+

lemma write_new_flow_entry_forget [forget]:
  "map_option fst (write_new_flow_entry_logged t e l) = write_new_flow_entry t e"
  unfolding write_new_flow_entry_logged_def write_new_flow_entry_def Let_def
  by (rule forget_bind, rule copy_forget | rule forget_rules | simp only: split_conv)+

lemma write_new_action_forget [forget]:
  "map_option fst (write_new_action_logged t a f p l) = write_new_action t a f p"
  unfolding write_new_action_logged_def write_new_action_def Let_def
  by (rule forget_bind, rule copy_forget | rule forget_rules | simp only: split_conv)+

section \<open>The functions that call them\<close>

lemma flow_tail_logged: "write_new_flow_entry_logged t e l = Some (t', l') \<Longrightarrow> flow_tail t' = flow_tail t + 1"
  using write_new_flow_entry_forget by (blast dest: forget_Some flow_tail_write)

lemma mask_tail_logged: "write_new_mask_logged t m l = Some ((t', m'), l') \<Longrightarrow> mask_tail t' = mask_tail t + 1"
  using write_new_mask_forget by (blast dest: forget_Some mask_tail_write)

function restructure_flow_table_loop_logged :: "tcam_unit \<Rightarrow> int \<Rightarrow> logs \<Rightarrow> (tcam_unit \<times> logs) option" where
  "restructure_flow_table_loop_logged tcam pos l =
     (if flow_tail tcam > pos then do {
        dummy_flow \<leftarrow> copy_row FLW_ENT_LEN (flow_table tcam) (flow_tail tcam - 1);
        (tcam', l') \<leftarrow> write_new_flow_entry_logged tcam dummy_flow l;
        restructure_flow_table_loop_logged (tcam'\<lparr>flow_tail := flow_tail tcam' - 2\<rparr>) pos l' }
      else Some (tcam, l))"
  by pat_completeness auto
termination
  by (relation "measure (\<lambda>(t, pos, l). nat (flow_tail t - pos))") (auto dest: flow_tail_logged)

definition restructure_flow_table_logged :: "tcam_unit \<Rightarrow> int \<Rightarrow> logs \<Rightarrow> (tcam_unit \<times> logs) option" where
  "restructure_flow_table_logged tcam pos l = do {
     let flow_tail_old = flow_tail tcam;
     (tcam, l) \<leftarrow> restructure_flow_table_loop_logged tcam pos l;
     Some (tcam\<lparr>flow_tail := flow_tail_old + 1\<rparr>, l)
   }"

definition move_action_logged :: "tcam_unit \<Rightarrow> int \<Rightarrow> int \<Rightarrow> logs \<Rightarrow> (tcam_unit \<times> logs) option" where
  "move_action_logged flow_unit src dst l = do {
     dummy_action \<leftarrow> copy_row ACTN_ST_LEN (action_table flow_unit) src;
     f0 \<leftarrow> cget (flag_table flow_unit) (2 * src);
     f1 \<leftarrow> cget (flag_table flow_unit) (2 * src + 1);
     write_new_action_logged flow_unit dummy_action [f0, f1] dst l
   }"

function restructure_action_loop_logged :: "tcam_unit \<Rightarrow> int \<Rightarrow> int \<Rightarrow> logs \<Rightarrow> (tcam_unit \<times> logs) option" where
  "restructure_action_loop_logged flow_unit tail pos l =
     (if tail > pos then do {
        (flow_unit, l) \<leftarrow> move_action_logged flow_unit (tail - 1) tail l;
        restructure_action_loop_logged flow_unit (tail - 1) pos l }
      else Some (flow_unit, l))"
  by pat_completeness auto
termination
  by (relation "measure (\<lambda>(t, tail, pos, l). nat (tail - pos))") auto

definition restructure_action_tables_logged :: "tcam_unit \<Rightarrow> int \<Rightarrow> logs \<Rightarrow> (tcam_unit \<times> logs) option" where
  "restructure_action_tables_logged flow_unit pos l =
     restructure_action_loop_logged flow_unit (flow_tail flow_unit - 1) pos l"

function delete_restructure_mask_loop_logged :: "tcam_unit \<Rightarrow> int \<Rightarrow> logs \<Rightarrow> (tcam_unit \<times> logs) option" where
  "delete_restructure_mask_loop_logged tcam mask_tail_old l =
     (if mask_tail tcam < mask_tail_old - 1 then do {
        dummy_mask \<leftarrow> copy_row MTCH_FLD_LEN_i (mask_table tcam) (mask_tail tcam + 1);
        ((tcam', dummy_mask), l') \<leftarrow> write_new_mask_logged tcam dummy_mask l;
        delete_restructure_mask_loop_logged tcam' mask_tail_old l' }
      else Some (tcam, l))"
  by pat_completeness auto
termination
  by (relation "measure (\<lambda>(t, old, l). nat (old - mask_tail t))") (auto dest: mask_tail_logged)

definition delete_restructure_mask_logged :: "tcam_unit \<Rightarrow> int \<Rightarrow> logs \<Rightarrow> (tcam_unit \<times> logs) option" where
  "delete_restructure_mask_logged tcam pos l = do {
     let mask_tail_old = mask_tail tcam;
     (tcam, l) \<leftarrow> delete_restructure_mask_loop_logged (tcam\<lparr>mask_tail := pos\<rparr>) mask_tail_old l;
     Some (tcam\<lparr>mask_tail := mask_tail_old - 1\<rparr>, l)
   }"

function delete_restructure_flow_loop_logged :: "tcam_unit \<Rightarrow> int \<Rightarrow> logs \<Rightarrow> (tcam_unit \<times> logs) option" where
  "delete_restructure_flow_loop_logged tcam flow_tail_old l =
     (if flow_tail tcam < flow_tail_old - 1 then do {
        dummy_flow \<leftarrow> copy_row FLW_ENT_LEN (flow_table tcam) (flow_tail tcam + 1);
        (tcam', l') \<leftarrow> write_new_flow_entry_logged tcam dummy_flow l;
        delete_restructure_flow_loop_logged tcam' flow_tail_old l' }
      else Some (tcam, l))"
  by pat_completeness auto
termination
  by (relation "measure (\<lambda>(t, old, l). nat (old - flow_tail t))") (auto dest: flow_tail_logged)

definition delete_restructure_flow_logged :: "tcam_unit \<Rightarrow> int \<Rightarrow> logs \<Rightarrow> (tcam_unit \<times> logs) option" where
  "delete_restructure_flow_logged tcam pos l = do {
     let flow_tail_old = flow_tail tcam;
     (tcam, l) \<leftarrow> delete_restructure_flow_loop_logged (tcam\<lparr>flow_tail := pos\<rparr>) flow_tail_old l;
     Some (tcam\<lparr>flow_tail := flow_tail_old - 1\<rparr>, l)
   }"

lemma move_action_forget [forget]:
  "map_option fst (move_action_logged t p q l) = move_action t p q"
  unfolding move_action_logged_def move_action_def
  by (rule forget_plain | rule forget | simp only: split_conv)+

lemma move_action_logged_tail: "move_action_logged t p q l = Some (t', l') \<Longrightarrow> flow_tail t' = flow_tail t"
proof -
  assume "move_action_logged t p q l = Some (t', l')"
  then have "move_action t p q = Some t'" by (rule forget_Some[OF move_action_forget])
  then show ?thesis by (auto simp: move_action_def intro: write_action_flow_tail split: bind_splits)
qed

function delete_restructure_action_loop_logged :: "tcam_unit \<Rightarrow> int \<Rightarrow> logs \<Rightarrow> (tcam_unit \<times> logs) option" where
  "delete_restructure_action_loop_logged flow_unit j l =
     (if j < flow_tail flow_unit then do {
        (flow_unit', l') \<leftarrow> move_action_logged flow_unit (j + 1) j l;
        delete_restructure_action_loop_logged flow_unit' (j + 1) l' }
      else Some (flow_unit, l))"
  by pat_completeness auto
termination
  by (relation "measure (\<lambda>(t, j, l). nat (flow_tail t - j))") (auto dest: move_action_logged_tail)

definition delete_restructure_action_logged :: "tcam_unit \<Rightarrow> int \<Rightarrow> logs \<Rightarrow> (tcam_unit \<times> logs) option" where
  "delete_restructure_action_logged flow_unit pos l = delete_restructure_action_loop_logged flow_unit pos l"

declare restructure_flow_table_loop_logged.simps [simp del] restructure_action_loop_logged.simps [simp del]
  delete_restructure_mask_loop_logged.simps [simp del] delete_restructure_flow_loop_logged.simps [simp del]
  delete_restructure_action_loop_logged.simps [simp del]

text \<open>The loops and what is made of them, without the files.\<close>

lemma restructure_flow_table_loop_forget [forget]: "map_option fst (restructure_flow_table_loop_logged t pos l) = restructure_flow_table_loop t pos"
proof (induction t pos l rule: restructure_flow_table_loop_logged.induct)
  case (1 t pos l)
  show ?case
    unfolding restructure_flow_table_loop_logged.simps[of t pos l] restructure_flow_table_loop.simps[of t pos]
    by (rule forget_bind, rule forget | rule forget_rules | rule 1; (assumption | rule refl) | simp only: split_conv split_paired_all)+
qed

lemma restructure_action_loop_forget [forget]: "map_option fst (restructure_action_loop_logged t k pos l) = restructure_action_loop t k pos"
proof (induction t k pos l rule: restructure_action_loop_logged.induct)
  case (1 t k pos l)
  show ?case
    unfolding restructure_action_loop_logged.simps[of t k pos l] restructure_action_loop.simps[of t k pos]
    by (rule forget_bind, rule forget | rule forget_rules | rule 1; (assumption | rule refl) | simp only: split_conv split_paired_all)+
qed

lemma delete_restructure_mask_loop_forget [forget]: "map_option fst (delete_restructure_mask_loop_logged t old l) = delete_restructure_mask_loop t old"
proof (induction t old l rule: delete_restructure_mask_loop_logged.induct)
  case (1 t old l)
  show ?case
    unfolding delete_restructure_mask_loop_logged.simps[of t old l] delete_restructure_mask_loop.simps[of t old]
    by (rule forget_bind, rule forget | rule forget_rules | rule 1; (assumption | rule refl) | simp only: split_conv split_paired_all)+
qed

lemma delete_restructure_flow_loop_forget [forget]: "map_option fst (delete_restructure_flow_loop_logged t old l) = delete_restructure_flow_loop t old"
proof (induction t old l rule: delete_restructure_flow_loop_logged.induct)
  case (1 t old l)
  show ?case
    unfolding delete_restructure_flow_loop_logged.simps[of t old l] delete_restructure_flow_loop.simps[of t old]
    by (rule forget_bind, rule forget | rule forget_rules | rule 1; (assumption | rule refl) | simp only: split_conv split_paired_all)+
qed

lemma delete_restructure_action_loop_forget [forget]: "map_option fst (delete_restructure_action_loop_logged t j l) = delete_restructure_action_loop t j"
proof (induction t j l rule: delete_restructure_action_loop_logged.induct)
  case (1 t j l)
  show ?case
    unfolding delete_restructure_action_loop_logged.simps[of t j l] delete_restructure_action_loop.simps[of t j]
    by (rule forget_bind, rule forget | rule forget_rules | rule 1; (assumption | rule refl) | simp only: split_conv split_paired_all)+
qed

lemma restructure_flow_table_forget [forget]: "map_option fst (restructure_flow_table_logged t pos l) = restructure_flow_table t pos"
  unfolding restructure_flow_table_logged_def restructure_flow_table_def Let_def
  by (rule forget | rule forget_bind, rule forget | rule forget_rules | simp only: split_conv)+

lemma restructure_action_tables_forget [forget]: "map_option fst (restructure_action_tables_logged t pos l) = restructure_action_tables t pos"
  unfolding restructure_action_tables_logged_def restructure_action_tables_def Let_def
  by (rule forget | rule forget_bind, rule forget | rule forget_rules | simp only: split_conv)+

lemma delete_restructure_mask_forget [forget]: "map_option fst (delete_restructure_mask_logged t pos l) = delete_restructure_mask t pos"
  unfolding delete_restructure_mask_logged_def delete_restructure_mask_def Let_def
  by (rule forget | rule forget_bind, rule forget | rule forget_rules | simp only: split_conv)+

lemma delete_restructure_flow_forget [forget]: "map_option fst (delete_restructure_flow_logged t pos l) = delete_restructure_flow t pos"
  unfolding delete_restructure_flow_logged_def delete_restructure_flow_def Let_def
  by (rule forget | rule forget_bind, rule forget | rule forget_rules | simp only: split_conv)+

lemma delete_restructure_action_forget [forget]: "map_option fst (delete_restructure_action_logged t pos l) = delete_restructure_action t pos"
  unfolding delete_restructure_action_logged_def delete_restructure_action_def Let_def
  by (rule forget | rule forget_bind, rule forget | rule forget_rules | simp only: split_conv)+

section \<open>Adding and deleting\<close>

definition add_to_group_logged ::
  "tcam_unit \<Rightarrow> byte list \<Rightarrow> byte list \<Rightarrow> int \<Rightarrow> logs \<Rightarrow> ((int \<times> tcam_unit \<times> byte list \<times> byte list) \<times> logs) option"
where
  "add_to_group_logged tcam msk flow_entry i l = do {
     mask_group_start \<leftarrow> locate_mask_group tcam i;
     pos \<leftarrow> search_within_mask_group tcam msk flow_entry mask_group_start;
     if pos = RDNDNT then Some ((RDNDNT, tcam, msk, flow_entry), l)
     else do {
       (tcam, l) \<leftarrow> restructure_flow_table_logged tcam pos l;
       flow_entry \<leftarrow> reset_bit flow_entry (44 * 8 + 4);
       let ch = flow_tail tcam;
       (tcam, l) \<leftarrow> write_new_flow_entry_logged (tcam\<lparr>flow_tail := pos\<rparr>) flow_entry l;
       Some ((pos, tcam\<lparr>flow_tail := ch\<rparr>, msk, flow_entry), l) } }"

definition add_new_group_logged ::
  "tcam_unit \<Rightarrow> byte list \<Rightarrow> byte list \<Rightarrow> logs \<Rightarrow> ((int \<times> tcam_unit \<times> byte list \<times> byte list) \<times> logs) option"
where
  "add_new_group_logged tcam msk flow_entry l = do {
     flow_entry \<leftarrow> (if flow_tail tcam = 0 then reset_bit flow_entry (44 * 8 + 4)
                    else set_bit_c flow_entry (44 * 8 + 4));
     ((tcam, msk), l) \<leftarrow> write_new_mask_logged tcam msk l;
     (tcam, l) \<leftarrow> write_new_flow_entry_logged tcam flow_entry l;
     Some ((flow_tail tcam - 1, tcam, msk, flow_entry), l) }"

function add_loop_logged ::
  "tcam_unit \<Rightarrow> byte list \<Rightarrow> byte list \<Rightarrow> int \<Rightarrow> logs \<Rightarrow> ((int \<times> tcam_unit \<times> byte list \<times> byte list) \<times> logs) option"
where
  "add_loop_logged tcam msk flow_entry i l =
     (if i < mask_tail tcam then do {
        k \<leftarrow> mask_differs tcam msk i;
        if \<not> k then add_to_group_logged tcam msk flow_entry i l
        else add_loop_logged tcam msk flow_entry (i + 1) l }
      else add_new_group_logged tcam msk flow_entry l)"
  by pat_completeness auto
termination
  by (relation "measure (\<lambda>(t, _, _, i, _). nat (mask_tail t - i))") auto

declare add_loop_logged.simps [simp del]

definition add_new_flow_entry_logged ::
  "tcam_unit \<Rightarrow> byte list \<Rightarrow> byte list \<Rightarrow> logs \<Rightarrow> ((int \<times> tcam_unit \<times> byte list \<times> byte list) \<times> logs) option"
where
  "add_new_flow_entry_logged tcam msk flow_entry l =
     (if flow_tail tcam \<ge> NO_F_FLWS then Some ((TBL_FULL, tcam, msk, flow_entry), l)
      else add_loop_logged tcam msk flow_entry 0 l)"

definition add_new_entry_logged ::
  "tcam_unit \<Rightarrow> byte list \<Rightarrow> byte list \<Rightarrow> byte list \<Rightarrow> byte list \<Rightarrow> logs \<Rightarrow>
   ((int \<times> tcam_unit \<times> byte list \<times> byte list) \<times> logs) option"
where
  "add_new_entry_logged flow_unit msk flow_entry action_set flag l = do {
     ((pos, flow_unit, msk, flow_entry), l) \<leftarrow> add_new_flow_entry_logged flow_unit msk flow_entry l;
     if pos = TBL_FULL \<or> pos = RDNDNT then Some ((pos, flow_unit, msk, flow_entry), l)
     else do {
       (flow_unit, l) \<leftarrow> (if pos < flow_tail flow_unit - 1 then restructure_action_tables_logged flow_unit pos l
                     else Some (flow_unit, l));
       (flow_unit, l) \<leftarrow> write_new_action_logged flow_unit action_set flag pos l;
       Some ((pos, flow_unit, msk, flow_entry), l) } }"

text \<open>Of a deletion: the row that becomes the first of its group is changed in place, and not in the file.\<close>

definition delete_found_logged :: "tcam_unit \<Rightarrow> int \<Rightarrow> logs \<Rightarrow> (tcam_unit \<times> logs) option" where
  "delete_found_logged tcam flow_pos l = do {
     first \<leftarrow> first_bit tcam flow_pos;
     only \<leftarrow> (if first then
                (if flow_pos = flow_tail tcam - 1 then Some True
                 else first_bit tcam (flow_pos + 1))
              else Some False);
     (tcam, l) \<leftarrow> (if only then do {
                mask_pos \<leftarrow> get_mask_pos tcam flow_pos;
                delete_restructure_mask_logged tcam mask_pos l }
              else Some (tcam, l));
     first \<leftarrow> first_bit tcam flow_pos;
     tcam \<leftarrow> (if first then do {
                next_first \<leftarrow> first_bit tcam (flow_pos + 1);
                if \<not> next_first then do {
                  table \<leftarrow> set_bit_c (flow_table tcam) (((flow_pos + 1) * FLW_ENT_LEN + 44) * 8 + 4);
                  Some (tcam\<lparr>flow_table := table\<rparr>) }
                else Some tcam }
              else Some tcam);
     (tcam, l) \<leftarrow> delete_restructure_flow_logged tcam flow_pos l;
     delete_restructure_action_logged tcam flow_pos l }"

definition delete_flow_entry_logged ::
  "int list \<Rightarrow> tcam_unit \<Rightarrow> byte list \<Rightarrow> logs \<Rightarrow> ((int \<times> tcam_unit) \<times> logs) option" where
  "delete_flow_entry_logged fmask tcam flow_entry l = do {
     (flow_pos, tcam, fmask) \<leftarrow> search_tcam tcam flow_entry fmask;
     (tcam, l) \<leftarrow> delete_found_logged tcam flow_pos l;
     Some ((flow_pos, tcam), l) }"

lemma add_to_group_forget [forget]: "map_option fst (add_to_group_logged t m e i l) = add_to_group t m e i"
  unfolding add_to_group_logged_def add_to_group_def Let_def
  by (rule forget_bind, rule forget | rule forget_rules | simp only: split_conv)+

lemma add_new_group_forget [forget]: "map_option fst (add_new_group_logged t m e l) = add_new_group t m e"
  unfolding add_new_group_logged_def add_new_group_def
  by (rule forget_bind, rule forget | rule forget_rules | simp only: split_conv split_paired_all)+

lemma add_loop_forget [forget]: "map_option fst (add_loop_logged t m e i l) = add_loop t m e i"
proof (induction t m e i l rule: add_loop_logged.induct)
  case (1 t m e i l)
  show ?case
    unfolding add_loop_logged.simps[of t m e i l] add_loop.simps[of t m e i]
    by (rule forget_rules | rule forget | rule 1; (assumption | rule refl | blast))+
qed

lemma add_new_flow_entry_forget [forget]:
  "map_option fst (add_new_flow_entry_logged t m e l) = add_new_flow_entry t m e"
  unfolding add_new_flow_entry_logged_def add_new_flow_entry_def
  by (rule forget_rules | rule forget)+

text \<open>Logging changes nothing of what is computed.\<close>

lemma add_new_entry_forget [forget]:
  "map_option fst (add_new_entry_logged t m e a f l) = add_new_entry t m e a f"
  unfolding add_new_entry_logged_def add_new_entry_def
  by (rule forget | rule forget_bind, rule forget | rule forget_bind, rule forget_if
    | rule forget_rules | simp only: split_conv split_paired_all)+

lemma delete_found_forget [forget]: "map_option fst (delete_found_logged t p l) = delete_found t p"
  unfolding delete_found_logged_def delete_found_def
  by (rule forget | rule forget_bind, rule forget | rule forget_rules | rule forget_bind, rule forget_if
    | simp only: split_conv split_paired_all)+

lemma delete_flow_entry_forget [forget]:
  "map_option fst (delete_flow_entry_logged mp t e l) = delete_flow_entry mp t e"
  unfolding delete_flow_entry_logged_def delete_flow_entry_def
  by (rule forget_bind, rule forget | rule forget_rules | simp only: split_conv split_paired_all)+

end
