(* ===== verification/Tcam_Log_Reading.thy ===== *)
theory Tcam_Log_Reading
  imports Tcam_Logs
begin

text \<open>
  What the log files of the flow unit are good for: a reader for their lines, and the proof that
  writing the lines one after the other into a table gives the table the unit has. One locale
  says what a line must be like; the lines of the three files are instances.
\<close>

section \<open>Reading a file\<close>

text \<open>The pieces of a text between the characters \<open>c\<close>.\<close>

primrec pieces :: "char \<Rightarrow> string \<Rightarrow> string list" where
  "pieces c [] = [[]]"
| "pieces c (x # xs) = (if x = c then [] # pieces c xs else (x # hd (pieces c xs)) # tl (pieces c xs))"

definition nonempty_pieces :: "char \<Rightarrow> string \<Rightarrow> string list" where
  "nonempty_pieces c s = filter (\<lambda>p. p \<noteq> []) (pieces c s)"

text \<open>A line: a position and a full stop, then bytes; blanks between them.\<close>

definition read_line :: "string \<Rightarrow> nat \<times> byte list" where
  "read_line s = (let ws = nonempty_pieces (CHR '' '') s in
     (undec (butlast (hd ws)), map (\<lambda>w. of_nat (undec w)) (tl ws)))"

definition read_log :: "string \<Rightarrow> (nat \<times> byte list) list" where
  "read_log s = map read_line (nonempty_pieces (CHR 0x0A) s)"

text \<open>Writing rows of width \<open>w\<close> into a table, and rebuilding a table from a file.\<close>

definition replay :: "nat \<Rightarrow> (nat \<times> byte list) list \<Rightarrow> byte list \<Rightarrow> byte list" where
  "replay w ls t = foldl (\<lambda>t (p, r). blit t (w * p) r) t ls"

definition rebuild :: "nat \<Rightarrow> string \<Rightarrow> byte list \<Rightarrow> byte list" where
  "rebuild w s t = replay w (read_log s) t"

lemma pieces_append: "c \<notin> set a \<Longrightarrow> pieces c (a @ c # s) = a # pieces c s"
  by (induction a) auto

lemma pieces_none: "c \<notin> set a \<Longrightarrow> pieces c a = [a]"
  by (induction a) auto

lemma nonempty_pieces_Nil [simp]: "nonempty_pieces c [] = []"
  by (simp add: nonempty_pieces_def)

lemma nonempty_pieces_append:
  "c \<notin> set a \<Longrightarrow> a \<noteq> [] \<Longrightarrow> nonempty_pieces c (a @ c # s) = a # nonempty_pieces c s"
  by (simp add: nonempty_pieces_def pieces_append)

lemma nonempty_pieces_last: "c \<notin> set a \<Longrightarrow> a \<noteq> [] \<Longrightarrow> nonempty_pieces c a = [a]"
  by (simp add: nonempty_pieces_def pieces_none)

text \<open>A number in a line has digits only.\<close>

lemma dec_char: "c \<in> set (dec n) \<Longrightarrow> \<exists>k < 10. c = hex_digit k"
proof (induction n rule: dec.induct)
  case (1 n)
  show ?case
  proof (cases "n < 10")
    case True
    then show ?thesis using 1(2) by (subst (asm) dec.simps) auto
  next
    case False
    then have "c \<in> set (dec (n div 10)) \<or> c = hex_digit (n mod 10)"
      using 1(2) by (subst (asm) dec.simps) auto
    then show ?thesis using 1(1) False mod_less_divisor[of 10 n] by fastforce
  qed
qed

lemma dec_no: "of_char c < (48 :: nat) \<Longrightarrow> c \<notin> set (dec n)"
  using dec_char[of c n] by (auto simp: hex_digit_def of_char_of)

lemma dec_nonempty [simp]: "dec n \<noteq> []"
  by (subst dec.simps) auto

lemma dec_no_blank [simp]: "CHR '' '' \<notin> set (dec n)" "CHR 0x0A \<notin> set (dec n)"
  by (rule dec_no, simp)+

lemma of_nat_undec_dec_byte [simp]: "(of_nat (undec (dec_byte b)) :: byte) = b"
  by (simp add: dec_byte_def)

definition bytes_text :: "byte list \<Rightarrow> string" where
  "bytes_text r = concat (map (\<lambda>b. dec_byte b @ '' '') r)"

lemma bytes_text_pieces: "nonempty_pieces (CHR '' '') (bytes_text r @ s) = map dec_byte r @ nonempty_pieces (CHR '' '') s"
  by (induction r) (simp_all add: bytes_text_def dec_byte_def nonempty_pieces_append)

lemma bytes_text_no_nl: "CHR 0x0A \<notin> set (bytes_text r)"
  by (auto simp: bytes_text_def dec_byte_def)

lemma read_line_text:
  "read_line (dec p @ ''. '' @ bytes_text r @ s) =
   (p, r @ map (\<lambda>w. of_nat (undec w)) (nonempty_pieces (CHR '' '') s))"
proof -
  have "nonempty_pieces (CHR '' '') ((dec p @ ''.'') @ CHR '' '' # bytes_text r @ s) =
      (dec p @ ''.'') # map dec_byte r @ nonempty_pieces (CHR '' '') s"
    by (subst nonempty_pieces_append) (simp_all add: bytes_text_pieces)
  then show ?thesis by (simp add: read_line_def comp_def)
qed

section \<open>What a line must be like\<close>

locale row_log =
  fixes w :: nat and line :: "nat \<Rightarrow> byte list \<Rightarrow> string"
  assumes one_line: "CHR 0x0A \<notin> set (line p r)"
    and line_nonempty: "line p r \<noteq> []"
    and line_read: "length r = w \<Longrightarrow> read_line (line p r) = (p, r)"
begin

definition text_of :: "(nat \<times> byte list) list \<Rightarrow> string" where
  "text_of ls = concat (map (\<lambda>(p, r). line p r @ nl) ls)"

lemma text_of_simps [simp]:
  "text_of [] = []"
  "text_of ((p, r) # ls) = line p r @ nl @ text_of ls"
  "text_of (ls @ ms) = text_of ls @ text_of ms"
  by (simp_all add: text_of_def)

lemma read_log_text_of: "\<forall>(p, r) \<in> set ls. length r = w \<Longrightarrow> read_log (text_of ls) = ls"
proof (induction ls)
  case (Cons x ls)
  then show ?case
    using nonempty_pieces_append[of "CHR 0x0A" "line (fst x) (snd x)" "text_of ls"] one_line line_nonempty
    by (cases x) (simp add: read_log_def line_read)
qed (simp add: read_log_def)

text \<open>The file has grown by some lines, and the table is what these lines make of it.\<close>

definition follows :: "byte list \<times> string \<Rightarrow> byte list \<times> string \<Rightarrow> bool" where
  "follows s s' \<longleftrightarrow> (\<exists>ls. (\<forall>(p, r) \<in> set ls. length r = w) \<and> snd s' = snd s @ text_of ls \<and> fst s' = replay w ls (fst s))"

lemma follows_refl [simp]: "follows s s"
  unfolding follows_def by (intro exI[of _ "[]"]) (simp add: replay_def)

lemma follows_trans: "follows s t \<Longrightarrow> follows t u \<Longrightarrow> follows s u"
proof -
  assume "follows s t" "follows t u"
  then obtain ls ms where "\<forall>(p, r) \<in> set ls. length r = w" "snd t = snd s @ text_of ls" "fst t = replay w ls (fst s)"
    "\<forall>(p, r) \<in> set ms. length r = w" "snd u = snd t @ text_of ms" "fst u = replay w ms (fst t)"
    unfolding follows_def by blast
  then show ?thesis unfolding follows_def by (intro exI[of _ "ls @ ms"]) (auto simp: replay_def)
qed

lemma follows_line:
  "length r = w \<Longrightarrow> follows (t, s) (blit t (w * p) r, s @ line p r @ nl)"
  unfolding follows_def by (intro exI[of _ "[(p, r)]"]) (simp add: replay_def)

lemma follows_rebuild: "follows (t, []) (t', s) \<Longrightarrow> t' = rebuild w s t"
  unfolding follows_def rebuild_def by (auto simp: read_log_text_of)

end

section \<open>The lines of the three files\<close>

definition bytes_line :: "nat \<Rightarrow> byte list \<Rightarrow> string" where
  "bytes_line p r = dec p @ ''. '' @ bytes_text r"

text \<open>The last two numbers of a line for a flow entry have no blank behind them.\<close>

definition flow_entry_line :: "nat \<Rightarrow> byte list \<Rightarrow> string" where
  "flow_entry_line p r = dec p @ ''. '' @ bytes_text (take 47 r) @ dec_byte (last r)"

interpretation mask_lines: row_log 45 bytes_line
  using read_line_text[of _ _ "[]"]
  by unfold_locales (auto simp: bytes_line_def bytes_text_no_nl)

interpretation action_lines: row_log 31 bytes_line
  using read_line_text[of _ _ "[]"]
  by unfold_locales (auto simp: bytes_line_def bytes_text_no_nl)

interpretation flow_lines: row_log 48 flow_entry_line
proof
  fix p r
  show "CHR 0x0A \<notin> set (flow_entry_line p r)" "flow_entry_line p r \<noteq> []"
    by (auto simp: flow_entry_line_def bytes_text_no_nl dec_byte_def)
  assume r: "length r = 48"
  then have "r \<noteq> []" "butlast r = take 47 r" by (auto simp: butlast_conv_take)
  then have "take 47 r @ [last r] = r" using append_butlast_last_id[of r] by simp
  then show "read_line (flow_entry_line p r) = (p, r)"
    using read_line_text[of p "take 47 r" "dec_byte (last r)"]
    by (simp add: flow_entry_line_def nonempty_pieces_last dec_byte_def)
qed

section \<open>Every writer writes what it logs\<close>

lemma copy_logged:
  assumes "c_for n (\<lambda>i (table, fp). do {
       b \<leftarrow> cget src (int i);
       table \<leftarrow> cput table (k + int i) b;
       Some (table, fp @ dec_byte b @ '' '') }) (t, fp) = Some (t', fp')" and "0 < n"
  shows "0 \<le> k \<and> n \<le> length src \<and> nat k + n \<le> length t \<and> t' = blit t (nat k) (take n src) \<and>
     fp' = fp @ bytes_text (take n src)"
  using assms
proof (induction n arbitrary: t' fp')
  case (Suc n)
  obtain u fu where u: "c_for n (\<lambda>i (table, fp). do {
       b \<leftarrow> cget src (int i);
       table \<leftarrow> cput table (k + int i) b;
       Some (table, fp @ dec_byte b @ '' '') }) (t, fp) = Some (u, fu)"
    and n: "n < length src" "0 \<le> k + int n" "k + int n < int (length u)" "t' = u[nat (k + int n) := src ! n]"
      "fp' = fu @ dec_byte (src ! n) @ '' ''"
    using Suc.prems(1) by (auto simp: cget_def cput_def split: bind_splits if_splits)
  show ?case
  proof (cases n)
    case 0
    then have "u = t" "fu = fp" using u by simp_all
    with n 0 show ?thesis by (cases src) (auto simp: bytes_text_def blit_update)
  next
    case (Suc m)
    then have ih: "0 \<le> k" "n \<le> length src" "nat k + n \<le> length t" "u = blit t (nat k) (take n src)"
      "fu = fp @ bytes_text (take n src)" using Suc.IH[OF u] by auto
    then have "nat (k + int n) = nat k + n" by simp
    then show ?thesis using ih n
      by (simp add: length_blit take_Suc_conv_app_nth bytes_text_def blit_grow nat_add_distrib)
  qed
qed simp

definition masks_follow :: "tcam_unit \<times> logs \<Rightarrow> tcam_unit \<times> logs \<Rightarrow> bool" where
  "masks_follow s s' \<longleftrightarrow> mask_lines.follows (mask_table (fst s), mask_log (snd s)) (mask_table (fst s'), mask_log (snd s'))"

definition actions_follow :: "tcam_unit \<times> logs \<Rightarrow> tcam_unit \<times> logs \<Rightarrow> bool" where
  "actions_follow s s' \<longleftrightarrow>
     action_lines.follows (action_table (fst s), action_log (snd s)) (action_table (fst s'), action_log (snd s'))"

definition flows_follow :: "tcam_unit \<times> logs \<Rightarrow> tcam_unit \<times> logs \<Rightarrow> bool" where
  "flows_follow s s' \<longleftrightarrow> flow_lines.follows (flow_table (fst s), flow_log (snd s)) (flow_table (fst s'), flow_log (snd s'))"

text \<open>All three tables, and the two that a deletion does not change in place.\<close>

definition all_follow :: "tcam_unit \<times> logs \<Rightarrow> tcam_unit \<times> logs \<Rightarrow> bool" where
  "all_follow s s' \<longleftrightarrow> masks_follow s s' \<and> actions_follow s s' \<and> flows_follow s s'"

definition two_follow :: "tcam_unit \<times> logs \<Rightarrow> tcam_unit \<times> logs \<Rightarrow> bool" where
  "two_follow s s' \<longleftrightarrow> masks_follow s s' \<and> actions_follow s s'"

lemmas follow_defs = all_follow_def two_follow_def masks_follow_def actions_follow_def flows_follow_def

lemma all_two: "all_follow s s' \<Longrightarrow> two_follow s s'"
  by (simp add: all_follow_def two_follow_def)

lemma all_follow_refl: "all_follow (t, l) (t\<lparr>flow_tail := a, mask_tail := b\<rparr>, l)" "all_follow s s"
  "all_follow (t, l) (t\<lparr>flow_tail := a\<rparr>, l)" "all_follow (t, l) (t\<lparr>mask_tail := b\<rparr>, l)"
  by (simp_all add: follow_defs)

lemma all_follow_trans: "all_follow s t \<Longrightarrow> all_follow t u \<Longrightarrow> all_follow s u"
  unfolding follow_defs by (blast intro: mask_lines.follows_trans action_lines.follows_trans flow_lines.follows_trans)

lemma two_follow_trans: "two_follow s t \<Longrightarrow> two_follow t u \<Longrightarrow> two_follow s u"
  unfolding follow_defs by (blast intro: mask_lines.follows_trans action_lines.follows_trans)

text \<open>Tails are in no table.\<close>

lemma all_follow_tails [simp]:
  "all_follow s (t\<lparr>flow_tail := a\<rparr>, l) = all_follow s (t, l)"
  "all_follow s (t\<lparr>mask_tail := b\<rparr>, l) = all_follow s (t, l)"
  "all_follow (t\<lparr>flow_tail := a\<rparr>, l) s = all_follow (t, l) s"
  "all_follow (t\<lparr>mask_tail := b\<rparr>, l) s = all_follow (t, l) s"
  by (simp_all add: follow_defs)

lemma dec_int_pos: "0 \<le> i \<Longrightarrow> dec_int i = dec (nat i)"
  by (simp add: dec_int_def)

lemma write_new_mask_follows:
  assumes "write_new_mask_logged t m l = Some ((t', m'), l')"
  shows "all_follow (t, l) (t', l')"
proof -
  obtain m2 table fp where w: "c_for 45 (\<lambda>i (table, fp). do {
       b \<leftarrow> cget m2 (int i);
       table \<leftarrow> cput table (mask_tail t * 45 + int i) b;
       Some (table, fp @ dec_byte b @ '' '') }) (mask_table t, mask_log l @ dec_int (mask_tail t) @ ''. '') = Some (table, fp)"
    and t': "t' = t\<lparr>mask_table := table, mask_tail := mask_tail t + 1\<rparr>" "l' = l\<lparr>mask_log := fp @ nl\<rparr>"
    using assms by (auto simp: write_new_mask_logged_def MTCH_FLD_LEN_i_def Let_def split: bind_splits)
  note c = copy_logged[OF w]
  have "mask_lines.follows (mask_table t, mask_log l)
      (blit (mask_table t) (45 * nat (mask_tail t)) (take 45 m2), mask_log l @ bytes_line (nat (mask_tail t)) (take 45 m2) @ nl)"
    using c by (intro mask_lines.follows_line) simp
  then show ?thesis
    using c by (simp add: follow_defs t' bytes_line_def dec_int_pos nat_mult_distrib mult.commute)
qed

lemma write_new_action_follows:
  assumes "write_new_action_logged t a f pos l = Some (t', l')"
  shows "all_follow (t, l) (t', l')"
proof -
  obtain table fp flags where w: "c_for 31 (\<lambda>i (table, fp). do {
       b \<leftarrow> cget a (int i);
       table \<leftarrow> cput table (pos * 31 + int i) b;
       Some (table, fp @ dec_byte b @ '' '') }) (action_table t, action_log l @ dec_int pos @ ''. '') = Some (table, fp)"
    and t': "t' = t\<lparr>action_table := table, flag_table := flags\<rparr>" "l' = l\<lparr>action_log := fp @ nl\<rparr>"
    using assms by (auto simp: write_new_action_logged_def ACTN_ST_LEN_def Let_def split: bind_splits)
  note c = copy_logged[OF w]
  have "action_lines.follows (action_table t, action_log l)
      (blit (action_table t) (31 * nat pos) (take 31 a), action_log l @ bytes_line (nat pos) (take 31 a) @ nl)"
    using c by (intro action_lines.follows_line) simp
  then show ?thesis
    using c by (simp add: follow_defs t' bytes_line_def dec_int_pos nat_mult_distrib mult.commute)
qed

lemma flow_entry_line_fresh:
  "46 \<le> length e \<Longrightarrow> flow_entry_line p (fresh e) = dec p @ ''. '' @ bytes_text (take 46 e) @ dec 0 @ '' '' @ dec 255"
  by (simp add: flow_entry_line_def fresh_def bytes_text_def dec_byte_def)

lemma write_new_flow_entry_follows:
  assumes "write_new_flow_entry_logged t e l = Some (t', l')"
  shows "all_follow (t, l) (t', l')"
proof -
  let ?k = "flow_tail t * 48"
  obtain table table' table'' fp where w: "c_for 46 (\<lambda>i (table, fp). do {
       b \<leftarrow> cget e (int i);
       table \<leftarrow> cput table (?k + int i) b;
       Some (table, fp @ dec_byte b @ '' '') }) (flow_table t, flow_log l @ dec_int (flow_tail t) @ ''. '') = Some (table, fp)"
    and p: "cput table (?k + 46) 0 = Some table'" "cput table' (?k + 46 + 1) 255 = Some table''"
    and t': "t' = t\<lparr>flow_table := table'', flow_tail := flow_tail t + 1\<rparr>"
      "l' = l\<lparr>flow_log := fp @ dec 0 @ '' '' @ dec 255 @ nl\<rparr>"
    using assms by (auto simp: write_new_flow_entry_logged_def MTCH_FLD_LEN_i_def FLW_ENT_LEN_def Let_def split: bind_splits)
  note c = copy_logged[OF w, simplified]
  have nk: "nat ?k = 48 * nat (flow_tail t)" using c by (simp add: nat_mult_distrib)
  have k: "0 \<le> flow_tail t" "46 \<le> length e" "48 * nat (flow_tail t) + 46 \<le> length (flow_table t)"
    using c nk by simp_all
  have i: "nat (?k + 46) = 48 * nat (flow_tail t) + 46" "nat (?k + 46 + 1) = 48 * nat (flow_tail t) + 47"
    using k(1) by (simp_all add: nat_add_distrib nk)
  have tb: "table = blit (flow_table t) (48 * nat (flow_tail t)) (take 46 e)" using c nk by simp
  have "table'' = blit (flow_table t) (48 * nat (flow_tail t)) (fresh e)"
    using p tb k i by (auto simp: cput_def length_blit blit_grow fresh_def split: if_splits)
  moreover have "flow_lines.follows (flow_table t, flow_log l)
      (blit (flow_table t) (48 * nat (flow_tail t)) (fresh e), flow_log l @ flow_entry_line (nat (flow_tail t)) (fresh e) @ nl)"
    using k(2) by (intro flow_lines.follows_line) (simp add: length_fresh)
  ultimately show ?thesis
    using c k by (simp add: follow_defs t' flow_entry_line_fresh dec_int_pos)
qed

lemmas writers_follow = write_new_mask_follows write_new_action_follows write_new_flow_entry_follows

section \<open>So do the functions that call them\<close>

lemma move_action_follows: "move_action_logged t p q l = Some (t', l') \<Longrightarrow> all_follow (t, l) (t', l')"
  by (auto simp: move_action_logged_def intro: write_new_action_follows split: bind_splits)

lemma write_back_follows:
  "write_new_flow_entry_logged t e l = Some (t', l') \<Longrightarrow> all_follow (t, l) (t'\<lparr>flow_tail := k\<rparr>, l')"
  by (simp add: write_new_flow_entry_follows)

lemma restructure_flow_table_loop_follows:
  "restructure_flow_table_loop_logged t pos l = Some (t', l') \<Longrightarrow> all_follow (t, l) (t', l')"
proof (induction t pos l rule: restructure_flow_table_loop_logged.induct)
  case (1 t pos l)
  show ?case
    using 1(2) unfolding restructure_flow_table_loop_logged.simps[of t pos l]
    by (auto simp: all_follow_refl split: bind_splits if_splits)
      (blast intro: all_follow_trans[OF write_back_follows 1(1)[OF _ _ _ refl]])
qed

lemma restructure_action_loop_follows:
  "restructure_action_loop_logged t k pos l = Some (t', l') \<Longrightarrow> all_follow (t, l) (t', l')"
proof (induction t k pos l rule: restructure_action_loop_logged.induct)
  case (1 t k pos l)
  show ?case
    using 1(2) unfolding restructure_action_loop_logged.simps[of t k pos l]
    by (auto simp: all_follow_refl split: bind_splits if_splits)
      (blast intro: all_follow_trans[OF move_action_follows 1(1)[OF _ _ refl]])
qed

lemma delete_restructure_mask_loop_follows:
  "delete_restructure_mask_loop_logged t old l = Some (t', l') \<Longrightarrow> all_follow (t, l) (t', l')"
proof (induction t old l rule: delete_restructure_mask_loop_logged.induct)
  case (1 t old l)
  show ?case
    using 1(2) unfolding delete_restructure_mask_loop_logged.simps[of t old l]
    by (auto simp: all_follow_refl split: bind_splits if_splits)
      (blast intro: all_follow_trans[OF write_new_mask_follows 1(1)[OF _ _ _ refl refl]])
qed

lemma delete_restructure_flow_loop_follows:
  "delete_restructure_flow_loop_logged t old l = Some (t', l') \<Longrightarrow> all_follow (t, l) (t', l')"
proof (induction t old l rule: delete_restructure_flow_loop_logged.induct)
  case (1 t old l)
  show ?case
    using 1(2) unfolding delete_restructure_flow_loop_logged.simps[of t old l]
    by (auto simp: all_follow_refl split: bind_splits if_splits)
      (blast intro: all_follow_trans[OF write_new_flow_entry_follows 1(1)[OF _ _ _ refl]])
qed

lemma delete_restructure_action_loop_follows:
  "delete_restructure_action_loop_logged t j l = Some (t', l') \<Longrightarrow> all_follow (t, l) (t', l')"
proof (induction t j l rule: delete_restructure_action_loop_logged.induct)
  case (1 t j l)
  show ?case
    using 1(2) unfolding delete_restructure_action_loop_logged.simps[of t j l]
    by (auto simp: all_follow_refl split: bind_splits if_splits)
      (blast intro: all_follow_trans[OF move_action_follows 1(1)[OF _ _ refl]])
qed

lemma restructure_flow_table_follows: "restructure_flow_table_logged t pos l = Some (t', l') \<Longrightarrow> all_follow (t, l) (t', l')"
  by (auto simp: restructure_flow_table_logged_def Let_def dest!: restructure_flow_table_loop_follows split: bind_splits)

lemma restructure_action_tables_follows: "restructure_action_tables_logged t pos l = Some (t', l') \<Longrightarrow> all_follow (t, l) (t', l')"
  by (auto simp: restructure_action_tables_logged_def Let_def dest!: restructure_action_loop_follows split: bind_splits)

lemma delete_restructure_mask_follows: "delete_restructure_mask_logged t pos l = Some (t', l') \<Longrightarrow> all_follow (t, l) (t', l')"
  by (auto simp: delete_restructure_mask_logged_def Let_def dest!: delete_restructure_mask_loop_follows split: bind_splits)

lemma delete_restructure_flow_follows: "delete_restructure_flow_logged t pos l = Some (t', l') \<Longrightarrow> all_follow (t, l) (t', l')"
  by (auto simp: delete_restructure_flow_logged_def Let_def dest!: delete_restructure_flow_loop_follows split: bind_splits)

lemma delete_restructure_action_follows: "delete_restructure_action_logged t pos l = Some (t', l') \<Longrightarrow> all_follow (t, l) (t', l')"
  by (auto simp: delete_restructure_action_logged_def Let_def dest!: delete_restructure_action_loop_follows split: bind_splits)

lemma add_to_group_follows:
  "add_to_group_logged t m e i l = Some ((r, t', m', e'), l') \<Longrightarrow> all_follow (t, l) (t', l')"
  by (auto simp: add_to_group_logged_def all_follow_refl Let_def split: bind_splits if_splits
    dest!: restructure_flow_table_follows write_new_flow_entry_follows) (blast intro: all_follow_trans)

lemma add_new_group_follows:
  "add_new_group_logged t m e l = Some ((r, t', m', e'), l') \<Longrightarrow> all_follow (t, l) (t', l')"
  by (auto simp: add_new_group_logged_def split: bind_splits if_splits
    dest!: write_new_mask_follows write_new_flow_entry_follows) (blast intro: all_follow_trans)+

lemma add_loop_follows:
  "add_loop_logged t m e i l = Some ((r, t', m', e'), l') \<Longrightarrow> all_follow (t, l) (t', l')"
proof (induction t m e i l rule: add_loop_logged.induct)
  case (1 t m e i l)
  show ?case
    using 1(2) unfolding add_loop_logged.simps[of t m e i l]
    by (auto intro: 1(1) dest: add_to_group_follows add_new_group_follows split: bind_splits if_splits)
qed

lemma add_new_entry_follows:
  assumes "add_new_entry_logged t m e a f l = Some ((r, t', m', e'), l')"
  shows "all_follow (t, l) (t', l')"
proof -
  have "all_follow (t, l) (u, k)" if "add_new_flow_entry_logged t m e l = Some ((p, u, m2, e2), k)" for p u m2 e2 k
    using that by (auto simp: add_new_flow_entry_logged_def all_follow_refl dest: add_loop_follows split: if_splits)
  then show ?thesis
    using assms by (auto simp: add_new_entry_logged_def split: bind_splits if_splits
      dest!: restructure_action_tables_follows write_new_action_follows) (blast intro: all_follow_trans)+
qed

text \<open>A lookup writes to the flow table only.\<close>

lemma search_tcam_frame:
  "search_tcam t f mp = Some (r, t', mp') \<Longrightarrow> mask_table t' = mask_table t \<and> action_table t' = action_table t"
proof -
  have hit: "mask_table u' = mask_table u \<and> action_table u' = action_table u"
    if "search_tcam_hit u x y z ps = Some (u', q, ps')" for u x y z ps u' q ps'
    using that by (auto simp: search_tcam_hit_def Let_def split: bind_splits if_splits)
  have "search_tcam_loop t f i j k mp = Some (r, t', mp') \<Longrightarrow>
      mask_table t' = mask_table t \<and> action_table t' = action_table t" for i j k
  proof (induction t f i j k mp rule: search_tcam_loop.induct)
    case (1 t f i j k mp)
    show ?case
      using 1(2) unfolding search_tcam_loop.simps[of t f i j k mp]
      by (auto simp: Let_def split: bind_splits if_splits dest: hit dest!: 1(1)[OF _ _ refl _ _ _ refl refl])
  qed
  then show "search_tcam t f mp = Some (r, t', mp') \<Longrightarrow> mask_table t' = mask_table t \<and> action_table t' = action_table t"
    by (simp add: search_tcam_def)
qed

lemma search_tcam_follows: "search_tcam t f mp = Some (r, t', mp') \<Longrightarrow> two_follow (t, l) (t', l)"
  by (drule search_tcam_frame) (simp add: follow_defs)

lemma delete_flow_entry_follows:
  assumes "delete_flow_entry_logged mp t e l = Some ((r, t'), l')"
  shows "two_follow (t, l) (t', l')"
proof -
  obtain u ps where u: "search_tcam t e mp = Some (r, u, ps)" "delete_found_logged u r l = Some (t', l')"
    using assms by (auto simp: delete_flow_entry_logged_def split: bind_splits)
  have "two_follow (t, l) (u, l)" by (rule search_tcam_follows[OF u(1)])
  moreover have "two_follow (u, l) (t', l')"
  proof -
    obtain only first v k w x k2 where
      v: "(if only then do { mask_pos \<leftarrow> get_mask_pos u r; delete_restructure_mask_logged u mask_pos l } else Some (u, l)) = Some (v, k)"
      and w: "(if first then do {
                next_first \<leftarrow> first_bit v (r + 1);
                if \<not> next_first then do {
                  table \<leftarrow> set_bit_c (flow_table v) (((r + 1) * FLW_ENT_LEN + 44) * 8 + 4);
                  Some (v\<lparr>flow_table := table\<rparr>) }
                else Some v }
              else Some v) = Some w"
      and x: "delete_restructure_flow_logged w r k = Some (x, k2)" "delete_restructure_action_logged x r k2 = Some (t', l')"
      using u(2) by (simp only: delete_found_logged_def Option.bind_eq_Some_conv split_paired_Ex split_conv) blast
    have "all_follow (u, l) (v, k)"
      using v by (auto simp: all_follow_refl dest: delete_restructure_mask_follows split: if_splits bind_splits)
    moreover have "two_follow (v, k) (w, k)" using w by (auto simp: follow_defs split: if_splits bind_splits)
    moreover have "all_follow (w, k) (t', l')"
      using x delete_restructure_flow_follows delete_restructure_action_follows all_follow_trans by blast
    ultimately show ?thesis by (blast intro: all_two two_follow_trans)
  qed
  ultimately show ?thesis by (rule two_follow_trans)
qed

section \<open>Runs of calls\<close>

datatype table_call =
    Add "byte list" "byte list" "byte list" "byte list"
  | Look "int list" "byte list"
  | Delete "int list" "byte list"

text \<open>What a call makes of the tables, and of tables and files.\<close>

primrec call :: "table_call \<Rightarrow> tcam_unit \<Rightarrow> tcam_unit option" where
  "call (Add m e a f) t = do { (r, t, m, e) \<leftarrow> add_new_entry t m e a f; Some t }"
| "call (Look mp e) t = do { (r, t, mp) \<leftarrow> search_tcam t e mp; Some t }"
| "call (Delete mp e) t = do { (r, t) \<leftarrow> delete_flow_entry mp t e; Some t }"

primrec call_logged :: "table_call \<Rightarrow> tcam_unit \<Rightarrow> logs \<Rightarrow> (tcam_unit \<times> logs) option" where
  "call_logged (Add m e a f) t l = do { ((r, t, m, e), l) \<leftarrow> add_new_entry_logged t m e a f l; Some (t, l) }"
| "call_logged (Look mp e) t l = do { (r, t, mp) \<leftarrow> search_tcam t e mp; Some (t, l) }"
| "call_logged (Delete mp e) t l = do { ((r, t), l) \<leftarrow> delete_flow_entry_logged mp t e l; Some (t, l) }"

primrec calls :: "table_call list \<Rightarrow> tcam_unit \<Rightarrow> tcam_unit option" where
  "calls [] t = Some t"
| "calls (c # cs) t = do { t \<leftarrow> call c t; calls cs t }"

primrec calls_logged :: "table_call list \<Rightarrow> tcam_unit \<Rightarrow> logs \<Rightarrow> (tcam_unit \<times> logs) option" where
  "calls_logged [] t l = Some (t, l)"
| "calls_logged (c # cs) t l = do { (t, l) \<leftarrow> call_logged c t l; calls_logged cs t l }"

definition no_logs :: logs where
  "no_logs = \<lparr>mask_log = [], flow_log = [], action_log = []\<rparr>"

text \<open>An addition with arrays of the declared sizes.\<close>

fun sized_add :: "table_call \<Rightarrow> bool" where
  "sized_add (Add m e a f) = (length m = 45 \<and> 46 \<le> length e \<and> 31 \<le> length a \<and> 2 \<le> length f)"
| "sized_add _ = False"

lemma call_forget [forget]: "map_option fst (call_logged c t l) = call c t"
  by (cases c; simp; (rule forget_bind, rule forget | rule forget_rules | simp only: split_conv split_paired_all)+)

lemma calls_forget: "map_option fst (calls_logged cs t l) = calls cs t"
proof (induction cs arbitrary: t l)
  case (Cons c cs)
  show ?case
    unfolding calls_logged.simps calls.simps
    by (rule forget_bind, rule forget | rule Cons | simp only: split_conv)+
qed simp

lemma calls_two_follow: "calls_logged cs t l = Some (t', l') \<Longrightarrow> two_follow (t, l) (t', l')"
proof (induction cs arbitrary: t l)
  case Nil
  then show ?case using all_follow_refl all_two by simp
next
  case (Cons c cs)
  then obtain u k where u: "call_logged c t l = Some (u, k)" "calls_logged cs u k = Some (t', l')"
    by (auto split: bind_splits)
  have "two_follow (t, l) (u, k)"
    using u(1) by (cases c) (auto split: bind_splits
      intro: all_two add_new_entry_follows delete_flow_entry_follows search_tcam_follows)
  then show ?case using Cons.IH[OF u(2)] by (rule two_follow_trans)
qed

lemma adds_all_follow:
  "calls_logged cs t l = Some (t', l') \<Longrightarrow> list_all sized_add cs \<Longrightarrow> all_follow (t, l) (t', l')"
proof (induction cs arbitrary: t l)
  case Nil
  then show ?case using all_follow_refl by simp
next
  case (Cons c cs)
  then obtain u k where u: "call_logged c t l = Some (u, k)" "calls_logged cs u k = Some (t', l')"
    by (auto split: bind_splits)
  have "all_follow (t, l) (u, k)"
    using u(1) Cons.prems(2) by (cases c) (auto split: bind_splits dest: add_new_entry_follows)
  then show ?case using Cons.IH[OF u(2)] Cons.prems(2) by (auto intro: all_follow_trans)
qed

lemma adds_return: "tcam_abs t gs \<Longrightarrow> list_all sized_add cs \<Longrightarrow> \<exists>t' gs'. calls cs t = Some t' \<and> tcam_abs t' gs'"
proof (induction cs arbitrary: t gs)
  case (Cons c cs)
  obtain m e a f where c: "c = Add m e a f" "length m = 45" "46 \<le> length e" "31 \<le> length a" "2 \<le> length f"
    using Cons.prems(2) by (cases c) auto
  then obtain r u m' e' gs' where "add_new_entry t m e a f = Some (r, u, m', e')" "tcam_abs u gs'"
    using add_new_entry_total[OF Cons.prems(1)] by blast
  then show ?case using Cons c by simp
qed auto

text \<open>
  C18. The log files hold the tables. From empty tables and files, any sequence of additions returns, does
  to the tables what it does without files, and leaves three files from which the three tables can be
  rebuilt: reading the lines back and writing each row to its position gives exactly the mask,
  flow and action table, also where entries were moved to make room.
\<close>

theorem tables_rebuilt_from_logs:
  assumes "tables_ok t" "flow_tail t = 0" "mask_tail t = 0" "list_all sized_add cs"
  shows "\<exists>t' l. calls_logged cs t no_logs = Some (t', l) \<and> calls cs t = Some t' \<and>
     mask_table t' = rebuild 45 (mask_log l) (mask_table t) \<and>
     flow_table t' = rebuild 48 (flow_log l) (flow_table t) \<and>
     action_table t' = rebuild 31 (action_log l) (action_table t)"
proof -
  have "tcam_abs t []" using assms(1-3) by (simp add: tcam_abs_def entries_def masks_def rows_def)
  then obtain t' where t': "calls cs t = Some t'" using adds_return assms(4) by blast
  then obtain l where l: "calls_logged cs t no_logs = Some (t', l)"
    using calls_forget[of cs t no_logs] by auto
  then have "all_follow (t, no_logs) (t', l)" using adds_all_follow assms(4) by blast
  then show ?thesis
    using t' l mask_lines.follows_rebuild flow_lines.follows_rebuild action_lines.follows_rebuild
    by (simp add: follow_defs no_logs_def)
qed

theorem tables_rebuilt_from_logs_witness:
  "\<exists>t l. calls_logged [Add (replicate 45 7) (replicate 46 1) (replicate 31 2) [3, 4]] (example_tcam 0 0) no_logs = Some (t, l) \<and>
     flow_table t = rebuild 48 (flow_log l) (flow_table (example_tcam 0 0))"
proof -
  have "list_all sized_add [Add (replicate 45 7) (replicate 46 1) (replicate 31 2) [3, 4]]" by simp
  from tables_rebuilt_from_logs[OF example_tcam_facts(1-3)[of 0 0] this] show ?thesis by blast
qed

text \<open>
  C19. With deletions and lookups between the additions the mask table and the action table can still be
  rebuilt from their files. The flow table is not claimed: a lookup counts in it, and a deletion marks the new first
  entry of a group in it, without a line in the file.
\<close>

theorem masks_and_actions_rebuilt:
  assumes "calls cs t = Some t'"
  shows "\<exists>l. calls_logged cs t no_logs = Some (t', l) \<and>
     mask_table t' = rebuild 45 (mask_log l) (mask_table t) \<and>
     action_table t' = rebuild 31 (action_log l) (action_table t)"
proof -
  obtain l where l: "calls_logged cs t no_logs = Some (t', l)"
    using calls_forget[of cs t no_logs] assms by auto
  then show ?thesis
    using calls_two_follow[OF l] mask_lines.follows_rebuild action_lines.follows_rebuild
    by (simp add: follow_defs no_logs_def)
qed

theorem masks_and_actions_rebuilt_witness:
  "\<exists>t l. calls_logged [Add (replicate 45 7) (replicate 46 1) (replicate 31 2) [3, 4], Look [0, 0] (replicate 45 1)]
       (example_tcam 0 0) no_logs = Some (t, l) \<and>
     mask_table t = rebuild 45 (mask_log l) (replicate 900 0)"
proof -
  obtain r u m' e' gs where u: "add_new_entry (example_tcam 0 0) (replicate 45 7) (replicate 46 1) (replicate 31 2) [3, 4]
      = Some (r, u, m', e')" "tcam_abs u gs"
    using add_new_entry_total[OF example_abs, of "replicate 45 7" "replicate 46 1" "replicate 31 2" "[3, 4]"] by auto
  obtain v q mp where "search_tcam u (replicate 45 1) [0, 0] = Some (q, v, mp)"
    using search_abs[OF u(2), of "replicate 45 1" "[0, 0]"] by auto
  then have "calls [Add (replicate 45 7) (replicate 46 1) (replicate 31 2) [3, 4], Look [0, 0] (replicate 45 1)]
      (example_tcam 0 0) = Some v" using u(1) by simp
  from masks_and_actions_rebuilt[OF this] show ?thesis by (auto simp: example_tcam_def)
qed

end
