(* ===== verification/Tcam_Printing.thy ===== *)
theory Tcam_Printing
  imports Tcam_Log_Reading
begin

text \<open>
  What \<^verbatim>\<open>apply_action\<close> and \<^verbatim>\<open>modify_entry\<close> of \<^verbatim>\<open>flow-processing-unit/flow_unit.h\<close> print on the screen, letter
  by letter. \<open>read_screen\<close> reads the printed actions back: the screen tells what is done with a packet.
\<close>

section \<open>The texts\<close>

abbreviation tab :: string where "tab \<equiv> [CHR 0x09]"

definition with_tabs :: "byte list \<Rightarrow> string" where
  "with_tabs bs = concat (map (\<lambda>b. dec_byte b @ tab) bs)"

primrec out_text :: "action_out \<Rightarrow> string" where
  "out_text Drop_Packet = nl @ ''Drop Packet''"
| "out_text (Mac_Src bs) = nl @ ''MAC Src: '' @ with_tabs bs"
| "out_text (Mac_Dst bs) = nl @ ''MAC Dst: '' @ with_tabs bs"
| "out_text (Vlan_Id bs) = nl @ ''VLAN ID: '' @ with_tabs bs"
| "out_text (Vlan_Priority bs) = nl @ ''VLAN Priority: '' @ concat (map dec_byte bs)"
| "out_text (Mpls_Label bs) = nl @ ''MPLS Label: '' @ with_tabs bs"
| "out_text (Mpls_Traffic_Cls bs) = nl @ ''MPLS Trff. Cls: '' @ concat (map dec_byte bs)"
| "out_text (Ipv4_Src bs) = nl @ ''IPv4 Src: '' @ with_tabs bs"
| "out_text (Ipv4_Dst bs) = nl @ ''IPv4 Dst: '' @ with_tabs bs"
| "out_text (Ipv4_Tos bs) = nl @ ''IPv4 ToS: '' @ with_tabs bs"
| "out_text (Tcp_Src bs) = nl @ ''TCP Src: '' @ with_tabs bs"
| "out_text (Tcp_Dst bs) = nl @ ''TCP Dst: '' @ with_tabs bs"
| "out_text (Output_Port b) = nl @ ''Output Port: '' @ dec_byte b"

text \<open>A hit in the cache is announced first; a flow that is found nowhere goes to the controller.\<close>

definition apply_action_printed ::
  "byte list \<Rightarrow> int list \<Rightarrow> byte list \<Rightarrow> cache \<Rightarrow> tcam_unit \<Rightarrow> byte list \<Rightarrow>
   (int \<times> cache \<times> tcam_unit \<times> string) option"
where
  "apply_action_printed action_set fmask val c tcam flow = do {
     (pos, _) \<leftarrow> search_cache c flow tcam;
     let cached = (if pos \<ge> 0 then nl @ ''Cache Hit'' else []);
     (r, c, tcam, out) \<leftarrow> apply_action action_set fmask val c tcam flow;
     Some (r, c, tcam, cached @ (if r < 0 then nl @ ''Send to policy controller''
       else nl @ ''Actions applied: '' @ concat (map out_text out))) }"

text \<open>The names of the fields that are changed, in the order of their flag bits.\<close>

primrec change_names :: "byte list \<Rightarrow> (int \<times> string) list \<Rightarrow> string option" where
  "change_names flag [] = Some []"
| "change_names flag (x # xs) = do {
     b \<leftarrow> read_bit flag (fst x);
     rest \<leftarrow> change_names flag xs;
     Some ((if b \<noteq> 0 then nl @ snd x else []) @ rest) }"

definition changes_text :: "byte list \<Rightarrow> string option" where
  "changes_text flag = do {
     drop_flag \<leftarrow> read_bit flag 0;
     actions \<leftarrow> (if drop_flag = 0 then change_names flag
       [(1, ''MAC Src''), (2, ''MAC Dst''), (3, ''VLAN ID''), (4, ''VLAN Priority''), (5, ''MPLS Label''),
        (6, ''MPLS Traffic Cls''), (7, ''IPv4 Src''), (8, ''IPv4 Dst''), (9, ''IPv4 ToS''), (10, ''TCP Src''),
        (11, ''TCP Dst''), (12, ''Output Port'')] else Some []);
     fields \<leftarrow> change_names flag [(13, ''Priority''), (14, ''Counter''), (15, ''Time Out'')];
     Some (nl @ ''Changes: '' @ actions @ fields) }"

definition modify_entry_printed ::
  "int list \<Rightarrow> byte list \<Rightarrow> tcam_unit \<Rightarrow> byte list \<Rightarrow> byte list \<Rightarrow> byte list \<Rightarrow> (int \<times> tcam_unit \<times> string) option"
where
  "modify_entry_printed fmask val tcam match_fields flag new_values = do {
     (pos, tcam) \<leftarrow> modify_entry fmask val tcam match_fields flag new_values;
     if pos = STR_ERR then Some (pos, tcam, [])
     else do {
       text \<leftarrow> changes_text flag;
       Some (pos, tcam, text) } }"

text \<open>Printing changes nothing else.\<close>

lemma apply_action_printed_runs:
  "apply_action_printed a mp val c t f = Some (r, c', t', s) \<Longrightarrow>
    \<exists>out. apply_action a mp val c t f = Some (r, c', t', out)"
  by (auto simp: apply_action_printed_def Let_def split: bind_splits)

lemma modify_entry_printed_runs:
  "modify_entry_printed mp val t f flag new = Some (r, t', s) \<Longrightarrow> modify_entry mp val t f flag new = Some (r, t')"
  by (auto simp: modify_entry_printed_def split: bind_splits if_splits)

section \<open>Reading the screen\<close>

definition read_out :: "string \<Rightarrow> action_out" where
  "read_out s = (let name = takeWhile (\<lambda>c. c \<noteq> CHR '':'') s;
     bs = map (\<lambda>w. of_nat (undec w)) (nonempty_pieces (CHR 0x09) (drop (length name + 2) s)) in
     if name = ''MAC Src'' then Mac_Src bs else if name = ''MAC Dst'' then Mac_Dst bs
     else if name = ''VLAN ID'' then Vlan_Id bs else if name = ''VLAN Priority'' then Vlan_Priority bs
     else if name = ''MPLS Label'' then Mpls_Label bs else if name = ''MPLS Trff. Cls'' then Mpls_Traffic_Cls bs
     else if name = ''IPv4 Src'' then Ipv4_Src bs else if name = ''IPv4 Dst'' then Ipv4_Dst bs
     else if name = ''IPv4 ToS'' then Ipv4_Tos bs else if name = ''TCP Src'' then Tcp_Src bs
     else if name = ''TCP Dst'' then Tcp_Dst bs else if name = ''Output Port'' then Output_Port (hd bs)
     else Drop_Packet)"

text \<open>The lines behind \<^verbatim>\<open>Actions applied\<close>.\<close>

definition read_screen :: "string \<Rightarrow> action_out list" where
  "read_screen s = map read_out (tl (dropWhile (\<lambda>l. l \<noteq> ''Actions applied: '') (nonempty_pieces (CHR 0x0A) s)))"

lemma dec_no_tab [simp]: "CHR 0x09 \<notin> set (dec n)"
  by (rule dec_no) simp

lemma with_tabs_pieces: "nonempty_pieces (CHR 0x09) (with_tabs bs) = map dec_byte bs"
  by (induction bs) (simp_all add: with_tabs_def dec_byte_def nonempty_pieces_append)

lemma dec_byte_pieces: "nonempty_pieces (CHR 0x09) (dec_byte b) = [dec_byte b]"
  by (simp add: dec_byte_def nonempty_pieces_last)

lemma with_tabs_no_nl [simp]: "CHR 0x0A \<notin> set (with_tabs bs)"
  by (auto simp: with_tabs_def dec_byte_def)

text \<open>The two fields that are printed as one number without a tab are one byte.\<close>

primrec single_ok :: "action_out \<Rightarrow> bool" where
  "single_ok Drop_Packet = True"
| "single_ok (Mac_Src bs) = True"
| "single_ok (Mac_Dst bs) = True"
| "single_ok (Vlan_Id bs) = True"
| "single_ok (Vlan_Priority bs) = (length bs = 1)"
| "single_ok (Mpls_Label bs) = True"
| "single_ok (Mpls_Traffic_Cls bs) = (length bs = 1)"
| "single_ok (Ipv4_Src bs) = True"
| "single_ok (Ipv4_Dst bs) = True"
| "single_ok (Ipv4_Tos bs) = True"
| "single_ok (Tcp_Src bs) = True"
| "single_ok (Tcp_Dst bs) = True"
| "single_ok (Output_Port b) = True"

lemma dec_byte_no_nl [simp]: "CHR 0x0A \<notin> set (dec_byte b)"
  by (simp add: dec_byte_def)

lemma out_text_line:
  assumes "single_ok x"
  shows "\<exists>s. out_text x = nl @ s \<and> s \<noteq> [] \<and> CHR 0x0A \<notin> set s \<and> read_out s = x"
proof -
  have "map (\<lambda>w. of_nat (undec w)) (map dec_byte bs) = (bs :: byte list)" for bs by (simp add: comp_def)
  then show ?thesis
    using assms by (cases x) (auto simp: read_out_def with_tabs_pieces dec_byte_pieces comp_def length_Suc_conv)
qed

lemma nonempty_pieces_split:
  "c \<notin> set a \<Longrightarrow> nonempty_pieces c (a @ c # s) = nonempty_pieces c a @ nonempty_pieces c s"
  by (simp add: nonempty_pieces_def pieces_append pieces_none)

lemma lines_behind:
  assumes "list_all single_ok out" "CHR 0x0A \<notin> set a"
  shows "nonempty_pieces (CHR 0x0A) (a @ concat (map out_text out)) =
    nonempty_pieces (CHR 0x0A) a @ nonempty_pieces (CHR 0x0A) (concat (map out_text out))"
proof (cases out)
  case (Cons x xs)
  then obtain s where "out_text x = nl @ s" using out_text_line[of x] assms(1) by auto
  then show ?thesis
    using nonempty_pieces_split[OF assms(2)] nonempty_pieces_split[of "CHR 0x0A" "[]"] Cons by simp
qed simp

lemma out_text_pieces:
  "list_all single_ok out \<Longrightarrow> map read_out (nonempty_pieces (CHR 0x0A) (concat (map out_text out))) = out"
proof (induction out)
  case (Cons x out)
  then obtain s where s: "out_text x = nl @ s" "s \<noteq> []" "CHR 0x0A \<notin> set s" "read_out s = x"
    using out_text_line by fastforce
  have "nonempty_pieces (CHR 0x0A) (concat (map out_text (x # out))) =
      s # nonempty_pieces (CHR 0x0A) (concat (map out_text out))"
    using nonempty_pieces_split[of "CHR 0x0A" "[]"] lines_behind[of out s] Cons.prems s
    by (simp add: nonempty_pieces_last)
  then show ?case using Cons s(4) by simp
qed simp

lemma read_screen_text:
  assumes "list_all single_ok out" "cached = [] \<or> cached = nl @ ''Cache Hit''"
  shows "read_screen (cached @ nl @ ''Actions applied: '' @ concat (map out_text out)) = out"
proof -
  let ?c = "CHR 0x0A" and ?rest = "nonempty_pieces (CHR 0x0A) (concat (map out_text out))"
  have a: "nonempty_pieces ?c (''Actions applied: '' @ concat (map out_text out)) = ''Actions applied: '' # ?rest"
    using lines_behind[OF assms(1), of "''Actions applied: ''"] by (simp add: nonempty_pieces_last)
  have "nonempty_pieces ?c (cached @ nl @ ''Actions applied: '' @ concat (map out_text out)) =
      (if cached = [] then [] else [''Cache Hit'']) @ ''Actions applied: '' # ?rest"
    using assms(2)
  proof
    assume "cached = []"
    then show ?thesis using nonempty_pieces_split[of ?c "[]"] a by simp
  next
    assume h: "cached = nl @ ''Cache Hit''"
    have "nonempty_pieces ?c (''Cache Hit'' @ ?c # s) = ''Cache Hit'' # nonempty_pieces ?c s" for s
      by (rule nonempty_pieces_append) simp_all
    then show ?thesis using nonempty_pieces_split[of ?c "[]"] a h by simp
  qed
  then show ?thesis using out_text_pieces[OF assms(1)] by (simp add: read_screen_def)
qed

lemma c_for_collect:
  "c_for n (\<lambda>i bs. do { v \<leftarrow> g i; Some (bs @ [v]) }) [] = Some xs \<Longrightarrow> length xs = n"
  by (induction n arbitrary: xs) (auto split: bind_splits)

lemma print_field_single:
  assumes "print_field fl a b z lo hi n tag st = Some st'" "list_all single_ok (snd st)"
    and "\<And>bs. length bs = n \<Longrightarrow> single_ok (tag bs)"
  shows "list_all single_ok (snd st')"
  using assms by (cases st) (auto simp: print_field_def dest: c_for_collect split: bind_splits if_splits)

lemma field_then:
  assumes "(print_field fl a b z lo hi n tag st \<bind> K) = Some out" "list_all single_ok (snd st)"
    and "\<And>bs. length bs = n \<Longrightarrow> single_ok (tag bs)"
    and "\<And>st'. list_all single_ok (snd st') \<Longrightarrow> K st' = Some out \<Longrightarrow> P"
  shows P
proof -
  obtain st' where st': "print_field fl a b z lo hi n tag st = Some st'" "K st' = Some out"
    using assms(1) by (auto simp: Option.bind_eq_Some_conv)
  have "list_all single_ok (snd st')" by (rule print_field_single[OF st'(1) assms(2,3)])
  then show P using st'(2) by (rule assms(4))
qed

lemma print_actions_single:
  assumes "print_actions val fl a = Some out"
  shows "list_all single_ok out"
proof -
  obtain d where d: "read_bit fl 0 = Some d" using assms by (auto simp: print_actions_def split: bind_splits)
  show ?thesis
  proof (cases "d = 0")
    case True
    have start: "list_all single_ok (snd (val, []))" by simp
    show ?thesis
      using start assms unfolding print_actions_def
      apply (simp only: d True bind.bind_lunit not_not if_False simp_thms)
      apply (erule field_then, assumption, simp)+
      apply (auto split: bind_splits)
      done
  next
    case False
    then show ?thesis using assms d by (auto simp: print_actions_def)
  qed
qed

text \<open>
  C20. The screen tells what is done with a packet: whenever \<open>apply_action\<close> finds an entry, the text it prints
  has a line for each of the actions it takes, and reading the lines back gives these actions
  with all their bytes.
\<close>

theorem screen_tells_actions:
  assumes "apply_action a mp val c t f = Some (1, c', t', out)"
  shows "\<exists>s. apply_action_printed a mp val c t f = Some (1, c', t', s) \<and> read_screen s = out"
proof -
  obtain p u where p: "search_cache c f t = Some (p, u)"
    using assms by (auto simp: apply_action_def split: bind_splits)
  let ?cached = "(if p \<ge> 0 then nl @ ''Cache Hit'' else [])"
  obtain fl as where "print_actions val fl as = Some out"
    using assms by (simp only: apply_action_def Option.bind_eq_Some_conv split_paired_Ex split_conv)
      (auto simp: Option.bind_eq_Some_conv split: if_splits)
  then have "list_all single_ok out" by (rule print_actions_single)
  moreover have "?cached = [] \<or> ?cached = nl @ ''Cache Hit''" by simp
  ultimately have "read_screen (?cached @ nl @ ''Actions applied: '' @ concat (map out_text out)) = out"
    by (rule read_screen_text)
  moreover have "apply_action_printed a mp val c t f =
      Some (1, c', t', ?cached @ nl @ ''Actions applied: '' @ concat (map out_text out))"
    using assms p by (simp add: apply_action_printed_def)
  ultimately show ?thesis by blast
qed

theorem screen_tells_actions_witness:
  "\<exists>c' t' s. apply_action_printed (replicate 31 3) [0, 0] (replicate 6 9)
      \<lparr>flow_cache = replicate 5 (0, 0), cache_top = 1\<rparr> (example_tcam 1 1) (replicate 45 0) = Some (1, c', t', s) \<and>
     read_screen s = [Output_Port 0]"
proof -
  have "flags (example_tcam 1 1) = [replicate 2 0]" "actions (example_tcam 1 1) = [replicate 31 0]"
    by (simp_all add: flags_def actions_def example_tcam_def rows_def row_replicate)
  then have "applied (example_tcam 1 1) (Some 0) = [Output_Port 0]"
    by (simp add: applied_def actions_of_def out_fields_def abit_def)
  then obtain c' t' where "apply_action (replicate 31 3) [0, 0] (replicate 6 9)
      \<lparr>flow_cache = replicate 5 (0, 0), cache_top = 1\<rparr> (example_tcam 1 1) (replicate 45 0) =
      Some (1, c', t', [Output_Port 0])"
    using apply_action_ok[OF example_abs_one, of "replicate 45 0" "[0, 0]" "replicate 31 3" "replicate 6 9"
        "\<lparr>flow_cache = replicate 5 (0, 0), cache_top = 1\<rparr>"] example_best by auto
  from screen_tells_actions[OF this] show ?thesis by blast
qed

end
