(* ===== verification/Flow_Example.thy ===== *)
theory Flow_Example
  imports Tcam_Life Tcam_Printing
begin

text \<open>
  \<^verbatim>\<open>flow-processing-unit/generate_entry.h\<close> and \<^verbatim>\<open>flow-processing-unit/test2.c\<close>: random entries, the
  functions that write the tables to text files, and the program that fills a table with six
  entries, deletes one, modifies one and applies the actions of one twice.
\<close>

section \<open>Generated entries\<close>

text \<open>
  \<open>rand\<close> of the C library: the numbers it has still to give. \<open>scanf\<close> reads the numbers \<open>inp\<close>,
  \<open>None\<close> where the input has no number; storing a number it writes a whole \<open>int\<close> through the
  pointer it is given.
\<close>

type_synonym random = "nat \<Rightarrow> nat"

definition rand :: "random \<Rightarrow> nat \<times> random" where
  "rand r = (r 0, \<lambda>k. r (Suc k))"

text \<open>\<open>val\<close> is a local byte: the four bytes of an \<open>int\<close> do not fit, and without one it is not set.\<close>

definition get_mask :: "byte \<Rightarrow> (nat \<Rightarrow> int option) \<Rightarrow> byte list \<Rightarrow> byte list option" where
  "get_mask val inp msk = c_for (nat MTCH_FLD_LEN_i) (\<lambda>i msk.
     case inp i of Some n \<Rightarrow> None | None \<Rightarrow> cput msk (int i) val) msk"

definition get_flow_entry :: "byte \<Rightarrow> (nat \<Rightarrow> int option) \<Rightarrow> byte list \<Rightarrow> byte list option" where
  "get_flow_entry val inp flow_entry = c_for (nat (MTCH_FLD_LEN_i + 1)) (\<lambda>i flow_entry.
     case inp i of Some n \<Rightarrow> None | None \<Rightarrow> cput flow_entry (int i) val) flow_entry"

definition create_mask :: "byte list \<Rightarrow> random \<Rightarrow> (byte list \<times> random) option" where
  "create_mask msk r = c_for (nat MTCH_FLD_LEN_i) (\<lambda>i (msk, r). do {
     let (n, r) = rand r;
     let val = of_nat (n mod 106);
     msk \<leftarrow> cput msk (int i) (val + 150);
     Some (msk, r) }) (msk, r)"

definition create_flow_entry :: "byte list \<Rightarrow> random \<Rightarrow> (byte list \<times> random) option" where
  "create_flow_entry flow_entry r = c_for (nat (MTCH_FLD_LEN_i + 1)) (\<lambda>i (flow_entry, r). do {
     let (n, r) = rand r;
     let val = of_nat (n mod 256);
     flow_entry \<leftarrow> cput flow_entry (int i) val;
     Some (flow_entry, r) }) (flow_entry, r)"

definition create_action :: "byte list \<Rightarrow> random \<Rightarrow> (byte list \<times> random) option" where
  "create_action action_set r = c_for (nat ACTN_ST_LEN) (\<lambda>i (action_set, r). do {
     let (n, r) = rand r;
     let val = of_nat (n mod 256);
     action_set \<leftarrow> cput action_set (int i) val;
     Some (action_set, r) }) (action_set, r)"

section \<open>Writing the tables\<close>

text \<open>
  Each function appends to a file of its own; the text of the file is passed in and handed back, and
  \<open>fopen\<close> is taken to succeed.
\<close>

definition write_output :: "byte list \<Rightarrow> string \<Rightarrow> string option" where
  "write_output dummy_action_set fp = do {
     fp \<leftarrow> c_for (nat ACTN_ST_LEN) (\<lambda>i fp. do {
       b \<leftarrow> cget dummy_action_set (int i);
       Some (fp @ dec_byte b @ '' '') }) fp;
     Some (fp @ nl) }"

definition output_all_actions :: "tcam_unit \<Rightarrow> string \<Rightarrow> string option" where
  "output_all_actions tcam fp = do {
     let fp = fp @ ''----------'' @ nl;
     c_for (nat (flow_tail tcam)) (\<lambda>i fp. do {
       let fp = fp @ dec i @ ''. '';
       fp \<leftarrow> c_for (nat ACTN_ST_LEN) (\<lambda>j fp. do {
         b \<leftarrow> cget (action_table tcam) (int i * ACTN_ST_LEN + int j);
         Some (fp @ dec_byte b @ '' '') }) fp;
       Some (fp @ nl) }) fp }"

definition output_all_flow_entries :: "tcam_unit \<Rightarrow> string \<Rightarrow> string option" where
  "output_all_flow_entries tcam fp = do {
     let fp = fp @ ''----------'' @ nl;
     c_for (nat (flow_tail tcam)) (\<lambda>i fp. do {
       let fp = fp @ dec i @ ''. '';
       fp \<leftarrow> c_for (nat FLW_ENT_LEN) (\<lambda>j fp. do {
         b \<leftarrow> cget (flow_table tcam) (int i * FLW_ENT_LEN + int j);
         Some (fp @ dec_byte b @ '' '') }) fp;
       Some (fp @ nl) }) fp }"

definition output_flags :: "tcam_unit \<Rightarrow> string \<Rightarrow> string option" where
  "output_flags tcam fp = do {
     let fp = fp @ ''----------'' @ nl;
     c_for (nat (flow_tail tcam)) (\<lambda>i fp. do {
       let fp = fp @ dec i @ ''. '';
       f0 \<leftarrow> cget (flag_table tcam) (int i * 2);
       f1 \<leftarrow> cget (flag_table tcam) (int i * 2 + 1);
       Some (fp @ dec_byte f0 @ '' '' @ dec_byte f1 @ nl) }) fp }"

section \<open>The program\<close>

text \<open>
  What it writes: the screen, where \<^verbatim>\<open>modify_entry\<close> and \<^verbatim>\<open>apply_action\<close> print too, and the three files of
  its own. The logs of the tables are \<open>Tcam_Logs\<close>.
\<close>

record test_out =
  screen :: string
  final_action_table :: string
  final_flow_table :: string
  final_flag_table :: string

definition output_tables :: "tcam_unit \<Rightarrow> test_out \<Rightarrow> test_out option" where
  "output_tables tcam out = do {
     a \<leftarrow> output_all_actions tcam (final_action_table out);
     f \<leftarrow> output_all_flow_entries tcam (final_flow_table out);
     g \<leftarrow> output_flags tcam (final_flag_table out);
     Some (out\<lparr>final_action_table := a, final_flow_table := f, final_flag_table := g\<rparr>) }"

text \<open>
  The locals hold anything: byte \<open>k\<close> of array \<open>a\<close> is \<open>g a k\<close>, the \<open>int\<close> at \<open>k\<close> of the array
  \<open>mask\<close> in call \<open>a\<close> is \<open>gi a k\<close>.
\<close>

definition local :: "(nat \<Rightarrow> nat \<Rightarrow> 'a) \<Rightarrow> nat \<Rightarrow> nat \<Rightarrow> 'a list" where
  "local g a n = map (g a) [0..<n]"

definition match_unit :: "(nat \<Rightarrow> nat \<Rightarrow> byte) \<Rightarrow> tcam_unit" where
  "match_unit g = \<lparr>flow_table = local g 10 960, mask_table = local g 11 900, action_table = local g 12 620,
     flag_table = local g 13 40, flow_tail = 0, mask_tail = 0\<rparr>"

text \<open>One of the assignments \<open>dummy_flag[k] = rand() % 256\<close>.\<close>

definition random_byte :: "byte list \<Rightarrow> nat \<Rightarrow> random \<Rightarrow> (byte list \<times> random) option" where
  "random_byte xs k r = do {
     let (n, r) = rand r;
     xs \<leftarrow> cput xs (int k) (of_nat (n mod 256));
     Some (xs, r) }"

text \<open>The first half of \<open>main\<close>: six additions under two masks, whose answers the code does not look at.\<close>

definition fill_table ::
  "(nat \<Rightarrow> nat \<Rightarrow> byte) \<Rightarrow> random \<Rightarrow>
   (tcam_unit \<times> byte list \<times> byte list \<times> byte list \<times> random) option" where
  "fill_table g r = do {
     (dummy_mask, r) \<leftarrow> create_mask (local g 0 45) r;
     (dummy_flow_entry, r) \<leftarrow> create_flow_entry (local g 1 46) r;
     (dummy_action, r) \<leftarrow> create_action (local g 2 31) r;
     (dummy_flag, r) \<leftarrow> random_byte (local g 3 2) 0 r;
     (dummy_flag, r) \<leftarrow> random_byte dummy_flag 1 r;
     (_, t, dummy_mask, dummy_flow_entry) \<leftarrow>
       add_new_entry (match_unit g) dummy_mask dummy_flow_entry dummy_action dummy_flag;
     (dummy_flow_entry_2, r) \<leftarrow> create_flow_entry (local g 4 46) r;
     (dummy_action, r) \<leftarrow> create_action dummy_action r;
     (dummy_flag, r) \<leftarrow> random_byte dummy_flag 0 r;
     (dummy_flag, r) \<leftarrow> random_byte dummy_flag 1 r;
     (_, t, dummy_mask, dummy_flow_entry_2) \<leftarrow> add_new_entry t dummy_mask dummy_flow_entry_2 dummy_action dummy_flag;
     (dummy_mask_2, r) \<leftarrow> create_mask (local g 5 45) r;
     (dummy_flow_entry_2, r) \<leftarrow> create_flow_entry dummy_flow_entry_2 r;
     (dummy_action, r) \<leftarrow> create_action dummy_action r;
     dummy_flag \<leftarrow> cput dummy_flag 0 65;
     (dummy_flag, r) \<leftarrow> random_byte dummy_flag 1 r;
     (_, t, dummy_mask_2, dummy_flow_entry_2) \<leftarrow> add_new_entry t dummy_mask_2 dummy_flow_entry_2 dummy_action dummy_flag;
     (dummy_flow_entry_3, r) \<leftarrow> create_flow_entry (local g 6 46) r;
     (dummy_action, r) \<leftarrow> create_action dummy_action r;
     (_, t, dummy_mask_2, dummy_flow_entry_3) \<leftarrow> add_new_entry t dummy_mask_2 dummy_flow_entry_3 dummy_action dummy_flag;
     (dummy_flow_entry_2, r) \<leftarrow> create_flow_entry dummy_flow_entry_2 r;
     (dummy_action, r) \<leftarrow> create_action dummy_action r;
     (_, t, dummy_mask, dummy_flow_entry_2) \<leftarrow> add_new_entry t dummy_mask dummy_flow_entry_2 dummy_action dummy_flag;
     (dummy_flow_entry_2, r) \<leftarrow> create_flow_entry dummy_flow_entry_2 r;
     (dummy_action, r) \<leftarrow> create_action dummy_action r;
     (_, t, dummy_mask_2, dummy_flow_entry_2) \<leftarrow> add_new_entry t dummy_mask_2 dummy_flow_entry_2 dummy_action dummy_flag;
     Some (t, dummy_flow_entry, dummy_flow_entry_2, dummy_flow_entry_3, r) }"

text \<open>The second half: delete the first entry, modify the last and apply its actions twice.\<close>

definition use_table ::
  "(nat \<Rightarrow> nat \<Rightarrow> byte) \<Rightarrow> (nat \<Rightarrow> nat \<Rightarrow> int) \<Rightarrow> cache \<Rightarrow> tcam_unit \<Rightarrow> byte list \<Rightarrow> byte list \<Rightarrow> random \<Rightarrow>
   test_out \<Rightarrow> (int \<times> test_out) option" where
  "use_table g gi c t dummy_flow_entry dummy_flow_entry_2 r out = do {
     out \<leftarrow> output_tables t out;
     (pos, t) \<leftarrow> delete_flow_entry (local gi 0 2) t dummy_flow_entry;
     let out = out\<lparr>screen := screen out @ dec_int pos @ nl\<rparr>;
     out \<leftarrow> output_tables t out;
     flag_modification \<leftarrow> cput (local g 7 2) 0 64;
     flag_modification \<leftarrow> cput flag_modification 1 9;
     let out = out\<lparr>screen := screen out @ ''New Action Values:'' @ nl\<rparr>;
     (new_action_val, r, out) \<leftarrow> c_for 8 (\<lambda>i (new_action_val, r, out). do {
       (new_action_val, r) \<leftarrow> random_byte new_action_val i r;
       v \<leftarrow> cget new_action_val (int i);
       Some (new_action_val, r, out\<lparr>screen := screen out @ dec_byte v @ tab\<rparr>) })
       (local g 8 8, r, out);
     (_, t, text) \<leftarrow> modify_entry_printed (local gi 1 2) (local g 9 6) t dummy_flow_entry_2 flag_modification new_action_val;
     let out = out\<lparr>screen := screen out @ text @ nl @ ''-----''\<rparr>;
     out \<leftarrow> output_tables t out;
     (_, c, t, text) \<leftarrow> apply_action_printed (local g 14 31) (local gi 2 2) (local g 15 6) c t dummy_flow_entry_2;
     let out = out\<lparr>screen := screen out @ text @ nl @ ''-----''\<rparr>;
     (_, c, t, text) \<leftarrow> apply_action_printed (local g 16 31) (local gi 3 2) (local g 17 6) c t dummy_flow_entry_2;
     Some (0, out\<lparr>screen := screen out @ text\<rparr>) }"

text \<open>The globals start as zeros.\<close>

definition test2_main ::
  "(nat \<Rightarrow> nat \<Rightarrow> byte) \<Rightarrow> (nat \<Rightarrow> nat \<Rightarrow> int) \<Rightarrow> random \<Rightarrow> test_out \<Rightarrow> (int \<times> test_out) option" where
  "test2_main g gi r out = do {
     c \<leftarrow> init \<lparr>flow_cache = replicate 5 (0, 0), cache_top = 0\<rparr>;
     (t, dummy_flow_entry, dummy_flow_entry_2, _, r) \<leftarrow> fill_table g r;
     use_table g gi c t dummy_flow_entry dummy_flow_entry_2 r out }"

section \<open>What is generated\<close>

text \<open>The next \<open>n\<close> numbers, each turned into a byte.\<close>

lemma c_for_rand:
  assumes "n \<le> length xs"
  shows "c_for n (\<lambda>i (xs, r). do {
     let (v, r) = rand r;
     xs \<leftarrow> cput xs (int i) (h v);
     Some (xs, r) }) (xs, r) = Some (map (\<lambda>k. h (r k)) [0..<n] @ drop n xs, \<lambda>k. r (n + k))"
  using assms
proof (induction n)
  case (Suc n)
  then have "(map (\<lambda>k. h (r k)) [0..<n] @ drop n xs)[n := h (r n)] = map (\<lambda>k. h (r k)) [0..<Suc n] @ drop (Suc n) xs"
    by (intro nth_equalityI) (auto simp: nth_list_update nth_append not_less less_Suc_eq)
  then show ?case using Suc by (simp add: rand_def cput_int)
qed simp

lemma create_mask_ok:
  "length xs = 45 \<Longrightarrow> create_mask xs r = Some (map (\<lambda>k. of_nat (r k mod 106) + 150) [0..<45], \<lambda>k. r (45 + k))"
  using c_for_rand[of 45 xs "\<lambda>n. of_nat (n mod 106) + 150" r]
  by (simp add: create_mask_def MTCH_FLD_LEN_i_def Let_def del: upt_conv_Cons)

lemma create_flow_entry_ok:
  "length xs = 46 \<Longrightarrow> create_flow_entry xs r = Some (map (\<lambda>k. of_nat (r k mod 256)) [0..<46], \<lambda>k. r (46 + k))"
  using c_for_rand[of 46 xs "\<lambda>n. of_nat (n mod 256)" r]
  by (simp add: create_flow_entry_def MTCH_FLD_LEN_i_def Let_def)

lemma create_action_ok:
  "length xs = 31 \<Longrightarrow> create_action xs r = Some (map (\<lambda>k. of_nat (r k mod 256)) [0..<31], \<lambda>k. r (31 + k))"
  using c_for_rand[of 31 xs "\<lambda>n. of_nat (n mod 256)" r]
  by (simp add: create_action_def ACTN_ST_LEN_def Let_def)

lemma random_byte_ok:
  "k < length xs \<Longrightarrow> random_byte xs k r = Some (xs[k := of_nat (r 0 mod 256)], \<lambda>k. r (Suc k))"
  by (simp add: random_byte_def rand_def cput_int)

lemma length_local [simp]: "length (local g a n) = n"
  by (simp add: local_def)

text \<open>Reading a typed entry is undefined as soon as there is a number to read.\<close>

lemma typed_undefined:
  assumes "inp i = Some n" "i < 45"
  shows "get_mask v inp xs = None" "get_flow_entry v inp xs = None"
proof -
  have "c_for m (\<lambda>i xs. case inp i of Some n \<Rightarrow> None | None \<Rightarrow> cput xs (int i) v) xs = None" if "i < m" for m
    using that
  proof (induction m)
    case (Suc m)
    then show ?case using assms(1) by (cases "i = m") (auto split: bind_splits)
  qed simp
  then show "get_mask v inp xs = None" "get_flow_entry v inp xs = None"
    using assms(2) by (simp_all add: get_mask_def get_flow_entry_def MTCH_FLD_LEN_i_def)
qed

section \<open>What is written\<close>

definition row_line :: "nat \<Rightarrow> byte list \<Rightarrow> string" where
  "row_line i r = dec i @ ''. '' @ concat (map (\<lambda>b. dec_byte b @ '' '') r) @ nl"

lemma c_for_append:
  "(\<And>j. j < n \<Longrightarrow> src j = Some (x j)) \<Longrightarrow>
   c_for n (\<lambda>j fp. do { b \<leftarrow> src j; Some (fp @ h b) }) fp = Some (fp @ concat (map (\<lambda>j. h (x j)) [0..<n]))"
  by (induction n) simp_all

lemma c_for_lines:
  assumes "\<And>i fp. i < n \<Longrightarrow> line i fp = Some (fp @ x i)"
  shows "c_for n line fp = Some (fp @ concat (map x [0..<n]))"
  using assms by (induction n) simp_all

lemma row_text:
  assumes "w * Suc i \<le> length t"
  shows "c_for w (\<lambda>j fp. do { b \<leftarrow> cget t (int i * int w + int j); Some (fp @ dec_byte b @ '' '') }) fp =
    Some (fp @ concat (map (\<lambda>b. dec_byte b @ '' '') (row w i t)))"
proof -
  have "cget t (int i * int w + int j) = Some (row w i t ! j)" if "j < w" for j
    using that assms cget_int[of "w * i + j" t] by (simp add: nth_row mult.commute)
  then have "c_for w (\<lambda>j fp. do { b \<leftarrow> cget t (int i * int w + int j); Some (fp @ dec_byte b @ '' '') }) fp =
    Some (fp @ concat (map (\<lambda>j. dec_byte (row w i t ! j) @ '' '') [0..<w]))" by (rule c_for_append)
  moreover have "map (\<lambda>j. dec_byte (row w i t ! j) @ '' '') [0..<w] = map (\<lambda>b. dec_byte b @ '' '') (row w i t)"
    using assms by (intro nth_equalityI) (auto simp: length_row)
  ultimately show ?thesis by simp
qed

text \<open>Each file gets a line per row: its number and its bytes.\<close>

definition listing :: "(nat \<Rightarrow> byte list \<Rightarrow> string) \<Rightarrow> byte list list \<Rightarrow> string" where
  "listing f rs = ''----------'' @ nl @ concat (map (\<lambda>i. f i (rs ! i)) [0..<length rs])"

definition flag_line :: "nat \<Rightarrow> byte list \<Rightarrow> string" where
  "flag_line i r = dec i @ ''. '' @ dec_byte (r ! 0) @ '' '' @ dec_byte (r ! 1) @ nl"

lemma output_all_actions_ok:
  assumes "tables_ok t" "flow_tail t = int n" "n \<le> 20"
  shows "output_all_actions t fp = Some (fp @ listing row_line (actions t))"
proof -
  have "c_for n (\<lambda>i fp. do {
       let fp = fp @ dec i @ ''. '';
       fp \<leftarrow> c_for 31 (\<lambda>j fp. do {
         b \<leftarrow> cget (action_table t) (int i * int 31 + int j);
         Some (fp @ dec_byte b @ '' '') }) fp;
       Some (fp @ nl) }) fp = Some (fp @ concat (map (\<lambda>i. row_line i (actions t ! i)) [0..<n]))" for fp
    using assms by (intro c_for_lines) (simp add: row_text[where w = 31, simplified] tables_ok_def actions_def row_line_def)
  then show ?thesis using assms(2) by (simp add: output_all_actions_def ACTN_ST_LEN_def listing_def actions_def)
qed

lemma output_all_flow_entries_ok:
  assumes "tables_ok t" "flow_tail t = int n" "n \<le> 20"
  shows "output_all_flow_entries t fp = Some (fp @ listing row_line (entries t))"
proof -
  have "c_for n (\<lambda>i fp. do {
       let fp = fp @ dec i @ ''. '';
       fp \<leftarrow> c_for 48 (\<lambda>j fp. do {
         b \<leftarrow> cget (flow_table t) (int i * int 48 + int j);
         Some (fp @ dec_byte b @ '' '') }) fp;
       Some (fp @ nl) }) fp = Some (fp @ concat (map (\<lambda>i. row_line i (entries t ! i)) [0..<n]))" for fp
    using assms by (intro c_for_lines) (simp add: row_text[where w = 48, simplified] tables_ok_def entries_def row_line_def)
  then show ?thesis using assms(2) by (simp add: output_all_flow_entries_def FLW_ENT_LEN_def listing_def)
qed

lemma output_flags_ok:
  assumes "tables_ok t" "flow_tail t = int n" "n \<le> 20"
  shows "output_flags t fp = Some (fp @ listing flag_line (flags t))"
proof -
  have "cget (flag_table t) (int i * 2) = Some (flags t ! i ! 0)" "cget (flag_table t) (int i * 2 + 1) = Some (flags t ! i ! 1)"
    if "i < n" for i
    using that assms cget_int[of "2 * i" "flag_table t"] cget_int[of "2 * i + 1" "flag_table t"]
    by (simp_all add: tables_ok_def flags_def nth_row mult.commute add.commute)
  then have "c_for n (\<lambda>i fp. do {
       let fp = fp @ dec i @ ''. '';
       f0 \<leftarrow> cget (flag_table t) (int i * 2);
       f1 \<leftarrow> cget (flag_table t) (int i * 2 + 1);
       Some (fp @ dec_byte f0 @ '' '' @ dec_byte f1 @ nl) }) fp =
    Some (fp @ concat (map (\<lambda>i. flag_line i (flags t ! i)) [0..<n]))" for fp
    by (intro c_for_lines) (simp add: flag_line_def)
  then show ?thesis using assms(2) by (simp add: output_flags_def listing_def flags_def)
qed

section \<open>The table the program fills\<close>

text \<open>A computation that returns a value with a property, and how two follow each other.\<close>

definition returns :: "'a option \<Rightarrow> ('a \<Rightarrow> bool) \<Rightarrow> bool" where
  "returns m Q \<longleftrightarrow> (\<exists>v. m = Some v \<and> Q v)"

lemma returns_bind: "returns m P \<Longrightarrow> (\<And>v. P v \<Longrightarrow> returns (k v) Q) \<Longrightarrow> returns (m \<bind> k) Q"
  by (auto simp: returns_def)

lemma returns_Some [simp]: "returns (Some v) Q = Q v"
  by (simp add: returns_def)

definition holds_at_most :: "nat \<Rightarrow> tcam_unit \<Rightarrow> bool" where
  "holds_at_most n t \<longleftrightarrow> (\<exists>gs. tcam_abs t gs \<and> length (flat gs) \<le> n)"

lemma returns_mask: "length xs = 45 \<Longrightarrow> returns (create_mask xs r) (\<lambda>v. length (fst v) = 45)"
  by (simp add: create_mask_ok)

lemma returns_entry: "length xs = 46 \<Longrightarrow> returns (create_flow_entry xs r) (\<lambda>v. length (fst v) = 46)"
  by (simp add: create_flow_entry_ok)

lemma returns_action: "length xs = 31 \<Longrightarrow> returns (create_action xs r) (\<lambda>v. length (fst v) = 31)"
  by (simp add: create_action_ok)

lemma returns_byte: "length xs = 2 \<Longrightarrow> k < 2 \<Longrightarrow> returns (random_byte xs k r) (\<lambda>v. length (fst v) = 2)"
  by (simp add: random_byte_ok)

lemma returns_put: "length xs = 2 \<Longrightarrow> returns (cput xs 0 v) (\<lambda>v. length v = 2)"
  by (simp add: cput_in)

lemma returns_add:
  assumes "holds_at_most n t" "length m = 45" "length fe = 46" "length a = 31" "length f = 2"
  shows "returns (add_new_entry t m fe a f)
    (\<lambda>v. holds_at_most (Suc n) (fst (snd v)) \<and> length (fst (snd (snd v))) = 45 \<and> length (snd (snd (snd v))) = 46)"
proof -
  obtain gs where gs: "tcam_abs t gs" "length (flat gs) \<le> n" using assms(1) by (auto simp: holds_at_most_def)
  obtain p t' m' fe' gs' where "add_new_entry t m fe a f = Some (p, t', m', fe')" "tcam_abs t' gs'"
    "length m' = 45" "length fe' = length fe" "length (flat gs') \<le> Suc (length (flat gs))"
    using add_new_entry_total[OF gs(1) assms(2), of fe a f] assms(3-5) by auto
  then show ?thesis using gs(2) assms(3) by (auto simp: holds_at_most_def intro!: exI[of _ gs'])
qed

lemma match_unit_empty: "holds_at_most 0 (match_unit g)"
  by (simp add: holds_at_most_def tcam_abs_def match_unit_def tables_ok_def entries_def masks_def rows_def
      exI[of _ "[]"])

lemma fill_table_returns:
  "returns (fill_table g r) (\<lambda>v. holds_at_most 6 (fst v) \<and> length (fst (snd v)) = 46 \<and>
    length (fst (snd (snd v))) = 46 \<and> length (fst (snd (snd (snd v)))) = 46)"
  unfolding fill_table_def
  apply (insert match_unit_empty[of g])
  apply (rule returns_bind, (rule returns_mask returns_entry returns_action returns_byte returns_put returns_add; (assumption | simp)), clarsimp?)+
  apply (simp add: numeral_eq_Suc)
  done

section \<open>Tables that can be searched\<close>

text \<open>
  What the lookup needs of the tables: every entry has a mask. It holds of every list of groups, and
  it survives the deletion that leaves the mask of the first group behind.
\<close>

definition searchable :: "tcam_unit \<Rightarrow> bool" where
  "searchable t \<longleftrightarrow> tables_ok t \<and> (\<exists>n \<le> 20. flow_tail t = int n \<and> mask_tail t \<le> 20 \<and>
     (\<forall>i<n. int (group (entries t) i) < mask_tail t))"

definition found :: "tcam_unit \<Rightarrow> byte list \<Rightarrow> nat option" where
  "found t f = best (hit (masks t) (entries t) f) (entries t) (length (entries t))"

lemma abs_searchable: "tcam_abs t gs \<Longrightarrow> searchable t"
  using tcam_abs_group_bound[of t gs] abs_masks_le[of t gs]
  by (auto simp: searchable_def tcam_abs_def)

lemma searchable_search:
  assumes "searchable t" "45 \<le> length f" "0 < length mp"
  shows "\<exists>mp'. search_tcam t f mp = Some (best_pos (found t f), fst (searched t f mp (length (entries t))), mp')"
  using assms search_tcam_ok[of t _ f mp] by (auto simp: searchable_def found_def) (metis prod.collapse)

text \<open>Two tables that differ in nothing a lookup compares: only in priorities, counters and timeouts.\<close>

definition same_keys :: "tcam_unit \<Rightarrow> tcam_unit \<Rightarrow> bool" where
  "same_keys t u \<longleftrightarrow> tables_ok u \<and> masks u = masks t \<and> flow_tail u = flow_tail t \<and> mask_tail u = mask_tail t \<and>
     map (take 45) (entries u) = map (take 45) (entries t)"

lemma abit_take: "q < 360 \<Longrightarrow> abit (take 45 e) q = abit e q"
  by (simp add: abit_def less_mult_imp_div_less)

lemma same_keys_entry:
  assumes "same_keys t u" "i < length (entries t)"
  shows "q < 360 \<Longrightarrow> abit (entries u ! i) q = abit (entries t ! i) q"
proof -
  assume q: "q < 360"
  have "length (entries u) = length (entries t)" using assms(1) by (simp add: same_keys_def)
  moreover have "map (take 45) (entries u) ! i = map (take 45) (entries t) ! i"
    using assms(1) by (simp only: same_keys_def)
  ultimately have "take 45 (entries u ! i) = take 45 (entries t ! i)"
    using assms(2) by (simp del: length_entries)
  then show ?thesis using abit_take[OF q] by metis
qed

lemma same_keys_group:
  assumes "same_keys t u"
  shows "i < length (entries t) \<Longrightarrow> group (entries u) i = group (entries t) i"
proof (induction i)
  case 0
  then show ?case using same_keys_entry[OF assms 0, of 356] assms
    by (cases "entries u"; cases "entries t") (auto simp: group_def marker_def same_keys_def)
next
  case (Suc i)
  have "length (entries u) = length (entries t)" using assms by (simp add: same_keys_def)
  moreover have "group es (Suc i) = group es i + (if marker (es ! Suc i) then 1 else 0)" if "Suc i < length es" for es
    using that by (simp add: group_def take_Suc_conv_app_nth)
  ultimately show ?case using Suc same_keys_entry[OF assms Suc.prems, of 356] by (simp add: marker_def)
qed

lemma same_keys_hit:
  assumes "same_keys t u" "i < length (entries t)"
  shows "hit (masks u) (entries u) f i = hit (masks t) (entries t) f i"
  using assms same_keys_group[OF assms] same_keys_entry[OF assms]
  by (auto simp: hit_def matches_def same_keys_def)

lemma same_keys_found:
  assumes "same_keys t u" "found t f \<noteq> None"
  shows "found u f \<noteq> None"
proof -
  have "length (entries u) = length (entries t)" using assms(1) by (simp add: same_keys_def)
  then show ?thesis
    using assms(2) same_keys_hit[OF assms(1), of _ f] by (auto simp: found_def best_None simp del: length_entries)
qed

lemma same_keys_searchable: "same_keys t u \<Longrightarrow> searchable t \<Longrightarrow> searchable u"
  using same_keys_group[of t u] by (auto simp: same_keys_def searchable_def)

lemma same_keys_trans: "same_keys t u \<Longrightarrow> same_keys u v \<Longrightarrow> same_keys t v"
  by (simp add: same_keys_def)

lemma searched_same_keys:
  assumes "searchable t"
  shows "same_keys t (fst (searched t f mp (length (entries t))))"
proof -
  obtain n where n: "tables_ok t" "flow_tail t = int n" "n \<le> 20" using assms by (auto simp: searchable_def)
  have "map (take 45) (entries (fst (searched t f mp n))) = map (take 45) (entries t)"
    using n by (intro nth_equalityI) (auto simp: entries_searched bump_def)
  then show ?thesis using n tables_ok_searched[OF n(1,3)]
    by (simp add: same_keys_def) (simp add: searched_def Let_def)
qed

text \<open>A modification changes no key: it writes bytes 45 to 47 of a row only.\<close>

definition keys_kept :: "byte list \<Rightarrow> byte list \<Rightarrow> bool" where
  "keys_kept xs ys \<longleftrightarrow> length ys = length xs \<and> (\<forall>i. i mod 48 < 45 \<longrightarrow> ys ! i = xs ! i)"

lemma keys_kept_refl: "keys_kept xs xs"
  by (simp add: keys_kept_def)

lemma keys_kept_trans: "keys_kept xs ys \<Longrightarrow> keys_kept ys zs \<Longrightarrow> keys_kept xs zs"
  by (simp add: keys_kept_def)

lemma keys_kept_cput:
  assumes "cput xs (int p * FLW_ENT_LEN + int c) v = Some ys" "45 \<le> c" "c < 48"
  shows "keys_kept xs ys"
proof -
  have "nat (int p * 48 + int c) = p * 48 + c" by (simp add: nat_add_distrib nat_mult_distrib)
  moreover have "(p * 48 + c) mod 48 = c" using assms(3) by simp
  ultimately show ?thesis
    using assms by (auto simp: cput_Some_iff keys_kept_def FLW_ENT_LEN_def nth_list_update)
qed

lemma keys_kept_byte:
  assumes "modify_byte flag fbit new (int p * FLW_ENT_LEN + int c) (xs, val, vp) = Some (ys, val', vp')" "45 \<le> c" "c < 48"
  shows "keys_kept xs ys"
  using assms keys_kept_cput[of xs p c] keys_kept_refl
  by (auto simp: modify_byte_def split: bind_splits if_splits)

lemma keys_kept_flow:
  assumes "modify_flow flag new (int p) (xs, val, vp) = Some ys"
  shows "keys_kept xs ys"
proof -
  have c: "keys_kept us vs" if "modify_counter us (int p * FLW_ENT_LEN + 46) d = Some vs" for us vs d
    using that keys_kept_cput[of us p 46] by (auto simp: modify_counter_def split: bind_splits)
  have b: "keys_kept us vs"
    if "modify_byte flag fb new (int p * FLW_ENT_LEN + 45) (us, v, q) = Some (vs, v', q') \<or>
      modify_byte flag fb new (int p * FLW_ENT_LEN + 46) (us, v, q) = Some (vs, v', q') \<or>
      modify_byte flag fb new (int p * FLW_ENT_LEN + 47) (us, v, q) = Some (vs, v', q')" for us vs v v' q q' fb
    using that keys_kept_byte[of flag fb new p 45 us] keys_kept_byte[of flag fb new p 46 us]
      keys_kept_byte[of flag fb new p 47 us] by auto
  show ?thesis
    using assms unfolding modify_flow_def
    by (auto split: bind_splits if_splits dest!: b[OF disjI1] b[OF disjI2[OF disjI1]] b[OF disjI2[OF disjI2]] c)
      (meson keys_kept_trans)+
qed

text \<open>The other two tables keep their sizes.\<close>

lemma bit_put_length:
  "set_bit_c xs i = Some ys \<Longrightarrow> length ys = length xs" "reset_bit xs i = Some ys \<Longrightarrow> length ys = length xs"
  by (auto simp: set_bit_c_def reset_bit_def Let_def cput_length split: bind_splits)

lemma replace_field_length:
  assumes "replace_field t e lo hi v = Some t'"
  shows "length t' = length t"
  using assms[unfolded replace_field_def] refl
  by (rule c_for_inv[where P = "\<lambda>xs. length xs = length t"])
    (auto simp: Let_def bit_put_length split: bind_splits if_splits)

lemma modify_byte_length: "modify_byte flag b new k (t, v, q) = Some (t', w) \<Longrightarrow> length t' = length t"
  by (auto simp: modify_byte_def cput_length split: bind_splits if_splits)

lemma modify_fields_length:
  "modify_action_fields fs flag new pos (t, v, q) = Some (t', w) \<Longrightarrow> length t' = length t"
proof (induction fs arbitrary: t v q)
  case (Cons f fs)
  obtain b lo hi where "f = (b, lo, hi)" by (cases f)
  then show ?case using Cons by (auto simp: replace_field_length split: bind_splits if_splits)
qed simp

lemma modify_action_set_length:
  "modify_action_set flag new pos (t, v, q) = Some (t', w) \<Longrightarrow> length t' = length t"
  by (auto simp: modify_action_set_def modify_byte_length modify_fields_length split: bind_splits if_splits)

lemma modify_flags_length: "modify_flags flag t pos = Some t' \<Longrightarrow> length t' = length t"
  by (auto simp: modify_flags_def cput_length split: bind_splits)

lemma keys_kept_entries:
  assumes "keys_kept (flow_table t) (flow_table u)" "flow_tail u = flow_tail t" "flow_tail t \<le> 20"
    and "length (flow_table t) = 960"
  shows "map (take 45) (entries u) = map (take 45) (entries t)"
proof (rule nth_equalityI)
  fix i assume "i < length (map (take 45) (entries u))"
  then have i: "i < nat (flow_tail t)" "i < 20" using assms(2,3) by auto
  have l: "length (flow_table u) = 960" using assms(1,4) by (simp add: keys_kept_def)
  have "(48 * i + j) mod 48 < 45" if "j < 45" for j using that by simp
  then have "take 45 (row 48 i (flow_table u)) = take 45 (row 48 i (flow_table t))"
    using i assms(1,4) l by (intro nth_equalityI) (auto simp: nth_row length_row keys_kept_def)
  then show "map (take 45) (entries u) ! i = map (take 45) (entries t) ! i"
    using i assms(2) by (simp add: entries_def)
qed (use assms(2) in simp)

lemma modify_keeps:
  assumes t: "searchable t" and len: "45 \<le> length f" "0 < length mp"
    and m: "modify_entry mp val t f flag new = Some (r, t')"
  shows "same_keys t t' \<and> found t f \<noteq> None"
proof -
  let ?s = "fst (searched t f mp (length (entries t)))"
  obtain mp' where s: "search_tcam t f mp = Some (best_pos (found t f), ?s, mp')"
    using searchable_search[OF t len] by blast
  have sk: "same_keys t ?s" by (rule searched_same_keys[OF t])
  show ?thesis
  proof (cases "found t f")
    case None
    then show ?thesis using m s modify_without_entry[of t f mp ?s mp'] by (simp add: best_pos_def)
  next
    case (Some p)
    have ok: "tables_ok ?s" "flow_tail ?s \<le> 20"
      using same_keys_searchable[OF sk t] by (auto simp: searchable_def)
    from m s Some obtain a v q fl fg where w:
      "modify_action_set flag new (int p) (action_table ?s, val, 0) = Some (a, v, q)"
      "modify_flow flag new (int p) (flow_table ?s, v, q) = Some fl"
      "modify_flags flag (flag_table ?s) (int p) = Some fg"
      "t' = ?s\<lparr>action_table := a, flow_table := fl, flag_table := fg\<rparr>"
      by (auto simp: modify_entry_def best_pos_def STR_ERR_def split: bind_splits)
    have k: "keys_kept (flow_table ?s) fl" by (rule keys_kept_flow[OF w(2)])
    have "tables_ok t'"
      using ok(1) k modify_action_set_length[OF w(1)] modify_flags_length[OF w(3)] w(4)
      by (simp add: tables_ok_def keys_kept_def)
    moreover have "map (take 45) (entries t') = map (take 45) (entries ?s)"
      using k w(4) ok by (intro keys_kept_entries) (simp_all add: tables_ok_def)
    ultimately have "same_keys ?s t'" using w(4) by (simp add: same_keys_def masks_def)
    then show ?thesis using same_keys_trans[OF sk] Some by simp
  qed
qed

lemma apply_found:
  assumes "searchable t" "45 \<le> length f" "0 < length mp" "found t f \<noteq> None" "cache_top c = 1"
    and "apply_action a mp val c t f = Some (r, c', t', out)"
  shows "r = 1"
proof -
  obtain p where p: "found t f = Some p" using assms(4) by auto
  have "search_cache c f t = Some (- 1, t)" using assms(5) by (simp add: search_cache_empty)
  then show ?thesis
    using searchable_search[OF assms(1-3)] p assms(6)
    by (auto simp: apply_action_def search_flow_def best_pos_def Let_def split: bind_splits)
qed

section \<open>The program does not come to its end\<close>

lemma filter_marker_fresh:
  "\<forall>e \<in> set es. 46 \<le> length e \<Longrightarrow> length (filter marker (map fresh es)) = length (filter marker es)"
  by (induction es) (auto simp: marker_fresh)

text \<open>Every deletion of a table that is not full leaves one that can be searched.\<close>

lemma delete_searchable:
  assumes abs: "tcam_abs t gs" and room: "length (flat gs) < 20" and len: "45 \<le> length f" "0 < length mp"
    and d: "delete_flow_entry mp t f = Some (r, t')"
  shows "searchable t'"
proof -
  let ?P = "hit (map fst gs) (flat gs) f"
  obtain p where p: "best ?P (flat gs) (length (flat gs)) = Some p"
    using returned_found[OF abs len] d by blast
  define hs where "hs = bumped ?P gs"
  obtain s mp' where s: "search_tcam t f mp = Some (int p, s, mp')" "tcam_abs s hs"
    using search_abs[OF abs len] p by (auto simp: best_pos_def hs_def)
  have t': "delete_found s (int p) = Some t'" using d s(1) by (auto simp: delete_flow_entry_def split: bind_splits)
  have n: "length (flat hs) = length (flat gs)" by (simp add: hs_def bumped_def flat_map_entries)
  then have "p < length (flat hs)" using best_Some[OF p] by simp
  then obtain k j where kj: "k < length hs" "j < length (snd (hs ! k))" "p = group_start hs k + j"
    by (rule entry_in_group)
  show ?thesis
  proof (cases "0 < k \<or> 1 < length (snd (hs ! k))")
    case True
    have "length (snd (hs ! k)) = 1 \<Longrightarrow> group_start hs k < 19" using flat_row(2)[OF s(2) kj(1,2)] n room by linarith
    then show ?thesis using delete_found_ok[OF s(2) kj(1,2) True] t' kj(3) abs_searchable by auto
  next
    case False
    then have z: "k = 0" "j = 0" "p = 0" "length (snd (hs ! 0)) = 1" using kj by (auto simp: group_start_def)
    let ?n = "length (flat hs)"
    have ok: "tables_ok s" "flow_tail s = int ?n" "?n \<le> 20" "mask_tail s = int (length hs)" "entries s = flat hs"
      "length hs \<le> 20" "0 < ?n"
      using s(2) abs_masks_le[OF s(2)] kj(3) \<open>p < length (flat hs)\<close> by (auto simp: tcam_abs_def)
    have "before_removal s 0 = Some s" using before_removal_plain[OF s(2) kj(1,2)] z by (simp add: group_start_def)
    moreover obtain v where v: "do { w \<leftarrow> delete_restructure_flow s (int 0); delete_restructure_action w (int 0) } = Some v"
      "tables_ok v" "flow_tail v = int ?n - 1" "mask_tail v = mask_tail s"
      "entries v = take 0 (entries s) @ map fresh (drop (Suc 0) (entries s))"
      using rows_removed[OF ok(1,2,7,3)] by blast
    ultimately have "t' = v" using t' z by (simp add: delete_found_split)
    have m0: "\<not> marker (flat hs ! 0)"
      using marked_at[of 0 "snd (hs ! 0)" 0] s(2) kj z flat_at[OF kj(1,2)] by (auto simp: tcam_abs_def group_start_def)
    have "int (group (entries v) i) < mask_tail v" if "i < ?n - 1" for i
    proof -
      obtain e es where es: "flat hs = e # es" using ok(7) by (cases "flat hs") auto
      have "group (entries v) i = group (flat hs) (Suc i)"
        using filter_marker_fresh[of "take (Suc i) es"] abs_entry_length[OF s(2)] m0 v(5) ok(5) es
        by (auto simp: group_def take_map dest: in_set_takeD)
      then show ?thesis using tcam_abs_group_bound[OF s(2), of "Suc i"] that ok(4,5) v(4) by simp
    qed
    moreover have "flow_tail v = int (?n - 1)" using v(3) ok(7) by linarith
    moreover have "?n - 1 \<le> 20" "mask_tail v \<le> 20" using v(4) ok(3,4,6) by linarith+
    ultimately show ?thesis unfolding searchable_def \<open>t' = v\<close> using v(2) by blast
  qed
qed

lemma bind_None: "(\<And>v. m = Some v \<Longrightarrow> k v = None) \<Longrightarrow> (m \<bind> k) = None"
  by (cases m) auto

lemma use_table_undefined:
  assumes "tcam_abs t gs" "length (flat gs) < 20" "length f = 46" "length f2 = 46"
    and "init c0 = Some c" "length (flow_cache c0) = 5"
  shows "use_table g gi c t f f2 r out = None"
proof -
  have "apply_action_printed a2 m2 v2 c1 t4 f2 = None"
    if d: "delete_flow_entry (local gi 0 2) t f = Some (pos, t2)"
      and m: "modify_entry_printed (local gi 1 2) (local g 9 6) t2 f2 fl new = Some (q, t3, s1)"
      and p: "apply_action_printed a (local gi 2 2) v c t3 f2 = Some (x, c1, t4, s2)"
    for pos t2 fl new q t3 s1 a v x c1 t4 s2 a2 m2 v2
  proof -
    have s2: "searchable t2" using delete_searchable[OF assms(1,2) _ _ d] assms(3) by simp
    have k: "same_keys t2 t3" "found t2 f2 \<noteq> None"
      using modify_keeps[OF s2 _ _ modify_entry_printed_runs[OF m]] assms(4) by auto
    obtain act where act: "apply_action a (local gi 2 2) v c t3 f2 = Some (x, c1, t4, act)"
      using apply_action_printed_runs[OF p] by blast
    have "cache_top c = 1" using init_ok[OF assms(6)] assms(5) by auto
    then have "x = 1"
      using apply_found[OF same_keys_searchable[OF k(1) s2] _ _ same_keys_found[OF k] _ act] assms(4) by simp
    then have "apply_action a2 m2 v2 c1 t4 f2 = None"
      using second_apply_closed[OF assms(6,5)] act by simp
    then show ?thesis by (simp add: apply_action_printed_def split_def bind_None)
  qed
  then show ?thesis unfolding use_table_def Let_def
    by (auto intro!: bind_None)
qed

text \<open>
  The files the program writes: a rule of ten dashes and a line for every entry, with its number and the
  bytes of its row; from a table whose tails are right this never leaves the arrays.
\<close>

lemma tables_listed:
  assumes "tcam_abs t gs"
  shows "output_tables t out = Some (out\<lparr>
     final_action_table := final_action_table out @ listing row_line (actions t),
     final_flow_table := final_flow_table out @ listing row_line (flat gs),
     final_flag_table := final_flag_table out @ listing flag_line (flags t)\<rparr>)"
proof -
  have ok: "tables_ok t" "flow_tail t = int (length (flat gs))" "length (flat gs) \<le> 20" "entries t = flat gs"
    using assms by (simp_all add: tcam_abs_def)
  then show ?thesis
    using output_all_actions_ok[OF ok(1-3)] output_all_flow_entries_ok[OF ok(1-3)] output_flags_ok[OF ok(1-3)]
    by (simp add: output_tables_def)
qed

text \<open>
  C38. The program of \<^verbatim>\<open>test2.c\<close> fills its table as it should: whatever \<^verbatim>\<open>rand\<close> answers and whatever the local
  arrays held, the six additions return and leave a list of groups with at most six entries.
  But it never comes to its end: a run that gets past the deletion and the modification has, for
  the second call of \<^verbatim>\<open>apply_action\<close>, the cache of a flow that was found.
\<close>

theorem test2_main_undefined:
  "(\<exists>t f f2 f3 r'. fill_table g r = Some (t, f, f2, f3, r') \<and> holds_at_most 6 t) \<and> test2_main g gi r out = None"
proof -
  obtain t f f2 f3 r' where t: "fill_table g r = Some (t, f, f2, f3, r')" "holds_at_most 6 t" "length f = 46" "length f2 = 46"
    using fill_table_returns[of g r] by (auto simp: returns_def)
  obtain gs where gs: "tcam_abs t gs" "length (flat gs) < 20" using t(2) by (auto simp: holds_at_most_def)
  let ?c = "\<lparr>flow_cache = replicate 5 (0, 0), cache_top = 0\<rparr>"
  obtain c where c: "init ?c = Some c" using init_ok[of ?c] by simp
  have "use_table g gi c t f f2 r' out = None"
    by (rule use_table_undefined[OF gs t(3,4) c]) simp
  then show ?thesis using t(1,2) c by (simp add: test2_main_def)
qed

end
