(* ===== verification/Flow_Test.thy ===== *)
theory Flow_Test
  imports Flow_Example
begin

text \<open>
  \<^verbatim>\<open>flow-processing-unit/test_flow_processing_unit.c\<close>: fills a table as \<^verbatim>\<open>test2.c\<close> does, deletes the first entry and
  looks three entries up. It never calls \<^verbatim>\<open>init\<close>, so that the first entry found would be noted behind the end of
  the cache.
\<close>

section \<open>The program\<close>

text \<open>
  One lookup with what is printed of it. The state is the cache, the tables, the two local arrays
  \<open>dummy_action_set\<close> and \<open>mask_pos\<close>, what was written, and the file of the lookups.
\<close>

type_synonym lookup_state = "cache \<times> tcam_unit \<times> byte list \<times> int list \<times> test_out \<times> string"

definition look_up :: "byte list \<Rightarrow> lookup_state \<Rightarrow> lookup_state option" where
  "look_up flow = (\<lambda>(c, t, dummy_action_set, mask_pos, out, fp). do {
     (pos, c, t, dummy_action_set, mask_pos) \<leftarrow> search_flow c t flow dummy_action_set mask_pos;
     k \<leftarrow> get_mask_pos t pos;
     let out = out\<lparr>screen := screen out @ dec_int pos @ '' '' @ dec_int k @ nl\<rparr>;
     fp \<leftarrow> (if pos \<noteq> - 1 then write_output dummy_action_set fp else Some fp);
     Some (c, t, dummy_action_set, mask_pos, out, fp) })"

text \<open>The globals are zeros; \<open>g\<close> and \<open>gi\<close> are what the local arrays hold.\<close>

definition flow_test_main ::
  "(nat \<Rightarrow> nat \<Rightarrow> byte) \<Rightarrow> (nat \<Rightarrow> nat \<Rightarrow> int) \<Rightarrow> random \<Rightarrow> test_out \<Rightarrow> string \<Rightarrow> (int \<times> test_out \<times> string) option" where
  "flow_test_main g gi r out fp = do {
     (t, dummy_flow_entry, dummy_flow_entry_2, dummy_flow_entry_3, r) \<leftarrow> fill_table g r;
     out \<leftarrow> output_tables t out;
     (pos, t) \<leftarrow> delete_flow_entry (local gi 0 2) t dummy_flow_entry;
     let out = out\<lparr>screen := screen out @ dec_int pos @ nl\<rparr>;
     out \<leftarrow> output_tables t out;
     st \<leftarrow> look_up dummy_flow_entry (\<lparr>flow_cache = replicate 5 (0, 0), cache_top = 0\<rparr>, t, local g 14 31, local gi 1 2, out, fp);
     st \<leftarrow> look_up dummy_flow_entry_2 st;
     (c, t, dummy_action_set, mask_pos, out, fp) \<leftarrow> look_up dummy_flow_entry_3 st;
     Some (0, out, fp) }"

section \<open>Without initialisation nothing may be found\<close>

lemma search_flow_uninitialised:
  assumes "searchable t" "45 \<le> length f" "0 < length m" "length (flow_cache c) = 5" "cache_top c = 0"
    and "search_flow c t f a m = Some (pos, c', t', a', m')"
  shows "found t f = None \<and> pos = - 1 \<and> c' = c \<and> same_keys t t' \<and> a' = a \<and> m' = m"
proof -
  let ?s = "searched t f m (length (entries t))"
  have s: "search_tcam t f m = Some (best_pos (found t f), ?s)"
    using assms(1-3) search_tcam_ok[of t _ f m] by (auto simp: searchable_def found_def)
  have k: "same_keys t (fst ?s)" by (rule searched_same_keys[OF assms(1)])
  have full: "cput (flow_cache c) (CACHE_SIZE - cache_top c) x = None" for x
    using assms(4,5) by (simp add: cput_def CACHE_SIZE_def)
  show ?thesis
  proof (cases "found t f")
    case None
    then have "snd ?s = m" by (simp add: searched_def best_mask_def found_def Let_def)
    then show ?thesis using assms(6) s k None by (cases ?s) (simp add: search_flow_def best_pos_def)
  next
    case (Some p)
    then show ?thesis using assms(6) s full
      by (auto simp: search_flow_def best_pos_def split: bind_splits)
  qed
qed

lemma look_up_uninitialised:
  assumes "searchable t" "45 \<le> length f" "0 < length m" "length (flow_cache c) = 5" "cache_top c = 0"
    and "look_up f (c, t, a, m, out, fp) = Some st"
  shows "\<exists>t'. st = (c, t', a, m, out\<lparr>screen := screen out @ ''-1 0'' @ nl\<rparr>, fp) \<and> searchable t'"
proof -
  obtain pos c' t' a' m' where s: "search_flow c t f a m = Some (pos, c', t', a', m')"
    using assms(6) by (auto simp: look_up_def split: bind_splits)
  then have f: "pos = - 1" "c' = c" "same_keys t t'" "a' = a" "m' = m"
    using search_flow_uninitialised[OF assms(1-5)] by auto
  have "get_mask_pos t' (- 1) = Some 0" by (simp add: get_mask_pos_def get_mask_pos_loop.simps)
  moreover have "dec_int (- 1) = ''-1''" "dec_int 0 = ''0''" by code_simp+
  moreover have "searchable t'" by (rule same_keys_searchable[OF f(3) assms(1)])
  ultimately show ?thesis using assms(6) s f by (auto simp: look_up_def)
qed

text \<open>
  C37. The program has no defined run in which one of its three lookups finds an entry: when it comes to its end, each
  of them has answered -1, and the file of the lookups is as it was. Without
  \<^verbatim>\<open>init\<close> the position that is noted for an entry is the sixth of five.
\<close>

theorem uninitialised_finds_nothing:
  assumes "flow_test_main g gi r out fp = Some (x, out', fp')"
  shows "x = 0 \<and> fp' = fp \<and> (\<exists>pos. screen out' = screen out @ dec_int pos @ nl @
     ''-1 0'' @ nl @ ''-1 0'' @ nl @ ''-1 0'' @ nl)"
proof -
  let ?c = "\<lparr>flow_cache = replicate 5 (0, 0), cache_top = 0\<rparr>"
  obtain t f f2 f3 r' where t: "fill_table g r = Some (t, f, f2, f3, r')" "holds_at_most 6 t"
    "length f = 46" "length f2 = 46" "length f3 = 46"
    using fill_table_returns[of g r] by (auto simp: returns_def)
  obtain gs where gs: "tcam_abs t gs" "length (flat gs) < 20" using t(2) by (auto simp: holds_at_most_def)
  obtain o1 where o1: "output_tables t out = Some o1" "screen o1 = screen out" using tables_listed[OF gs(1)] by auto
  obtain pos u where d: "delete_flow_entry (local gi 0 2) t f = Some (pos, u)"
    using assms t(1) o1 by (auto simp: flow_test_main_def split: bind_splits)
  have u: "searchable u" using delete_searchable[OF gs _ _ d] t(3) by (simp add: local_def)
  obtain o2 where o2: "output_tables u (o1\<lparr>screen := screen o1 @ dec_int pos @ nl\<rparr>) = Some o2"
    using assms t(1) o1 d by (auto simp: flow_test_main_def Let_def split: bind_splits)
  then have sc: "screen o2 = screen out @ dec_int pos @ nl" using o1(2) by (auto simp: output_tables_def split: bind_splits)
  have m: "0 < length (local gi 1 2)" by (simp add: local_def)
  obtain st1 st2 st3 where l: "look_up f (?c, u, local g 14 31, local gi 1 2, o2, fp) = Some st1"
    "look_up f2 st1 = Some st2" "look_up f3 st2 = Some st3"
    "(x, out', fp') = (0, fst (snd (snd (snd (snd st3)))), snd (snd (snd (snd (snd st3)))))"
    using assms t(1) o1 d o2 by (auto simp: flow_test_main_def Let_def split: bind_splits)
  obtain u1 where u1: "st1 = (?c, u1, local g 14 31, local gi 1 2, o2\<lparr>screen := screen o2 @ ''-1 0'' @ nl\<rparr>, fp)" "searchable u1"
    using look_up_uninitialised[OF u _ m _ _ l(1)] t(3) by auto
  obtain u2 where u2: "st2 = (?c, u2, local g 14 31, local gi 1 2,
      o2\<lparr>screen := screen o2 @ ''-1 0'' @ nl @ ''-1 0'' @ nl\<rparr>, fp)" "searchable u2"
    using look_up_uninitialised[OF u1(2) _ m _ _ l(2)[unfolded u1(1)]] t(4) by auto
  obtain u3 where "st3 = (?c, u3, local g 14 31, local gi 1 2,
      o2\<lparr>screen := screen o2 @ ''-1 0'' @ nl @ ''-1 0'' @ nl @ ''-1 0'' @ nl\<rparr>, fp)"
    using look_up_uninitialised[OF u2(2) _ m _ _ l(3)[unfolded u2(1)]] t(5) by auto
  then show ?thesis using l(4) sc by auto
qed

section \<open>A run to the end\<close>

text \<open>
  When \<^verbatim>\<open>rand\<close> always answers 2 all entries are the same and only the first is taken; it is deleted, and nothing is
  left to be found.
\<close>

definition mask_2 :: "byte list" where "mask_2 = replicate 45 152"
definition entry_2 :: "byte list" where "entry_2 = replicate 46 2"

lemma mask_2_unused: "unused_reset mask_2 = mask_2"
proof (rule abit_ext)
  fix q assume q: "q < 8 * length (unused_reset mask_2)"
  have "\<not> abit mask_2 q" if "357 \<le> q"
  proof -
    have "q < 360" using q by (simp add: mask_2_def)
    then have "q = 357 \<or> q = 358 \<or> q = 359" using that by linarith
    then show ?thesis by (auto simp: abit_def mask_2_def)
  qed
  then show "abit (unused_reset mask_2) q = abit mask_2 q"
    using q by (auto simp: unused_reset_def abit_put_bits mask_2_def)
qed simp

lemma entry_2_plain: "put_bit 356 False entry_2 = entry_2"
proof (rule abit_ext)
  fix q assume "q < 8 * length (put_bit 356 False entry_2)"
  moreover have "\<not> abit entry_2 356" by (simp add: abit_def entry_2_def)
  ultimately show "abit (put_bit 356 False entry_2) q = abit entry_2 q"
    by (auto simp: abit_put_bit entry_2_def)
qed simp

lemma entry_2_bits: "q < 360 \<Longrightarrow> abit (fresh entry_2) q = bit (2 :: byte) (7 - q mod 8)"
  by (simp add: abit_def fresh_def entry_2_def nth_append)

lemma entry_2_redundant: "redundant_in [(mask_2, [fresh entry_2])] 0 entry_2"
  by (auto simp: redundant_in_def looks_redundant_def entry_2_bits group_start_def) (simp_all add: abit_def entry_2_def)

lemma entry_2_found: "best (hit [mask_2] [fresh entry_2] entry_2) [fresh entry_2] 1 = Some 0"
  by (simp add: hit_def matches_def entry_2_bits) (simp add: abit_def entry_2_def)

lemma filled_with_2:
  "\<exists>t. fill_table g (\<lambda>_. 2) = Some (t, entry_2, entry_2, entry_2, \<lambda>_. 2) \<and> tcam_abs t [(mask_2, [fresh entry_2])]"
proof -
  have abs: "tcam_abs (match_unit g) []"
    by (simp add: tcam_abs_def match_unit_def tables_ok_def entries_def masks_def rows_def)
  have cm: "length xs = 45 \<Longrightarrow> create_mask xs (\<lambda>_. 2) = Some (mask_2, \<lambda>_. 2)" for xs
    by (simp add: create_mask_ok mask_2_def map_replicate_const del: upt_conv_Cons)
  have ce: "length xs = 46 \<Longrightarrow> create_flow_entry xs (\<lambda>_. 2) = Some (entry_2, \<lambda>_. 2)" for xs
    by (simp add: create_flow_entry_ok entry_2_def map_replicate_const del: upt_conv_Cons)
  have ca: "length xs = 31 \<Longrightarrow> create_action xs (\<lambda>_. 2) = Some (replicate 31 2, \<lambda>_. 2)" for xs
    by (simp add: create_action_ok map_replicate_const del: upt_conv_Cons)
  have rb: "length xs = 2 \<Longrightarrow> k < 2 \<Longrightarrow> random_byte xs k (\<lambda>_. 2) = Some (xs[k := 2], \<lambda>_. 2)" for xs k
    by (simp add: random_byte_ok)
  have l: "length entry_2 = 46" "length mask_2 = 45" by (simp_all add: entry_2_def mask_2_def)
  have "\<exists>t. add_new_entry (match_unit g) mask_2 entry_2 (replicate 31 2) f = Some (0, t, mask_2, entry_2) \<and>
      tcam_abs t [(mask_2, [fresh entry_2])]" if "length f = 2" for f
    using add_new_entry_new[OF abs, of mask_2 entry_2 "replicate 31 2" f] that l
    by (auto simp: mask_2_unused entry_2_plain)
  then obtain t where t: "add_new_entry (match_unit g) mask_2 entry_2 (replicate 31 2) ((local g 3 2)[0 := 2, Suc 0 := 2]) =
      Some (0, t, mask_2, entry_2)" "tcam_abs t [(mask_2, [fresh entry_2])]"
    by (metis length_list_update length_local)
  have again: "add_new_entry t mask_2 entry_2 a f = Some (RDNDNT, t, mask_2, entry_2)" for a f
    using add_new_entry_refused(2)[OF t(2) l(2), of entry_2 0 a f] l(1) entry_2_redundant by simp
  have "cput xs 0 v = Some (xs[0 := v])" if "length xs = 2" for xs :: "byte list" and v
    using that cput_int[of 0 xs v] by simp
  then show ?thesis using t again l by (simp add: fill_table_def cm ce ca rb)
qed

lemma deleted_with_2:
  assumes "tcam_abs t [(mask_2, [fresh entry_2])]" "0 < length mp"
  shows "\<exists>u. delete_flow_entry mp t entry_2 = Some (0, u) \<and> flow_tail u = 0"
proof -
  let ?gs = "[(mask_2, [fresh entry_2])]" and ?P = "hit [mask_2] [fresh entry_2] entry_2"
  have l: "45 \<le> length entry_2" "length mask_2 = 45" "46 \<le> length entry_2" by (simp_all add: entry_2_def mask_2_def)
  obtain s mp' where s: "search_tcam t entry_2 mp = Some (0, s, mp')" "tcam_abs s (bumped ?P ?gs)"
    using search_abs[OF assms(1) l(1) assms(2)] entry_2_found by (auto simp: best_pos_def)
  obtain e where "bumped ?P ?gs = [(mask_2, [e])]" by (simp add: bumped_def)
  then obtain u where "delete_found s 0 = Some u" "flow_tail u = 0"
    using delete_only_entry_leaves_mask[OF _ l(2,3), of s e] s(2) by auto
  then show ?thesis using s(1) by (simp add: delete_flow_entry_def)
qed

lemma look_up_empty:
  assumes "flow_tail t = 0"
  shows "look_up f (c, t, a, m, out, fp) = Some (c, t, a, m, out\<lparr>screen := screen out @ ''-1 0'' @ nl\<rparr>, fp)"
proof -
  have "search_tcam t f m = Some (- 1, t, m)"
    using assms by (simp add: search_tcam_def search_tcam_loop.simps)
  moreover have "dec_int (- 1) = ''-1''" "dec_int 0 = ''0''" by code_simp+
  ultimately show ?thesis
    by (simp add: look_up_def search_flow_def get_mask_pos_def get_mask_pos_loop.simps assms)
qed

lemma flow_test_main_returns: "\<exists>out'. flow_test_main g gi (\<lambda>_. 2) out fp = Some (0, out', fp)"
proof -
  obtain t where t: "fill_table g (\<lambda>_. 2) = Some (t, entry_2, entry_2, entry_2, \<lambda>_. 2)"
    "tcam_abs t [(mask_2, [fresh entry_2])]" using filled_with_2 by blast
  obtain u where u: "delete_flow_entry (local gi 0 2) t entry_2 = Some (0, u)" "flow_tail u = 0"
    using deleted_with_2[OF t(2), of "local gi 0 2"] by auto
  obtain o1 where o1: "output_tables t out = Some o1" using tables_listed[OF t(2)] by blast
  have "\<exists>o2. output_tables u o1' = Some o2" for o1'
    using u(2) by (simp add: output_tables_def output_all_actions_def output_all_flow_entries_def output_flags_def)
  then obtain o2 where "output_tables u (o1\<lparr>screen := screen o1 @ dec_int 0 @ nl\<rparr>) = Some o2" by blast
  then show ?thesis
    using t(1) u(1) o1 by (simp add: flow_test_main_def look_up_empty[OF u(2)])
qed

theorem uninitialised_finds_nothing_witness:
  "\<exists>out' fp'. flow_test_main (\<lambda>_ _. 0) (\<lambda>_ _. 0) (\<lambda>_. 2)
      \<lparr>screen = [], final_action_table = [], final_flow_table = [], final_flag_table = []\<rparr> [] = Some (0, out', fp') \<and>
     (\<exists>s. screen out' = s @ ''-1 0'' @ nl @ ''-1 0'' @ nl @ ''-1 0'' @ nl)"
proof -
  obtain out' where r: "flow_test_main (\<lambda>_ _. 0) (\<lambda>_ _. 0) (\<lambda>_. 2)
      \<lparr>screen = [], final_action_table = [], final_flow_table = [], final_flag_table = []\<rparr> [] = Some (0, out', [])"
    using flow_test_main_returns by blast
  from uninitialised_finds_nothing[OF r] obtain pos where
    "screen out' = (dec_int pos @ nl) @ ''-1 0'' @ nl @ ''-1 0'' @ nl @ ''-1 0'' @ nl" by auto
  then show ?thesis using r by blast
qed

end
