(* ===== verification/Processor.thy ===== *)
theory Processor
  imports C_Output
begin

text \<open>
  \<^verbatim>\<open>processor/processor.h\<close> and \<^verbatim>\<open>processor/controller.h\<close>: the records of a processor, its switch
  and its controller, and the functions that compare, print and write the fields of a packet.
  Every print and write function of the file is a loop over a fixed number of bytes; the loops are the
  ones of the theory \<open>C_Output\<close>, the number and the format are the function's own.
\<close>

section \<open>State\<close>

text \<open>
  The addresses and the port are pointers to bytes. A pointer to a record is an option, \<open>None\<close> being
  \<open>NULL\<close>. The packet buffers and the memory of a processor are only passed on: an address of 64 bits.
  The fields of \<open>memory\<close> and the two capsulation records are empty in the code.
\<close>

record switchx =
  swt_id :: byte
  swt_mac_addr :: ptr
  swt_ip_addr :: ptr
  swt_port :: ptr

record controller =
  con_id :: int
  con_ip_addr :: ptr
  con_mac_addr :: ptr
  con_port :: ptr
  is_available :: int
  connection_established :: int

type_synonym addr = "64 word"

record processor =
  proc_id :: byte
  packet_in :: addr
  packet_out :: addr
  of_data_in :: addr
  of_data_out :: addr
  ram :: addr
  con :: "controller option"
  swt :: "switchx option"

text \<open>The positions of the fields in a stored packet; the headers start at \<open>HEAD\<close>, which is 13.\<close>

datatype openflow_field_flag =
    FIELD_LENGTH | INGRESS_PORT | METADATA | HEAD | DST_MAC_ADDR | SRC_MAC_ADDR | ETHER_TYPE
  | IP_VERSION | IP_DIFF_SERV | IP_TOTAL_LENGTH | IP_ID | IP_FLAG | IP_FRAGMENT | IP_TTL | IP_PROTOCOL
  | IP_CHECKSUM | IP_SRC_IP | IP_DST_ADDR | TCP_SRC_PORT | TCP_DST_PORT | TCP_SEQ | TCP_ACK
  | TCP_HEADER_LEN | TCP_FLAG | TCP_WINDOW_SIZE | TCP_CHECKSUM

primrec field_flag :: "openflow_field_flag \<Rightarrow> int" where
  "field_flag FIELD_LENGTH = 0"
| "field_flag INGRESS_PORT = 1"
| "field_flag METADATA = 5"
| "field_flag HEAD = 13"
| "field_flag DST_MAC_ADDR = 13"
| "field_flag SRC_MAC_ADDR = 13 + 6"
| "field_flag ETHER_TYPE = 13 + 12"
| "field_flag IP_VERSION = 13 + 14"
| "field_flag IP_DIFF_SERV = 13 + 15"
| "field_flag IP_TOTAL_LENGTH = 13 + 16"
| "field_flag IP_ID = 13 + 18"
| "field_flag IP_FLAG = 13 + 20"
| "field_flag IP_FRAGMENT = 13 + 21"
| "field_flag IP_TTL = 13 + 22"
| "field_flag IP_PROTOCOL = 13 + 23"
| "field_flag IP_CHECKSUM = 13 + 24"
| "field_flag IP_SRC_IP = 13 + 26"
| "field_flag IP_DST_ADDR = 13 + 30"
| "field_flag TCP_SRC_PORT = 13 + 34"
| "field_flag TCP_DST_PORT = 13 + 36"
| "field_flag TCP_SEQ = 13 + 38"
| "field_flag TCP_ACK = 13 + 42"
| "field_flag TCP_HEADER_LEN = 13 + 46"
| "field_flag TCP_FLAG = 13 + 47"
| "field_flag TCP_WINDOW_SIZE = 13 + 49"
| "field_flag TCP_CHECKSUM = 13 + 51"

section \<open>Printing a field\<close>

definition print_field_of_n :: "ptr \<Rightarrow> ptr \<Rightarrow> string option" where
  "print_field_of_n field n = do {
     k \<leftarrow> deref n 0;
     print_bytes (\<lambda>b. dec_byte b @ ''.'') (unat k) field }"

definition print_ip_addr :: "ptr \<Rightarrow> string option" where
  "print_ip_addr = print_bytes (\<lambda>b. dec_byte b @ ''.'') 4"

definition print_mac_addr :: "ptr \<Rightarrow> string option" where
  "print_mac_addr = print_bytes (\<lambda>b. hex2 b @ ''.'') 6"

definition print_port :: "ptr \<Rightarrow> string option" where
  "print_port = print_bytes hex2 2"

definition print_openflow_port :: "ptr \<Rightarrow> string option" where
  "print_openflow_port = print_bytes hex2 4"

definition print_ether_type :: "ptr \<Rightarrow> string option" where
  "print_ether_type = print_bytes hex2 2"

definition print_vlan_vid :: "ptr \<Rightarrow> string option" where
  "print_vlan_vid = print_bytes hex2 2"

definition print_vlan_pcp :: "ptr \<Rightarrow> string option" where
  "print_vlan_pcp = print_bytes hex2 1"

definition print_length :: "ptr \<Rightarrow> string option" where
  "print_length = print_bytes dec_byte 1"

definition print_ip_version :: "ptr \<Rightarrow> string option" where
  "print_ip_version = print_bytes hex2 1"

definition print_ip_diff_serv :: "ptr \<Rightarrow> string option" where
  "print_ip_diff_serv = print_bytes hex2 1"

definition print_ip_total_length :: "ptr \<Rightarrow> string option" where
  "print_ip_total_length = print_bytes hex2 2"

definition print_ip_id :: "ptr \<Rightarrow> string option" where
  "print_ip_id = print_bytes hex2 2"

definition print_ip_flag :: "ptr \<Rightarrow> string option" where
  "print_ip_flag = print_bytes hex2 1"

definition print_ip_fragment_offset :: "ptr \<Rightarrow> string option" where
  "print_ip_fragment_offset = print_bytes hex2 1"

definition print_ip_ttl :: "ptr \<Rightarrow> string option" where
  "print_ip_ttl = print_bytes hex2 1"

definition print_ip_protocol :: "ptr \<Rightarrow> string option" where
  "print_ip_protocol = print_bytes hex2 1"

definition print_ip_checksum :: "ptr \<Rightarrow> string option" where
  "print_ip_checksum = print_bytes hex2 2"

definition print_tcp_port :: "ptr \<Rightarrow> string option" where
  "print_tcp_port = print_bytes hex2 2"

definition print_tcp_seq :: "ptr \<Rightarrow> string option" where
  "print_tcp_seq = print_bytes hex2 4"

definition print_tcp_ack :: "ptr \<Rightarrow> string option" where
  "print_tcp_ack = print_bytes hex2 4"

definition print_tcp_header_len :: "ptr \<Rightarrow> string option" where
  "print_tcp_header_len = print_bytes hex2 1"

definition print_tcp_flag :: "ptr \<Rightarrow> string option" where
  "print_tcp_flag = print_bytes hex2 1"

definition print_tcp_window_size :: "ptr \<Rightarrow> string option" where
  "print_tcp_window_size = print_bytes hex2 2"

definition print_tcp_checksum :: "ptr \<Rightarrow> string option" where
  "print_tcp_checksum = print_bytes hex2 2"

definition print_ofpt_version :: "ptr \<Rightarrow> string option" where
  "print_ofpt_version = print_bytes hex2 1"

definition print_ofpt_type :: "ptr \<Rightarrow> string option" where
  "print_ofpt_type = print_bytes hex2 1"

definition print_ofpt_length :: "ptr \<Rightarrow> string option" where
  "print_ofpt_length = print_bytes hex2 2"

definition print_ofpt_xid :: "ptr \<Rightarrow> string option" where
  "print_ofpt_xid = print_bytes hex2 4"

definition print_ofpt_buffer_id :: "ptr \<Rightarrow> string option" where
  "print_ofpt_buffer_id = print_bytes hex2 4"

definition print_ofpt_total_length :: "ptr \<Rightarrow> string option" where
  "print_ofpt_total_length = print_bytes hex2 2"

definition print_ofpt_in_port :: "ptr \<Rightarrow> string option" where
  "print_ofpt_in_port = print_bytes hex2 2"

definition print_ofpt_wildcard :: "ptr \<Rightarrow> string option" where
  "print_ofpt_wildcard = print_bytes hex2 4"

definition print_ofpt_reason :: "ptr \<Rightarrow> string option" where
  "print_ofpt_reason = print_bytes hex2 1"

definition print_ofpt_cookie :: "ptr \<Rightarrow> string option" where
  "print_ofpt_cookie = print_bytes hex2 8"

definition print_oftp_command :: "ptr \<Rightarrow> string option" where
  "print_oftp_command = print_bytes hex2 2"

definition print_oftp_idle_timeout :: "ptr \<Rightarrow> string option" where
  "print_oftp_idle_timeout = print_bytes hex2 2"

definition print_oftp_hard_timeout :: "ptr \<Rightarrow> string option" where
  "print_oftp_hard_timeout = print_bytes hex2 2"

definition print_oftp_priority :: "ptr \<Rightarrow> string option" where
  "print_oftp_priority = print_bytes hex2 2"

definition print_oftp_buffer_id :: "ptr \<Rightarrow> string option" where
  "print_oftp_buffer_id = print_bytes hex2 4"

definition print_oftp_out_port :: "ptr \<Rightarrow> string option" where
  "print_oftp_out_port = print_bytes hex2 2"

definition printf_oftp_flag :: "ptr \<Rightarrow> string option" where
  "printf_oftp_flag = print_bytes hex2 2"

definition print_oftp_action_type :: "ptr \<Rightarrow> string option" where
  "print_oftp_action_type = print_bytes hex2 2"

definition print_oftp_length :: "ptr \<Rightarrow> string option" where
  "print_oftp_length = print_bytes hex2 2"

definition print_oftp_action_port :: "ptr \<Rightarrow> string option" where
  "print_oftp_action_port = print_bytes hex2 2"

definition print_oftp_max_length :: "ptr \<Rightarrow> string option" where
  "print_oftp_max_length = print_bytes hex2 2"

section \<open>Comparing fields\<close>

text \<open>
  The answer is the code's \<open>is_matched\<close>. The two fields are printed first, so all their bytes are read.
\<close>

definition compare_mac_addr :: "ptr \<Rightarrow> ptr \<Rightarrow> (int \<times> string) option" where
  "compare_mac_addr mac1 mac2 = do {
     let out = nl @ ''+++ Comapring MAC Address +++'' @ nl;
     s1 \<leftarrow> print_mac_addr mac1;
     s2 \<leftarrow> print_mac_addr mac2;
     let out = out @ s1 @ s2 @ ''Start MAC Comparison'' @ nl;
     differ \<leftarrow> bytes_differ 6 mac1 mac2;
     let is_matched = (if differ then 0 else 1);
     Some (is_matched, if is_matched = 1 then out @ ''+++ MAC addresses Matched +++'' @ nl else out) }"

definition compare_ip_addr :: "ptr \<Rightarrow> ptr \<Rightarrow> (int \<times> string) option" where
  "compare_ip_addr ip1 ip2 = do {
     let out = nl @ ''+++ Comparing IP Addresses +++'' @ nl;
     s1 \<leftarrow> print_ip_addr ip1;
     s2 \<leftarrow> print_ip_addr ip2;
     let out = out @ s1 @ s2 @ ''Start IP Comparison'' @ nl;
     differ \<leftarrow> bytes_differ 4 ip1 ip2;
     let is_matched = (if differ then 0 else 1);
     Some (is_matched, if is_matched = 1 then out @ ''+++ IP Addresses Matched +++'' @ nl else out) }"

definition compare_field_of_n :: "ptr \<Rightarrow> ptr \<Rightarrow> ptr \<Rightarrow> (int \<times> string) option" where
  "compare_field_of_n field1 field2 n = do {
     let out = nl @ ''+++ Comparing Field of N +++'' @ nl;
     s1 \<leftarrow> print_field_of_n field1 n;
     s2 \<leftarrow> print_field_of_n field2 n;
     let out = out @ s1 @ s2 @ ''Start IP Comparison'' @ nl;
     k \<leftarrow> deref n 0;
     differ \<leftarrow> bytes_differ (unat k) field1 field2;
     let is_matched = (if differ then 0 else 1);
     Some (is_matched, if is_matched = 1 then out @ ''+++ Field Matched +++'' @ nl else out) }"

definition compare_tcp_port :: "ptr \<Rightarrow> ptr \<Rightarrow> (int \<times> string) option" where
  "compare_tcp_port port1 port2 = do {
     differ \<leftarrow> bytes_differ 2 port1 port2;
     let is_matched = (if differ then 0 else 1);
     Some (is_matched, ''Start PORT Comparison'' @ nl) }"

section \<open>Writing a field\<close>

text \<open>The first pointer is the source. The answer is always 1; the array written to comes with it.\<close>

definition writes :: "nat \<Rightarrow> ptr \<Rightarrow> ptr \<Rightarrow> (int \<times> byte list) option" where
  "writes n p q = do { arr \<leftarrow> write_bytes n p q; Some (1, arr) }"

definition write_length :: "ptr \<Rightarrow> ptr \<Rightarrow> (int \<times> byte list) option" where
  "write_length = writes 1"

definition write_mac_addr :: "ptr \<Rightarrow> ptr \<Rightarrow> (int \<times> byte list) option" where
  "write_mac_addr = writes 6"

definition write_ether_type :: "ptr \<Rightarrow> ptr \<Rightarrow> (int \<times> byte list) option" where
  "write_ether_type = writes 2"

definition write_ip_version :: "ptr \<Rightarrow> ptr \<Rightarrow> (int \<times> byte list) option" where
  "write_ip_version = writes 1"

definition write_ip_addr :: "ptr \<Rightarrow> ptr \<Rightarrow> (int \<times> byte list) option" where
  "write_ip_addr = writes 4"

definition write_ip_diff_serv :: "ptr \<Rightarrow> ptr \<Rightarrow> (int \<times> byte list) option" where
  "write_ip_diff_serv = writes 1"

definition write_ip_total_length :: "ptr \<Rightarrow> ptr \<Rightarrow> (int \<times> byte list) option" where
  "write_ip_total_length = writes 2"

definition write_ip_id :: "ptr \<Rightarrow> ptr \<Rightarrow> (int \<times> byte list) option" where
  "write_ip_id = writes 2"

definition write_ip_flag :: "ptr \<Rightarrow> ptr \<Rightarrow> (int \<times> byte list) option" where
  "write_ip_flag = writes 1"

definition write_ip_fragment_offset :: "ptr \<Rightarrow> ptr \<Rightarrow> (int \<times> byte list) option" where
  "write_ip_fragment_offset = writes 1"

definition write_ip_ttl :: "ptr \<Rightarrow> ptr \<Rightarrow> (int \<times> byte list) option" where
  "write_ip_ttl = writes 1"

definition write_ip_protocol :: "ptr \<Rightarrow> ptr \<Rightarrow> (int \<times> byte list) option" where
  "write_ip_protocol = writes 1"

definition write_ip_checksum :: "ptr \<Rightarrow> ptr \<Rightarrow> (int \<times> byte list) option" where
  "write_ip_checksum = writes 2"

definition write_tcp_port :: "ptr \<Rightarrow> ptr \<Rightarrow> (int \<times> byte list) option" where
  "write_tcp_port = writes 2"

definition write_tcp_seq :: "ptr \<Rightarrow> ptr \<Rightarrow> (int \<times> byte list) option" where
  "write_tcp_seq = writes 4"

definition write_tcp_ack :: "ptr \<Rightarrow> ptr \<Rightarrow> (int \<times> byte list) option" where
  "write_tcp_ack = writes 4"

definition write_tcp_header_len :: "ptr \<Rightarrow> ptr \<Rightarrow> (int \<times> byte list) option" where
  "write_tcp_header_len = writes 1"

definition write_tcp_flag :: "ptr \<Rightarrow> ptr \<Rightarrow> (int \<times> byte list) option" where
  "write_tcp_flag = writes 1"

definition write_tcp_window_size :: "ptr \<Rightarrow> ptr \<Rightarrow> (int \<times> byte list) option" where
  "write_tcp_window_size = writes 2"

definition write_tcp_checksum :: "ptr \<Rightarrow> ptr \<Rightarrow> (int \<times> byte list) option" where
  "write_tcp_checksum = writes 1"

definition write_zero :: "ptr \<Rightarrow> ptr \<Rightarrow> (int \<times> byte list) option" where
  "write_zero = writes 1"

definition write_ofpt_version :: "ptr \<Rightarrow> ptr \<Rightarrow> (int \<times> byte list) option" where
  "write_ofpt_version = writes 1"

definition write_ofpt_type :: "ptr \<Rightarrow> ptr \<Rightarrow> (int \<times> byte list) option" where
  "write_ofpt_type = writes 1"

definition write_ofpt_length :: "ptr \<Rightarrow> ptr \<Rightarrow> (int \<times> byte list) option" where
  "write_ofpt_length = writes 2"

definition write_ofpt_xid :: "ptr \<Rightarrow> ptr \<Rightarrow> (int \<times> byte list) option" where
  "write_ofpt_xid = writes 4"

definition write_ofpt_buffer_id :: "ptr \<Rightarrow> ptr \<Rightarrow> (int \<times> byte list) option" where
  "write_ofpt_buffer_id = writes 4"

definition write_ofpt_total_length :: "ptr \<Rightarrow> ptr \<Rightarrow> (int \<times> byte list) option" where
  "write_ofpt_total_length = writes 2"

definition write_ofpt_in_port :: "ptr \<Rightarrow> ptr \<Rightarrow> (int \<times> byte list) option" where
  "write_ofpt_in_port = writes 2"

definition write_ofpt_reason :: "ptr \<Rightarrow> ptr \<Rightarrow> (int \<times> byte list) option" where
  "write_ofpt_reason = writes 1"

definition write_field_of_n :: "ptr \<Rightarrow> ptr \<Rightarrow> ptr \<Rightarrow> (int \<times> byte list) option" where
  "write_field_of_n field field_n n = do { k \<leftarrow> deref n 0; writes (unat k) field field_n }"

section \<open>Processor, switch and controller\<close>

abbreviation no_processor :: string where
  "no_processor \<equiv> ''ERROR: Processor Undefined.please create the processor first'' @ nl"

text \<open>\<open>p->id = id\<close> stores a pointer in a byte, which keeps its last eight bits.\<close>

definition processor_start ::
  "processor option \<Rightarrow> addr \<Rightarrow> addr \<Rightarrow> addr \<Rightarrow> addr \<Rightarrow> addr \<Rightarrow> addr \<Rightarrow> int \<times> processor option \<times> string" where
  "processor_start p idp pin pout din dout memory = (case p of
     None \<Rightarrow> (0, None, no_processor)
   | Some p \<Rightarrow> (1, Some (p\<lparr>proc_id := ucast idp, packet_in := pin, packet_out := pout,
       of_data_in := din, of_data_out := dout, ram := memory\<rparr>), []))"

definition print_processor :: "processor option \<Rightarrow> int \<times> string" where
  "print_processor p = (case p of
     None \<Rightarrow> (0, no_processor)
   | Some p \<Rightarrow> (1, ''Processor: '' @ dec_byte (proc_id p) @ nl))"

text \<open>
  \<open>processor_print\<close> passes whole packet buffers to \<open>%d\<close> and one argument too few, which is undefined.
\<close>

definition processor_print :: "processor option \<Rightarrow> string option" where
  "processor_print p = (case p of None \<Rightarrow> Some no_processor | Some p \<Rightarrow> None)"

definition print_switch :: "switchx option \<Rightarrow> string option" where
  "print_switch s = (case s of
     None \<Rightarrow> Some no_processor
   | Some s \<Rightarrow> do {
       m \<leftarrow> print_mac_addr (swt_mac_addr s);
       i \<leftarrow> print_ip_addr (swt_ip_addr s);
       p \<leftarrow> print_port (swt_port s);
       Some (''SWITCH: '' @ dec_byte (swt_id s) @ nl @ m @ i @ p) })"

definition print_controller :: "controller option \<Rightarrow> string option" where
  "print_controller c = (case c of
     None \<Rightarrow> Some (''ERROR: Controller Undefined.Connect to Controller first'' @ nl)
   | Some c \<Rightarrow> do {
       m \<leftarrow> print_mac_addr (con_mac_addr c);
       i \<leftarrow> print_ip_addr (con_ip_addr c);
       p \<leftarrow> print_port (con_port c);
       Some (nl @ ''Controller: '' @ dec_int (con_id c) @ nl @ m @ i @ p) })"

text \<open>\<open>start_controller\<close> has an empty body.\<close>

definition start_controller ::
  "controller option \<Rightarrow> byte \<Rightarrow> ptr \<Rightarrow> ptr \<Rightarrow> ptr \<Rightarrow> int \<Rightarrow> int \<Rightarrow> controller option" where
  "start_controller c i mac ip port available established = c"

lemmas print_defs =
  print_ip_addr_def print_mac_addr_def print_port_def print_openflow_port_def
  print_ether_type_def print_vlan_vid_def print_vlan_pcp_def print_length_def
  print_ip_version_def print_ip_diff_serv_def print_ip_total_length_def print_ip_id_def
  print_ip_flag_def print_ip_fragment_offset_def print_ip_ttl_def print_ip_protocol_def
  print_ip_checksum_def print_tcp_port_def print_tcp_seq_def print_tcp_ack_def
  print_tcp_header_len_def print_tcp_flag_def print_tcp_window_size_def print_tcp_checksum_def
  print_ofpt_version_def print_ofpt_type_def print_ofpt_length_def print_ofpt_xid_def
  print_ofpt_buffer_id_def print_ofpt_total_length_def print_ofpt_in_port_def
  print_ofpt_wildcard_def print_ofpt_reason_def print_ofpt_cookie_def print_oftp_command_def
  print_oftp_idle_timeout_def print_oftp_hard_timeout_def print_oftp_priority_def
  print_oftp_buffer_id_def print_oftp_out_port_def printf_oftp_flag_def
  print_oftp_action_type_def print_oftp_length_def print_oftp_action_port_def
  print_oftp_max_length_def

lemmas write_defs =
  write_length_def write_mac_addr_def write_ether_type_def write_ip_version_def write_ip_addr_def
  write_ip_diff_serv_def write_ip_total_length_def write_ip_id_def write_ip_flag_def
  write_ip_fragment_offset_def write_ip_ttl_def write_ip_protocol_def write_ip_checksum_def
  write_tcp_port_def write_tcp_seq_def write_tcp_ack_def write_tcp_header_len_def
  write_tcp_flag_def write_tcp_window_size_def write_tcp_checksum_def write_zero_def
  write_ofpt_version_def write_ofpt_type_def write_ofpt_length_def write_ofpt_xid_def
  write_ofpt_buffer_id_def write_ofpt_total_length_def write_ofpt_in_port_def
  write_ofpt_reason_def

section \<open>What comparing and writing do\<close>

lemma writes_ok:
  assumes "in_ptr p n" "in_ptr q n"
  shows "writes n p q = Some (1, blit (fst q) (nat (snd q)) (at p n))"
  using assms by (simp add: writes_def write_bytes_ok)

lemma in_ptr_le: "in_ptr p n \<Longrightarrow> m \<le> n \<Longrightarrow> in_ptr p m"
  by (auto simp: in_ptr_def)

lemma at_blit: "in_ptr q n \<Longrightarrow> length xs = n \<Longrightarrow> at (blit (fst q) (nat (snd q)) xs, snd q) n = xs"
  by (auto simp: at_def in_ptr_def slice_blit_same)

lemma in_ptr_blit: "in_ptr q n \<Longrightarrow> length xs = n \<Longrightarrow> in_ptr (blit (fst q) (nat (snd q)) xs, snd q) n"
  by (auto simp: in_ptr_def length_blit)

lemma compare_mac_ok:
  "in_ptr p 6 \<Longrightarrow> in_ptr q 6 \<Longrightarrow> \<exists>out. compare_mac_addr p q = Some (if at p 6 = at q 6 then 1 else 0, out)"
  by (simp add: compare_mac_addr_def print_mac_addr_def print_bytes_ok bytes_differ_ok Let_def)

lemma compare_ip_ok:
  "in_ptr p 4 \<Longrightarrow> in_ptr q 4 \<Longrightarrow> \<exists>out. compare_ip_addr p q = Some (if at p 4 = at q 4 then 1 else 0, out)"
  by (simp add: compare_ip_addr_def print_ip_addr_def print_bytes_ok bytes_differ_ok Let_def)

lemma compare_port_ok:
  "in_ptr p 2 \<Longrightarrow> in_ptr q 2 \<Longrightarrow> \<exists>out. compare_tcp_port p q = Some (if at p 2 = at q 2 then 1 else 0, out)"
  by (simp add: compare_tcp_port_def bytes_differ_ok Let_def)

lemma compare_field_ok:
  "in_ptr p (unat b) \<Longrightarrow> in_ptr q (unat b) \<Longrightarrow> deref n 0 = Some b \<Longrightarrow>
   \<exists>out. compare_field_of_n p q n = Some (if at p (unat b) = at q (unat b) then 1 else 0, out)"
  by (simp add: compare_field_of_n_def print_field_of_n_def print_bytes_ok bytes_differ_ok Let_def)

text \<open>
  The four comparisons answer 1 exactly when the fields have the same bytes: six of a MAC address,
  four of an IP address, two of a port and as many as \<open>n\<close> says otherwise.
\<close>

theorem comparisons_right:
  assumes "in_ptr p k" "in_ptr q k" "deref n 0 = Some b" "unat b \<le> k"
  shows "(6 \<le> k \<longrightarrow> (\<exists>out. compare_mac_addr p q = Some (if at p 6 = at q 6 then 1 else 0, out))) \<and>
    (4 \<le> k \<longrightarrow> (\<exists>out. compare_ip_addr p q = Some (if at p 4 = at q 4 then 1 else 0, out))) \<and>
    (2 \<le> k \<longrightarrow> (\<exists>out. compare_tcp_port p q = Some (if at p 2 = at q 2 then 1 else 0, out))) \<and>
    (\<exists>out. compare_field_of_n p q n = Some (if at p (unat b) = at q (unat b) then 1 else 0, out))"
  by (intro conjI impI compare_mac_ok compare_ip_ok compare_port_ok compare_field_ok[OF _ _ assms(3)]
      in_ptr_le[OF assms(1)] in_ptr_le[OF assms(2)] assms(4))

theorem comparisons_right_witness:
  "(\<exists>out. compare_mac_addr (replicate 6 7, 0) (replicate 8 7, 2) = Some (1, out)) \<and>
   (\<exists>out. compare_ip_addr ([1, 2, 3, 4, 5, 6], 0) ([1, 2, 3, 5, 5, 6], 0) = Some (0, out))"
  using comparisons_right[of "(replicate 6 7, 0)" 6 "(replicate 8 7, 2)" "([3], 0)" "3"]
    comparisons_right[of "([1, 2, 3, 4, 5, 6], 0)" 6 "([1, 2, 3, 5, 5, 6], 0)" "([3], 0)" "3"]
  by (simp add: in_ptr_def at_def slice_def deref_def cget_def)

text \<open>
  C26. A field that was written compares equal to its source afterwards, and nothing else of the array
  changes: MAC and IP addresses, ports and fields of a length.
\<close>

theorem written_fields_compare_equal:
  assumes "in_ptr p k" "in_ptr q k"
    and "(w, cmp, m) \<in> {(write_mac_addr, compare_mac_addr, 6), (write_ip_addr, compare_ip_addr, 4),
       (write_tcp_port, compare_tcp_port, 2)}" "m \<le> k"
  shows "\<exists>arr. w p q = Some (1, arr) \<and> length arr = length (fst q) \<and>
    (\<exists>out. cmp p (arr, snd q) = Some (1, out)) \<and>
    (\<forall>i < length arr. \<not> (snd q \<le> int i \<and> int i < snd q + int m) \<longrightarrow> arr ! i = fst q ! i)"
proof -
  let ?arr = "blit (fst q) (nat (snd q)) (at p m)"
  have pq: "in_ptr p m" "in_ptr q m" using assms in_ptr_le by blast+
  then have a: "at (?arr, snd q) m = at p m" "in_ptr (?arr, snd q) m" by (simp_all add: at_blit in_ptr_blit)
  have w: "w p q = Some (1, ?arr)"
    using assms(3) writes_ok[OF pq] by (auto simp: write_mac_addr_def write_ip_addr_def write_tcp_port_def)
  have "\<exists>out. cmp p (?arr, snd q) = Some (1, out)"
    using assms(3) pq(1) a compare_mac_ok[of p "(?arr, snd q)"] compare_ip_ok[of p "(?arr, snd q)"]
      compare_port_ok[of p "(?arr, snd q)"] by auto
  moreover have "?arr ! i = fst q ! i" if "i < length ?arr" "\<not> (snd q \<le> int i \<and> int i < snd q + int m)" for i
    using that pq by (auto simp: in_ptr_def nth_blit length_blit)
  ultimately show ?thesis using w pq by (auto simp: length_blit in_ptr_def)
qed

theorem written_fields_compare_equal_witness:
  "\<exists>arr out. write_ip_addr ([10, 0, 0, 2], 0) (replicate 9 7, 3) = Some (1, arr) \<and>
     compare_ip_addr ([10, 0, 0, 2], 0) (arr, 3) = Some (1, out) \<and> arr ! 8 = 7"
  using written_fields_compare_equal[of "([10, 0, 0, 2], 0)" 4 "(replicate 9 7, 3)" write_ip_addr compare_ip_addr 4]
  by (auto simp: in_ptr_def)

end
