(* ===== verification/C_Layout.thy ===== *)
theory C_Layout
  imports C_Prelude
begin

text \<open>
  How C lays out the types the message headers are made of: scalars of some bytes, aligned to their
  size, arrays and structures. A structure starts every field at the next multiple of the field's
  alignment and is filled up to a multiple of its own, the largest of them. An array of length 0 at the
  end of a structure takes no bytes. \<open>wire_size\<close> is what the same fields take without filling,
  as they go over the network.
\<close>

datatype cty = Scalar nat | Array cty nat | Struct "(string \<times> cty) list"

definition uint8_t :: cty where "uint8_t = Scalar 1"
definition uint16_t :: cty where "uint16_t = Scalar 2"
definition uint32_t :: cty where "uint32_t = Scalar 4"
definition int32_t :: cty where "int32_t = Scalar 4"
definition uint64_t :: cty where "uint64_t = Scalar 8"
definition char_t :: cty where "char_t = Scalar 1"

lemmas scalar_defs = uint8_t_def uint16_t_def uint32_t_def int32_t_def uint64_t_def char_t_def

section \<open>Layout\<close>

definition round_up :: "nat \<Rightarrow> nat \<Rightarrow> nat" where
  "round_up p a = (p + (a - 1)) div a * a"

text \<open>Over a list of fields with their sizes and alignments, from a position on.\<close>

primrec end_of :: "nat \<Rightarrow> (string \<times> nat \<times> nat) list \<Rightarrow> nat" where
  "end_of p [] = p"
| "end_of p (f # fs) = end_of (round_up p (snd (snd f)) + fst (snd f)) fs"

primrec field_at :: "nat \<Rightarrow> (string \<times> nat \<times> nat) list \<Rightarrow> string \<Rightarrow> nat option" where
  "field_at p [] g = None"
| "field_at p (f # fs) g = (if fst f = g then Some (round_up p (snd (snd f)))
     else field_at (round_up p (snd (snd f)) + fst (snd f)) fs g)"

primrec max_align :: "(string \<times> nat \<times> nat) list \<Rightarrow> nat" where
  "max_align [] = 1"
| "max_align (f # fs) = max (snd (snd f)) (max_align fs)"

text \<open>Size and alignment of a type.\<close>

primrec layout :: "cty \<Rightarrow> nat \<times> nat" where
  "layout (Scalar n) = (n, n)"
| "layout (Array t n) = (n * fst (layout t), snd (layout t))"
| "layout (Struct fs) = (let ls = map (map_prod (\<lambda>f. f) layout) fs; a = max_align ls in
     (round_up (end_of 0 ls) a, a))"

definition sizeof :: "cty \<Rightarrow> nat" where
  "sizeof t = fst (layout t)"

definition offsetof :: "cty \<Rightarrow> string \<Rightarrow> nat option" where
  "offsetof t g = (case t of Struct fs \<Rightarrow> field_at 0 (map (map_prod (\<lambda>f. f) layout) fs) g | _ \<Rightarrow> None)"

section \<open>The same fields without filling\<close>

primrec wire_size :: "cty \<Rightarrow> nat" where
  "wire_size (Scalar n) = n"
| "wire_size (Array t n) = n * wire_size t"
| "wire_size (Struct fs) = sum_list (map snd (map (map_prod (\<lambda>f. f) wire_size) fs))"

primrec wire_at :: "nat \<Rightarrow> (string \<times> nat) list \<Rightarrow> string \<Rightarrow> nat option" where
  "wire_at p [] g = None"
| "wire_at p (f # fs) g = (if fst f = g then Some p else wire_at (p + snd f) fs g)"

definition wire_offset :: "cty \<Rightarrow> string \<Rightarrow> nat option" where
  "wire_offset t g = (case t of Struct fs \<Rightarrow> wire_at 0 (map (map_prod (\<lambda>f. f) wire_size) fs) g | _ \<Rightarrow> None)"

primrec scalars_ok :: "cty \<Rightarrow> bool" where
  "scalars_ok (Scalar n) = (0 < n)"
| "scalars_ok (Array t n) = scalars_ok t"
| "scalars_ok (Struct fs) = list_all snd (map (map_prod (\<lambda>f. f) scalars_ok) fs)"

lemma round_up_ge: "0 < a \<Longrightarrow> p \<le> round_up p a"
proof -
  assume a: "0 < a"
  define x r where "x = (p + (a - 1)) div a * a" and "r = (p + (a - 1)) mod a"
  have "p + (a - 1) = x + r" by (simp add: x_def r_def)
  moreover have "r \<le> a - 1" using mod_less_divisor[OF a, of "p + (a - 1)"] unfolding r_def by linarith
  ultimately have "p \<le> x" by linarith
  then show ?thesis by (simp add: round_up_def x_def)
qed

lemma max_align_pos: "0 < max_align ls"
  by (induction ls) auto

lemma layout_align_pos: "scalars_ok t \<Longrightarrow> 0 < snd (layout t)"
  by (induction t) (auto simp: Let_def max_align_pos)

lemma end_of_ge:
  "\<forall>f \<in> set ls. 0 < snd (snd f) \<Longrightarrow> p + sum_list (map (\<lambda>f. fst (snd f)) ls) \<le> end_of p ls"
proof (induction ls arbitrary: p)
  case (Cons f ls)
  have "p \<le> round_up p (snd (snd f))" using Cons.prems by (intro round_up_ge) simp
  moreover have "round_up p (snd (snd f)) + fst (snd f) + sum_list (map (\<lambda>f. fst (snd f)) ls) \<le> end_of p (f # ls)"
    using Cons by simp
  ultimately show ?case by simp
qed simp

lemma wire_size_le: "scalars_ok t \<Longrightarrow> wire_size t \<le> sizeof t"
proof (induction t)
  case (Array t n)
  then show ?case by (simp add: sizeof_def)
next
  case (Struct fs)
  let ?ls = "map (map_prod (\<lambda>f. f) layout) fs"
  have pos: "\<forall>f \<in> set ?ls. 0 < snd (snd f)" using Struct.prems by (auto simp: list_all_iff layout_align_pos)
  have "wire_size (Struct fs) \<le> sum_list (map (\<lambda>f. fst (snd f)) ?ls)"
  proof -
    have "wire_size (snd f) \<le> fst (layout (snd f))" if "f \<in> set fs" for f
      using Struct that by (cases f) (auto simp: sizeof_def list_all_iff)
    then show ?thesis by (simp add: comp_def) (rule sum_list_mono, blast)
  qed
  also have "\<dots> \<le> end_of 0 ?ls" using end_of_ge[OF pos, of 0] by simp
  also have "\<dots> \<le> sizeof (Struct fs)"
    using round_up_ge[OF max_align_pos] by (simp add: sizeof_def Let_def)
  finally show ?case .
qed (simp add: sizeof_def)

text \<open>A structure that takes no more than its fields has every field where the wire has it.\<close>

lemma no_filling_places:
  assumes "\<forall>f \<in> set fs. scalars_ok (snd f)"
    and "end_of p (map (map_prod (\<lambda>f. f) layout) fs) \<le> p + sum_list (map (\<lambda>f. wire_size (snd f)) fs)"
  shows "field_at p (map (map_prod (\<lambda>f. f) layout) fs) g = wire_at p (map (map_prod (\<lambda>f. f) wire_size) fs) g"
  using assms
proof (induction fs arbitrary: p)
  case (Cons f fs)
  let ?ls = "map (map_prod (\<lambda>f. f) layout) fs"
  define r s where "r = round_up p (snd (layout (snd f)))" and "s = sizeof (snd f)"
  have pos: "\<forall>f \<in> set ?ls. 0 < snd (snd f)" using Cons.prems(1) by (auto simp: layout_align_pos)
  have r: "p \<le> r" unfolding r_def using Cons.prems(1) by (intro round_up_ge layout_align_pos) simp
  have s: "wire_size (snd f) \<le> s" unfolding s_def using Cons.prems(1) by (intro wire_size_le) simp
  have "sum_list (map (\<lambda>f. wire_size (snd f)) fs) \<le> sum_list (map (\<lambda>f. fst (snd f)) ?ls)"
    using Cons.prems(1) wire_size_le by (auto simp: comp_def sizeof_def intro!: sum_list_mono)
  moreover have "r + s + sum_list (map (\<lambda>f. fst (snd f)) ?ls) \<le> end_of (r + s) ?ls" by (rule end_of_ge[OF pos])
  moreover have e: "end_of (r + s) ?ls \<le> p + wire_size (snd f) + sum_list (map (\<lambda>f. wire_size (snd f)) fs)"
    using Cons.prems(2) by (simp add: r_def s_def sizeof_def)
  ultimately have "r + s \<le> p + wire_size (snd f)" by linarith
  with r s have eq: "r = p" "s = wire_size (snd f)" by linarith+
  have "field_at (r + s) ?ls g = wire_at (r + s) (map (map_prod (\<lambda>f. f) wire_size) fs) g"
    using Cons.prems(1) e eq by (intro Cons.IH) auto
  then show ?case using eq by (simp add: r_def s_def sizeof_def)
qed simp

text \<open>Filling at the end only does not move a field.\<close>

definition packed :: "cty \<Rightarrow> bool" where
  "packed t \<longleftrightarrow> scalars_ok t \<and>
     (case t of Struct fs \<Rightarrow> end_of 0 (map (map_prod (\<lambda>f. f) layout) fs) \<le> wire_size t | _ \<Rightarrow> True)"

lemma packed_offsets: "packed t \<Longrightarrow> offsetof t g = wire_offset t g"
proof (cases t)
  case (Struct fs)
  assume p: "packed t"
  then have "\<forall>f \<in> set fs. scalars_ok (snd f)" by (auto simp: packed_def Struct list_all_iff)
  moreover have "end_of 0 (map (map_prod (\<lambda>f. f) layout) fs) \<le> 0 + sum_list (map (\<lambda>f. wire_size (snd f)) fs)"
    using p by (simp add: packed_def Struct comp_def)
  ultimately show ?thesis using no_filling_places by (simp add: offsetof_def wire_offset_def Struct)
qed (simp_all add: offsetof_def wire_offset_def)

lemma offsets_on_the_wire:
  assumes "scalars_ok t" "sizeof t \<le> wire_size t"
  shows "offsetof t g = wire_offset t g"
proof (rule packed_offsets)
  have "end_of 0 (map (map_prod (\<lambda>f. f) layout) fs) \<le> sizeof t" if "t = Struct fs" for fs
    using round_up_ge[OF max_align_pos] by (simp add: sizeof_def that Let_def)
  then show "packed t" using assms order_trans by (fastforce simp: packed_def split: cty.split)
qed

end
