(* ===== verification/Openflow_Structs.thy ===== *)
theory Openflow_Structs
  imports C_Layout
begin

text \<open>
  \<^verbatim>\<open>include/openflow.h\<close>: the structures of the OpenFlow messages, one definition for each, in
  the order of the file. The header asserts the size of each of them at compile time; the list
  \<open>ofp_asserts\<close> has these sizes. Fields the file has commented out are left out.
\<close>

section \<open>Lengths\<close>

definition OFP_MAX_TABLE_NAME_LEN :: nat where "OFP_MAX_TABLE_NAME_LEN = 32"
definition OFP_MAX_PORT_NAME_LEN :: nat where "OFP_MAX_PORT_NAME_LEN = 16"
definition OFP_ETH_ALEN :: nat where "OFP_ETH_ALEN = 6"
definition DESC_STR_LEN :: nat where "DESC_STR_LEN = 256"
definition SERIAL_NUM_LEN :: nat where "SERIAL_NUM_LEN = 32"

lemmas length_defs = OFP_MAX_TABLE_NAME_LEN_def OFP_MAX_PORT_NAME_LEN_def OFP_ETH_ALEN_def
  DESC_STR_LEN_def SERIAL_NUM_LEN_def

section \<open>Messages, ports and tables\<close>

definition ofp_header :: cty where
  "ofp_header = Struct [(''version'', uint8_t), (''type'', uint8_t), (''length'', uint16_t),
     (''xid'', uint32_t)]"

definition ofp_hello_elem_header :: cty where
  "ofp_hello_elem_header = Struct [(''type'', uint16_t), (''length'', uint16_t)]"

definition ofp_hello_elem_versionbitmap :: cty where
  "ofp_hello_elem_versionbitmap = Struct [(''type'', uint16_t), (''length'', uint16_t),
     (''bitmaps'', Array uint32_t 0)]"

definition ofp_hello :: cty where
  "ofp_hello = Struct [(''header'', ofp_header), (''elements'', Array ofp_hello_elem_header 0)]"

definition ofp_switch_config :: cty where
  "ofp_switch_config = Struct [(''header'', ofp_header), (''flags'', uint16_t),
     (''miss_send_len'', uint16_t)]"

definition ofp_table_mod_prop_header :: cty where
  "ofp_table_mod_prop_header = Struct [(''type'', uint16_t), (''length'', uint16_t)]"

definition ofp_table_mod_prop_eviction :: cty where
  "ofp_table_mod_prop_eviction = Struct [(''type'', uint16_t), (''length'', uint16_t),
     (''flags'', uint32_t)]"

definition ofp_table_mod_prop_vacancy :: cty where
  "ofp_table_mod_prop_vacancy = Struct [(''type'', uint16_t), (''length'', uint16_t),
     (''vacancy_down'', uint8_t), (''vacancy_up'', uint8_t), (''vacancy'', uint8_t),
     (''pad'', Array uint8_t 1)]"

definition ofp_table_mod_prop_experimenter :: cty where
  "ofp_table_mod_prop_experimenter = Struct [(''type'', uint16_t), (''length'', uint16_t),
     (''experimenter'', uint32_t), (''exp_type'', uint32_t),
     (''experimenter_data'', Array uint32_t 0)]"

definition ofp_table_mod :: cty where
  "ofp_table_mod = Struct [(''header'', ofp_header), (''table_id'', uint8_t),
     (''pad'', Array uint8_t 3), (''config'', uint32_t),
     (''properties'', Array ofp_table_mod_prop_header 0)]"

definition ofp_port_desc_prop_header :: cty where
  "ofp_port_desc_prop_header = Struct [(''type'', uint16_t), (''length'', uint16_t)]"

definition ofp_port_desc_prop_ethernet :: cty where
  "ofp_port_desc_prop_ethernet = Struct [(''type'', uint16_t), (''length'', uint16_t),
     (''pad'', Array uint8_t 4), (''curr'', uint32_t), (''advertised'', uint32_t),
     (''supported'', uint32_t), (''peer'', uint32_t), (''curr_speed'', uint32_t),
     (''max_speed'', uint32_t)]"

definition ofp_port_desc_prop_optical :: cty where
  "ofp_port_desc_prop_optical = Struct [(''type'', uint16_t), (''length'', uint16_t),
     (''pad'', Array uint8_t 4), (''supported'', uint32_t), (''tx_min_freq_lmda'', uint32_t),
     (''tx_max_freq_lmda'', uint32_t), (''tx_grid_freq_lmda'', uint32_t),
     (''rx_min_freq_lmda'', uint32_t), (''rx_max_freq_lmda'', uint32_t),
     (''rx_grid_freq_lmda'', uint32_t), (''tx_pwr_min'', uint16_t), (''tx_pwr_max'', uint16_t)]"

definition ofp_port_desc_prop_experimenter :: cty where
  "ofp_port_desc_prop_experimenter = Struct [(''type'', uint16_t), (''length'', uint16_t),
     (''experimenter'', uint32_t), (''exp_type'', uint32_t),
     (''experimenter_data'', Array uint32_t 0)]"

definition ofp_port :: cty where
  "ofp_port = Struct [(''port_no'', uint32_t), (''length'', uint16_t), (''pad'', Array uint8_t 2),
     (''hw_addr'', Array uint8_t OFP_ETH_ALEN), (''pad2'', Array uint8_t 2),
     (''name'', Array char_t OFP_MAX_PORT_NAME_LEN), (''config'', uint32_t), (''state'', uint32_t),
     (''properties'', Array ofp_port_desc_prop_header 0)]"

definition ofp_switch_features :: cty where
  "ofp_switch_features = Struct [(''header'', ofp_header), (''datapath_id'', uint64_t),
     (''n_buffers'', uint32_t), (''n_tables'', uint8_t), (''auxiliary_id'', uint8_t),
     (''pad'', Array uint8_t 2), (''capabilities'', uint32_t), (''reserved'', uint32_t)]"

definition ofp_port_status :: cty where
  "ofp_port_status = Struct [(''header'', ofp_header), (''reason'', uint8_t),
     (''pad'', Array uint8_t 7), (''desc'', ofp_port)]"

definition ofp_port_mod_prop_header :: cty where
  "ofp_port_mod_prop_header = Struct [(''type'', uint16_t), (''length'', uint16_t)]"

definition ofp_port_mod_prop_ethernet :: cty where
  "ofp_port_mod_prop_ethernet = Struct [(''type'', uint16_t), (''length'', uint16_t),
     (''advertise'', uint32_t)]"

definition ofp_port_mod_prop_optical :: cty where
  "ofp_port_mod_prop_optical = Struct [(''type'', uint16_t), (''length'', uint16_t),
     (''configure'', uint32_t), (''freq_lmda'', uint32_t), (''fl_offset'', int32_t),
     (''grid_span'', uint32_t), (''tx_pwr'', uint32_t)]"

definition ofp_port_mod_prop_experimenter :: cty where
  "ofp_port_mod_prop_experimenter = Struct [(''type'', uint16_t), (''length'', uint16_t),
     (''experimenter'', uint32_t), (''exp_type'', uint32_t),
     (''experimenter_data'', Array uint32_t 0)]"

definition ofp_port_mod :: cty where
  "ofp_port_mod = Struct [(''header'', ofp_header), (''port_no'', uint32_t),
     (''pad'', Array uint8_t 4), (''hw_addr'', Array uint8_t OFP_ETH_ALEN),
     (''pad2'', Array uint8_t 2), (''config'', uint32_t), (''mask'', uint32_t),
     (''properties'', Array ofp_port_mod_prop_header 0)]"

section \<open>Matches\<close>

definition ofp_match :: cty where
  "ofp_match = Struct [(''type'', uint16_t), (''length'', uint16_t),
     (''oxm_fields'', Array uint8_t 0), (''pad'', Array uint8_t 4)]"

definition ofp_oxm_experimenter_header :: cty where
  "ofp_oxm_experimenter_header = Struct [(''oxm_header'', uint32_t), (''experimenter'', uint32_t)]"

section \<open>Actions\<close>

definition ofp_action_header :: cty where
  "ofp_action_header = Struct [(''type'', uint16_t), (''len'', uint16_t)]"

definition ofp_action_output :: cty where
  "ofp_action_output = Struct [(''type'', uint16_t), (''len'', uint16_t), (''port'', uint32_t),
     (''max_len'', uint16_t), (''pad'', Array uint8_t 6)]"

definition ofp_action_generic :: cty where
  "ofp_action_generic = Struct [(''type'', uint16_t), (''len'', uint16_t),
     (''pad'', Array uint8_t 4)]"

definition ofp_action_mpls_ttl :: cty where
  "ofp_action_mpls_ttl = Struct [(''type'', uint16_t), (''len'', uint16_t),
     (''mpls_ttl'', uint8_t), (''pad'', Array uint8_t 3)]"

definition ofp_action_push :: cty where
  "ofp_action_push = Struct [(''type'', uint16_t), (''len'', uint16_t), (''ethertype'', uint16_t),
     (''pad'', Array uint8_t 2)]"

definition ofp_action_pop_mpls :: cty where
  "ofp_action_pop_mpls = Struct [(''type'', uint16_t), (''len'', uint16_t),
     (''ethertype'', uint16_t), (''pad'', Array uint8_t 2)]"

definition ofp_action_set_queue :: cty where
  "ofp_action_set_queue = Struct [(''type'', uint16_t), (''len'', uint16_t),
     (''queue_id'', uint32_t)]"

definition ofp_action_group :: cty where
  "ofp_action_group = Struct [(''type'', uint16_t), (''len'', uint16_t), (''group_id'', uint32_t)]"

definition ofp_action_nw_ttl :: cty where
  "ofp_action_nw_ttl = Struct [(''type'', uint16_t), (''len'', uint16_t), (''nw_ttl'', uint8_t),
     (''pad'', Array uint8_t 3)]"

definition ofp_action_set_field :: cty where
  "ofp_action_set_field = Struct [(''type'', uint16_t), (''len'', uint16_t),
     (''field'', Array uint8_t 4)]"

definition ofp_action_experimenter_header :: cty where
  "ofp_action_experimenter_header = Struct [(''type'', uint16_t), (''len'', uint16_t),
     (''experimenter'', uint32_t)]"

section \<open>Instructions\<close>

definition ofp_instruction_header :: cty where
  "ofp_instruction_header = Struct [(''type'', uint16_t), (''len'', uint16_t)]"

definition ofp_instruction_goto_table :: cty where
  "ofp_instruction_goto_table = Struct [(''type'', uint16_t), (''len'', uint16_t),
     (''table_id'', uint8_t), (''pad'', Array uint8_t 3)]"

definition ofp_instruction_write_metadata :: cty where
  "ofp_instruction_write_metadata = Struct [(''type'', uint16_t), (''len'', uint16_t),
     (''pad'', Array uint8_t 4), (''metadata'', uint64_t), (''metadata_mask'', uint64_t)]"

definition ofp_instruction_actions :: cty where
  "ofp_instruction_actions = Struct [(''type'', uint16_t), (''len'', uint16_t),
     (''pad'', Array uint8_t 4), (''actions'', Array ofp_action_header 0)]"

definition ofp_instruction_meter :: cty where
  "ofp_instruction_meter = Struct [(''type'', uint16_t), (''len'', uint16_t),
     (''meter_id'', uint32_t)]"

definition ofp_instruction_experimenter_header :: cty where
  "ofp_instruction_experimenter_header = Struct [(''type'', uint16_t), (''len'', uint16_t),
     (''experimenter'', uint32_t)]"

section \<open>Flows, groups and packets\<close>

definition ofp_flow_mod :: cty where
  "ofp_flow_mod = Struct [(''header'', ofp_header), (''cookie'', uint64_t),
     (''cookie_mask'', uint64_t), (''table_id'', uint8_t), (''command'', uint8_t),
     (''idle_timeout'', uint16_t), (''hard_timeout'', uint16_t), (''priority'', uint16_t),
     (''buffer_id'', uint32_t), (''out_port'', uint32_t), (''out_group'', uint32_t),
     (''flags'', uint16_t), (''importance'', uint16_t), (''match'', ofp_match)]"

definition ofp_bucket :: cty where
  "ofp_bucket = Struct [(''len'', uint16_t), (''weight'', uint16_t), (''watch_port'', uint32_t),
     (''watch_group'', uint32_t), (''pad'', Array uint8_t 4),
     (''actions'', Array ofp_action_header 0)]"

definition ofp_group_mod :: cty where
  "ofp_group_mod = Struct [(''header'', ofp_header), (''command'', uint16_t), (''type'', uint8_t),
     (''pad'', uint8_t), (''group_id'', uint32_t), (''buckets'', Array ofp_bucket 0)]"

definition ofp_packet_out :: cty where
  "ofp_packet_out = Struct [(''header'', ofp_header), (''buffer_id'', uint32_t),
     (''in_port'', uint32_t), (''actions_len'', uint16_t), (''pad'', Array uint8_t 6),
     (''actions'', Array ofp_action_header 0)]"

definition ofp_packet_in :: cty where
  "ofp_packet_in = Struct [(''header'', ofp_header), (''buffer_id'', uint32_t),
     (''total_len'', uint16_t), (''reason'', uint8_t), (''table_id'', uint8_t),
     (''cookie'', uint64_t), (''match'', ofp_match)]"

definition ofp_flow_removed :: cty where
  "ofp_flow_removed = Struct [(''header'', ofp_header), (''cookie'', uint64_t),
     (''priority'', uint16_t), (''reason'', uint8_t), (''table_id'', uint8_t),
     (''duration_sec'', uint32_t), (''duration_nsec'', uint32_t), (''idle_timeout'', uint16_t),
     (''hard_timeout'', uint16_t), (''packet_count'', uint64_t), (''byte_count'', uint64_t),
     (''match'', ofp_match)]"

section \<open>Meters\<close>

definition ofp_meter_band_header :: cty where
  "ofp_meter_band_header = Struct [(''type'', uint16_t), (''len'', uint16_t), (''rate'', uint32_t),
     (''burst_size'', uint32_t)]"

definition ofp_meter_band_drop :: cty where
  "ofp_meter_band_drop = Struct [(''type'', uint16_t), (''len'', uint16_t), (''rate'', uint32_t),
     (''burst_size'', uint32_t), (''pad'', Array uint8_t 4)]"

definition ofp_meter_band_dscp_remark :: cty where
  "ofp_meter_band_dscp_remark = Struct [(''type'', uint16_t), (''len'', uint16_t),
     (''rate'', uint32_t), (''burst_size'', uint32_t), (''prec_level'', uint8_t),
     (''pad'', Array uint8_t 3)]"

definition ofp_meter_band_experimenter :: cty where
  "ofp_meter_band_experimenter = Struct [(''type'', uint16_t), (''len'', uint16_t),
     (''rate'', uint32_t), (''burst_size'', uint32_t), (''experimenter'', uint32_t)]"

definition ofp_meter_mod :: cty where
  "ofp_meter_mod = Struct [(''header'', ofp_header), (''command'', uint16_t),
     (''flags'', uint16_t), (''meter_id'', uint32_t), (''bands'', Array ofp_meter_band_header 0)]"

section \<open>Errors\<close>

definition ofp_error_msg :: cty where
  "ofp_error_msg = Struct [(''header'', ofp_header), (''type'', uint16_t), (''code'', uint16_t),
     (''data'', Array uint8_t 0)]"

definition ofp_error_experimenter_msg :: cty where
  "ofp_error_experimenter_msg = Struct [(''header'', ofp_header), (''type'', uint16_t),
     (''exp_code'', uint16_t), (''experimenter'', uint32_t), (''data'', Array uint8_t 0)]"

section \<open>Multipart messages\<close>

definition ofp_multipart_request :: cty where
  "ofp_multipart_request = Struct [(''header'', ofp_header), (''type'', uint16_t),
     (''flags'', uint16_t), (''pad'', Array uint8_t 4), (''body'', Array uint8_t 0)]"

definition ofp_multipart_reply :: cty where
  "ofp_multipart_reply = Struct [(''header'', ofp_header), (''type'', uint16_t),
     (''flags'', uint16_t), (''pad'', Array uint8_t 4), (''body'', Array uint8_t 0)]"

definition ofp_desc :: cty where
  "ofp_desc = Struct [(''mfr_desc'', Array char_t DESC_STR_LEN),
     (''hw_desc'', Array char_t DESC_STR_LEN), (''sw_desc'', Array char_t DESC_STR_LEN),
     (''serial_num'', Array char_t SERIAL_NUM_LEN), (''dp_desc'', Array char_t DESC_STR_LEN)]"

definition ofp_flow_stats_request :: cty where
  "ofp_flow_stats_request = Struct [(''table_id'', uint8_t), (''pad'', Array uint8_t 3),
     (''out_port'', uint32_t), (''out_group'', uint32_t), (''pad2'', Array uint8_t 4),
     (''cookie'', uint64_t), (''cookie_mask'', uint64_t), (''match'', ofp_match)]"

definition ofp_flow_stats :: cty where
  "ofp_flow_stats = Struct [(''length'', uint16_t), (''table_id'', uint8_t), (''pad'', uint8_t),
     (''duration_sec'', uint32_t), (''duration_nsec'', uint32_t), (''priority'', uint16_t),
     (''idle_timeout'', uint16_t), (''hard_timeout'', uint16_t), (''flags'', uint16_t),
     (''importance'', uint16_t), (''pad2'', Array uint8_t 2), (''cookie'', uint64_t),
     (''packet_count'', uint64_t), (''byte_count'', uint64_t), (''match'', ofp_match)]"

definition ofp_aggregate_stats_request :: cty where
  "ofp_aggregate_stats_request = Struct [(''table_id'', uint8_t), (''pad'', Array uint8_t 3),
     (''out_port'', uint32_t), (''out_group'', uint32_t), (''pad2'', Array uint8_t 4),
     (''cookie'', uint64_t), (''cookie_mask'', uint64_t), (''match'', ofp_match)]"

definition ofp_aggregate_stats_reply :: cty where
  "ofp_aggregate_stats_reply = Struct [(''packet_count'', uint64_t), (''byte_count'', uint64_t),
     (''flow_count'', uint32_t), (''pad'', Array uint8_t 4)]"

section \<open>Table features\<close>

definition ofp_table_feature_prop_header :: cty where
  "ofp_table_feature_prop_header = Struct [(''type'', uint16_t), (''length'', uint16_t)]"

definition ofp_instruction_id :: cty where
  "ofp_instruction_id = Struct [(''type'', uint16_t), (''len'', uint16_t),
     (''exp_data'', Array uint8_t 0)]"

definition ofp_table_feature_prop_instructions :: cty where
  "ofp_table_feature_prop_instructions = Struct [(''type'', uint16_t), (''length'', uint16_t),
     (''instruction_ids'', Array ofp_instruction_id 0)]"

definition ofp_table_feature_prop_tables :: cty where
  "ofp_table_feature_prop_tables = Struct [(''type'', uint16_t), (''length'', uint16_t),
     (''table_ids'', Array uint8_t 0)]"

definition ofp_action_id :: cty where
  "ofp_action_id = Struct [(''type'', uint16_t), (''len'', uint16_t),
     (''exp_data'', Array uint8_t 0)]"

definition ofp_table_feature_prop_actions :: cty where
  "ofp_table_feature_prop_actions = Struct [(''type'', uint16_t), (''length'', uint16_t),
     (''action_ids'', Array ofp_action_id 0)]"

definition ofp_table_feature_prop_oxm :: cty where
  "ofp_table_feature_prop_oxm = Struct [(''type'', uint16_t), (''length'', uint16_t),
     (''oxm_ids'', Array uint32_t 0)]"

definition ofp_table_feature_prop_experimenter :: cty where
  "ofp_table_feature_prop_experimenter = Struct [(''type'', uint16_t), (''length'', uint16_t),
     (''experimenter'', uint32_t), (''exp_type'', uint32_t),
     (''experimenter_data'', Array uint32_t 0)]"

definition ofp_table_features :: cty where
  "ofp_table_features = Struct [(''length'', uint16_t), (''table_id'', uint8_t),
     (''pad'', Array uint8_t 5), (''name'', Array char_t OFP_MAX_TABLE_NAME_LEN),
     (''metadata_match'', uint64_t), (''metadata_write'', uint64_t), (''capabilities'', uint32_t),
     (''max_entries'', uint32_t), (''properties'', Array ofp_table_feature_prop_header 0)]"

definition ofp_table_stats :: cty where
  "ofp_table_stats = Struct [(''table_id'', uint8_t), (''pad'', Array uint8_t 3),
     (''active_count'', uint32_t), (''lookup_count'', uint64_t), (''matched_count'', uint64_t)]"

definition ofp_table_desc :: cty where
  "ofp_table_desc = Struct [(''length'', uint16_t), (''table_id'', uint8_t),
     (''pad'', Array uint8_t 1), (''config'', uint32_t),
     (''properties'', Array ofp_table_mod_prop_header 0)]"

section \<open>Statistics\<close>

definition ofp_port_stats_request :: cty where
  "ofp_port_stats_request = Struct [(''port_no'', uint32_t), (''pad'', Array uint8_t 4)]"

definition ofp_port_stats_prop_header :: cty where
  "ofp_port_stats_prop_header = Struct [(''type'', uint16_t), (''length'', uint16_t)]"

definition ofp_port_stats_prop_ethernet :: cty where
  "ofp_port_stats_prop_ethernet = Struct [(''type'', uint16_t), (''length'', uint16_t),
     (''pad'', Array uint8_t 4), (''rx_frame_err'', uint64_t), (''rx_over_err'', uint64_t),
     (''rx_crc_err'', uint64_t), (''collisions'', uint64_t)]"

definition ofp_port_stats_prop_optical :: cty where
  "ofp_port_stats_prop_optical = Struct [(''type'', uint16_t), (''length'', uint16_t),
     (''pad'', Array uint8_t 4), (''flags'', uint32_t), (''tx_freq_lmda'', uint32_t),
     (''tx_offset'', uint32_t), (''tx_grid_span'', uint32_t), (''rx_freq_lmda'', uint32_t),
     (''rx_offset'', uint32_t), (''rx_grid_span'', uint32_t), (''tx_pwr'', uint16_t),
     (''rx_pwr'', uint16_t), (''bias_current'', uint16_t), (''temperature'', uint16_t)]"

definition ofp_port_stats_prop_experimenter :: cty where
  "ofp_port_stats_prop_experimenter = Struct [(''type'', uint16_t), (''length'', uint16_t),
     (''experimenter'', uint32_t), (''exp_type'', uint32_t),
     (''experimenter_data'', Array uint32_t 0)]"

definition ofp_port_stats :: cty where
  "ofp_port_stats = Struct [(''length'', uint16_t), (''pad'', Array uint8_t 2),
     (''port_no'', uint32_t), (''duration_sec'', uint32_t), (''duration_nsec'', uint32_t),
     (''rx_packets'', uint64_t), (''tx_packets'', uint64_t), (''rx_bytes'', uint64_t),
     (''tx_bytes'', uint64_t), (''rx_dropped'', uint64_t), (''tx_dropped'', uint64_t),
     (''rx_errors'', uint64_t), (''tx_errors'', uint64_t),
     (''properties'', Array ofp_port_desc_prop_header 0)]"

definition ofp_group_stats_request :: cty where
  "ofp_group_stats_request = Struct [(''group_id'', uint32_t), (''pad'', Array uint8_t 4)]"

definition ofp_bucket_counter :: cty where
  "ofp_bucket_counter = Struct [(''packet_count'', uint64_t), (''byte_count'', uint64_t)]"

definition ofp_group_stats :: cty where
  "ofp_group_stats = Struct [(''length'', uint16_t), (''pad'', Array uint8_t 2),
     (''group_id'', uint32_t), (''ref_count'', uint32_t), (''pad2'', Array uint8_t 4),
     (''packet_count'', uint64_t), (''byte_count'', uint64_t), (''duration_sec'', uint32_t),
     (''duration_nsec'', uint32_t), (''bucket_stats'', Array ofp_bucket_counter 0)]"

definition ofp_group_desc :: cty where
  "ofp_group_desc = Struct [(''length'', uint16_t), (''type'', uint8_t), (''pad'', uint8_t),
     (''group_id'', uint32_t), (''buckets'', Array ofp_bucket 0)]"

definition ofp_group_features :: cty where
  "ofp_group_features = Struct [(''types'', uint32_t), (''capabilities'', uint32_t),
     (''max_groups'', Array uint32_t 4), (''actions'', Array uint32_t 4)]"

definition ofp_meter_multipart_request :: cty where
  "ofp_meter_multipart_request = Struct [(''meter_id'', uint32_t), (''pad'', Array uint8_t 4)]"

definition ofp_meter_band_stats :: cty where
  "ofp_meter_band_stats = Struct [(''packet_band_count'', uint64_t),
     (''byte_band_count'', uint64_t)]"

definition ofp_meter_stats :: cty where
  "ofp_meter_stats = Struct [(''meter_id'', uint32_t), (''len'', uint16_t),
     (''pad'', Array uint8_t 6), (''flow_count'', uint32_t), (''packet_in_count'', uint64_t),
     (''byte_in_count'', uint64_t), (''duration_sec'', uint32_t), (''duration_nsec'', uint32_t),
     (''band_stats'', Array ofp_meter_band_stats 0)]"

definition ofp_meter_config :: cty where
  "ofp_meter_config = Struct [(''length'', uint16_t), (''flags'', uint16_t),
     (''meter_id'', uint32_t), (''bands'', Array ofp_meter_band_header 0)]"

definition ofp_meter_features :: cty where
  "ofp_meter_features = Struct [(''max_meter'', uint32_t), (''band_types'', uint32_t),
     (''capabilities'', uint32_t), (''max_bands'', uint8_t), (''max_color'', uint8_t),
     (''pad'', Array uint8_t 2)]"

section \<open>Queues\<close>

definition ofp_queue_desc_prop_header :: cty where
  "ofp_queue_desc_prop_header = Struct [(''type'', uint16_t), (''length'', uint16_t)]"

definition ofp_queue_desc_prop_min_rate :: cty where
  "ofp_queue_desc_prop_min_rate = Struct [(''type'', uint16_t), (''length'', uint16_t),
     (''rate'', uint16_t), (''pad'', Array uint8_t 2)]"

definition ofp_queue_desc_prop_max_rate :: cty where
  "ofp_queue_desc_prop_max_rate = Struct [(''type'', uint16_t), (''length'', uint16_t),
     (''rate'', uint16_t), (''pad'', Array uint8_t 2)]"

definition ofp_queue_desc_prop_experimenter :: cty where
  "ofp_queue_desc_prop_experimenter = Struct [(''type'', uint16_t), (''length'', uint16_t),
     (''experimenter'', uint32_t), (''exp_type'', uint32_t),
     (''experimenter_data'', Array uint32_t 0)]"

definition ofp_queue_desc_request :: cty where
  "ofp_queue_desc_request = Struct [(''port_no'', uint32_t), (''queue_id'', uint32_t)]"

definition ofp_queue_desc :: cty where
  "ofp_queue_desc = Struct [(''port_no'', uint32_t), (''queue_id'', uint32_t), (''len'', uint16_t),
     (''pad'', Array uint8_t 6), (''properties'', Array ofp_queue_desc_prop_header 0)]"

definition ofp_queue_stats_request :: cty where
  "ofp_queue_stats_request = Struct [(''port_no'', uint32_t), (''queue_id'', uint32_t)]"

definition ofp_queue_stats_prop_header :: cty where
  "ofp_queue_stats_prop_header = Struct [(''type'', uint16_t), (''length'', uint16_t)]"

definition ofp_queue_stats_prop_experimenter :: cty where
  "ofp_queue_stats_prop_experimenter = Struct [(''type'', uint16_t), (''length'', uint16_t),
     (''experimenter'', uint32_t), (''exp_type'', uint32_t),
     (''experimenter_data'', Array uint32_t 0)]"

definition ofp_queue_stats :: cty where
  "ofp_queue_stats = Struct [(''length'', uint16_t), (''pad'', Array uint8_t 6),
     (''port_no'', uint32_t), (''queue_id'', uint32_t), (''tx_bytes'', uint64_t),
     (''tx_packets'', uint64_t), (''tx_errors'', uint64_t), (''duration_sec'', uint32_t),
     (''duration_nsec'', uint32_t), (''properties'', Array ofp_queue_stats_prop_header 0)]"

section \<open>Flow monitoring\<close>

definition ofp_flow_monitor_request :: cty where
  "ofp_flow_monitor_request = Struct [(''monitor_id'', uint32_t), (''out_port'', uint32_t),
     (''out_group'', uint32_t), (''flags'', uint16_t), (''table_id'', uint8_t),
     (''command'', uint8_t), (''match'', ofp_match)]"

definition ofp_flow_update_header :: cty where
  "ofp_flow_update_header = Struct [(''length'', uint16_t), (''event'', uint16_t)]"

definition ofp_flow_update_full :: cty where
  "ofp_flow_update_full = Struct [(''length'', uint16_t), (''event'', uint16_t),
     (''table_id'', uint8_t), (''reason'', uint8_t), (''idle_timeout'', uint16_t),
     (''hard_timeout'', uint16_t), (''priority'', uint16_t), (''zeros'', Array uint8_t 4),
     (''cookie'', uint64_t), (''match'', ofp_match)]"

definition ofp_flow_update_abbrev :: cty where
  "ofp_flow_update_abbrev = Struct [(''length'', uint16_t), (''event'', uint16_t),
     (''xid'', uint32_t)]"

definition ofp_flow_update_paused :: cty where
  "ofp_flow_update_paused = Struct [(''length'', uint16_t), (''event'', uint16_t),
     (''zeros'', Array uint8_t 4)]"

section \<open>Experimenters and roles\<close>

definition ofp_experimenter_multipart_header :: cty where
  "ofp_experimenter_multipart_header = Struct [(''experimenter'', uint32_t),
     (''exp_type'', uint32_t)]"

definition ofp_experimenter_structure :: cty where
  "ofp_experimenter_structure = Struct [(''experimenter'', uint32_t), (''exp_type'', uint32_t),
     (''experimenter_data'', Array uint8_t 0)]"

definition ofp_experimenter_msg :: cty where
  "ofp_experimenter_msg = Struct [(''header'', ofp_header), (''experimenter'', uint32_t),
     (''exp_type'', uint32_t), (''experimenter_data'', Array uint8_t 0)]"

definition ofp_role_request :: cty where
  "ofp_role_request = Struct [(''header'', ofp_header), (''role'', uint32_t),
     (''pad'', Array uint8_t 4), (''generation_id'', uint64_t)]"

definition ofp_role_prop_header :: cty where
  "ofp_role_prop_header = Struct [(''type'', uint16_t), (''length'', uint16_t)]"

definition ofp_role_prop_experimenter :: cty where
  "ofp_role_prop_experimenter = Struct [(''type'', uint16_t), (''length'', uint16_t),
     (''experimenter'', uint32_t), (''exp_type'', uint32_t),
     (''experimenter_data'', Array uint32_t 0)]"

definition ofp_role_status :: cty where
  "ofp_role_status = Struct [(''header'', ofp_header), (''role'', uint32_t), (''reason'', uint8_t),
     (''pad'', Array uint8_t 3), (''generation_id'', uint64_t),
     (''properties'', Array ofp_role_prop_header 0)]"

section \<open>Asynchronous configuration\<close>

definition ofp_async_config_prop_header :: cty where
  "ofp_async_config_prop_header = Struct [(''type'', uint16_t), (''length'', uint16_t)]"

definition ofp_async_config_prop_reasons :: cty where
  "ofp_async_config_prop_reasons = Struct [(''type'', uint16_t), (''length'', uint16_t),
     (''mask'', uint32_t)]"

definition ofp_async_config_prop_experimenter :: cty where
  "ofp_async_config_prop_experimenter = Struct [(''type'', uint16_t), (''length'', uint16_t),
     (''experimenter'', uint32_t), (''exp_type'', uint32_t),
     (''experimenter_data'', Array uint32_t 0)]"

definition ofp_async_config :: cty where
  "ofp_async_config = Struct [(''header'', ofp_header),
     (''properties'', Array ofp_async_config_prop_header 0)]"

definition ofp_table_status :: cty where
  "ofp_table_status = Struct [(''header'', ofp_header), (''reason'', uint8_t),
     (''pad'', Array uint8_t 7), (''table'', ofp_table_desc)]"

definition ofp_requestforward_header :: cty where
  "ofp_requestforward_header = Struct [(''header'', ofp_header), (''request'', ofp_header)]"

section \<open>Bundles\<close>

definition ofp_bundle_prop_header :: cty where
  "ofp_bundle_prop_header = Struct [(''type'', uint16_t), (''length'', uint16_t)]"

definition ofp_bundle_prop_experimenter :: cty where
  "ofp_bundle_prop_experimenter = Struct [(''type'', uint16_t), (''length'', uint16_t),
     (''experimenter'', uint32_t), (''exp_type'', uint32_t),
     (''experimenter_data'', Array uint32_t 0)]"

definition ofp_bundle_ctrl_msg :: cty where
  "ofp_bundle_ctrl_msg = Struct [(''header'', ofp_header), (''bundle_id'', uint32_t),
     (''type'', uint16_t), (''flags'', uint16_t), (''properties'', Array ofp_bundle_prop_header 0)]"

definition ofp_bundle_add_msg :: cty where
  "ofp_bundle_add_msg = Struct [(''header'', ofp_header), (''bundle_id'', uint32_t),
     (''pad'', uint16_t), (''flags'', uint16_t), (''message'', ofp_header)]"

section \<open>The asserted sizes\<close>

definition ofp_asserts :: "(cty \<times> nat) list" where
  "ofp_asserts = [
     (ofp_header, 8), (ofp_hello_elem_header, 4), (ofp_hello_elem_versionbitmap, 4),
     (ofp_hello, 8), (ofp_switch_config, 12), (ofp_table_mod_prop_header, 4),
     (ofp_table_mod_prop_eviction, 8), (ofp_table_mod_prop_vacancy, 8),
     (ofp_table_mod_prop_experimenter, 12), (ofp_table_mod, 16), (ofp_port_desc_prop_header, 4),
     (ofp_port_desc_prop_ethernet, 32), (ofp_port_desc_prop_optical, 40),
     (ofp_port_desc_prop_experimenter, 12), (ofp_port, 40), (ofp_switch_features, 32),
     (ofp_port_status, 56), (ofp_port_mod_prop_header, 4), (ofp_port_mod_prop_ethernet, 8),
     (ofp_port_mod_prop_optical, 24), (ofp_port_mod_prop_experimenter, 12), (ofp_port_mod, 32),
     (ofp_match, 8), (ofp_oxm_experimenter_header, 8), (ofp_action_header, 4),
     (ofp_action_output, 16), (ofp_action_generic, 8), (ofp_action_mpls_ttl, 8),
     (ofp_action_push, 8), (ofp_action_pop_mpls, 8), (ofp_action_set_queue, 8),
     (ofp_action_group, 8), (ofp_action_nw_ttl, 8), (ofp_action_set_field, 8),
     (ofp_action_experimenter_header, 8), (ofp_instruction_header, 4),
     (ofp_instruction_goto_table, 8), (ofp_instruction_write_metadata, 24),
     (ofp_instruction_actions, 8), (ofp_instruction_meter, 8),
     (ofp_instruction_experimenter_header, 8), (ofp_flow_mod, 56), (ofp_bucket, 16),
     (ofp_group_mod, 16), (ofp_packet_out, 24), (ofp_packet_in, 32), (ofp_flow_removed, 56),
     (ofp_meter_band_header, 12), (ofp_meter_band_drop, 16), (ofp_meter_band_dscp_remark, 16),
     (ofp_meter_band_experimenter, 16), (ofp_meter_mod, 16), (ofp_error_msg, 12),
     (ofp_error_experimenter_msg, 16), (ofp_multipart_request, 16), (ofp_multipart_reply, 16),
     (ofp_desc, 1056), (ofp_flow_stats_request, 40), (ofp_flow_stats, 56),
     (ofp_aggregate_stats_request, 40), (ofp_aggregate_stats_reply, 24),
     (ofp_table_feature_prop_header, 4), (ofp_instruction_id, 4),
     (ofp_table_feature_prop_instructions, 4), (ofp_table_feature_prop_tables, 4),
     (ofp_action_id, 4), (ofp_table_feature_prop_actions, 4), (ofp_table_feature_prop_oxm, 4),
     (ofp_table_feature_prop_experimenter, 12), (ofp_table_features, 64), (ofp_table_stats, 24),
     (ofp_table_desc, 8), (ofp_port_stats_request, 8), (ofp_port_stats_prop_header, 4),
     (ofp_port_stats_prop_ethernet, 40), (ofp_port_stats_prop_optical, 44),
     (ofp_port_stats_prop_experimenter, 12), (ofp_port_stats, 80), (ofp_group_stats_request, 8),
     (ofp_bucket_counter, 16), (ofp_group_stats, 40), (ofp_group_desc, 8),
     (ofp_group_features, 40), (ofp_meter_multipart_request, 8), (ofp_meter_band_stats, 16),
     (ofp_meter_stats, 40), (ofp_meter_config, 8), (ofp_meter_features, 16),
     (ofp_queue_desc_prop_header, 4), (ofp_queue_desc_prop_min_rate, 8),
     (ofp_queue_desc_prop_max_rate, 8), (ofp_queue_desc_prop_experimenter, 12),
     (ofp_queue_desc_request, 8), (ofp_queue_desc, 16), (ofp_queue_stats_request, 8),
     (ofp_queue_stats_prop_header, 4), (ofp_queue_stats_prop_experimenter, 12),
     (ofp_queue_stats, 48), (ofp_flow_monitor_request, 24), (ofp_flow_update_header, 4),
     (ofp_flow_update_full, 32), (ofp_flow_update_abbrev, 8), (ofp_flow_update_paused, 8),
     (ofp_experimenter_multipart_header, 8), (ofp_experimenter_structure, 8),
     (ofp_experimenter_msg, 16), (ofp_role_request, 24), (ofp_role_prop_header, 4),
     (ofp_role_prop_experimenter, 12), (ofp_role_status, 24), (ofp_async_config_prop_header, 4),
     (ofp_async_config_prop_reasons, 8), (ofp_async_config_prop_experimenter, 12),
     (ofp_async_config, 8), (ofp_table_status, 24), (ofp_requestforward_header, 16),
     (ofp_bundle_prop_header, 4), (ofp_bundle_prop_experimenter, 12), (ofp_bundle_ctrl_msg, 16),
     (ofp_bundle_add_msg, 24)]"

lemmas struct_defs =
  ofp_header_def ofp_hello_elem_header_def ofp_hello_elem_versionbitmap_def ofp_hello_def
  ofp_switch_config_def ofp_table_mod_prop_header_def ofp_table_mod_prop_eviction_def
  ofp_table_mod_prop_vacancy_def ofp_table_mod_prop_experimenter_def ofp_table_mod_def
  ofp_port_desc_prop_header_def ofp_port_desc_prop_ethernet_def ofp_port_desc_prop_optical_def
  ofp_port_desc_prop_experimenter_def ofp_port_def ofp_switch_features_def ofp_port_status_def
  ofp_port_mod_prop_header_def ofp_port_mod_prop_ethernet_def ofp_port_mod_prop_optical_def
  ofp_port_mod_prop_experimenter_def ofp_port_mod_def ofp_match_def
  ofp_oxm_experimenter_header_def ofp_action_header_def ofp_action_output_def
  ofp_action_generic_def ofp_action_mpls_ttl_def ofp_action_push_def ofp_action_pop_mpls_def
  ofp_action_set_queue_def ofp_action_group_def ofp_action_nw_ttl_def ofp_action_set_field_def
  ofp_action_experimenter_header_def ofp_instruction_header_def ofp_instruction_goto_table_def
  ofp_instruction_write_metadata_def ofp_instruction_actions_def ofp_instruction_meter_def
  ofp_instruction_experimenter_header_def ofp_flow_mod_def ofp_bucket_def ofp_group_mod_def
  ofp_packet_out_def ofp_packet_in_def ofp_flow_removed_def ofp_meter_band_header_def
  ofp_meter_band_drop_def ofp_meter_band_dscp_remark_def ofp_meter_band_experimenter_def
  ofp_meter_mod_def ofp_error_msg_def ofp_error_experimenter_msg_def ofp_multipart_request_def
  ofp_multipart_reply_def ofp_desc_def ofp_flow_stats_request_def ofp_flow_stats_def
  ofp_aggregate_stats_request_def ofp_aggregate_stats_reply_def ofp_table_feature_prop_header_def
  ofp_instruction_id_def ofp_table_feature_prop_instructions_def
  ofp_table_feature_prop_tables_def ofp_action_id_def ofp_table_feature_prop_actions_def
  ofp_table_feature_prop_oxm_def ofp_table_feature_prop_experimenter_def ofp_table_features_def
  ofp_table_stats_def ofp_table_desc_def ofp_port_stats_request_def
  ofp_port_stats_prop_header_def ofp_port_stats_prop_ethernet_def ofp_port_stats_prop_optical_def
  ofp_port_stats_prop_experimenter_def ofp_port_stats_def ofp_group_stats_request_def
  ofp_bucket_counter_def ofp_group_stats_def ofp_group_desc_def ofp_group_features_def
  ofp_meter_multipart_request_def ofp_meter_band_stats_def ofp_meter_stats_def
  ofp_meter_config_def ofp_meter_features_def ofp_queue_desc_prop_header_def
  ofp_queue_desc_prop_min_rate_def ofp_queue_desc_prop_max_rate_def
  ofp_queue_desc_prop_experimenter_def ofp_queue_desc_request_def ofp_queue_desc_def
  ofp_queue_stats_request_def ofp_queue_stats_prop_header_def
  ofp_queue_stats_prop_experimenter_def ofp_queue_stats_def ofp_flow_monitor_request_def
  ofp_flow_update_header_def ofp_flow_update_full_def ofp_flow_update_abbrev_def
  ofp_flow_update_paused_def ofp_experimenter_multipart_header_def ofp_experimenter_structure_def
  ofp_experimenter_msg_def ofp_role_request_def ofp_role_prop_header_def
  ofp_role_prop_experimenter_def ofp_role_status_def ofp_async_config_prop_header_def
  ofp_async_config_prop_reasons_def ofp_async_config_prop_experimenter_def ofp_async_config_def
  ofp_table_status_def ofp_requestforward_header_def ofp_bundle_prop_header_def
  ofp_bundle_prop_experimenter_def ofp_bundle_ctrl_msg_def ofp_bundle_add_msg_def

section \<open>Sizes and places\<close>

lemma sizes_computed:
  "list_all (\<lambda>(t, n). scalars_ok t \<and> sizeof t = n \<and> wire_size t = n) ofp_asserts"
  by (simp add: ofp_asserts_def struct_defs length_defs scalar_defs sizeof_def round_up_def del: One_nat_def)

text \<open>
  C28. Every structure of the header has the size the header asserts, and none has hidden filling: each field
  is where the fields before it end, so the structure can be laid over the bytes of a message.
\<close>

theorem openflow_sizes:
  "list_all (\<lambda>(t, n). sizeof t = n \<and> (\<forall>g. offsetof t g = wire_offset t g)) ofp_asserts"
  using sizes_computed offsets_on_the_wire by (auto simp: list_all_iff)

end
