(* ===== verification/Openflow_Process.thy ===== *)
theory Openflow_Process
  imports Processor Packet_Printing Openflow_Structs
begin

text \<open>
  \<^verbatim>\<open>processor/openflow_process.h\<close>: what the processor does with a message from the controller and with
  a packet no flow entry matched, for which it writes a packet-in message. Both print what they do; the
  text is part of the answer.
\<close>

section \<open>Message types\<close>

datatype ofp_type =
    OFPT_HELLO | OFPT_ERROR | OFPT_ECHO_REQUEST | OFPT_ECHO_REPLY | OFPT_EXPERIMENTER
  | OFPT_FEATURES_REQUEST | OFPT_FEATURES_REPLY | OFPT_GET_CONFIG_REQUEST
  | OFPT_GET_CONFIG_REPLY | OFPT_SET_CONFIG | OFPT_PACKET_IN | OFPT_FLOW_REMOVED
  | OFPT_PORT_STATUS | OFPT_PACKET_OUT | OFPT_FLOW_MOD | OFPT_GROUP_MOD | OFPT_PORT_MOD
  | OFPT_TABLE_MOD | OFPT_MULTIPART_REQUEST | OFPT_MULTIPART_REPLY | OFPT_BARRIER_REQUEST
  | OFPT_BARRIER_REPLY | OFPT_ROLE_REQUEST | OFPT_ROLE_REPLY | OFPT_GET_ASYNC_REQUEST
  | OFPT_GET_ASYNC_REPLY | OFPT_SET_ASYNC | OFPT_METER_MOD | OFPT_ROLE_STATUS
  | OFPT_TABLE_STATUS | OFPT_REQUESTFORWARD | OFPT_BUNDLE_CONTROL | OFPT_BUNDLE_ADD_MESSAGE

primrec ofp_type_value :: "ofp_type \<Rightarrow> byte" where
  "ofp_type_value OFPT_HELLO = 0"
| "ofp_type_value OFPT_ERROR = 1"
| "ofp_type_value OFPT_ECHO_REQUEST = 2"
| "ofp_type_value OFPT_ECHO_REPLY = 3"
| "ofp_type_value OFPT_EXPERIMENTER = 4"
| "ofp_type_value OFPT_FEATURES_REQUEST = 5"
| "ofp_type_value OFPT_FEATURES_REPLY = 6"
| "ofp_type_value OFPT_GET_CONFIG_REQUEST = 7"
| "ofp_type_value OFPT_GET_CONFIG_REPLY = 8"
| "ofp_type_value OFPT_SET_CONFIG = 9"
| "ofp_type_value OFPT_PACKET_IN = 10"
| "ofp_type_value OFPT_FLOW_REMOVED = 11"
| "ofp_type_value OFPT_PORT_STATUS = 12"
| "ofp_type_value OFPT_PACKET_OUT = 13"
| "ofp_type_value OFPT_FLOW_MOD = 14"
| "ofp_type_value OFPT_GROUP_MOD = 15"
| "ofp_type_value OFPT_PORT_MOD = 16"
| "ofp_type_value OFPT_TABLE_MOD = 17"
| "ofp_type_value OFPT_MULTIPART_REQUEST = 18"
| "ofp_type_value OFPT_MULTIPART_REPLY = 19"
| "ofp_type_value OFPT_BARRIER_REQUEST = 20"
| "ofp_type_value OFPT_BARRIER_REPLY = 21"
| "ofp_type_value OFPT_ROLE_REQUEST = 24"
| "ofp_type_value OFPT_ROLE_REPLY = 25"
| "ofp_type_value OFPT_GET_ASYNC_REQUEST = 26"
| "ofp_type_value OFPT_GET_ASYNC_REPLY = 27"
| "ofp_type_value OFPT_SET_ASYNC = 28"
| "ofp_type_value OFPT_METER_MOD = 29"
| "ofp_type_value OFPT_ROLE_STATUS = 30"
| "ofp_type_value OFPT_TABLE_STATUS = 31"
| "ofp_type_value OFPT_REQUESTFORWARD = 32"
| "ofp_type_value OFPT_BUNDLE_CONTROL = 33"
| "ofp_type_value OFPT_BUNDLE_ADD_MESSAGE = 34"

definition ofp_types :: "ofp_type list" where
  "ofp_types = [
     OFPT_HELLO, OFPT_ERROR, OFPT_ECHO_REQUEST, OFPT_ECHO_REPLY, OFPT_EXPERIMENTER,
     OFPT_FEATURES_REQUEST, OFPT_FEATURES_REPLY, OFPT_GET_CONFIG_REQUEST, OFPT_GET_CONFIG_REPLY,
     OFPT_SET_CONFIG, OFPT_PACKET_IN, OFPT_FLOW_REMOVED, OFPT_PORT_STATUS, OFPT_PACKET_OUT,
     OFPT_FLOW_MOD, OFPT_GROUP_MOD, OFPT_PORT_MOD, OFPT_TABLE_MOD, OFPT_MULTIPART_REQUEST,
     OFPT_MULTIPART_REPLY, OFPT_BARRIER_REQUEST, OFPT_BARRIER_REPLY, OFPT_ROLE_REQUEST,
     OFPT_ROLE_REPLY, OFPT_GET_ASYNC_REQUEST, OFPT_GET_ASYNC_REPLY, OFPT_SET_ASYNC,
     OFPT_METER_MOD, OFPT_ROLE_STATUS, OFPT_TABLE_STATUS, OFPT_REQUESTFORWARD,
     OFPT_BUNDLE_CONTROL, OFPT_BUNDLE_ADD_MESSAGE]"

text \<open>The enumerator a byte stands for in the \<open>switch\<close>, if any.\<close>

definition ofp_type_of :: "byte \<Rightarrow> ofp_type option" where
  "ofp_type_of b = find (\<lambda>t. ofp_type_value t = b) ofp_types"

section \<open>Messages from the controller\<close>

definition openflow_hello_process :: "processor option \<Rightarrow> int \<times> string" where
  "openflow_hello_process p1 =
     (1, nl @ ''-----------------------Process OpenFlow Hello Message--------------------'' @ nl @ snd (print_processor p1))"

definition openflow_packet_out_process :: "processor option \<Rightarrow> ptr \<Rightarrow> int" where
  "openflow_packet_out_process p1 data_buffer = 1"

text \<open>The message the code prints in place of the received one.\<close>

definition flow_mod_data :: "byte list" where
  "flow_mod_data = [
     0x01, 0x0e, 0x00, 0x50, 0xbb, 0xd5, 0x35, 0x42, 0x00, 0x00, 0x00, 0x00, 0x00, 0x02, 0x0a, 0xf9,
     0xaf, 0xca, 0xd1, 0xa4, 0x6a, 0x6b, 0x85, 0x74, 0x6d, 0xcf, 0xff, 0xff, 0x00, 0x00, 0x08, 0x06,
     0x00, 0x02, 0x00, 0x00, 0x0a, 0x00, 0x00, 0x02, 0x0a, 0x00, 0x00, 0x01, 0x00, 0x00, 0x00, 0x00,
     0x00, 0x00, 0x00, 0x00, 0x00, 0x00, 0x00, 0x00, 0x00, 0x00, 0x00, 0x3c, 0x00, 0x00, 0x00, 0x00,
     0x00, 0x00, 0x01, 0x01, 0x00, 0x00, 0x00, 0x00, 0x00, 0x00, 0x00, 0x08, 0x00, 0x01, 0x00, 0x00]"

text \<open>Print one field and go on \<open>n\<close> bytes.\<close>

definition show_field ::
  "(ptr \<Rightarrow> string option) \<Rightarrow> int \<Rightarrow> byte list \<Rightarrow> int \<times> string \<Rightarrow> (int \<times> string) option" where
  "show_field pr n data = (\<lambda>(i, out). do { s \<leftarrow> pr (data, i); Some (i + n, out @ s) })"

definition openflow_flow_mod_process :: "processor option \<Rightarrow> ptr \<Rightarrow> string option" where
  "openflow_flow_mod_process p data_buffer = do {
     let out = nl @ ''++Processing OpenFlow Mod Packet++'' @ nl;
     let d = flow_mod_data;
     st \<leftarrow> show_field print_ofpt_version 1 d (0, out);
     st \<leftarrow> show_field print_ofpt_type 1 d st;
     st \<leftarrow> show_field print_ofpt_length 2 d st;
     st \<leftarrow> show_field print_ofpt_xid 4 d st;
     st \<leftarrow> show_field print_ofpt_wildcard 4 d st;
     st \<leftarrow> show_field print_ofpt_in_port 2 d st;
     st \<leftarrow> show_field print_mac_addr 6 d st;
     st \<leftarrow> show_field print_mac_addr 6 d st;
     st \<leftarrow> show_field print_vlan_vid 2 d st;
     (i, out) \<leftarrow> show_field print_vlan_pcp 1 d st;
     let i = i + 1;
     st \<leftarrow> show_field print_ether_type 2 d (i, out);
     st \<leftarrow> show_field print_ip_diff_serv 1 d st;
     (i, out) \<leftarrow> show_field print_ip_protocol 1 d st;
     let i = i + 2;
     st \<leftarrow> show_field print_ip_addr 4 d (i, out);
     st \<leftarrow> show_field print_ip_addr 4 d st;
     st \<leftarrow> show_field print_tcp_port 2 d st;
     st \<leftarrow> show_field print_tcp_port 2 d st;
     st \<leftarrow> show_field print_ofpt_cookie 8 d st;
     st \<leftarrow> show_field print_oftp_command 2 d st;
     st \<leftarrow> show_field print_oftp_idle_timeout 2 d st;
     st \<leftarrow> show_field print_oftp_hard_timeout 2 d st;
     st \<leftarrow> show_field print_oftp_priority 2 d st;
     st \<leftarrow> show_field print_oftp_buffer_id 4 d st;
     st \<leftarrow> show_field print_oftp_out_port 2 d st;
     st \<leftarrow> show_field printf_oftp_flag 2 d st;
     st \<leftarrow> show_field print_oftp_action_type 2 d st;
     st \<leftarrow> show_field print_oftp_length 2 d st;
     st \<leftarrow> show_field print_oftp_action_port 2 d st;
     (i, out) \<leftarrow> show_field print_oftp_max_length 2 d st;
     Some out }"

text \<open>
  The received bytes are printed; then \<open>data_buffer\<close> is pointed to eight constant bytes, and
  these are processed.
\<close>

definition openflow_data :: "byte list" where
  "openflow_data = [0x01, 0x0e, 0x00, 0x08, 0xbb, 0xd5, 0x35, 0x42]"

definition process_type :: "processor option \<Rightarrow> ptr \<Rightarrow> ofp_type option \<Rightarrow> string option" where
  "process_type p1 data_buffer t = (case t of
     Some OFPT_HELLO \<Rightarrow>
       Some (nl @ ''--------------------------OpenFlow Hello Message------------------------'' @ nl
             @ snd (openflow_hello_process p1))
   | Some OFPT_ECHO_REPLY \<Rightarrow> Some (''OpenFlow Echo Reply'' @ nl)
   | Some OFPT_FEATURES_REQUEST \<Rightarrow> Some (''OpenFlow Feature Request'' @ nl)
   | Some OFPT_SET_CONFIG \<Rightarrow> Some (''OpenFlow Set Config'' @ nl)
   | Some OFPT_PACKET_IN \<Rightarrow> Some (''OpenFlow Packet in Message'' @ nl)
   | Some OFPT_PACKET_OUT \<Rightarrow> Some ''OpenFlow Packet Out Packet Out''
   | Some OFPT_FLOW_MOD \<Rightarrow> do {
       s \<leftarrow> openflow_flow_mod_process p1 data_buffer;
       Some (nl @ ''-----------------OpenFLow Flow Mod Packet----------------------'' @ nl @ s) }
   | _ \<Rightarrow> Some [])"

definition openflow_packet_process :: "processor option \<Rightarrow> ptr \<Rightarrow> string option" where
  "openflow_packet_process p1 data_buffer = do {
     let out = nl @ ''----------------------OpenFlow Packet Recieved-----------------------------'' @ nl;
     s \<leftarrow> print_data_buffer data_buffer;
     let out = out @ s @ nl @ ''+++ Extracting OpenFlow Header +++'' @ nl;
     let data_buffer = (openflow_data, 0);
     version \<leftarrow> deref data_buffer 0;
     type \<leftarrow> deref data_buffer 1;
     l2 \<leftarrow> deref data_buffer 2;
     l3 \<leftarrow> deref data_buffer 3;
     let length = ucast l2 * 256 + ucast l3;
     let out = out @ ''Version : '' @ hex2 version @ nl @ ''Type: '' @ hex2 type @ nl @ ''Length: '' @ hex4 length @ nl;
     s \<leftarrow> process_type p1 data_buffer (ofp_type_of type);
     Some (out @ s) }"

section \<open>Packet-in messages\<close>

text \<open>
  Write a field of the message, print it back and go on \<open>n\<close> bytes. The state is the position, a byte in
  the code too, the message and the text so far.
\<close>

definition put_field ::
  "(ptr \<Rightarrow> ptr \<Rightarrow> (int \<times> byte list) option) \<Rightarrow> (ptr \<Rightarrow> string option) \<Rightarrow> byte \<Rightarrow> ptr \<Rightarrow>
   byte \<times> byte list \<times> string \<Rightarrow> (byte \<times> byte list \<times> string) option"
where
  "put_field w pr n src = (\<lambda>(i, buf, out). do {
     (_, buf) \<leftarrow> w src (buf, uint i);
     s \<leftarrow> pr (buf, uint i);
     Some (i + n, buf, out @ s) })"

text \<open>The headers up to the TCP header; \<open>c\<close> is the controller, \<open>s\<close> the switch.\<close>

definition put_headers ::
  "controller \<Rightarrow> switchx \<Rightarrow> byte \<times> byte list \<times> string \<Rightarrow> (byte \<times> byte list \<times> string) option" where
  "put_headers c s st = do {
     st \<leftarrow> put_field write_length print_length 1 ([0], 0) st;
     st \<leftarrow> put_field write_mac_addr print_mac_addr 6 (con_mac_addr c) st;
     st \<leftarrow> put_field write_mac_addr print_mac_addr 6 (swt_mac_addr s) st;
     st \<leftarrow> put_field write_ether_type print_ether_type 2 ([0x08, 0x00], 0) st;
     st \<leftarrow> put_field write_ip_version print_ip_version 1 ([0x45], 0) st;
     st \<leftarrow> put_field write_ip_diff_serv print_ip_diff_serv 1 ([0x00], 0) st;
     st \<leftarrow> put_field write_ip_total_length print_ip_total_length 2 ([0x00, 0x29], 0) st;
     st \<leftarrow> put_field write_ip_id print_ip_id 2 ([0x16, 0x81], 0) st;
     st \<leftarrow> put_field write_ip_flag print_ip_flag 1 ([0x40], 0) st;
     st \<leftarrow> put_field write_ip_fragment_offset print_ip_fragment_offset 1 ([0x00], 0) st;
     st \<leftarrow> put_field write_ip_ttl print_ip_ttl 1 ([0x80], 0) st;
     st \<leftarrow> put_field write_ip_protocol print_ip_protocol 1 ([0x00], 0) st;
     st \<leftarrow> put_field write_ip_checksum print_ip_checksum 2 ([0x00, 0x00], 0) st;
     st \<leftarrow> put_field write_ip_addr print_ip_addr 4 (swt_ip_addr s) st;
     st \<leftarrow> put_field write_ip_addr print_ip_addr 4 (con_ip_addr c) st;
     st \<leftarrow> put_field write_tcp_port print_tcp_port 2 (swt_port s) st;
     st \<leftarrow> put_field write_tcp_port print_tcp_port 2 (con_port c) st;
     st \<leftarrow> put_field write_tcp_seq print_tcp_seq 4 ([0x00, 0x00, 0x00, 0x01], 0) st;
     st \<leftarrow> put_field write_tcp_ack print_tcp_ack 4 ([0x00, 0x00, 0x00, 0x00], 0) st;
     st \<leftarrow> put_field write_tcp_header_len print_tcp_header_len 1 ([0x50], 0) st;
     st \<leftarrow> put_field write_tcp_flag print_tcp_flag 1 ([0x00, 0x00, 0x00, 0x00], 0) st;
     st \<leftarrow> put_field write_tcp_window_size print_tcp_window_size 2 ([0xfc, 0xab], 0) st;
     st \<leftarrow> put_field write_tcp_checksum print_tcp_checksum 2 ([0x3c, 0x38], 0) st;
     Some st }"

text \<open>The rest: two zero bytes, written without being printed, and the OpenFlow message.\<close>

definition put_message ::
  "byte \<times> byte list \<times> string \<Rightarrow> (byte \<times> byte list \<times> string) option" where
  "put_message = (\<lambda>(i, buf, out). do {
     (_, buf) \<leftarrow> write_zero ([0x00], 0) (buf, uint i);
     let i = i + 1;
     (_, buf) \<leftarrow> write_zero ([0x00], 0) (buf, uint i);
     let i = i + 1;
     st \<leftarrow> put_field write_ofpt_version print_ofpt_version 1 ([0x04], 0) (i, buf, out);
     st \<leftarrow> put_field write_ofpt_type print_ofpt_type 1 ([0x0a], 0) st;
     st \<leftarrow> put_field write_ofpt_length print_ofpt_length 2 ([0x00, 0x3c], 0) st;
     st \<leftarrow> put_field write_ofpt_xid print_ofpt_xid 4 ([0x00, 0x00, 0x00, 0x00], 0) st;
     st \<leftarrow> put_field write_ofpt_buffer_id print_ofpt_buffer_id 4 ([0x00, 0x00, 0x00, 0x01], 0) st;
     st \<leftarrow> put_field write_ofpt_total_length print_ofpt_total_length 2 ([0x00, 0x2a], 0) st;
     st \<leftarrow> put_field write_ofpt_in_port print_ofpt_in_port 2 ([0x00, 0x01], 0) st;
     st \<leftarrow> put_field write_ofpt_reason print_ofpt_reason 1 ([0x00], 0) st;
     Some st })"

text \<open>
  The whole message, from position 5 on. At the end the length byte, at position 5 as well, is
  written anew. The packet itself is not used.
\<close>

definition generate_openflow_packet_in ::
  "processor \<Rightarrow> ptr \<Rightarrow> byte list \<Rightarrow> (string \<times> byte list) option" where
  "generate_openflow_packet_in p1 data_buffer packet_in_data_buffer = do {
     s \<leftarrow> swt p1;
     sw \<leftarrow> print_switch (Some s);
     co \<leftarrow> print_controller (con p1);
     let out = nl @ ''++Generate open Flow Packet++'' @ nl @ sw @ co @ nl @ ''++Generating Packet-In Message++'' @ nl;
     c \<leftarrow> con p1;
     st \<leftarrow> put_headers c s (5, packet_in_data_buffer, out);
     (i, buf, out) \<leftarrow> put_message st;
     let length = i - 5;
     (_, buf) \<leftarrow> write_length ([length], 0) (buf, 5);
     l \<leftarrow> print_length (buf, 5);
     d \<leftarrow> print_data_buffer (buf, 5);
     Some (out @ l @ d, buf) }"

text \<open>A packet no entry matched; \<open>heap\<close> is the local array for the message.\<close>

definition table_missed_packet_process ::
  "byte list \<Rightarrow> processor \<Rightarrow> byte list \<Rightarrow> (int \<times> string \<times> byte list) option" where
  "table_missed_packet_process packet_in_data p1 data_buffer = do {
     let out = nl @ ''-----------------------Table Missed Other Packet----------------------'' @ nl;
     m \<leftarrow> print_mac_addr (data_buffer, field_flag DST_MAC_ADDR);
     a \<leftarrow> print_ip_addr (data_buffer, field_flag IP_DST_ADDR);
     p \<leftarrow> print_port (data_buffer, field_flag TCP_DST_PORT);
     (g, packet_in_data) \<leftarrow> generate_openflow_packet_in p1 (data_buffer, 0) packet_in_data;
     Some (1, out @ m @ a @ p @ g, packet_in_data) }"

definition generate_buffer_packet :: "ptr \<Rightarrow> int" where
  "generate_buffer_packet data_buffer = 1"

section \<open>The bytes of a packet-in message\<close>

lemma blit_snoc_block:
  assumes "b + length xs + length ys \<le> length t"
  shows "blit (blit t b xs) (b + length xs) ys = blit t b (xs @ ys)"
  using assms by (intro nth_equalityI) (auto simp: length_blit nth_blit nth_append)

text \<open>One field after those written from position \<open>b\<close> on, and then the rest.\<close>

lemma put_field_then:
  assumes "w = writes n" "pr = print_bytes fmt k" "in_ptr src n"
    and "uint i = int (b + length xs) \<and> b + length xs + max n k \<le> length t"
    and "\<And>out'. Q (K (i + m, blit t b (xs @ at src n), out'))"
  shows "Q (put_field w pr m src (i, blit t b xs, out) \<bind> K)"
proof -
  have l: "length (at src n) = n" by (rule length_at[OF assms(3)])
  have q: "in_ptr (blit t b xs, uint i) n" "in_ptr (blit t b (xs @ at src n), uint i) k"
    using assms(4) l by (auto simp: in_ptr_def length_blit)
  have "b + length xs + length (at src n) \<le> length t" using assms(4) l by auto
  from blit_snoc_block[OF this]
  have "w src (blit t b xs, uint i) = Some (1, blit t b (xs @ at src n))"
    using writes_ok[OF assms(3) q(1)] assms(1,4) by (simp add: nat_int_add)
  moreover obtain s where "pr (blit t b (xs @ at src n), uint i) = Some s"
    using print_bytes_ok[OF q(2)] assms(2) by blast
  ultimately show ?thesis using assms(5) by (simp add: put_field_def)
qed

definition switch_ok :: "switchx \<Rightarrow> bool" where
  "switch_ok s \<longleftrightarrow> in_ptr (swt_mac_addr s) 6 \<and> in_ptr (swt_ip_addr s) 4 \<and> in_ptr (swt_port s) 2"

definition controller_ok :: "controller \<Rightarrow> bool" where
  "controller_ok c \<longleftrightarrow> in_ptr (con_mac_addr c) 6 \<and> in_ptr (con_ip_addr c) 4 \<and> in_ptr (con_port c) 2"

definition header_bytes :: "controller \<Rightarrow> switchx \<Rightarrow> byte list" where
  "header_bytes c s = at (con_mac_addr c) 6 @ at (swt_mac_addr s) 6 @ [0x08, 0x00]
     @ [0x45, 0x00, 0x00, 0x29, 0x16, 0x81, 0x40, 0x00, 0x80, 0x00, 0x00, 0x00]
     @ at (swt_ip_addr s) 4 @ at (con_ip_addr c) 4 @ at (swt_port s) 2 @ at (con_port c) 2
     @ [0x00, 0x00, 0x00, 0x01, 0x00, 0x00, 0x00, 0x00, 0x50, 0x00, 0xfc, 0xab, 0x3c]"

definition message_bytes :: "byte list" where
  "message_bytes = [0x00, 0x00, 0x04, 0x0a, 0x00, 0x3c, 0x00, 0x00, 0x00, 0x00,
     0x00, 0x00, 0x00, 0x01, 0x00, 0x2a, 0x00, 0x01, 0x00]"

lemma at_local: "at (xs, 0) n = take n xs" "in_ptr (xs, 0) n \<longleftrightarrow> n \<le> length xs"
  by (simp_all add: at_def slice_def in_ptr_def)

lemma put_headers_ok:
  assumes "switch_ok s" "controller_ok c" "77 \<le> length t"
  shows "\<exists>out'. put_headers c s (5, blit t 5 [], out) = Some (58, blit t 5 (0 # header_bytes c s), out')"
proof -
  have ok: "in_ptr (swt_mac_addr s) 6" "in_ptr (swt_ip_addr s) 4" "in_ptr (swt_port s) 2"
    "in_ptr (con_mac_addr c) 6" "in_ptr (con_ip_addr c) 4" "in_ptr (con_port c) 2"
    using assms(1,2) by (auto simp: switch_ok_def controller_ok_def)
  note len = this[THEN length_at]
  show ?thesis
    unfolding put_headers_def
    apply (rule put_field_then[where Q = "\<lambda>r. \<exists>out'. r = Some (58, blit t 5 (0 # header_bytes c s), out')"],
        rule write_defs, rule print_defs, simp add: at_local ok, insert assms(3), simp add: at_local len)+
    apply (simp add: at_local header_bytes_def)
    done
qed

lemma write_then:
  assumes "w = writes n" "in_ptr src n" "uint i = int (b + length xs) \<and> b + length xs + n \<le> length t"
    and "Q (K (1, blit t b (xs @ at src n)))"
  shows "Q (w src (blit t b xs, uint i) \<bind> K)"
proof -
  have "in_ptr (blit t b xs, uint i) n" using assms(3) by (auto simp: in_ptr_def length_blit)
  then have "w src (blit t b xs, uint i) = Some (1, blit t b (xs @ at src n))"
    using writes_ok[OF assms(2)] assms(1-3) blit_snoc_block[of b xs "at src n" t] by (simp add: nat_int_add)
  then show ?thesis using assms(4) by simp
qed

lemma put_message_ok:
  assumes "77 \<le> length t"
  shows "\<exists>out'. put_message (58, blit t 58 [], out) = Some (77, blit t 58 message_bytes, out')"
  unfolding put_message_def prod.case Let_def
  apply (rule write_then[where Q = "\<lambda>r. \<exists>out'. r = Some (77, blit t 58 message_bytes, out')"],
      rule write_defs, simp add: at_local, insert assms, simp add: at_local, unfold prod.case)+
  apply (rule put_field_then[where Q = "\<lambda>r. \<exists>out'. r = Some (77, blit t 58 message_bytes, out')"],
      rule write_defs, rule print_defs, simp add: at_local, insert assms, simp add: at_local)+
  apply (simp add: at_local message_bytes_def)
  done

lemma print_data_buffer_Some:
  assumes "deref p 0 = Some b" "in_ptr p (Suc (unat b))"
  shows "\<exists>s. print_data_buffer p = Some s"
proof -
  have "\<exists>s. c_for (unat b) (\<lambda>k out. let i = Suc k in do {
       x \<leftarrow> deref p i;
       let out = out @ hex2 x @ '' '';
       Some (if i mod 16 = 0 then out @ nl else out) }) [] = Some s \<and> True"
    by (rule c_for_rule) (use assms(2) in \<open>auto simp: deref_at Let_def\<close>)
  then show ?thesis using assms(1) by (auto simp: print_data_buffer_def)
qed

lemma length_header_bytes: "switch_ok s \<Longrightarrow> controller_ok c \<Longrightarrow> length (header_bytes c s) = 51"
  by (simp add: header_bytes_def switch_ok_def controller_ok_def)

lemma length_message_bytes: "length message_bytes = 19"
  by (simp add: message_bytes_def)

definition packet_in_of :: "controller \<Rightarrow> switchx \<Rightarrow> byte list \<Rightarrow> byte list" where
  "packet_in_of c s buf = blit (blit buf 5 (72 # header_bytes c s)) 58 message_bytes"

lemma generate_ok:
  assumes "swt p1 = Some s" "con p1 = Some c" "switch_ok s" "controller_ok c" "78 \<le> length buf"
  shows "\<exists>out. generate_openflow_packet_in p1 d buf = Some (out, packet_in_of c s buf)"
proof -
  have ok: "in_ptr (swt_mac_addr s) 6" "in_ptr (swt_ip_addr s) 4" "in_ptr (swt_port s) 2"
    "in_ptr (con_mac_addr c) 6" "in_ptr (con_ip_addr c) 4" "in_ptr (con_port c) 2"
    using assms(3,4) by (auto simp: switch_ok_def controller_ok_def)
  let ?t1 = "blit buf 5 (0 # header_bytes c s)"
  let ?t2 = "blit ?t1 58 message_bytes"
  have l: "length ?t1 = length buf" "length ?t2 = length buf"
    using assms(5) length_header_bytes[OF assms(3,4)] by (simp_all add: length_blit length_message_bytes)
  obtain o1 where h: "put_headers c s (5, buf, out) = Some (58, ?t1, o1 out)" for out
    using put_headers_ok[OF assms(3,4), of buf] assms(5) by simp metis
  obtain o2 where m: "put_message (58, ?t1, out) = Some (77, ?t2, o2 out)" for out
    using put_message_ok[of ?t1] assms(5) l by simp metis
  have "in_ptr (?t2, 5) 1" using assms(5) l by (simp add: in_ptr_def)
  then have w: "write_length ([72], 0) (?t2, 5) = Some (1, blit ?t2 5 [72])"
    using writes_ok[of "([72], 0)" 1 "(?t2, 5)"] by (simp add: write_length_def at_local)
  have f: "blit ?t2 5 [72] = packet_in_of c s buf"
    using assms(5) l length_header_bytes[OF assms(3,4)] unfolding packet_in_of_def
    by (intro nth_equalityI) (auto simp: length_blit nth_blit length_message_bytes nth_Cons')
  let ?t = "packet_in_of c s buf"
  have "length (blit ?t2 5 [72]) = length buf" using l assms(5) by (simp add: length_blit)
  then have lt: "length ?t = length buf" by (simp only: f)
  have "?t ! 5 = 72" using f assms(5) l nth_blit[of 5 "[72]" ?t2 5] by simp
  then have d: "deref (?t, 5) 0 = Some 72" using lt assms(5) by (simp add: deref_def cget_def)
  moreover have "in_ptr (?t, 5) (Suc (unat (72 :: byte)))" using lt assms(5) by (simp add: in_ptr_def)
  ultimately obtain b where b: "print_data_buffer (?t, 5) = Some b" using print_data_buffer_Some by blast
  have pl: "print_length (?t, 5) \<noteq> None"
    using lt assms(5) by (simp add: print_length_def print_bytes_ok in_ptr_def)
  obtain sw where sw: "print_switch (Some s) = Some sw"
    using ok by (simp add: print_switch_def print_mac_addr_def print_ip_addr_def print_port_def print_bytes_ok)
  obtain co where co: "print_controller (Some c) = Some co"
    using ok by (simp add: print_controller_def print_mac_addr_def print_ip_addr_def print_port_def print_bytes_ok)
  have sub: "(77 :: byte) - 5 = 72" by simp
  show ?thesis
    using pl by (auto simp: generate_openflow_packet_in_def assms(1,2) sw co h m sub w f b)
qed

section \<open>Reading the message back\<close>

lemma slice_packet_in:
  assumes "switch_ok s" "controller_ok c" "78 \<le> length buf"
  shows "5 \<le> b \<Longrightarrow> b + n \<le> 57 \<Longrightarrow> slice b n (packet_in_of c s buf) = slice (b - 5) n (72 # header_bytes c s)"
    and "58 \<le> b \<Longrightarrow> b + n \<le> 77 \<Longrightarrow> slice b n (packet_in_of c s buf) = slice (b - 58) n message_bytes"
    and "packet_in_of c s buf ! 57 = buf ! 57" "length (packet_in_of c s buf) = length buf"
proof -
  note l = length_header_bytes[OF assms(1,2)] length_message_bytes
  have t1: "length (blit buf 5 (72 # header_bytes c s)) = length buf" using assms(3) l by (simp add: length_blit)
  then show len: "length (packet_in_of c s buf) = length buf"
    using assms(3) l by (simp add: packet_in_of_def length_blit)
  show "slice b n (packet_in_of c s buf) = slice (b - 5) n (72 # header_bytes c s)" if "5 \<le> b" "b + n \<le> 57"
  proof (rule nth_equalityI)
    show "length (slice b n (packet_in_of c s buf)) = length (slice (b - 5) n (72 # header_bytes c s))"
      using that assms(3) len l by (simp add: length_slice)
    fix k assume "k < length (slice b n (packet_in_of c s buf))"
    then have k: "k < n" using that assms(3) len by (simp add: length_slice)
    have "slice b n (packet_in_of c s buf) ! k = blit buf 5 (72 # header_bytes c s) ! (b + k)"
      using that k assms(3) len t1 l by (simp add: nth_slice packet_in_of_def nth_blit)
    also have "\<dots> = (72 # header_bytes c s) ! (b + k - 5)"
      using that k assms(3) l by (subst nth_blit) auto
    also have "\<dots> = slice (b - 5) n (72 # header_bytes c s) ! k"
      using that k l by (subst nth_slice) auto
    finally show "slice b n (packet_in_of c s buf) ! k = slice (b - 5) n (72 # header_bytes c s) ! k" .
  qed
  show "slice b n (packet_in_of c s buf) = slice (b - 58) n message_bytes" if "58 \<le> b" "b + n \<le> 77"
    using that assms(3) len t1 l by (intro nth_equalityI) (auto simp: length_slice nth_slice packet_in_of_def nth_blit)
  show "packet_in_of c s buf ! 57 = buf ! 57"
    using assms(3) t1 l by (simp add: packet_in_of_def nth_blit)
qed

lemma at_packet_in:
  assumes "switch_ok s" "controller_ok c" "78 \<le> length buf"
  shows "5 \<le> b \<Longrightarrow> b + n \<le> 57 \<Longrightarrow>
      at (packet_in_of c s buf, int b) n = take n (drop (b - 5) (72 # header_bytes c s))"
    and "58 \<le> b \<Longrightarrow> b + n \<le> 77 \<Longrightarrow> at (packet_in_of c s buf, int b) n = take n (drop (b - 58) message_bytes)"
  using slice_packet_in[OF assms] by (simp_all add: at_def slice_def)

lemma packet_in_written:
  assumes "swt p1 = Some s" "con p1 = Some c" "switch_ok s" "controller_ok c" "78 \<le> length buf"
    and "51 \<le> length pkt"
  shows "\<exists>out. table_missed_packet_process buf p1 pkt = Some (1, out, packet_in_of c s buf)"
proof -
  obtain g where g: "generate_openflow_packet_in p1 (pkt, 0) buf = Some (g, packet_in_of c s buf)"
    using generate_ok[OF assms(1-5)] by blast
  have "in_ptr (pkt, 13) 6" "in_ptr (pkt, 43) 4" "in_ptr (pkt, 49) 2" using assms(6) by (simp_all add: in_ptr_def)
  then show ?thesis
    using g by (simp add: table_missed_packet_process_def print_mac_addr_def print_ip_addr_def print_port_def
        print_bytes_ok)
qed

text \<open>
  C24. For a packet no entry matched, with a switch and a controller whose addresses can be read, the code
  writes this message from position 5 on: the length 72, the addresses of controller and switch, fixed
  IPv4 and TCP headers and the OpenFlow packet-in. Everything else of the array stays, and so
  does the second byte of the TCP checksum, at position 57, which nothing has initialised.
\<close>

theorem packet_in_bytes:
  assumes "swt p1 = Some s" "con p1 = Some c" "switch_ok s" "controller_ok c" "78 \<le> length buf"
    and "51 \<le> length pkt"
  shows "\<exists>out. table_missed_packet_process buf p1 pkt =
      Some (1, out, blit (blit buf 5 (72 # header_bytes c s)) 58 message_bytes) \<and>
    blit (blit buf 5 (72 # header_bytes c s)) 58 message_bytes ! 57 = buf ! 57"
  using packet_in_written[OF assms] slice_packet_in(3)[OF assms(3-5)] by (simp add: packet_in_of_def)

definition example_processor :: processor where
  "example_processor = \<lparr>proc_id = 1, packet_in = 0, packet_out = 0, of_data_in = 0, of_data_out = 0, ram = 0,
     con = Some \<lparr>con_id = 1, con_ip_addr = ([10, 0, 0, 1], 0), con_mac_addr = ([1, 2, 3, 4, 5, 6], 0),
       con_port = ([25, 253], 0), is_available = 1, connection_established = 1\<rparr>,
     swt = Some \<lparr>swt_id = 1, swt_mac_addr = ([7, 8, 9, 10, 11, 12], 0), swt_ip_addr = ([10, 0, 0, 2], 0),
       swt_port = ([0, 80], 0)\<rparr>\<rparr>"

lemma example_processor_ok:
  "con example_processor = Some (the (con example_processor))" "swt example_processor = Some (the (swt example_processor))"
  "switch_ok (the (swt example_processor))" "controller_ok (the (con example_processor))"
  by (simp_all add: example_processor_def switch_ok_def controller_ok_def in_ptr_def)

theorem packet_in_bytes_witness:
  "\<exists>out m. table_missed_packet_process (replicate 1000 255) example_processor (replicate 60 0) = Some (1, out, m) \<and>
     m ! 57 = 255"
  using packet_in_bytes[OF example_processor_ok(2,1,3,4), of "replicate 1000 255" "replicate 60 0"] by auto

text \<open>
  C25. The fields of the message up to the TCP flags lie where \<open>openflow_field_flag\<close> has them, shifted by 7.
  Window size and checksum do not, since the enumeration counts two bytes of flags and the code
  writes one. The OpenFlow message behind the headers declares 60 bytes but has 17, and by
  the structure \<open>ofp_packet_in\<close> its last three bytes are not port and reason: the reason is 0 and the
  table id 1.
\<close>

theorem packet_in_fields:
  assumes "swt p1 = Some s" "con p1 = Some c" "switch_ok s" "controller_ok c" "78 \<le> length buf"
  shows "\<exists>out m. generate_openflow_packet_in p1 d buf = Some (out, m) \<and>
    at (m, field_flag DST_MAC_ADDR - 7) 6 = at (con_mac_addr c) 6 \<and>
    at (m, field_flag SRC_MAC_ADDR - 7) 6 = at (swt_mac_addr s) 6 \<and>
    at (m, field_flag IP_SRC_IP - 7) 4 = at (swt_ip_addr s) 4 \<and>
    at (m, field_flag IP_DST_ADDR - 7) 4 = at (con_ip_addr c) 4 \<and>
    at (m, field_flag TCP_SRC_PORT - 7) 2 = at (swt_port s) 2 \<and>
    at (m, field_flag TCP_DST_PORT - 7) 2 = at (con_port c) 2 \<and>
    at (m, field_flag TCP_WINDOW_SIZE - 7) 2 = [0xab, 0x3c] \<and>
    at (m, 60 + int (the (offsetof ofp_header ''length''))) 2 = [0, 60] \<and>
    at (m, 60 + int (the (offsetof ofp_packet_in ''reason''))) 1 = [0] \<and>
    at (m, 60 + int (the (offsetof ofp_packet_in ''table_id''))) 1 = [1]"
proof -
  obtain out where g: "generate_openflow_packet_in p1 d buf = Some (out, packet_in_of c s buf)"
    using generate_ok[OF assms] by blast
  have l: "length (at (con_mac_addr c) 6) = 6" "length (at (swt_mac_addr s) 6) = 6" "length (at (swt_ip_addr s) 4) = 4"
    "length (at (con_ip_addr c) 4) = 4" "length (at (swt_port s) 2) = 2" "length (at (con_port c) 2) = 2"
    using assms(3,4) by (simp_all add: switch_ok_def controller_ok_def)
  have o: "offsetof ofp_header ''length'' = Some 2" "offsetof ofp_packet_in ''reason'' = Some 14"
    "offsetof ofp_packet_in ''table_id'' = Some 15" by code_simp+
  note h = at_packet_in(1)[OF assms(3-5)] and m = at_packet_in(2)[OF assms(3-5)]
  show ?thesis
    using h[of 6 6] h[of 12 6] h[of 32 4] h[of 36 4] h[of 40 2] h[of 42 2] h[of 55 2]
      m[of 62 2] m[of 74 1] m[of 75 1]
    by (intro exI[of _ out] exI[of _ "packet_in_of c s buf"])
      (simp add: g o l header_bytes_def message_bytes_def)
qed

theorem packet_in_fields_witness:
  "\<exists>out m. generate_openflow_packet_in example_processor ([], 0) (replicate 1000 255) = Some (out, m) \<and>
     at (m, field_flag TCP_WINDOW_SIZE - 7) 2 = [0xab, 0x3c] \<and> at (m, 62) 2 = [0, 60]"
proof -
  have "offsetof ofp_header ''length'' = Some 2" by code_simp
  then show ?thesis
    using packet_in_fields[OF example_processor_ok(2,1,3,4), of "replicate 1000 255" "([], 0)"] by auto
qed

section \<open>The received message makes no difference\<close>

lemma show_field_then:
  assumes "pr = print_bytes fmt k" "in_ptr (data, i) k" "\<And>out'. Q (K (i + n, out'))"
  shows "Q (show_field pr n data (i, out) \<bind> K)"
  using assms print_bytes_ok[OF assms(2)] by (auto simp: show_field_def)

lemma length_flow_mod_data: "length flow_mod_data = 80"
  by (simp add: flow_mod_data_def)

lemma flow_mod_Some: "\<exists>out. openflow_flow_mod_process p d = Some out"
  unfolding openflow_flow_mod_process_def Let_def
  by ((rule show_field_then[where Q = "\<lambda>r. \<exists>out. r = Some out"],
      rule print_defs, simp add: in_ptr_def length_flow_mod_data, (unfold prod.case)?)+) simp

lemma flow_mod_const: "openflow_flow_mod_process p d = openflow_flow_mod_process q e"
  by (simp add: openflow_flow_mod_process_def)

lemma openflow_data_bytes: "deref (openflow_data, 0) 0 = Some 1" "deref (openflow_data, 0) (Suc 0) = Some 14"
  "deref (openflow_data, 0) 2 = Some 0" "deref (openflow_data, 0) 3 = Some 8"
  by (simp_all add: openflow_data_def deref_def cget_def)

text \<open>
  Whatever the controller sends, the code does the same: beside printing the received bytes, the answer
  to every message, and for every processor, is the one text of the constant flow-mod message. A message
  whose bytes can be read never fails.
\<close>

theorem processing_ignores_message:
  "\<exists>flow_mod. openflow_flow_mod_process None ([], 0) = Some flow_mod \<and>
    (\<forall>p1 d. openflow_packet_process p1 d = map_option (\<lambda>shown.
       nl @ ''----------------------OpenFlow Packet Recieved-----------------------------'' @ nl @ shown @
       nl @ ''+++ Extracting OpenFlow Header +++'' @ nl @
       ''Version : 01'' @ nl @ ''Type: 0e'' @ nl @ ''Length: 0008'' @ nl @
       nl @ ''-----------------OpenFLow Flow Mod Packet----------------------'' @ nl @ flow_mod)
     (print_data_buffer d))"
proof -
  obtain fm where fm: "openflow_flow_mod_process None ([], 0) = Some fm" using flow_mod_Some by blast
  then have f: "openflow_flow_mod_process p d = Some fm" for p d using flow_mod_const by metis
  have t: "ofp_type_of 14 = Some OFPT_FLOW_MOD" by (simp add: ofp_type_of_def ofp_types_def)
  have h: "hex2 1 = ''01''" "hex2 14 = ''0e''" "hex4 8 = ''0008''" by code_simp+
  have "openflow_packet_process p1 d = map_option (\<lambda>shown.
       nl @ ''----------------------OpenFlow Packet Recieved-----------------------------'' @ nl @ shown @
       nl @ ''+++ Extracting OpenFlow Header +++'' @ nl @
       ''Version : 01'' @ nl @ ''Type: 0e'' @ nl @ ''Length: 0008'' @ nl @
       nl @ ''-----------------OpenFLow Flow Mod Packet----------------------'' @ nl @ fm)
     (print_data_buffer d)" for p1 d
    by (cases "print_data_buffer d")
      (simp_all add: openflow_packet_process_def openflow_data_bytes process_type_def t f h)
  with fm show ?thesis by blast
qed

end
