(* ===== verification/Openflow_Match.thy ===== *)
theory Openflow_Match
  imports C_Prelude
begin

text \<open>
  \<^verbatim>\<open>include/openflow.h\<close>, the extensible match: a header word of 32 bits that holds a class, a field, a
  mask flag and a length, and the headers of the fields of the basic class.
\<close>

unbundle bit_operations_syntax

section \<open>The header word\<close>

definition OXM_HEADER_ALL :: "32 word \<Rightarrow> 32 word \<Rightarrow> 32 word \<Rightarrow> 32 word \<Rightarrow> 32 word" where
  "OXM_HEADER_ALL cls field hasmask len =
     push_bit 16 cls OR push_bit 9 field OR push_bit 8 hasmask OR len"

definition OXM_HEADER :: "32 word \<Rightarrow> 32 word \<Rightarrow> 32 word \<Rightarrow> 32 word" where
  "OXM_HEADER cls field len = OXM_HEADER_ALL cls field 0 len"

definition OXM_HEADER_W :: "32 word \<Rightarrow> 32 word \<Rightarrow> 32 word \<Rightarrow> 32 word" where
  "OXM_HEADER_W cls field len = OXM_HEADER_ALL cls field 1 (len * 2)"

definition OXM_CLASS :: "32 word \<Rightarrow> 32 word" where
  "OXM_CLASS header = drop_bit 16 header"

definition OXM_FIELD :: "32 word \<Rightarrow> 32 word" where
  "OXM_FIELD header = drop_bit 9 header AND 0x7f"

definition OXM_TYPE :: "32 word \<Rightarrow> 32 word" where
  "OXM_TYPE header = drop_bit 9 header AND 0x7fffff"

definition OXM_HASMASK :: "32 word \<Rightarrow> 32 word" where
  "OXM_HASMASK header = drop_bit 8 header AND 1"

definition OXM_LENGTH :: "32 word \<Rightarrow> 32 word" where
  "OXM_LENGTH header = header AND 0xff"

definition OXM_MAKE_WILD_HEADER :: "32 word \<Rightarrow> 32 word" where
  "OXM_MAKE_WILD_HEADER header = OXM_HEADER_W (OXM_CLASS header) (OXM_FIELD header) (OXM_LENGTH header)"

section \<open>The fields of the basic class\<close>

datatype oxm_ofb_match_fields =
    OFPXMT_OFB_IN_PORT | OFPXMT_OFB_IN_PHY_PORT | OFPXMT_OFB_METADATA | OFPXMT_OFB_ETH_DST
  | OFPXMT_OFB_ETH_SRC | OFPXMT_OFB_ETH_TYPE | OFPXMT_OFB_VLAN_VID | OFPXMT_OFB_VLAN_PCP
  | OFPXMT_OFB_IP_DSCP | OFPXMT_OFB_IP_ECN | OFPXMT_OFB_IP_PROTO | OFPXMT_OFB_IPV4_SRC
  | OFPXMT_OFB_IPV4_DST | OFPXMT_OFB_TCP_SRC | OFPXMT_OFB_TCP_DST | OFPXMT_OFB_UDP_SRC
  | OFPXMT_OFB_UDP_DST | OFPXMT_OFB_SCTP_SRC | OFPXMT_OFB_SCTP_DST | OFPXMT_OFB_ICMPV4_TYPE
  | OFPXMT_OFB_ICMPV4_CODE | OFPXMT_OFB_ARP_OP | OFPXMT_OFB_ARP_SPA | OFPXMT_OFB_ARP_TPA
  | OFPXMT_OFB_ARP_SHA | OFPXMT_OFB_ARP_THA | OFPXMT_OFB_IPV6_SRC | OFPXMT_OFB_IPV6_DST
  | OFPXMT_OFB_IPV6_FLABEL | OFPXMT_OFB_ICMPV6_TYPE | OFPXMT_OFB_ICMPV6_CODE
  | OFPXMT_OFB_IPV6_ND_TARGET | OFPXMT_OFB_IPV6_ND_SLL | OFPXMT_OFB_IPV6_ND_TLL
  | OFPXMT_OFB_MPLS_LABEL | OFPXMT_OFB_MPLS_TC | OFPXMT_OFP_MPLS_BOS | OFPXMT_OFB_PBB_ISID
  | OFPXMT_OFB_TUNNEL_ID | OFPXMT_OFB_IPV6_EXTHDR | OFPXMT_OFB_PBB_UCA

primrec oxm_field :: "oxm_ofb_match_fields \<Rightarrow> 32 word" where
  "oxm_field OFPXMT_OFB_IN_PORT = 0"
| "oxm_field OFPXMT_OFB_IN_PHY_PORT = 1"
| "oxm_field OFPXMT_OFB_METADATA = 2"
| "oxm_field OFPXMT_OFB_ETH_DST = 3"
| "oxm_field OFPXMT_OFB_ETH_SRC = 4"
| "oxm_field OFPXMT_OFB_ETH_TYPE = 5"
| "oxm_field OFPXMT_OFB_VLAN_VID = 6"
| "oxm_field OFPXMT_OFB_VLAN_PCP = 7"
| "oxm_field OFPXMT_OFB_IP_DSCP = 8"
| "oxm_field OFPXMT_OFB_IP_ECN = 9"
| "oxm_field OFPXMT_OFB_IP_PROTO = 10"
| "oxm_field OFPXMT_OFB_IPV4_SRC = 11"
| "oxm_field OFPXMT_OFB_IPV4_DST = 12"
| "oxm_field OFPXMT_OFB_TCP_SRC = 13"
| "oxm_field OFPXMT_OFB_TCP_DST = 14"
| "oxm_field OFPXMT_OFB_UDP_SRC = 15"
| "oxm_field OFPXMT_OFB_UDP_DST = 16"
| "oxm_field OFPXMT_OFB_SCTP_SRC = 17"
| "oxm_field OFPXMT_OFB_SCTP_DST = 18"
| "oxm_field OFPXMT_OFB_ICMPV4_TYPE = 19"
| "oxm_field OFPXMT_OFB_ICMPV4_CODE = 20"
| "oxm_field OFPXMT_OFB_ARP_OP = 21"
| "oxm_field OFPXMT_OFB_ARP_SPA = 22"
| "oxm_field OFPXMT_OFB_ARP_TPA = 23"
| "oxm_field OFPXMT_OFB_ARP_SHA = 24"
| "oxm_field OFPXMT_OFB_ARP_THA = 25"
| "oxm_field OFPXMT_OFB_IPV6_SRC = 26"
| "oxm_field OFPXMT_OFB_IPV6_DST = 27"
| "oxm_field OFPXMT_OFB_IPV6_FLABEL = 28"
| "oxm_field OFPXMT_OFB_ICMPV6_TYPE = 29"
| "oxm_field OFPXMT_OFB_ICMPV6_CODE = 30"
| "oxm_field OFPXMT_OFB_IPV6_ND_TARGET = 31"
| "oxm_field OFPXMT_OFB_IPV6_ND_SLL = 32"
| "oxm_field OFPXMT_OFB_IPV6_ND_TLL = 33"
| "oxm_field OFPXMT_OFB_MPLS_LABEL = 34"
| "oxm_field OFPXMT_OFB_MPLS_TC = 35"
| "oxm_field OFPXMT_OFP_MPLS_BOS = 36"
| "oxm_field OFPXMT_OFB_PBB_ISID = 37"
| "oxm_field OFPXMT_OFB_TUNNEL_ID = 38"
| "oxm_field OFPXMT_OFB_IPV6_EXTHDR = 39"
| "oxm_field OFPXMT_OFB_PBB_UCA = 41"

section \<open>The headers of the fields\<close>

text \<open>
  \<open>OXM_OF_MPLS_BOS\<close> is left out: the macro names an enumerator the enumeration does not have
  (there it is \<open>OFPXMT_OFP_MPLS_BOS\<close>), so any use of it would not compile.
\<close>

definition OXM_OF_IN_PORT :: "32 word" where "OXM_OF_IN_PORT = OXM_HEADER 0x8000 (oxm_field OFPXMT_OFB_IN_PORT) 4"
definition OXM_OF_IN_PHY_PORT :: "32 word" where "OXM_OF_IN_PHY_PORT = OXM_HEADER 0x8000 (oxm_field OFPXMT_OFB_IN_PHY_PORT) 4"
definition OXM_OF_METADATA :: "32 word" where "OXM_OF_METADATA = OXM_HEADER 0x8000 (oxm_field OFPXMT_OFB_METADATA) 8"
definition OXM_OF_METADATA_W :: "32 word" where "OXM_OF_METADATA_W = OXM_HEADER_W 0x8000 (oxm_field OFPXMT_OFB_METADATA) 8"
definition OXM_OF_ETH_DST :: "32 word" where "OXM_OF_ETH_DST = OXM_HEADER 0x8000 (oxm_field OFPXMT_OFB_ETH_DST) 6"
definition OXM_OF_ETH_DST_W :: "32 word" where "OXM_OF_ETH_DST_W = OXM_HEADER_W 0x8000 (oxm_field OFPXMT_OFB_ETH_DST) 6"
definition OXM_OF_ETH_SRC :: "32 word" where "OXM_OF_ETH_SRC = OXM_HEADER 0x8000 (oxm_field OFPXMT_OFB_ETH_SRC) 6"
definition OXM_OF_ETH_SRC_W :: "32 word" where "OXM_OF_ETH_SRC_W = OXM_HEADER_W 0x8000 (oxm_field OFPXMT_OFB_ETH_SRC) 6"
definition OXM_OF_ETH_TYPE :: "32 word" where "OXM_OF_ETH_TYPE = OXM_HEADER 0x8000 (oxm_field OFPXMT_OFB_ETH_TYPE) 2"
definition OXM_OF_VLAN_VID :: "32 word" where "OXM_OF_VLAN_VID = OXM_HEADER 0x8000 (oxm_field OFPXMT_OFB_VLAN_VID) 2"
definition OXM_OF_VLAN_VID_W :: "32 word" where "OXM_OF_VLAN_VID_W = OXM_HEADER_W 0x8000 (oxm_field OFPXMT_OFB_VLAN_VID) 2"
definition OXM_OF_VLAN_PCP :: "32 word" where "OXM_OF_VLAN_PCP = OXM_HEADER 0x8000 (oxm_field OFPXMT_OFB_VLAN_PCP) 1"
definition OXM_OF_IP_DSCP :: "32 word" where "OXM_OF_IP_DSCP = OXM_HEADER 0x8000 (oxm_field OFPXMT_OFB_IP_DSCP) 1"
definition OXM_OF_IP_ECN :: "32 word" where "OXM_OF_IP_ECN = OXM_HEADER 0x8000 (oxm_field OFPXMT_OFB_IP_ECN) 1"
definition OXM_OF_IP_PROTO :: "32 word" where "OXM_OF_IP_PROTO = OXM_HEADER 0x8000 (oxm_field OFPXMT_OFB_IP_PROTO) 1"
definition OXM_OF_IPV4_SRC :: "32 word" where "OXM_OF_IPV4_SRC = OXM_HEADER 0x8000 (oxm_field OFPXMT_OFB_IPV4_SRC) 4"
definition OXM_OF_IPV4_SRC_W :: "32 word" where "OXM_OF_IPV4_SRC_W = OXM_HEADER_W 0x8000 (oxm_field OFPXMT_OFB_IPV4_SRC) 4"
definition OXM_OF_IPV4_DST :: "32 word" where "OXM_OF_IPV4_DST = OXM_HEADER 0x8000 (oxm_field OFPXMT_OFB_IPV4_DST) 4"
definition OXM_OF_IPV4_DST_W :: "32 word" where "OXM_OF_IPV4_DST_W = OXM_HEADER_W 0x8000 (oxm_field OFPXMT_OFB_IPV4_DST) 4"
definition OXM_OF_TCP_SRC :: "32 word" where "OXM_OF_TCP_SRC = OXM_HEADER 0x8000 (oxm_field OFPXMT_OFB_TCP_SRC) 2"
definition OXM_OF_TCP_DST :: "32 word" where "OXM_OF_TCP_DST = OXM_HEADER 0x8000 (oxm_field OFPXMT_OFB_TCP_DST) 2"
definition OXM_OF_UDP_SRC :: "32 word" where "OXM_OF_UDP_SRC = OXM_HEADER 0x8000 (oxm_field OFPXMT_OFB_UDP_SRC) 2"
definition OXM_OF_UDP_DST :: "32 word" where "OXM_OF_UDP_DST = OXM_HEADER 0x8000 (oxm_field OFPXMT_OFB_UDP_DST) 2"
definition OXM_OF_SCTP_SRC :: "32 word" where "OXM_OF_SCTP_SRC = OXM_HEADER 0x8000 (oxm_field OFPXMT_OFB_SCTP_SRC) 2"
definition OXM_OF_SCTP_DST :: "32 word" where "OXM_OF_SCTP_DST = OXM_HEADER 0x8000 (oxm_field OFPXMT_OFB_SCTP_DST) 2"
definition OXM_OF_ICMPV4_TYPE :: "32 word" where "OXM_OF_ICMPV4_TYPE = OXM_HEADER 0x8000 (oxm_field OFPXMT_OFB_ICMPV4_TYPE) 1"
definition OXM_OF_ICMPV4_CODE :: "32 word" where "OXM_OF_ICMPV4_CODE = OXM_HEADER 0x8000 (oxm_field OFPXMT_OFB_ICMPV4_CODE) 1"
definition OXM_OF_ARP_OP :: "32 word" where "OXM_OF_ARP_OP = OXM_HEADER 0x8000 (oxm_field OFPXMT_OFB_ARP_OP) 2"
definition OXM_OF_ARP_SPA :: "32 word" where "OXM_OF_ARP_SPA = OXM_HEADER 0x8000 (oxm_field OFPXMT_OFB_ARP_SPA) 4"
definition OXM_OF_ARP_SPA_W :: "32 word" where "OXM_OF_ARP_SPA_W = OXM_HEADER_W 0x8000 (oxm_field OFPXMT_OFB_ARP_SPA) 4"
definition OXM_OF_ARP_TPA :: "32 word" where "OXM_OF_ARP_TPA = OXM_HEADER 0x8000 (oxm_field OFPXMT_OFB_ARP_TPA) 4"
definition OXM_OF_ARP_TPA_W :: "32 word" where "OXM_OF_ARP_TPA_W = OXM_HEADER_W 0x8000 (oxm_field OFPXMT_OFB_ARP_TPA) 4"
definition OXM_OF_ARP_SHA :: "32 word" where "OXM_OF_ARP_SHA = OXM_HEADER 0x8000 (oxm_field OFPXMT_OFB_ARP_SHA) 6"
definition OXM_OF_ARP_THA :: "32 word" where "OXM_OF_ARP_THA = OXM_HEADER 0x8000 (oxm_field OFPXMT_OFB_ARP_THA) 6"
definition OXM_OF_IPV6_SRC :: "32 word" where "OXM_OF_IPV6_SRC = OXM_HEADER 0x8000 (oxm_field OFPXMT_OFB_IPV6_SRC) 16"
definition OXM_OF_IPV6_SRC_W :: "32 word" where "OXM_OF_IPV6_SRC_W = OXM_HEADER_W 0x8000 (oxm_field OFPXMT_OFB_IPV6_SRC) 16"
definition OXM_OF_IPV6_DST :: "32 word" where "OXM_OF_IPV6_DST = OXM_HEADER 0x8000 (oxm_field OFPXMT_OFB_IPV6_DST) 16"
definition OXM_OF_IPV6_DST_W :: "32 word" where "OXM_OF_IPV6_DST_W = OXM_HEADER_W 0x8000 (oxm_field OFPXMT_OFB_IPV6_DST) 16"
definition OXM_OF_IPV6_FLABEL :: "32 word" where "OXM_OF_IPV6_FLABEL = OXM_HEADER 0x8000 (oxm_field OFPXMT_OFB_IPV6_FLABEL) 4"
definition OXM_OF_ICMPV6_TYPE :: "32 word" where "OXM_OF_ICMPV6_TYPE = OXM_HEADER 0x8000 (oxm_field OFPXMT_OFB_ICMPV6_TYPE) 1"
definition OXM_OF_ICMPV6_CODE :: "32 word" where "OXM_OF_ICMPV6_CODE = OXM_HEADER 0x8000 (oxm_field OFPXMT_OFB_ICMPV6_CODE) 1"
definition OXM_OF_IPV6_ND_TARGET :: "32 word" where "OXM_OF_IPV6_ND_TARGET = OXM_HEADER 0x8000 (oxm_field OFPXMT_OFB_IPV6_ND_TARGET) 16"
definition OXM_OF_IPV6_ND_SLL :: "32 word" where "OXM_OF_IPV6_ND_SLL = OXM_HEADER 0x8000 (oxm_field OFPXMT_OFB_IPV6_ND_SLL) 6"
definition OXM_OF_IPV6_ND_TLL :: "32 word" where "OXM_OF_IPV6_ND_TLL = OXM_HEADER 0x8000 (oxm_field OFPXMT_OFB_IPV6_ND_TLL) 6"
definition OXM_OF_MPLS_LABEL :: "32 word" where "OXM_OF_MPLS_LABEL = OXM_HEADER 0x8000 (oxm_field OFPXMT_OFB_MPLS_LABEL) 4"
definition OXM_OF_MPLS_TC :: "32 word" where "OXM_OF_MPLS_TC = OXM_HEADER 0x8000 (oxm_field OFPXMT_OFB_MPLS_TC) 1"
definition OXM_OF_PBB_ISID :: "32 word" where "OXM_OF_PBB_ISID = OXM_HEADER 0x8000 (oxm_field OFPXMT_OFB_PBB_ISID) 3"
definition OXM_OF_PBB_ISID_W :: "32 word" where "OXM_OF_PBB_ISID_W = OXM_HEADER_W 0x8000 (oxm_field OFPXMT_OFB_PBB_ISID) 3"
definition OXM_OF_TUNNEL_ID :: "32 word" where "OXM_OF_TUNNEL_ID = OXM_HEADER 0x8000 (oxm_field OFPXMT_OFB_TUNNEL_ID) 8"
definition OXM_OF_TUNNEL_ID_W :: "32 word" where "OXM_OF_TUNNEL_ID_W = OXM_HEADER_W 0x8000 (oxm_field OFPXMT_OFB_TUNNEL_ID) 8"
definition OXM_OF_IPV6_EXTHDR :: "32 word" where "OXM_OF_IPV6_EXTHDR = OXM_HEADER 0x8000 (oxm_field OFPXMT_OFB_IPV6_EXTHDR) 2"
definition OXM_OF_IPV6_EXTHDR_W :: "32 word" where "OXM_OF_IPV6_EXTHDR_W = OXM_HEADER_W 0x8000 (oxm_field OFPXMT_OFB_IPV6_EXTHDR) 2"
definition OXM_OF_PBB_UCA :: "32 word" where "OXM_OF_PBB_UCA = OXM_HEADER 0x8000 (oxm_field OFPXMT_OFB_PBB_UCA) 1"

definition oxm_headers :: "32 word list" where
  "oxm_headers = [
     OXM_OF_IN_PORT, OXM_OF_IN_PHY_PORT, OXM_OF_METADATA, OXM_OF_METADATA_W, OXM_OF_ETH_DST,
     OXM_OF_ETH_DST_W, OXM_OF_ETH_SRC, OXM_OF_ETH_SRC_W, OXM_OF_ETH_TYPE, OXM_OF_VLAN_VID,
     OXM_OF_VLAN_VID_W, OXM_OF_VLAN_PCP, OXM_OF_IP_DSCP, OXM_OF_IP_ECN, OXM_OF_IP_PROTO,
     OXM_OF_IPV4_SRC, OXM_OF_IPV4_SRC_W, OXM_OF_IPV4_DST, OXM_OF_IPV4_DST_W, OXM_OF_TCP_SRC,
     OXM_OF_TCP_DST, OXM_OF_UDP_SRC, OXM_OF_UDP_DST, OXM_OF_SCTP_SRC, OXM_OF_SCTP_DST,
     OXM_OF_ICMPV4_TYPE, OXM_OF_ICMPV4_CODE, OXM_OF_ARP_OP, OXM_OF_ARP_SPA, OXM_OF_ARP_SPA_W,
     OXM_OF_ARP_TPA, OXM_OF_ARP_TPA_W, OXM_OF_ARP_SHA, OXM_OF_ARP_THA, OXM_OF_IPV6_SRC,
     OXM_OF_IPV6_SRC_W, OXM_OF_IPV6_DST, OXM_OF_IPV6_DST_W, OXM_OF_IPV6_FLABEL,
     OXM_OF_ICMPV6_TYPE, OXM_OF_ICMPV6_CODE, OXM_OF_IPV6_ND_TARGET, OXM_OF_IPV6_ND_SLL,
     OXM_OF_IPV6_ND_TLL, OXM_OF_MPLS_LABEL, OXM_OF_MPLS_TC, OXM_OF_PBB_ISID, OXM_OF_PBB_ISID_W,
     OXM_OF_TUNNEL_ID, OXM_OF_TUNNEL_ID_W, OXM_OF_IPV6_EXTHDR, OXM_OF_IPV6_EXTHDR_W,
     OXM_OF_PBB_UCA]"

lemmas oxm_defs =
  OXM_OF_IN_PORT_def OXM_OF_IN_PHY_PORT_def OXM_OF_METADATA_def OXM_OF_METADATA_W_def
  OXM_OF_ETH_DST_def OXM_OF_ETH_DST_W_def OXM_OF_ETH_SRC_def OXM_OF_ETH_SRC_W_def
  OXM_OF_ETH_TYPE_def OXM_OF_VLAN_VID_def OXM_OF_VLAN_VID_W_def OXM_OF_VLAN_PCP_def
  OXM_OF_IP_DSCP_def OXM_OF_IP_ECN_def OXM_OF_IP_PROTO_def OXM_OF_IPV4_SRC_def
  OXM_OF_IPV4_SRC_W_def OXM_OF_IPV4_DST_def OXM_OF_IPV4_DST_W_def OXM_OF_TCP_SRC_def
  OXM_OF_TCP_DST_def OXM_OF_UDP_SRC_def OXM_OF_UDP_DST_def OXM_OF_SCTP_SRC_def
  OXM_OF_SCTP_DST_def OXM_OF_ICMPV4_TYPE_def OXM_OF_ICMPV4_CODE_def OXM_OF_ARP_OP_def
  OXM_OF_ARP_SPA_def OXM_OF_ARP_SPA_W_def OXM_OF_ARP_TPA_def OXM_OF_ARP_TPA_W_def
  OXM_OF_ARP_SHA_def OXM_OF_ARP_THA_def OXM_OF_IPV6_SRC_def OXM_OF_IPV6_SRC_W_def
  OXM_OF_IPV6_DST_def OXM_OF_IPV6_DST_W_def OXM_OF_IPV6_FLABEL_def OXM_OF_ICMPV6_TYPE_def
  OXM_OF_ICMPV6_CODE_def OXM_OF_IPV6_ND_TARGET_def OXM_OF_IPV6_ND_SLL_def OXM_OF_IPV6_ND_TLL_def
  OXM_OF_MPLS_LABEL_def OXM_OF_MPLS_TC_def OXM_OF_PBB_ISID_def OXM_OF_PBB_ISID_W_def
  OXM_OF_TUNNEL_ID_def OXM_OF_TUNNEL_ID_W_def OXM_OF_IPV6_EXTHDR_def OXM_OF_IPV6_EXTHDR_W_def
  OXM_OF_PBB_UCA_def

section \<open>Reading a header back\<close>

lemma bit_below: "unat x < 2 ^ k \<Longrightarrow> bit (x :: 32 word) n \<Longrightarrow> n < k"
proof -
  assume "unat x < 2 ^ k" "bit x n"
  then have "take_bit k (unat x) = unat x" "bit (unat x) n" by (simp_all add: take_bit_nat_eq_self bit_unsigned_iff)
  then show "n < k" by (metis bit_take_bit_iff)
qed

lemma and_masks: "x AND 0x7f = take_bit 7 x" "x AND 0xff = take_bit 8 (x :: 32 word)"
proof -
  have "(0x7f :: 32 word) = mask 7" "(0xff :: 32 word) = mask 8" by (simp_all add: mask_eq_exp_minus_1)
  then show "x AND 0x7f = take_bit 7 x" "x AND 0xff = take_bit 8 x" by (simp_all only: take_bit_eq_mask)
qed

lemma oxm_header_fields:
  assumes "unat cls < 2 ^ 16" "unat field < 2 ^ 7" "unat hasmask < 2 ^ 1" "unat len < 2 ^ 8"
  defines "h \<equiv> OXM_HEADER_ALL cls field hasmask len"
  shows "OXM_CLASS h = cls" "OXM_FIELD h = field" "OXM_HASMASK h = hasmask" "OXM_LENGTH h = len"
proof -
  note b = assms(1-4)[THEN bit_below]
  show "OXM_CLASS h = cls"
    by (rule bit_word_eqI) (auto simp: h_def OXM_CLASS_def OXM_HEADER_ALL_def bit_simps dest: b)
  show "OXM_FIELD h = field"
    by (rule bit_word_eqI) (auto simp: h_def OXM_FIELD_def OXM_HEADER_ALL_def and_masks bit_simps dest: b)
  show "OXM_HASMASK h = hasmask"
    by (rule bit_word_eqI) (auto simp: h_def OXM_HASMASK_def OXM_HEADER_ALL_def bit_simps dest: b)
  show "OXM_LENGTH h = len"
    by (rule bit_word_eqI) (auto simp: h_def OXM_LENGTH_def OXM_HEADER_ALL_def and_masks bit_simps dest: b)
qed

text \<open>
  A header gives back what it was made of, if the class has 16 bits, the field 7, the flag 1 and the
  length 8; and making a wild header of one without a mask gives the header of the same class and field
  with the mask flag and twice the length, as long as that fits.
\<close>

theorem oxm_header_roundtrip:
  assumes "unat cls < 2 ^ 16" "unat field < 2 ^ 7" "unat hasmask < 2" "unat len < 2 ^ 8"
  defines "h \<equiv> OXM_HEADER_ALL cls field hasmask len"
  shows "OXM_CLASS h = cls \<and> OXM_FIELD h = field \<and> OXM_HASMASK h = hasmask \<and> OXM_LENGTH h = len \<and>
    OXM_MAKE_WILD_HEADER (OXM_HEADER cls field len) = OXM_HEADER_W cls field len"
proof -
  have z: "unat (0 :: 32 word) < 2 ^ 1" by simp
  have w: "OXM_MAKE_WILD_HEADER (OXM_HEADER cls field len) = OXM_HEADER_W cls field len"
    by (simp only: OXM_MAKE_WILD_HEADER_def OXM_HEADER_def oxm_header_fields[OF assms(1,2) z assms(4)])
  have "unat hasmask < 2 ^ 1" using assms(3) by simp
  from oxm_header_fields[OF assms(1,2) this assms(4)] w show ?thesis by (simp add: h_def)
qed

theorem oxm_header_roundtrip_witness:
  "OXM_FIELD (OXM_HEADER_ALL 0x8000 12 1 8) = 12 \<and> OXM_LENGTH (OXM_HEADER_ALL 0x8000 12 1 8) = 8 \<and>
   OXM_MAKE_WILD_HEADER OXM_OF_IPV4_DST = OXM_OF_IPV4_DST_W"
  using oxm_header_roundtrip[of "0x8000" 12 1 8] oxm_header_roundtrip[of "0x8000" 12 1 4]
  by (simp add: OXM_OF_IPV4_DST_def OXM_OF_IPV4_DST_W_def)

text \<open>Every header of the basic class is of that class, with or without a mask.\<close>

lemma oxm_headers_basic: "list_all (\<lambda>h. OXM_CLASS h = 0x8000 \<and> OXM_HASMASK h < 2) oxm_headers"
  by (simp add: oxm_headers_def oxm_defs OXM_HEADER_def OXM_HEADER_W_def oxm_header_fields)

text \<open>The set of all fields has the bit of every field; bit 40 belongs to none.\<close>

definition OFPXMT_OFB_ALL :: "64 word" where
  "OFPXMT_OFB_ALL = push_bit 42 1 - 1"

lemma all_fields: "bit OFPXMT_OFB_ALL (unat (oxm_field x))" "oxm_field x \<noteq> 40"
  by (cases x; simp add: OFPXMT_OFB_ALL_def push_bit_eq_mult flip: mask_eq_exp_minus_1)+

end
