(* ===== verification/Openflow_Constants.thy ===== *)
theory Openflow_Constants
  imports Openflow_Structs
begin

unbundle bit_operations_syntax

text \<open>
  \<^verbatim>\<open>include/openflow.h\<close>: the enumerations of ports, flags, commands, reasons, properties and error
  codes, each as a datatype with the number of every constant. The enumerations of the message types
  and of the match fields are in \<open>Openflow_Process\<close> and \<open>Openflow_Match\<close>.
\<close>

section \<open>Ports, tables and configuration\<close>

datatype ofp_port_no = OFPP_MAX | OFPP_IN_PORT | OFPP_TABLE | OFPP_NORMAL | OFPP_FLOOD | OFPP_ALL
    | OFPP_CONTROLLER | OFPP_LOCAL | OFPP_ANY

primrec ofp_port_no_val :: "ofp_port_no \<Rightarrow> nat" where
  "ofp_port_no_val OFPP_MAX = 0xffffff00"
| "ofp_port_no_val OFPP_IN_PORT = 0xfffffff8"
| "ofp_port_no_val OFPP_TABLE = 0xfffffff9"
| "ofp_port_no_val OFPP_NORMAL = 0xfffffffa"
| "ofp_port_no_val OFPP_FLOOD = 0xfffffffb"
| "ofp_port_no_val OFPP_ALL = 0xfffffffc"
| "ofp_port_no_val OFPP_CONTROLLER = 0xfffffffd"
| "ofp_port_no_val OFPP_LOCAL = 0xfffffffe"
| "ofp_port_no_val OFPP_ANY = 0xffffffff"

datatype ofp_hello_elem_type = OFPHET_VERSIONBITMAP

primrec ofp_hello_elem_type_val :: "ofp_hello_elem_type \<Rightarrow> nat" where
  "ofp_hello_elem_type_val OFPHET_VERSIONBITMAP = 1"

datatype ofp_config_flags = OFPC_FRAG_NORMAL | OFPC_FRAG_DROP | OFPC_FRAG_REASM | OFPC_FRAG_MASK

primrec ofp_config_flags_val :: "ofp_config_flags \<Rightarrow> nat" where
  "ofp_config_flags_val OFPC_FRAG_NORMAL = 0"
| "ofp_config_flags_val OFPC_FRAG_DROP = 2 ^ 0"
| "ofp_config_flags_val OFPC_FRAG_REASM = 2 ^ 1"
| "ofp_config_flags_val OFPC_FRAG_MASK = 3"

datatype ofp_table = OFPTT_MAX | OFPTT_ALL

primrec ofp_table_val :: "ofp_table \<Rightarrow> nat" where
  "ofp_table_val OFPTT_MAX = 0xfe"
| "ofp_table_val OFPTT_ALL = 0xff"

datatype ofp_table_config = OFPTC_DEPRECATED_MASK | OFPTC_EVICTION | OFPTC_VACANCY_EVENTS

primrec ofp_table_config_val :: "ofp_table_config \<Rightarrow> nat" where
  "ofp_table_config_val OFPTC_DEPRECATED_MASK = 3"
| "ofp_table_config_val OFPTC_EVICTION = 2 ^ 2"
| "ofp_table_config_val OFPTC_VACANCY_EVENTS = 2 ^ 3"

datatype ofp_table_mod_prop_type = OFPTMPT_EVICTION | OFPTMPT_VACANCY | OFPTMPT_EXPERIMENTER

primrec ofp_table_mod_prop_type_val :: "ofp_table_mod_prop_type \<Rightarrow> nat" where
  "ofp_table_mod_prop_type_val OFPTMPT_EVICTION = 0x2"
| "ofp_table_mod_prop_type_val OFPTMPT_VACANCY = 0x3"
| "ofp_table_mod_prop_type_val OFPTMPT_EXPERIMENTER = 0xffff"

datatype ofp_table_mod_prop_eviction_flag = OFPTMPEF_OTHER | OFPTMPEF_IMPORTANCE
    | OFPTMPEF_LIFETIME

primrec ofp_table_mod_prop_eviction_flag_val :: "ofp_table_mod_prop_eviction_flag \<Rightarrow> nat" where
  "ofp_table_mod_prop_eviction_flag_val OFPTMPEF_OTHER = 2 ^ 0"
| "ofp_table_mod_prop_eviction_flag_val OFPTMPEF_IMPORTANCE = 2 ^ 1"
| "ofp_table_mod_prop_eviction_flag_val OFPTMPEF_LIFETIME = 2 ^ 2"

datatype ofp_capabilities = OFPC_FLOW_STATS | OFPC_TABLE_STATS | OFPC_PORT_STATS
    | OFPC_GROUP_STATS | OFPC_IP_REASM | OFPC_QUEUE_STATS | OFPC_PORT_BLOCKED

primrec ofp_capabilities_val :: "ofp_capabilities \<Rightarrow> nat" where
  "ofp_capabilities_val OFPC_FLOW_STATS = 2 ^ 0"
| "ofp_capabilities_val OFPC_TABLE_STATS = 2 ^ 1"
| "ofp_capabilities_val OFPC_PORT_STATS = 2 ^ 2"
| "ofp_capabilities_val OFPC_GROUP_STATS = 2 ^ 3"
| "ofp_capabilities_val OFPC_IP_REASM = 2 ^ 5"
| "ofp_capabilities_val OFPC_QUEUE_STATS = 2 ^ 6"
| "ofp_capabilities_val OFPC_PORT_BLOCKED = 2 ^ 8"

datatype ofp_port_config = OFPPC_PORT_DOWN | OFPPC_NO_RECV | OFPPC_NO_FWD | OFPPC_NO_PACKET_IN

primrec ofp_port_config_val :: "ofp_port_config \<Rightarrow> nat" where
  "ofp_port_config_val OFPPC_PORT_DOWN = 2 ^ 0"
| "ofp_port_config_val OFPPC_NO_RECV = 2 ^ 2"
| "ofp_port_config_val OFPPC_NO_FWD = 2 ^ 5"
| "ofp_port_config_val OFPPC_NO_PACKET_IN = 2 ^ 6"

datatype ofp_port_state = OFPPS_LINK_DOWN | OFPPS_BLOCKED | OFPPS_LIVE

primrec ofp_port_state_val :: "ofp_port_state \<Rightarrow> nat" where
  "ofp_port_state_val OFPPS_LINK_DOWN = 2 ^ 0"
| "ofp_port_state_val OFPPS_BLOCKED = 2 ^ 1"
| "ofp_port_state_val OFPPS_LIVE = 2 ^ 2"

datatype ofp_port_features = OFPPF_10MB_HD | OFPPF_10MB_FD | OFPPF_100MB_HD | OFPPF_100MB_FD
    | OFPPF_1GB_HD | OFPPF_1GB_FD | OFPPF_10GB_FD | OFPPF_40GB_FD | OFPPF_100GB_FD | OFPPF_1TB_FD
    | OFPPF_OTHER | OFPPF_COPPER | OFPPF_FIBER | OFPPF_AUTONEG | OFPPF_PAUSE | OFPPF_PAUSE_ASYM

primrec ofp_port_features_val :: "ofp_port_features \<Rightarrow> nat" where
  "ofp_port_features_val OFPPF_10MB_HD = 2 ^ 0"
| "ofp_port_features_val OFPPF_10MB_FD = 2 ^ 1"
| "ofp_port_features_val OFPPF_100MB_HD = 2 ^ 2"
| "ofp_port_features_val OFPPF_100MB_FD = 2 ^ 3"
| "ofp_port_features_val OFPPF_1GB_HD = 2 ^ 4"
| "ofp_port_features_val OFPPF_1GB_FD = 2 ^ 5"
| "ofp_port_features_val OFPPF_10GB_FD = 2 ^ 6"
| "ofp_port_features_val OFPPF_40GB_FD = 2 ^ 7"
| "ofp_port_features_val OFPPF_100GB_FD = 2 ^ 8"
| "ofp_port_features_val OFPPF_1TB_FD = 2 ^ 9"
| "ofp_port_features_val OFPPF_OTHER = 2 ^ 10"
| "ofp_port_features_val OFPPF_COPPER = 2 ^ 11"
| "ofp_port_features_val OFPPF_FIBER = 2 ^ 12"
| "ofp_port_features_val OFPPF_AUTONEG = 2 ^ 13"
| "ofp_port_features_val OFPPF_PAUSE = 2 ^ 14"
| "ofp_port_features_val OFPPF_PAUSE_ASYM = 2 ^ 15"

datatype ofp_port_desc_prop_type = OFPPDPT_ETHERNET | OFPPDPT_OPTICAL | OFPPDPT_EXPERIMENTER

primrec ofp_port_desc_prop_type_val :: "ofp_port_desc_prop_type \<Rightarrow> nat" where
  "ofp_port_desc_prop_type_val OFPPDPT_ETHERNET = 0"
| "ofp_port_desc_prop_type_val OFPPDPT_OPTICAL = 1"
| "ofp_port_desc_prop_type_val OFPPDPT_EXPERIMENTER = 0xffff"

datatype ofp_optical_port_features = OFPOPF_RX_TUNE | OFPOPF_TX_TUNE | OFPOPF_TX_PWR
    | OFPOPF_USE_FREQ

primrec ofp_optical_port_features_val :: "ofp_optical_port_features \<Rightarrow> nat" where
  "ofp_optical_port_features_val OFPOPF_RX_TUNE = 2 ^ 0"
| "ofp_optical_port_features_val OFPOPF_TX_TUNE = 2 ^ 1"
| "ofp_optical_port_features_val OFPOPF_TX_PWR = 2 ^ 2"
| "ofp_optical_port_features_val OFPOPF_USE_FREQ = 2 ^ 3"

datatype ofp_port_reason = OFPPR_ADD | OFPPR_DELETE | OFPPR_MODIFY

primrec ofp_port_reason_val :: "ofp_port_reason \<Rightarrow> nat" where
  "ofp_port_reason_val OFPPR_ADD = 0"
| "ofp_port_reason_val OFPPR_DELETE = 1"
| "ofp_port_reason_val OFPPR_MODIFY = 2"

datatype ofp_port_mod_prop_type = OFPPMPT_ETHERNET | OFPPMPT_OPTICAL | OFPPMPT_EXPERIMENTER

primrec ofp_port_mod_prop_type_val :: "ofp_port_mod_prop_type \<Rightarrow> nat" where
  "ofp_port_mod_prop_type_val OFPPMPT_ETHERNET = 0"
| "ofp_port_mod_prop_type_val OFPPMPT_OPTICAL = 1"
| "ofp_port_mod_prop_type_val OFPPMPT_EXPERIMENTER = 0xffff"

section \<open>Matches and actions\<close>

datatype ofp_match_type = OFPMT_STANDARD | OFPMT_OXM

primrec ofp_match_type_val :: "ofp_match_type \<Rightarrow> nat" where
  "ofp_match_type_val OFPMT_STANDARD = 0"
| "ofp_match_type_val OFPMT_OXM = 1"

datatype ofp_oxm_class = OFPXMC_NXM_0 | OFPXMC_NXM_1 | OFPXMC_OPENFLOW_BASIC | OFPXMC_EXPERIMENTER

primrec ofp_oxm_class_val :: "ofp_oxm_class \<Rightarrow> nat" where
  "ofp_oxm_class_val OFPXMC_NXM_0 = 0x0000"
| "ofp_oxm_class_val OFPXMC_NXM_1 = 0x0001"
| "ofp_oxm_class_val OFPXMC_OPENFLOW_BASIC = 0x8000"
| "ofp_oxm_class_val OFPXMC_EXPERIMENTER = 0xffff"

datatype ofp_vlan_id = OFPVID_PRESENT | OFPVID_NONE

primrec ofp_vlan_id_val :: "ofp_vlan_id \<Rightarrow> nat" where
  "ofp_vlan_id_val OFPVID_PRESENT = 0x1000"
| "ofp_vlan_id_val OFPVID_NONE = 0x0000"

datatype ofp_ipv6exthdr_flags = OFPIEH_NONEXT | OFPIEH_ESP | OFPIEH_AUTH | OFPIEH_DEST
    | OFPIEH_FRAG | OFPIEH_ROUTER | OFPIEH_HOP | OFPIEH_UNREP | OFPIEH_UNSEQ

primrec ofp_ipv6exthdr_flags_val :: "ofp_ipv6exthdr_flags \<Rightarrow> nat" where
  "ofp_ipv6exthdr_flags_val OFPIEH_NONEXT = 2 ^ 0"
| "ofp_ipv6exthdr_flags_val OFPIEH_ESP = 2 ^ 1"
| "ofp_ipv6exthdr_flags_val OFPIEH_AUTH = 2 ^ 2"
| "ofp_ipv6exthdr_flags_val OFPIEH_DEST = 2 ^ 3"
| "ofp_ipv6exthdr_flags_val OFPIEH_FRAG = 2 ^ 4"
| "ofp_ipv6exthdr_flags_val OFPIEH_ROUTER = 2 ^ 5"
| "ofp_ipv6exthdr_flags_val OFPIEH_HOP = 2 ^ 6"
| "ofp_ipv6exthdr_flags_val OFPIEH_UNREP = 2 ^ 7"
| "ofp_ipv6exthdr_flags_val OFPIEH_UNSEQ = 2 ^ 8"

datatype ofp_action_type = OFPAT_OUTPUT | OFPAT_COPY_TTL_OUT | OFPAT_COPY_TTL_IN
    | OFPAT_SET_MPLS_TTL | OFPAT_DEC_MPLS_TTL | OFPAT_PUSH_VLAN | OFPAT_POP_VLAN | OFPAT_PUSH_MPLS
    | OFPAT_POP_MPLS | OFPAT_SET_QUEUE | OFPAT_GROUP | OFPAT_SET_NW_TTL | OFPAT_DEC_NW_TTL
    | OFPAT_SET_FIELD | OFPAT_PUSH_PBB | OFPAT_POP_PBB | OFPAT_EXPERIMENTER

primrec ofp_action_type_val :: "ofp_action_type \<Rightarrow> nat" where
  "ofp_action_type_val OFPAT_OUTPUT = 0"
| "ofp_action_type_val OFPAT_COPY_TTL_OUT = 11"
| "ofp_action_type_val OFPAT_COPY_TTL_IN = 12"
| "ofp_action_type_val OFPAT_SET_MPLS_TTL = 15"
| "ofp_action_type_val OFPAT_DEC_MPLS_TTL = 16"
| "ofp_action_type_val OFPAT_PUSH_VLAN = 17"
| "ofp_action_type_val OFPAT_POP_VLAN = 18"
| "ofp_action_type_val OFPAT_PUSH_MPLS = 19"
| "ofp_action_type_val OFPAT_POP_MPLS = 20"
| "ofp_action_type_val OFPAT_SET_QUEUE = 21"
| "ofp_action_type_val OFPAT_GROUP = 22"
| "ofp_action_type_val OFPAT_SET_NW_TTL = 23"
| "ofp_action_type_val OFPAT_DEC_NW_TTL = 24"
| "ofp_action_type_val OFPAT_SET_FIELD = 25"
| "ofp_action_type_val OFPAT_PUSH_PBB = 26"
| "ofp_action_type_val OFPAT_POP_PBB = 27"
| "ofp_action_type_val OFPAT_EXPERIMENTER = 0xffff"

datatype ofp_controller_max_len = OFPCML_MAX | OFPCML_NO_BUFFER

primrec ofp_controller_max_len_val :: "ofp_controller_max_len \<Rightarrow> nat" where
  "ofp_controller_max_len_val OFPCML_MAX = 0xffe5"
| "ofp_controller_max_len_val OFPCML_NO_BUFFER = 0xffff"

section \<open>Instructions, flows and groups\<close>

datatype ofp_instruction_type = OFPIT_GOTO_TABLE | OFPIT_WRITE_METADATA | OFPIT_WRITE_ACTIONS
    | OFPIT_APPLY_ACTIONS | OFPIT_CLEAR_ACTIONS | OFPIT_METER | OFPIT_EXPERIMENTER

primrec ofp_instruction_type_val :: "ofp_instruction_type \<Rightarrow> nat" where
  "ofp_instruction_type_val OFPIT_GOTO_TABLE = 1"
| "ofp_instruction_type_val OFPIT_WRITE_METADATA = 2"
| "ofp_instruction_type_val OFPIT_WRITE_ACTIONS = 3"
| "ofp_instruction_type_val OFPIT_APPLY_ACTIONS = 4"
| "ofp_instruction_type_val OFPIT_CLEAR_ACTIONS = 5"
| "ofp_instruction_type_val OFPIT_METER = 6"
| "ofp_instruction_type_val OFPIT_EXPERIMENTER = 0xffff"

datatype ofp_flow_mod_command = OFPFC_ADD | OFPFC_MODIFY | OFPFC_MODIFY_STRICT | OFPFC_DELETE
    | OFPFC_DELETE_STRICT

primrec ofp_flow_mod_command_val :: "ofp_flow_mod_command \<Rightarrow> nat" where
  "ofp_flow_mod_command_val OFPFC_ADD = 0"
| "ofp_flow_mod_command_val OFPFC_MODIFY = 1"
| "ofp_flow_mod_command_val OFPFC_MODIFY_STRICT = 2"
| "ofp_flow_mod_command_val OFPFC_DELETE = 3"
| "ofp_flow_mod_command_val OFPFC_DELETE_STRICT = 4"

datatype ofp_flow_mod_flags = OFPFF_SEND_FLOW_REM | OFPFF_CHECK_OVERLAP | OFPFF_RESET_COUNTS
    | OFPFF_NO_PKT_COUNTS | OFPFF_NO_BYT_COUNTS

primrec ofp_flow_mod_flags_val :: "ofp_flow_mod_flags \<Rightarrow> nat" where
  "ofp_flow_mod_flags_val OFPFF_SEND_FLOW_REM = 2 ^ 0"
| "ofp_flow_mod_flags_val OFPFF_CHECK_OVERLAP = 2 ^ 1"
| "ofp_flow_mod_flags_val OFPFF_RESET_COUNTS = 2 ^ 2"
| "ofp_flow_mod_flags_val OFPFF_NO_PKT_COUNTS = 2 ^ 3"
| "ofp_flow_mod_flags_val OFPFF_NO_BYT_COUNTS = 2 ^ 4"

datatype ofp_group = OFPG_MAX | OFPG_ALL | OFPG_ANY

primrec ofp_group_val :: "ofp_group \<Rightarrow> nat" where
  "ofp_group_val OFPG_MAX = 0xffffff00"
| "ofp_group_val OFPG_ALL = 0xfffffffc"
| "ofp_group_val OFPG_ANY = 0xffffffff"

datatype ofp_group_mod_command = OFPGC_ADD | OFPGC_MODIFY | OFPGC_DELETE

primrec ofp_group_mod_command_val :: "ofp_group_mod_command \<Rightarrow> nat" where
  "ofp_group_mod_command_val OFPGC_ADD = 0"
| "ofp_group_mod_command_val OFPGC_MODIFY = 1"
| "ofp_group_mod_command_val OFPGC_DELETE = 2"

datatype ofp_group_type = OFPGT_ALL | OFPGT_SELECT | OFPGT_INDIRECT | OFPGT_FF

primrec ofp_group_type_val :: "ofp_group_type \<Rightarrow> nat" where
  "ofp_group_type_val OFPGT_ALL = 0"
| "ofp_group_type_val OFPGT_SELECT = 1"
| "ofp_group_type_val OFPGT_INDIRECT = 2"
| "ofp_group_type_val OFPGT_FF = 3"

datatype ofp_packet_in_reason = OFPR_TABLE_MISS | OFPR_APPLY_ACTION | OFPR_INVALID_TTL
    | OFPR_ACTION_SET | OFPR_GROUP | OFPR_PACKET_OUT

primrec ofp_packet_in_reason_val :: "ofp_packet_in_reason \<Rightarrow> nat" where
  "ofp_packet_in_reason_val OFPR_TABLE_MISS = 0"
| "ofp_packet_in_reason_val OFPR_APPLY_ACTION = 1"
| "ofp_packet_in_reason_val OFPR_INVALID_TTL = 2"
| "ofp_packet_in_reason_val OFPR_ACTION_SET = 3"
| "ofp_packet_in_reason_val OFPR_GROUP = 4"
| "ofp_packet_in_reason_val OFPR_PACKET_OUT = 5"

datatype ofp_flow_removed_reason = OFPRR_IDLE_TIMEOUT | OFPRR_HARD_TIMEOUT | OFPRR_DELETE
    | OFPRR_GROUP_DELETE | OFPRR_METER_DELETE | OFPRR_EVICTION

primrec ofp_flow_removed_reason_val :: "ofp_flow_removed_reason \<Rightarrow> nat" where
  "ofp_flow_removed_reason_val OFPRR_IDLE_TIMEOUT = 0"
| "ofp_flow_removed_reason_val OFPRR_HARD_TIMEOUT = 1"
| "ofp_flow_removed_reason_val OFPRR_DELETE = 2"
| "ofp_flow_removed_reason_val OFPRR_GROUP_DELETE = 3"
| "ofp_flow_removed_reason_val OFPRR_METER_DELETE = 4"
| "ofp_flow_removed_reason_val OFPRR_EVICTION = 5"

section \<open>Meters\<close>

datatype ofp_meter = OFPM_MAX | OFPM_SLOWPATH | OFPM_CONTROLLER | OFPM_ALL

primrec ofp_meter_val :: "ofp_meter \<Rightarrow> nat" where
  "ofp_meter_val OFPM_MAX = 0xffff0000"
| "ofp_meter_val OFPM_SLOWPATH = 0xfffffffd"
| "ofp_meter_val OFPM_CONTROLLER = 0xfffffffe"
| "ofp_meter_val OFPM_ALL = 0xffffffff"

datatype ofp_meter_band_type = OFPMBT_DROP | OFPMBT_DSCP_REMARK | OFPMBT_EXPERIMENTER

primrec ofp_meter_band_type_val :: "ofp_meter_band_type \<Rightarrow> nat" where
  "ofp_meter_band_type_val OFPMBT_DROP = 1"
| "ofp_meter_band_type_val OFPMBT_DSCP_REMARK = 2"
| "ofp_meter_band_type_val OFPMBT_EXPERIMENTER = 0xffff"

datatype ofp_meter_mod_command = OFPMC_ADD | OFPMC_MODIFY | OFPMC_DELETE

primrec ofp_meter_mod_command_val :: "ofp_meter_mod_command \<Rightarrow> nat" where
  "ofp_meter_mod_command_val OFPMC_ADD = 0"
| "ofp_meter_mod_command_val OFPMC_MODIFY = 1"
| "ofp_meter_mod_command_val OFPMC_DELETE = 2"

datatype ofp_meter_flags = OFPMF_KBPS | OFPMF_PKTPS | OFPMF_BURST | OFPMF_STATS

primrec ofp_meter_flags_val :: "ofp_meter_flags \<Rightarrow> nat" where
  "ofp_meter_flags_val OFPMF_KBPS = 2 ^ 0"
| "ofp_meter_flags_val OFPMF_PKTPS = 2 ^ 1"
| "ofp_meter_flags_val OFPMF_BURST = 2 ^ 2"
| "ofp_meter_flags_val OFPMF_STATS = 2 ^ 3"

section \<open>Errors\<close>

datatype ofp_error_type = OFPET_HELLO_FAILED | OFPET_BAD_REQUEST | OFPET_BAD_ACTION
    | OFPET_BAD_INSTRUCTION | OFPET_BAD_MATCH | OFPET_FLOW_MOD_FAILED | OFPET_GROUP_MOD_FAILED
    | OFPET_PORT_MOD_FAILED | OFPET_TABLE_MOD_FAILED | OFPET_QUEUE_OP_FAILED
    | OFPET_SWITCH_CONFIG_FAILED | OFPET_ROLE_REQUEST_FAILED | OFPET_METER_MOD_FAILED
    | OFPET_TABLE_FEATURES_FAILED | OFPET_BAD_PROPERTY | OFPET_ASYNC_CONFIG_FAILED
    | OFPET_FLOW_MONITOR_FAILED | OFPET_BUNDLE_FAILED | OFPET_EXPERIMENTER

primrec ofp_error_type_val :: "ofp_error_type \<Rightarrow> nat" where
  "ofp_error_type_val OFPET_HELLO_FAILED = 0"
| "ofp_error_type_val OFPET_BAD_REQUEST = 1"
| "ofp_error_type_val OFPET_BAD_ACTION = 2"
| "ofp_error_type_val OFPET_BAD_INSTRUCTION = 3"
| "ofp_error_type_val OFPET_BAD_MATCH = 4"
| "ofp_error_type_val OFPET_FLOW_MOD_FAILED = 5"
| "ofp_error_type_val OFPET_GROUP_MOD_FAILED = 6"
| "ofp_error_type_val OFPET_PORT_MOD_FAILED = 7"
| "ofp_error_type_val OFPET_TABLE_MOD_FAILED = 8"
| "ofp_error_type_val OFPET_QUEUE_OP_FAILED = 9"
| "ofp_error_type_val OFPET_SWITCH_CONFIG_FAILED = 10"
| "ofp_error_type_val OFPET_ROLE_REQUEST_FAILED = 11"
| "ofp_error_type_val OFPET_METER_MOD_FAILED = 12"
| "ofp_error_type_val OFPET_TABLE_FEATURES_FAILED = 13"
| "ofp_error_type_val OFPET_BAD_PROPERTY = 14"
| "ofp_error_type_val OFPET_ASYNC_CONFIG_FAILED = 15"
| "ofp_error_type_val OFPET_FLOW_MONITOR_FAILED = 16"
| "ofp_error_type_val OFPET_BUNDLE_FAILED = 17"
| "ofp_error_type_val OFPET_EXPERIMENTER = 0xffff"

datatype ofp_hello_failed_code = OFPHFC_INCOMPATIBLE | OFPHFC_EPERM

primrec ofp_hello_failed_code_val :: "ofp_hello_failed_code \<Rightarrow> nat" where
  "ofp_hello_failed_code_val OFPHFC_INCOMPATIBLE = 0"
| "ofp_hello_failed_code_val OFPHFC_EPERM = 1"

datatype ofp_bad_request_code = OFPBRC_BAD_VERSION | OFPBRC_BAD_TYPE | OFPBRC_BAD_MULTIPART
    | OFPBRC_BAD_EXPERIMENTER | OFPBRC_BAD_EXP_TYPE | OFPBRC_EPERM | OFPBRC_BAD_LEN
    | OFPBRC_BUFFER_EMPTY | OFPBRC_BUFFER_UNKNOWN | OFPBRC_BAD_TABLE_ID | OFPBRC_IS_SLAVE
    | OFPBRC_BAD_PORT | OFPBRC_BAD_PACKET | OFPBRC_MULTIPART_BUFFER_OVERFLOW
    | OFPBRC_MULTIPART_REQUEST_TIMEOUT | OFPBRC_MULTIPART_REPLY_TIMEOUT

primrec ofp_bad_request_code_val :: "ofp_bad_request_code \<Rightarrow> nat" where
  "ofp_bad_request_code_val OFPBRC_BAD_VERSION = 0"
| "ofp_bad_request_code_val OFPBRC_BAD_TYPE = 1"
| "ofp_bad_request_code_val OFPBRC_BAD_MULTIPART = 2"
| "ofp_bad_request_code_val OFPBRC_BAD_EXPERIMENTER = 3"
| "ofp_bad_request_code_val OFPBRC_BAD_EXP_TYPE = 4"
| "ofp_bad_request_code_val OFPBRC_EPERM = 5"
| "ofp_bad_request_code_val OFPBRC_BAD_LEN = 6"
| "ofp_bad_request_code_val OFPBRC_BUFFER_EMPTY = 7"
| "ofp_bad_request_code_val OFPBRC_BUFFER_UNKNOWN = 8"
| "ofp_bad_request_code_val OFPBRC_BAD_TABLE_ID = 9"
| "ofp_bad_request_code_val OFPBRC_IS_SLAVE = 10"
| "ofp_bad_request_code_val OFPBRC_BAD_PORT = 11"
| "ofp_bad_request_code_val OFPBRC_BAD_PACKET = 12"
| "ofp_bad_request_code_val OFPBRC_MULTIPART_BUFFER_OVERFLOW = 13"
| "ofp_bad_request_code_val OFPBRC_MULTIPART_REQUEST_TIMEOUT = 14"
| "ofp_bad_request_code_val OFPBRC_MULTIPART_REPLY_TIMEOUT = 15"

datatype ofp_bad_action_code = OFPBAC_BAD_TYPE | OFPBAC_BAD_LEN | OFPBAC_BAD_EXPERIMENTER
    | OFPBAC_BAD_EXP_TYPE | OFPBAC_BAD_OUT_PORT | OFPBAC_BAD_ARGUMENT | OFPBAC_EPERM
    | OFPBAC_TOO_MANY | OFPBAC_BAD_QUEUE | OFPBAC_BAD_OUT_GROUP | OFPBAC_MATCH_INCONSISTENT
    | OFPBAC_UNSUPPORTED_ORDER | OFPBAC_BAD_TAG | OFPBAC_BAD_SET_TYPE | OFPBAC_BAD_SET_LEN
    | OFPBAC_BAD_SET_ARGUMENT

primrec ofp_bad_action_code_val :: "ofp_bad_action_code \<Rightarrow> nat" where
  "ofp_bad_action_code_val OFPBAC_BAD_TYPE = 0"
| "ofp_bad_action_code_val OFPBAC_BAD_LEN = 1"
| "ofp_bad_action_code_val OFPBAC_BAD_EXPERIMENTER = 2"
| "ofp_bad_action_code_val OFPBAC_BAD_EXP_TYPE = 3"
| "ofp_bad_action_code_val OFPBAC_BAD_OUT_PORT = 4"
| "ofp_bad_action_code_val OFPBAC_BAD_ARGUMENT = 5"
| "ofp_bad_action_code_val OFPBAC_EPERM = 6"
| "ofp_bad_action_code_val OFPBAC_TOO_MANY = 7"
| "ofp_bad_action_code_val OFPBAC_BAD_QUEUE = 8"
| "ofp_bad_action_code_val OFPBAC_BAD_OUT_GROUP = 9"
| "ofp_bad_action_code_val OFPBAC_MATCH_INCONSISTENT = 10"
| "ofp_bad_action_code_val OFPBAC_UNSUPPORTED_ORDER = 11"
| "ofp_bad_action_code_val OFPBAC_BAD_TAG = 12"
| "ofp_bad_action_code_val OFPBAC_BAD_SET_TYPE = 13"
| "ofp_bad_action_code_val OFPBAC_BAD_SET_LEN = 14"
| "ofp_bad_action_code_val OFPBAC_BAD_SET_ARGUMENT = 15"

datatype ofp_bad_instruction_code = OFPBIC_UNKNOWN_INST | OFPBIC_UNSUP_INST | OFPBIC_BAD_TABLE_ID
    | OFPBIC_UNSUP_METADATA | OFPBIC_UNSUP_METADATA_MASK | OFPBIC_BAD_EXPERIMENTER
    | OFPBIC_BAD_EXP_TYPE | OFPBIC_BAD_LEN | OFPBIC_EPERM | OFPBIC_DUP_INST

primrec ofp_bad_instruction_code_val :: "ofp_bad_instruction_code \<Rightarrow> nat" where
  "ofp_bad_instruction_code_val OFPBIC_UNKNOWN_INST = 0"
| "ofp_bad_instruction_code_val OFPBIC_UNSUP_INST = 1"
| "ofp_bad_instruction_code_val OFPBIC_BAD_TABLE_ID = 2"
| "ofp_bad_instruction_code_val OFPBIC_UNSUP_METADATA = 3"
| "ofp_bad_instruction_code_val OFPBIC_UNSUP_METADATA_MASK = 4"
| "ofp_bad_instruction_code_val OFPBIC_BAD_EXPERIMENTER = 5"
| "ofp_bad_instruction_code_val OFPBIC_BAD_EXP_TYPE = 6"
| "ofp_bad_instruction_code_val OFPBIC_BAD_LEN = 7"
| "ofp_bad_instruction_code_val OFPBIC_EPERM = 8"
| "ofp_bad_instruction_code_val OFPBIC_DUP_INST = 9"

datatype ofp_bad_match_code = OFPBMC_BAD_TYPE | OFPBMC_BAD_LEN | OFPBMC_BAD_TAG
    | OFPBMC_BAD_DL_ADDR_MASK | OFPBMC_BAD_NW_ADDR_MASK | OFPBMC_BAD_WILDCARDS | OFPBMC_BAD_FIELD
    | OFPBMC_BAD_VALUE | OFPBMC_BAD_MASK | OFPBMC_BAD_PREREQ | OFPBMC_DUP_FIELD | OFPBMC_EPERM

primrec ofp_bad_match_code_val :: "ofp_bad_match_code \<Rightarrow> nat" where
  "ofp_bad_match_code_val OFPBMC_BAD_TYPE = 0"
| "ofp_bad_match_code_val OFPBMC_BAD_LEN = 1"
| "ofp_bad_match_code_val OFPBMC_BAD_TAG = 2"
| "ofp_bad_match_code_val OFPBMC_BAD_DL_ADDR_MASK = 3"
| "ofp_bad_match_code_val OFPBMC_BAD_NW_ADDR_MASK = 4"
| "ofp_bad_match_code_val OFPBMC_BAD_WILDCARDS = 5"
| "ofp_bad_match_code_val OFPBMC_BAD_FIELD = 6"
| "ofp_bad_match_code_val OFPBMC_BAD_VALUE = 7"
| "ofp_bad_match_code_val OFPBMC_BAD_MASK = 8"
| "ofp_bad_match_code_val OFPBMC_BAD_PREREQ = 9"
| "ofp_bad_match_code_val OFPBMC_DUP_FIELD = 10"
| "ofp_bad_match_code_val OFPBMC_EPERM = 11"

datatype ofp_flow_mod_failed_code = OFPFMFC_UNKNOWN | OFPFMFC_TABLE_FULL | OFPFMFC_BAD_TABLE_ID
    | OFPFMFC_OVERLAP | OFPFMFC_EPERM | OFPFMFC_BAD_TIMEOUT | OFPFMFC_BAD_COMMAND
    | OFPFMFC_BAD_FLAGS | OFPFMFC_CANT_SYNC | OFPFMFC_BAD_PRIORITY

primrec ofp_flow_mod_failed_code_val :: "ofp_flow_mod_failed_code \<Rightarrow> nat" where
  "ofp_flow_mod_failed_code_val OFPFMFC_UNKNOWN = 0"
| "ofp_flow_mod_failed_code_val OFPFMFC_TABLE_FULL = 1"
| "ofp_flow_mod_failed_code_val OFPFMFC_BAD_TABLE_ID = 2"
| "ofp_flow_mod_failed_code_val OFPFMFC_OVERLAP = 3"
| "ofp_flow_mod_failed_code_val OFPFMFC_EPERM = 4"
| "ofp_flow_mod_failed_code_val OFPFMFC_BAD_TIMEOUT = 5"
| "ofp_flow_mod_failed_code_val OFPFMFC_BAD_COMMAND = 6"
| "ofp_flow_mod_failed_code_val OFPFMFC_BAD_FLAGS = 7"
| "ofp_flow_mod_failed_code_val OFPFMFC_CANT_SYNC = 8"
| "ofp_flow_mod_failed_code_val OFPFMFC_BAD_PRIORITY = 9"

datatype ofp_group_mod_failed_code = OFPGMFC_GROUP_EXISTS | OFPGMFC_INVALID_GROUP
    | OFPGMFC_WEIGHT_UNSUPPORTED | OFPGMFC_OUT_OF_GROUPS | OFPGMFC_OUT_OF_BUCKETS
    | OFPGMFC_CHAINING_UNSUPPORTED | OFPGMFC_WATCH_UNSUPPORTED | OFPGMFC_LOOP
    | OFPGMFC_UNKNOWN_GROUP | OFPGMFC_CHAINED_GROUP | OFPGMFC_BAD_TYPE | OFPGMFC_BAD_COMMAND
    | OFPGMFC_BAD_BUCKET | OFPGMFC_BAD_WATCH | OFPGMFC_EPERM

primrec ofp_group_mod_failed_code_val :: "ofp_group_mod_failed_code \<Rightarrow> nat" where
  "ofp_group_mod_failed_code_val OFPGMFC_GROUP_EXISTS = 0"
| "ofp_group_mod_failed_code_val OFPGMFC_INVALID_GROUP = 1"
| "ofp_group_mod_failed_code_val OFPGMFC_WEIGHT_UNSUPPORTED = 2"
| "ofp_group_mod_failed_code_val OFPGMFC_OUT_OF_GROUPS = 3"
| "ofp_group_mod_failed_code_val OFPGMFC_OUT_OF_BUCKETS = 4"
| "ofp_group_mod_failed_code_val OFPGMFC_CHAINING_UNSUPPORTED = 5"
| "ofp_group_mod_failed_code_val OFPGMFC_WATCH_UNSUPPORTED = 6"
| "ofp_group_mod_failed_code_val OFPGMFC_LOOP = 7"
| "ofp_group_mod_failed_code_val OFPGMFC_UNKNOWN_GROUP = 8"
| "ofp_group_mod_failed_code_val OFPGMFC_CHAINED_GROUP = 9"
| "ofp_group_mod_failed_code_val OFPGMFC_BAD_TYPE = 10"
| "ofp_group_mod_failed_code_val OFPGMFC_BAD_COMMAND = 11"
| "ofp_group_mod_failed_code_val OFPGMFC_BAD_BUCKET = 12"
| "ofp_group_mod_failed_code_val OFPGMFC_BAD_WATCH = 13"
| "ofp_group_mod_failed_code_val OFPGMFC_EPERM = 14"

datatype ofp_port_mod_failed_code = OFPPMFC_BAD_PORT | OFPPMFC_BAD_HW_ADDR | OFPPMFC_BAD_CONFIG
    | OFPPMFC_BAD_ADVERTISE | OFPPMFC_EPERM

primrec ofp_port_mod_failed_code_val :: "ofp_port_mod_failed_code \<Rightarrow> nat" where
  "ofp_port_mod_failed_code_val OFPPMFC_BAD_PORT = 0"
| "ofp_port_mod_failed_code_val OFPPMFC_BAD_HW_ADDR = 1"
| "ofp_port_mod_failed_code_val OFPPMFC_BAD_CONFIG = 2"
| "ofp_port_mod_failed_code_val OFPPMFC_BAD_ADVERTISE = 3"
| "ofp_port_mod_failed_code_val OFPPMFC_EPERM = 4"

datatype ofp_table_mod_failed_code = OFPTMFC_BAD_TABLE | OFPTMFC_BAD_CONFIG | OFPTMFC_EPERM

primrec ofp_table_mod_failed_code_val :: "ofp_table_mod_failed_code \<Rightarrow> nat" where
  "ofp_table_mod_failed_code_val OFPTMFC_BAD_TABLE = 0"
| "ofp_table_mod_failed_code_val OFPTMFC_BAD_CONFIG = 1"
| "ofp_table_mod_failed_code_val OFPTMFC_EPERM = 2"

datatype ofp_queue_op_failed_code = OFPQOFC_BAD_PORT | OFPQOFC_BAD_QUEUE | OFPQOFC_EPERM

primrec ofp_queue_op_failed_code_val :: "ofp_queue_op_failed_code \<Rightarrow> nat" where
  "ofp_queue_op_failed_code_val OFPQOFC_BAD_PORT = 0"
| "ofp_queue_op_failed_code_val OFPQOFC_BAD_QUEUE = 1"
| "ofp_queue_op_failed_code_val OFPQOFC_EPERM = 2"

datatype ofp_switch_config_failed_code = OFPSCFC_BAD_FLAGS | OFPSCFC_BAD_LEN | OFPSCFC_EPERM

primrec ofp_switch_config_failed_code_val :: "ofp_switch_config_failed_code \<Rightarrow> nat" where
  "ofp_switch_config_failed_code_val OFPSCFC_BAD_FLAGS = 0"
| "ofp_switch_config_failed_code_val OFPSCFC_BAD_LEN = 1"
| "ofp_switch_config_failed_code_val OFPSCFC_EPERM = 2"

datatype ofp_role_request_failed_code = OFPRRFC_STALE | OFPRRFC_UNSUP | OFPRRFC_BAD_ROLE

primrec ofp_role_request_failed_code_val :: "ofp_role_request_failed_code \<Rightarrow> nat" where
  "ofp_role_request_failed_code_val OFPRRFC_STALE = 0"
| "ofp_role_request_failed_code_val OFPRRFC_UNSUP = 1"
| "ofp_role_request_failed_code_val OFPRRFC_BAD_ROLE = 2"

datatype ofp_meter_mod_failed_code = OFPMMFC_UNKNOWN | OFPMMFC_METER_EXISTS
    | OFPMMFC_INVALID_METER | OFPMMFC_UNKNOWN_METER | OFPMMFC_BAD_COMMAND | OFPMMFC_BAD_FLAGS
    | OFPMMFC_BAD_RATE | OFPMMFC_BAD_BURST | OFPMMFC_BAD_BAND | OFPMMFC_BAD_BAND_VALUE
    | OFPMMFC_OUT_OF_METERS | OFPMMFC_OUT_OF_BANDS

primrec ofp_meter_mod_failed_code_val :: "ofp_meter_mod_failed_code \<Rightarrow> nat" where
  "ofp_meter_mod_failed_code_val OFPMMFC_UNKNOWN = 0"
| "ofp_meter_mod_failed_code_val OFPMMFC_METER_EXISTS = 1"
| "ofp_meter_mod_failed_code_val OFPMMFC_INVALID_METER = 2"
| "ofp_meter_mod_failed_code_val OFPMMFC_UNKNOWN_METER = 3"
| "ofp_meter_mod_failed_code_val OFPMMFC_BAD_COMMAND = 4"
| "ofp_meter_mod_failed_code_val OFPMMFC_BAD_FLAGS = 5"
| "ofp_meter_mod_failed_code_val OFPMMFC_BAD_RATE = 6"
| "ofp_meter_mod_failed_code_val OFPMMFC_BAD_BURST = 7"
| "ofp_meter_mod_failed_code_val OFPMMFC_BAD_BAND = 8"
| "ofp_meter_mod_failed_code_val OFPMMFC_BAD_BAND_VALUE = 9"
| "ofp_meter_mod_failed_code_val OFPMMFC_OUT_OF_METERS = 10"
| "ofp_meter_mod_failed_code_val OFPMMFC_OUT_OF_BANDS = 11"

datatype ofp_table_features_failed_code = OFPTFFC_BAD_TABLE | OFPTFFC_BAD_METADATA | OFPTFFC_EPERM

primrec ofp_table_features_failed_code_val :: "ofp_table_features_failed_code \<Rightarrow> nat" where
  "ofp_table_features_failed_code_val OFPTFFC_BAD_TABLE = 0"
| "ofp_table_features_failed_code_val OFPTFFC_BAD_METADATA = 1"
| "ofp_table_features_failed_code_val OFPTFFC_EPERM = 5"

datatype ofp_bad_property_code = OFPBPC_BAD_TYPE | OFPBPC_BAD_LEN | OFPBPC_BAD_VALUE
    | OFPBPC_TOO_MANY | OFPBPC_DUP_TYPE | OFPBPC_BAD_EXPERIMENTER | OFPBPC_BAD_EXP_TYPE
    | OFPBPC_BAD_EXP_VALUE | OFPBPC_EPERM

primrec ofp_bad_property_code_val :: "ofp_bad_property_code \<Rightarrow> nat" where
  "ofp_bad_property_code_val OFPBPC_BAD_TYPE = 0"
| "ofp_bad_property_code_val OFPBPC_BAD_LEN = 1"
| "ofp_bad_property_code_val OFPBPC_BAD_VALUE = 2"
| "ofp_bad_property_code_val OFPBPC_TOO_MANY = 3"
| "ofp_bad_property_code_val OFPBPC_DUP_TYPE = 4"
| "ofp_bad_property_code_val OFPBPC_BAD_EXPERIMENTER = 5"
| "ofp_bad_property_code_val OFPBPC_BAD_EXP_TYPE = 6"
| "ofp_bad_property_code_val OFPBPC_BAD_EXP_VALUE = 7"
| "ofp_bad_property_code_val OFPBPC_EPERM = 8"

datatype ofp_async_config_failed_code = OFPACFC_INVALID | OFPACFC_UNSUPPORTED | OFPACFC_EPERM

primrec ofp_async_config_failed_code_val :: "ofp_async_config_failed_code \<Rightarrow> nat" where
  "ofp_async_config_failed_code_val OFPACFC_INVALID = 0"
| "ofp_async_config_failed_code_val OFPACFC_UNSUPPORTED = 1"
| "ofp_async_config_failed_code_val OFPACFC_EPERM = 2"

datatype ofp_flow_monitor_failed_code = OFPMOFC_UNKNOWN | OFPMOFC_MONITOR_EXISTS
    | OFPMOFC_INVALID_MONITOR | OFPMOFC_UNKNOWN_MONITOR | OFPMOFC_BAD_COMMAND | OFPMOFC_BAD_FLAGS
    | OFPMOFC_BAD_TABLE_ID | OFPMOFC_BAD_OUT

primrec ofp_flow_monitor_failed_code_val :: "ofp_flow_monitor_failed_code \<Rightarrow> nat" where
  "ofp_flow_monitor_failed_code_val OFPMOFC_UNKNOWN = 0"
| "ofp_flow_monitor_failed_code_val OFPMOFC_MONITOR_EXISTS = 1"
| "ofp_flow_monitor_failed_code_val OFPMOFC_INVALID_MONITOR = 2"
| "ofp_flow_monitor_failed_code_val OFPMOFC_UNKNOWN_MONITOR = 3"
| "ofp_flow_monitor_failed_code_val OFPMOFC_BAD_COMMAND = 4"
| "ofp_flow_monitor_failed_code_val OFPMOFC_BAD_FLAGS = 5"
| "ofp_flow_monitor_failed_code_val OFPMOFC_BAD_TABLE_ID = 6"
| "ofp_flow_monitor_failed_code_val OFPMOFC_BAD_OUT = 7"

datatype ofp_bundle_failed_code = OFPBFC_UNKNOWN | OFPBFC_EPERM | OFPBFC_BAD_ID
    | OFPBFC_BUNDLE_EXIST | OFPBFC_BUNDLE_CLOSED | OFPBFC_OUT_OF_BUNDLES | OFPBFC_BAD_TYPE
    | OFPBFC_BAD_FLAGS | OFPBFC_MSG_BAD_LEN | OFPBFC_MSG_BAD_XID | OFPBFC_MSG_UNSUP
    | OFPBFC_MSG_CONFLICT | OFPBFC_MSG_TOO_MANY | OFPBFC_MSG_FAILED | OFPBFC_TIMEOUT
    | OFPBFC_BUNDLE_IN_PROGRESS

primrec ofp_bundle_failed_code_val :: "ofp_bundle_failed_code \<Rightarrow> nat" where
  "ofp_bundle_failed_code_val OFPBFC_UNKNOWN = 0"
| "ofp_bundle_failed_code_val OFPBFC_EPERM = 1"
| "ofp_bundle_failed_code_val OFPBFC_BAD_ID = 2"
| "ofp_bundle_failed_code_val OFPBFC_BUNDLE_EXIST = 3"
| "ofp_bundle_failed_code_val OFPBFC_BUNDLE_CLOSED = 4"
| "ofp_bundle_failed_code_val OFPBFC_OUT_OF_BUNDLES = 5"
| "ofp_bundle_failed_code_val OFPBFC_BAD_TYPE = 6"
| "ofp_bundle_failed_code_val OFPBFC_BAD_FLAGS = 7"
| "ofp_bundle_failed_code_val OFPBFC_MSG_BAD_LEN = 8"
| "ofp_bundle_failed_code_val OFPBFC_MSG_BAD_XID = 9"
| "ofp_bundle_failed_code_val OFPBFC_MSG_UNSUP = 10"
| "ofp_bundle_failed_code_val OFPBFC_MSG_CONFLICT = 11"
| "ofp_bundle_failed_code_val OFPBFC_MSG_TOO_MANY = 12"
| "ofp_bundle_failed_code_val OFPBFC_MSG_FAILED = 13"
| "ofp_bundle_failed_code_val OFPBFC_TIMEOUT = 14"
| "ofp_bundle_failed_code_val OFPBFC_BUNDLE_IN_PROGRESS = 15"

section \<open>Multipart messages\<close>

datatype ofp_multipart_type = OFPMP_DESC | OFPMP_FLOW | OFPMP_AGGREGATE | OFPMP_TABLE
    | OFPMP_PORT_STATS | OFPMP_QUEUE_STATS | OFPMP_GROUP | OFPMP_GROUP_DESC | OFPMP_GROUP_FEATURES
    | OFPMP_METER | OFPMP_METER_CONFIG | OFPMP_METER_FEATURES | OFPMP_TABLE_FEATURES
    | OFPMP_PORT_DESC | OFPMP_TABLE_DESC | OFPMP_QUEUE_DESC | OFPMP_FLOW_MONITOR
    | OFPMP_EXPERIMENTER

primrec ofp_multipart_type_val :: "ofp_multipart_type \<Rightarrow> nat" where
  "ofp_multipart_type_val OFPMP_DESC = 0"
| "ofp_multipart_type_val OFPMP_FLOW = 1"
| "ofp_multipart_type_val OFPMP_AGGREGATE = 2"
| "ofp_multipart_type_val OFPMP_TABLE = 3"
| "ofp_multipart_type_val OFPMP_PORT_STATS = 4"
| "ofp_multipart_type_val OFPMP_QUEUE_STATS = 5"
| "ofp_multipart_type_val OFPMP_GROUP = 6"
| "ofp_multipart_type_val OFPMP_GROUP_DESC = 7"
| "ofp_multipart_type_val OFPMP_GROUP_FEATURES = 8"
| "ofp_multipart_type_val OFPMP_METER = 9"
| "ofp_multipart_type_val OFPMP_METER_CONFIG = 10"
| "ofp_multipart_type_val OFPMP_METER_FEATURES = 11"
| "ofp_multipart_type_val OFPMP_TABLE_FEATURES = 12"
| "ofp_multipart_type_val OFPMP_PORT_DESC = 13"
| "ofp_multipart_type_val OFPMP_TABLE_DESC = 14"
| "ofp_multipart_type_val OFPMP_QUEUE_DESC = 15"
| "ofp_multipart_type_val OFPMP_FLOW_MONITOR = 16"
| "ofp_multipart_type_val OFPMP_EXPERIMENTER = 0xffff"

datatype ofp_multipart_request_flags = OFPMPF_REQ_MORE

primrec ofp_multipart_request_flags_val :: "ofp_multipart_request_flags \<Rightarrow> nat" where
  "ofp_multipart_request_flags_val OFPMPF_REQ_MORE = 2 ^ 0"

datatype ofp_multipart_reply_flags = OFPMPF_REPLY_MORE

primrec ofp_multipart_reply_flags_val :: "ofp_multipart_reply_flags \<Rightarrow> nat" where
  "ofp_multipart_reply_flags_val OFPMPF_REPLY_MORE = 2 ^ 0"

datatype ofp_table_feature_prop_type = OFPTFPT_INSTRUCTIONS | OFPTFPT_INSTRUCTIONS_MISS
    | OFPTFPT_NEXT_TABLES | OFPTFPT_NEXT_TABLES_MISS | OFPTFPT_WRITE_ACTIONS
    | OFPTFPT_WRITE_ACTIONS_MISS | OFPTFPT_APPLY_ACTIONS | OFPTFPT_APPLY_ACTIONS_MISS
    | OFPTFPT_MATCH | OFPTFPT_WILDCARDS | OFPTFPT_WRITE_SETFIELD | OFPTFPT_WRITE_SETFIELD_MISS
    | OFPTFPT_APPLY_SETFIELD | OFPTFPT_APPLY_SETFIELD_MISS | OFPTFPT_TABLE_SYNC_FROM
    | OFPTFPT_EXPERIMENTER | OFPTFPT_EXPERIMENTER_MISS

primrec ofp_table_feature_prop_type_val :: "ofp_table_feature_prop_type \<Rightarrow> nat" where
  "ofp_table_feature_prop_type_val OFPTFPT_INSTRUCTIONS = 0"
| "ofp_table_feature_prop_type_val OFPTFPT_INSTRUCTIONS_MISS = 1"
| "ofp_table_feature_prop_type_val OFPTFPT_NEXT_TABLES = 2"
| "ofp_table_feature_prop_type_val OFPTFPT_NEXT_TABLES_MISS = 3"
| "ofp_table_feature_prop_type_val OFPTFPT_WRITE_ACTIONS = 4"
| "ofp_table_feature_prop_type_val OFPTFPT_WRITE_ACTIONS_MISS = 5"
| "ofp_table_feature_prop_type_val OFPTFPT_APPLY_ACTIONS = 6"
| "ofp_table_feature_prop_type_val OFPTFPT_APPLY_ACTIONS_MISS = 7"
| "ofp_table_feature_prop_type_val OFPTFPT_MATCH = 8"
| "ofp_table_feature_prop_type_val OFPTFPT_WILDCARDS = 10"
| "ofp_table_feature_prop_type_val OFPTFPT_WRITE_SETFIELD = 12"
| "ofp_table_feature_prop_type_val OFPTFPT_WRITE_SETFIELD_MISS = 13"
| "ofp_table_feature_prop_type_val OFPTFPT_APPLY_SETFIELD = 14"
| "ofp_table_feature_prop_type_val OFPTFPT_APPLY_SETFIELD_MISS = 15"
| "ofp_table_feature_prop_type_val OFPTFPT_TABLE_SYNC_FROM = 16"
| "ofp_table_feature_prop_type_val OFPTFPT_EXPERIMENTER = 0xfffe"
| "ofp_table_feature_prop_type_val OFPTFPT_EXPERIMENTER_MISS = 0xffff"

datatype ofp_port_stats_prop_type = OFPPSPT_ETHERNET | OFPPSPT_OPTICAL | OFPPSPT_EXPERIMENTER

primrec ofp_port_stats_prop_type_val :: "ofp_port_stats_prop_type \<Rightarrow> nat" where
  "ofp_port_stats_prop_type_val OFPPSPT_ETHERNET = 0"
| "ofp_port_stats_prop_type_val OFPPSPT_OPTICAL = 1"
| "ofp_port_stats_prop_type_val OFPPSPT_EXPERIMENTER = 0xffff"

datatype ofp_port_stats_optical_flags = OFPOSF_RX_TUNE | OFPOSF_TX_TUNE | OFPOSF_TX_PWR
    | OFPOSF_RX_PWR | OFPOSF_TX_BIAS | OFPOSF_TX_TEMP

primrec ofp_port_stats_optical_flags_val :: "ofp_port_stats_optical_flags \<Rightarrow> nat" where
  "ofp_port_stats_optical_flags_val OFPOSF_RX_TUNE = 2 ^ 0"
| "ofp_port_stats_optical_flags_val OFPOSF_TX_TUNE = 2 ^ 1"
| "ofp_port_stats_optical_flags_val OFPOSF_TX_PWR = 2 ^ 2"
| "ofp_port_stats_optical_flags_val OFPOSF_RX_PWR = 2 ^ 4"
| "ofp_port_stats_optical_flags_val OFPOSF_TX_BIAS = 2 ^ 5"
| "ofp_port_stats_optical_flags_val OFPOSF_TX_TEMP = 2 ^ 6"

datatype ofp_group_capabilities = OFPGFC_SELECT_WEIGHT | OFPGFC_SELECT_LIVENESS | OFPGFC_CHAINING
    | OFPGFC_CHAINING_CHECKS

primrec ofp_group_capabilities_val :: "ofp_group_capabilities \<Rightarrow> nat" where
  "ofp_group_capabilities_val OFPGFC_SELECT_WEIGHT = 2 ^ 0"
| "ofp_group_capabilities_val OFPGFC_SELECT_LIVENESS = 2 ^ 1"
| "ofp_group_capabilities_val OFPGFC_CHAINING = 2 ^ 2"
| "ofp_group_capabilities_val OFPGFC_CHAINING_CHECKS = 2 ^ 3"

datatype ofp_queue_desc_prop_type = OFPQDPT_MIN_RATE | OFPQDPT_MAX_RATE | OFPQDPT_EXPERIMENTER

primrec ofp_queue_desc_prop_type_val :: "ofp_queue_desc_prop_type \<Rightarrow> nat" where
  "ofp_queue_desc_prop_type_val OFPQDPT_MIN_RATE = 1"
| "ofp_queue_desc_prop_type_val OFPQDPT_MAX_RATE = 2"
| "ofp_queue_desc_prop_type_val OFPQDPT_EXPERIMENTER = 0xffff"

datatype ofp_queue_stats_prop_type = OFPQSPT_EXPERIMENTER

primrec ofp_queue_stats_prop_type_val :: "ofp_queue_stats_prop_type \<Rightarrow> nat" where
  "ofp_queue_stats_prop_type_val OFPQSPT_EXPERIMENTER = 0xffff"

section \<open>Monitors, roles and bundles\<close>

datatype ofp_flow_monitor_command = OFPFMC_ADD | OFPFMC_MODIFY | OFPFMC_DELETE

primrec ofp_flow_monitor_command_val :: "ofp_flow_monitor_command \<Rightarrow> nat" where
  "ofp_flow_monitor_command_val OFPFMC_ADD = 0"
| "ofp_flow_monitor_command_val OFPFMC_MODIFY = 1"
| "ofp_flow_monitor_command_val OFPFMC_DELETE = 2"

datatype ofp_flow_monitor_flags = OFPFMF_INITIAL | OFPFMF_ADD | OFPFMF_REMOVED | OFPFMF_MODIFY
    | OFPFMF_INSTRUCTIONS | OFPFMF_NO_ABBREV | OFPFMF_ONLY_OWN

primrec ofp_flow_monitor_flags_val :: "ofp_flow_monitor_flags \<Rightarrow> nat" where
  "ofp_flow_monitor_flags_val OFPFMF_INITIAL = 2 ^ 0"
| "ofp_flow_monitor_flags_val OFPFMF_ADD = 2 ^ 1"
| "ofp_flow_monitor_flags_val OFPFMF_REMOVED = 2 ^ 2"
| "ofp_flow_monitor_flags_val OFPFMF_MODIFY = 2 ^ 3"
| "ofp_flow_monitor_flags_val OFPFMF_INSTRUCTIONS = 2 ^ 4"
| "ofp_flow_monitor_flags_val OFPFMF_NO_ABBREV = 2 ^ 5"
| "ofp_flow_monitor_flags_val OFPFMF_ONLY_OWN = 2 ^ 6"

datatype ofp_flow_update_event = OFPFME_INITIAL | OFPFME_ADDED | OFPFME_REMOVED | OFPFME_MODIFIED
    | OFPFME_ABBREV | OFPFME_PAUSED | OFPFME_RESUMED

primrec ofp_flow_update_event_val :: "ofp_flow_update_event \<Rightarrow> nat" where
  "ofp_flow_update_event_val OFPFME_INITIAL = 0"
| "ofp_flow_update_event_val OFPFME_ADDED = 1"
| "ofp_flow_update_event_val OFPFME_REMOVED = 2"
| "ofp_flow_update_event_val OFPFME_MODIFIED = 3"
| "ofp_flow_update_event_val OFPFME_ABBREV = 4"
| "ofp_flow_update_event_val OFPFME_PAUSED = 5"
| "ofp_flow_update_event_val OFPFME_RESUMED = 6"

datatype ofp_controller_role = OFPCR_ROLE_NOCHANGE | OFPCR_ROLE_EQUAL | OFPCR_ROLE_MASTER
    | OFPCR_ROLE_SLAVE

primrec ofp_controller_role_val :: "ofp_controller_role \<Rightarrow> nat" where
  "ofp_controller_role_val OFPCR_ROLE_NOCHANGE = 0"
| "ofp_controller_role_val OFPCR_ROLE_EQUAL = 1"
| "ofp_controller_role_val OFPCR_ROLE_MASTER = 2"
| "ofp_controller_role_val OFPCR_ROLE_SLAVE = 3"

datatype ofp_role_prop_type = OFPRPT_EXPERIMENTER

primrec ofp_role_prop_type_val :: "ofp_role_prop_type \<Rightarrow> nat" where
  "ofp_role_prop_type_val OFPRPT_EXPERIMENTER = 0xffff"

datatype ofp_controller_role_reason = OFPCRR_MASTER_REQUEST | OFPCRR_CONFIG | OFPCRR_EXPERIMENTER

primrec ofp_controller_role_reason_val :: "ofp_controller_role_reason \<Rightarrow> nat" where
  "ofp_controller_role_reason_val OFPCRR_MASTER_REQUEST = 0"
| "ofp_controller_role_reason_val OFPCRR_CONFIG = 1"
| "ofp_controller_role_reason_val OFPCRR_EXPERIMENTER = 2"

datatype ofp_async_config_prop_type = OFPACPT_PACKET_IN_SLAVE | OFPACPT_PACKET_IN_MASTER
    | OFPACPT_PORT_STATUS_SLAVE | OFPACPT_PORT_STATUS_MASTER | OFPACPT_FLOW_REMOVED_SLAVE
    | OFPACPT_FLOW_REMOVED_MASTER | OFPACPT_ROLE_STATUS_SLAVE | OFPACPT_ROLE_STATUS_MASTER
    | OFPACPT_TABLE_STATUS_SLAVE | OFPACPT_TABLE_STATUS_MASTER | OFPACPT_REQUESTFORWARD_SLAVE
    | OFPACPT_REQUESTFORWARD_MASTER | OFPTFPT_EXPERIMENTER_SLAVE | OFPTFPT_EXPERIMENTER_MASTER

primrec ofp_async_config_prop_type_val :: "ofp_async_config_prop_type \<Rightarrow> nat" where
  "ofp_async_config_prop_type_val OFPACPT_PACKET_IN_SLAVE = 0"
| "ofp_async_config_prop_type_val OFPACPT_PACKET_IN_MASTER = 1"
| "ofp_async_config_prop_type_val OFPACPT_PORT_STATUS_SLAVE = 2"
| "ofp_async_config_prop_type_val OFPACPT_PORT_STATUS_MASTER = 3"
| "ofp_async_config_prop_type_val OFPACPT_FLOW_REMOVED_SLAVE = 4"
| "ofp_async_config_prop_type_val OFPACPT_FLOW_REMOVED_MASTER = 5"
| "ofp_async_config_prop_type_val OFPACPT_ROLE_STATUS_SLAVE = 6"
| "ofp_async_config_prop_type_val OFPACPT_ROLE_STATUS_MASTER = 7"
| "ofp_async_config_prop_type_val OFPACPT_TABLE_STATUS_SLAVE = 8"
| "ofp_async_config_prop_type_val OFPACPT_TABLE_STATUS_MASTER = 9"
| "ofp_async_config_prop_type_val OFPACPT_REQUESTFORWARD_SLAVE = 10"
| "ofp_async_config_prop_type_val OFPACPT_REQUESTFORWARD_MASTER = 11"
| "ofp_async_config_prop_type_val OFPTFPT_EXPERIMENTER_SLAVE = 0xfffe"
| "ofp_async_config_prop_type_val OFPTFPT_EXPERIMENTER_MASTER = 0xffff"

datatype ofp_table_reason = OFPTR_VACANCY_DOWN | OFPTR_VACANCY_UP

primrec ofp_table_reason_val :: "ofp_table_reason \<Rightarrow> nat" where
  "ofp_table_reason_val OFPTR_VACANCY_DOWN = 3"
| "ofp_table_reason_val OFPTR_VACANCY_UP = 4"

datatype ofp_requestforward_reason = OFPRFR_GROUP_MOD | OFPRFR_METER_MOD

primrec ofp_requestforward_reason_val :: "ofp_requestforward_reason \<Rightarrow> nat" where
  "ofp_requestforward_reason_val OFPRFR_GROUP_MOD = 0"
| "ofp_requestforward_reason_val OFPRFR_METER_MOD = 1"

datatype ofp_bundle_prop_type = OFPBPT_EXPERIMENTER

primrec ofp_bundle_prop_type_val :: "ofp_bundle_prop_type \<Rightarrow> nat" where
  "ofp_bundle_prop_type_val OFPBPT_EXPERIMENTER = 0xffff"

datatype ofp_bundle_ctrl_type = OFPBCT_OPEN_REQUEST | OFPBCT_OPEN_REPLY | OFPBCT_CLOSE_REQUEST
    | OFPBCT_CLOSE_REPLY | OFPBCT_COMMIT_REQUEST | OFPBCT_COMMIT_REPLY | OFPBCT_DISCARD_REQUEST
    | OFPBCT_DISCARD_REPLY

primrec ofp_bundle_ctrl_type_val :: "ofp_bundle_ctrl_type \<Rightarrow> nat" where
  "ofp_bundle_ctrl_type_val OFPBCT_OPEN_REQUEST = 0"
| "ofp_bundle_ctrl_type_val OFPBCT_OPEN_REPLY = 1"
| "ofp_bundle_ctrl_type_val OFPBCT_CLOSE_REQUEST = 2"
| "ofp_bundle_ctrl_type_val OFPBCT_CLOSE_REPLY = 3"
| "ofp_bundle_ctrl_type_val OFPBCT_COMMIT_REQUEST = 4"
| "ofp_bundle_ctrl_type_val OFPBCT_COMMIT_REPLY = 5"
| "ofp_bundle_ctrl_type_val OFPBCT_DISCARD_REQUEST = 6"
| "ofp_bundle_ctrl_type_val OFPBCT_DISCARD_REPLY = 7"

datatype ofp_bundle_flags = OFPBF_ATOMIC | OFPBF_ORDERED

primrec ofp_bundle_flags_val :: "ofp_bundle_flags \<Rightarrow> nat" where
  "ofp_bundle_flags_val OFPBF_ATOMIC = 2 ^ 0"
| "ofp_bundle_flags_val OFPBF_ORDERED = 2 ^ 1"

section \<open>The constants in the messages\<close>

text \<open>The bytes of a field, and that every constant of an enumeration can be stored in it.\<close>

definition field_bytes_of :: "cty \<Rightarrow> string \<Rightarrow> nat" where
  "field_bytes_of t g = (case t of Struct fs \<Rightarrow> (case map_of fs g of Some u \<Rightarrow> sizeof u | None \<Rightarrow> 0) | _ \<Rightarrow> 0)"

definition fits :: "('e \<Rightarrow> nat) \<Rightarrow> cty \<Rightarrow> string \<Rightarrow> bool" where
  "fits val t g \<longleftrightarrow> (\<forall>x. val x < 256 ^ field_bytes_of t g)"

text \<open>Flags are single bits and all different: a set of them can be read back from the OR of its flags.\<close>

definition separate :: "('e \<Rightarrow> nat) \<Rightarrow> bool" where
  "separate val \<longleftrightarrow> (\<forall>x y. (val x AND val y \<noteq> 0) = (x = y))"

lemma constants_fit:
  "fits ofp_hello_elem_type_val ofp_hello_elem_header ''type''"
  "fits ofp_config_flags_val ofp_switch_config ''flags''"
  "fits ofp_table_mod_prop_type_val ofp_table_mod_prop_header ''type''"
  "fits ofp_table_mod_prop_eviction_flag_val ofp_table_mod_prop_eviction ''flags''"
  "fits ofp_table_val ofp_table_mod ''table_id''"
  "fits ofp_table_config_val ofp_table_mod ''config''"
  "fits ofp_capabilities_val ofp_switch_features ''capabilities''"
  "fits ofp_port_no_val ofp_port ''port_no''"
  "fits ofp_port_config_val ofp_port ''config''"
  "fits ofp_port_state_val ofp_port ''state''"
  "fits ofp_port_desc_prop_type_val ofp_port_desc_prop_header ''type''"
  "fits ofp_port_features_val ofp_port_desc_prop_ethernet ''curr''"
  "fits ofp_port_reason_val ofp_port_status ''reason''"
  "fits ofp_port_mod_prop_type_val ofp_port_mod_prop_header ''type''"
  "fits ofp_match_type_val ofp_match ''type''"
  "fits ofp_action_type_val ofp_action_header ''type''"
  "fits ofp_controller_max_len_val ofp_action_output ''max_len''"
  "fits ofp_instruction_type_val ofp_instruction_header ''type''"
  "fits ofp_flow_mod_command_val ofp_flow_mod ''command''"
  "fits ofp_flow_mod_flags_val ofp_flow_mod ''flags''"
  "fits ofp_group_val ofp_group_mod ''group_id''"
  "fits ofp_group_mod_command_val ofp_group_mod ''command''"
  "fits ofp_group_type_val ofp_group_mod ''type''"
  "fits ofp_packet_in_reason_val ofp_packet_in ''reason''"
  "fits ofp_flow_removed_reason_val ofp_flow_removed ''reason''"
  "fits ofp_meter_val ofp_meter_mod ''meter_id''"
  "fits ofp_meter_mod_command_val ofp_meter_mod ''command''"
  "fits ofp_meter_flags_val ofp_meter_mod ''flags''"
  "fits ofp_meter_band_type_val ofp_meter_band_header ''type''"
  "fits ofp_error_type_val ofp_error_msg ''type''"
  "fits ofp_bad_request_code_val ofp_error_msg ''code''"
  "fits ofp_multipart_type_val ofp_multipart_request ''type''"
  "fits ofp_multipart_request_flags_val ofp_multipart_request ''flags''"
  "fits ofp_table_feature_prop_type_val ofp_table_feature_prop_header ''type''"
  "fits ofp_queue_desc_prop_type_val ofp_queue_desc_prop_header ''type''"
  "fits ofp_flow_monitor_command_val ofp_flow_monitor_request ''command''"
  "fits ofp_flow_monitor_flags_val ofp_flow_monitor_request ''flags''"
  "fits ofp_flow_update_event_val ofp_flow_update_header ''event''"
  "fits ofp_controller_role_val ofp_role_request ''role''"
  "fits ofp_controller_role_reason_val ofp_role_status ''reason''"
  "fits ofp_async_config_prop_type_val ofp_async_config_prop_header ''type''"
  "fits ofp_table_reason_val ofp_table_status ''reason''"
  "fits ofp_bundle_ctrl_type_val ofp_bundle_ctrl_msg ''type''"
  "fits ofp_bundle_flags_val ofp_bundle_ctrl_msg ''flags''"
  unfolding fits_def field_bytes_of_def ofp_action_header_def ofp_action_output_def ofp_async_config_prop_header_def ofp_bundle_ctrl_msg_def ofp_error_msg_def ofp_flow_mod_def ofp_flow_monitor_request_def ofp_flow_removed_def ofp_flow_update_header_def ofp_group_mod_def ofp_hello_elem_header_def ofp_instruction_header_def ofp_match_def ofp_meter_band_header_def ofp_meter_mod_def ofp_multipart_request_def ofp_packet_in_def ofp_port_def ofp_port_desc_prop_ethernet_def ofp_port_desc_prop_header_def ofp_port_mod_prop_header_def ofp_port_status_def ofp_queue_desc_prop_header_def ofp_role_request_def ofp_role_status_def ofp_switch_config_def ofp_switch_features_def ofp_table_feature_prop_header_def ofp_table_mod_def ofp_table_mod_prop_eviction_def ofp_table_mod_prop_header_def ofp_table_status_def
  by (rule allI, rename_tac x, case_tac x; simp add: sizeof_def scalar_defs)+

lemma flags_are_separate:
  "separate ofp_table_mod_prop_eviction_flag_val"
  "separate ofp_capabilities_val"
  "separate ofp_port_config_val"
  "separate ofp_port_state_val"
  "separate ofp_port_features_val"
  "separate ofp_optical_port_features_val"
  "separate ofp_ipv6exthdr_flags_val"
  "separate ofp_flow_mod_flags_val"
  "separate ofp_meter_flags_val"
  "separate ofp_port_stats_optical_flags_val"
  "separate ofp_group_capabilities_val"
  "separate ofp_flow_monitor_flags_val"
  "separate ofp_bundle_flags_val"
  unfolding separate_def
  by (intro allI, rename_tac x y, case_tac x; case_tac y; simp)+

section \<open>Numbers without an enumeration\<close>

definition OFP_VERSION :: nat where "OFP_VERSION = 0x05"
definition OFP_TCP_PORT :: nat where "OFP_TCP_PORT = 6653"
definition OFP_SSL_PORT :: nat where "OFP_SSL_PORT = 6653"
definition OFP_DEFAULT_MISS_SEND_LEN :: nat where "OFP_DEFAULT_MISS_SEND_LEN = 128"
definition OFP_FLOW_PERMANENT :: nat where "OFP_FLOW_PERMANENT = 0"
definition OFP_DEFAULT_PRIORITY :: nat where "OFP_DEFAULT_PRIORITY = 0x8000"
definition OFP_NO_BUFFER :: nat where "OFP_NO_BUFFER = 0xffffffff"
definition OFPQ_ALL :: nat where "OFPQ_ALL = 0xffffffff"
definition OFPQ_MIN_RATE_UNCFG :: nat where "OFPQ_MIN_RATE_UNCFG = 0xffff"
definition OFPQ_MAX_RATE_UNCFG :: nat where "OFPQ_MAX_RATE_UNCFG = 0xffff"

lemmas number_defs = OFP_VERSION_def OFP_TCP_PORT_def OFP_SSL_PORT_def OFP_DEFAULT_MISS_SEND_LEN_def OFP_FLOW_PERMANENT_def
  OFP_DEFAULT_PRIORITY_def OFP_NO_BUFFER_def OFPQ_ALL_def OFPQ_MIN_RATE_UNCFG_def OFPQ_MAX_RATE_UNCFG_def

text \<open>Each fits the field of the message it is meant for.\<close>

lemma numbers_fit:
  "fits (\<lambda>_ :: unit. OFP_VERSION) ofp_header ''version''"
  "fits (\<lambda>_ :: unit. OFP_DEFAULT_MISS_SEND_LEN) ofp_switch_config ''miss_send_len''"
  "fits (\<lambda>_ :: unit. OFP_FLOW_PERMANENT) ofp_flow_mod ''idle_timeout''"
  "fits (\<lambda>_ :: unit. OFP_DEFAULT_PRIORITY) ofp_flow_mod ''priority''"
  "fits (\<lambda>_ :: unit. OFP_NO_BUFFER) ofp_flow_mod ''buffer_id''"
  "fits (\<lambda>_ :: unit. OFPQ_ALL) ofp_queue_stats_request ''queue_id''"
  "fits (\<lambda>_ :: unit. OFPQ_MIN_RATE_UNCFG) ofp_queue_desc_prop_min_rate ''rate''"
  "fits (\<lambda>_ :: unit. OFPQ_MAX_RATE_UNCFG) ofp_queue_desc_prop_max_rate ''rate''"
  unfolding fits_def field_bytes_of_def number_defs ofp_header_def ofp_switch_config_def ofp_flow_mod_def
    ofp_queue_stats_request_def ofp_queue_desc_prop_min_rate_def ofp_queue_desc_prop_max_rate_def
  by (simp_all add: sizeof_def scalar_defs)

end
