(* ===== verification/Switch_Example.thy ===== *)
theory Switch_Example
  imports Openflow_Process Buffer_Messages
begin

text \<open>
  \<^verbatim>\<open>processor/test_openfloe_packet_in_generate.c\<close>: the program that puts the parts of the controller's side
  together. It sets up a processor with its switch and its controller, loads one packet from the capture
  and looks whether the packet is for the switch itself; if it is, and comes from the controller, it is
  processed as an OpenFlow message, and if not, a packet-in message is written.
  \<^verbatim>\<open>test_processor.c\<close> differs in the addresses of the switch and in a line that prints
  an element at an index that was never set, which is undefined.
\<close>

section \<open>The program\<close>

definition s1 :: switchx where
  "s1 = \<lparr>swt_id = 1, swt_mac_addr = ([0x90, 0x61, 0x0c, 0x0f, 0x04, 0x01], 0),
     swt_ip_addr = ([0x4a, 0x79, 0x8d, 0x01], 0), swt_port = ([0x00, 0x02], 0)\<rparr>"

definition con1 :: controller where
  "con1 = \<lparr>con_id = 1, con_ip_addr = ([0x4a, 0x79, 0x8d, 0x01], 0),
     con_mac_addr = ([0x90, 0x61, 0x0c, 0x0f, 0x04, 0x01], 0), con_port = ([0xf4, 0x47], 0),
     is_available = 1, connection_established = 1\<rparr>"

text \<open>
  The first half. \<open>p0\<close> is what the local variable of the processor holds; its parts are at the addresses
  \<open>a\<close> to \<open>e\<close>. The byte \<open>id\<close> is passed for a pointer.
\<close>

definition start_switch ::
  "processor \<Rightarrow> addr \<Rightarrow> addr \<Rightarrow> addr \<Rightarrow> addr \<Rightarrow> addr \<Rightarrow> (processor \<times> string) option" where
  "start_switch p0 a b c d e = do {
     let out = nl @ ''++++ Starting NetWalk Switch ++++'' @ nl;
     m \<leftarrow> print_mac_addr (swt_mac_addr s1);
     i \<leftarrow> print_ip_addr (swt_ip_addr s1);
     p \<leftarrow> print_tcp_port (swt_port s1);
     let out = out @ m @ i @ p @ nl @ ''+++ Starting Processor +++'' @ nl;
     let (_, p1, s) = processor_start (Some p0) 1 a b c d e;
     t \<leftarrow> processor_print p1;
     p1 \<leftarrow> p1;
     let p1 = p1\<lparr>swt := Some s1\<rparr>;
     let out = out @ s @ t @ ''++ Establish Connection to Controller ++ '' @ nl;
     s \<leftarrow> print_controller (Some con1);
     let p1 = p1\<lparr>con := Some con1\<rparr>;
     Some (p1, out @ s) }"

text \<open>
  The second half, with the switch \<open>s\<close> and the controller \<open>c\<close> of the program. \<open>packet_in_data\<close> is the local
  array of \<open>table_missed_packet_process\<close>; it is handed back for the theorem when a
  message was written to it, the program has lost it.
\<close>

definition receive_packet ::
  "nat \<Rightarrow> (packet \<Rightarrow> string) \<Rightarrow> ('fp \<Rightarrow> int \<times> packet \<times> 'fp) \<Rightarrow> 'fp \<Rightarrow> byte list \<Rightarrow> processor \<Rightarrow>
   switchx \<Rightarrow> controller \<Rightarrow> packet_buffer \<Rightarrow> (string \<times> byte list option) option" where
  "receive_packet fuel stamp next fp packet_in_data p1 s c pb = do {
     (pb, fp, out) \<leftarrow> load_next_packet_printed fuel stamp next fp pb [1, 2, 3, 4] [1, 2, 3, 4, 5, 6, 7, 8];
     t \<leftarrow> print_buffer pb;
     let out = out @ ''Initialize Packet Buffer'' @ nl @ t;
     let data_buffer = packet_buffer_bytes pb;
     let out = out @ nl;
     (mac_addr_matched, t) \<leftarrow> compare_mac_addr (data_buffer, field_flag DST_MAC_ADDR) (swt_mac_addr s);
     let out = out @ t;
     (ip_addr_matched, t) \<leftarrow> compare_ip_addr (data_buffer, field_flag IP_DST_ADDR) (swt_ip_addr s);
     let out = out @ t;
     let packet_for_switch = (if mac_addr_matched \<noteq> 0 \<and> ip_addr_matched \<noteq> 0 then 1 else 0 :: int);
     if packet_for_switch = 1 then do {
       let out = out @ nl @ ''+++ Processing Packet For This Swicth +++'' @ nl;
       (tcp_port_matched, t) \<leftarrow> compare_tcp_port (data_buffer, field_flag TCP_SRC_PORT) (con_port c);
       let out = out @ t @ ''TCP PORT MATCHED: '' @ dec_int tcp_port_matched @ nl;
       if tcp_port_matched \<noteq> 0 then do {
         let out = out @ nl @ ''+++ Processing OpenFlow Packets +++'' @ nl;
         t \<leftarrow> openflow_packet_process (Some p1) (data_buffer, 0);
         Some (out @ t, None) }
       else Some (out, None) }
     else do {
       (_, t, packet_in_data) \<leftarrow> table_missed_packet_process packet_in_data p1 data_buffer;
       Some (out @ t, Some packet_in_data) } }"

text \<open>\<open>pcap_next_ex\<close> must not be called when the file could not be opened.\<close>

definition switch_main ::
  "nat \<Rightarrow> (string \<Rightarrow> 'fp option) \<Rightarrow> (packet \<Rightarrow> string) \<Rightarrow> ('fp \<Rightarrow> int \<times> packet \<times> 'fp) \<Rightarrow> processor \<Rightarrow> addr \<Rightarrow>
   addr \<Rightarrow> addr \<Rightarrow> addr \<Rightarrow> addr \<Rightarrow> packet_buffer \<Rightarrow> byte list \<Rightarrow> (int \<times> string) option" where
  "switch_main fuel pcap_open_offline stamp next p0 a b c d e pb packet_in_data = do {
     let packet_in = initialize_packet_buffer pb;
     (p1, out) \<leftarrow> start_switch p0 a b c d e;
     let (fp, t) = openfile pcap_open_offline ''../dump/dump1.pcap'';
     let out = out @ t;
     fp \<leftarrow> fp;
     (t, _) \<leftarrow> receive_packet fuel stamp next fp packet_in_data p1 s1 con1 packet_in;
     Some (0, out @ t) }"

text \<open>
  \<open>processor_print\<close> gives \<open>printf\<close> whole buffers for numbers and one argument too few, so that the program as
  it is written has no defined run; the second half is judged by itself.
\<close>

lemma start_switch_undefined: "start_switch p0 a b c d e = None"
  by (simp add: start_switch_def processor_start_def processor_print_def Let_def Option.bind_eq_None_conv)

lemma switch_main_undefined: "switch_main fuel pcap_open_offline stamp next p0 a b c d e pb packet_in_data = None"
  by (simp add: switch_main_def start_switch_undefined)

section \<open>The packet at the start of the buffer\<close>

lemma add_keeps_head:
  "add_a_byte_to_the_packet_buffer pb b = Some pb' \<Longrightarrow> packet_buffer_head pb' = packet_buffer_head pb"
  by (auto simp: add_a_byte_to_the_packet_buffer_def Let_def split: bind_splits if_splits)

lemma feed_keeps_head:
  "feed add_a_byte_to_the_packet_buffer pb bs = Some pb' \<Longrightarrow> packet_buffer_head pb' = packet_buffer_head pb"
  by (induction bs arbitrary: pb) (auto dest: add_keeps_head split: bind_splits)

lemma stored_at_start:
  assumes "pb_ok pb" "packet_buffer_head pb = 0"
  shows "take (pb_count pb) (packet_buffer_bytes pb) = pb_stored pb"
proof -
  have "length (packet_buffer_bytes pb) = 1000" "pb_count pb \<le> 1000"
    using assms(1) by (auto simp: pb_ok_def pb_wf_def pb_count_def)
  then show ?thesis
    using assms(2) by (intro nth_equalityI) (simp_all add: pb_stored_def pb_at_def)
qed

lemma first_packet_loaded:
  assumes "length (packet_buffer_bytes pb) = 1000" "length ip = 4" "length md = 8"
    and "length (pkt_data pkt) = unat (caplen pkt)" "unat (caplen pkt) \<le> 986"
  shows "\<exists>pb'. load_a_packet_to_the_packet_buffer pkt (initialize_packet_buffer pb) ip md = Some pb' \<and> pb_ok pb' \<and>
    pb_empty_flag pb' \<noteq> 1 \<and>
    take (unat (caplen pkt) + 13) (packet_buffer_bytes pb') = ucast (len pkt + 12) # ip @ md @ pkt_data pkt"
proof -
  note init = pb_ok_initialize[OF assms(1)]
  obtain pb' where pb': "load_a_packet_to_the_packet_buffer pkt (initialize_packet_buffer pb) ip md = Some pb'"
    "pb_ok pb'" "pb_pending pb' = ucast (len pkt + 12) # ip @ md @ pkt_data pkt" "pb_ready pb' = []"
    using load_a_packet_ok[OF init(1) assms(2-4)] init assms(5) by auto
  have st: "pb_stored pb' = ucast (len pkt + 12) # ip @ md @ pkt_data pkt"
    using pb'(3,4) pb_stored_split[of pb'] by simp
  then have c: "pb_count pb' = unat (caplen pkt) + 13"
    using length_pb_stored[of pb'] assms(2-4) by simp
  have "caplen pkt \<noteq> - 1" using assms(5) by (auto simp: unsigned_minus_1_eq_mask mask_eq_exp_minus_1)
  then have "packet_buffer_head pb' = packet_buffer_head (initialize_packet_buffer pb)"
    using pb'(1) assms(2-4) by (intro feed_keeps_head) (simp add: load_as_feed del: feed.simps)
  then have "take (pb_count pb') (packet_buffer_bytes pb') = pb_stored pb'"
    using pb'(2) by (intro stored_at_start) (simp_all add: initialize_packet_buffer_def)
  moreover have "pb_empty_flag pb' \<noteq> 1" using c by (auto simp: pb_count_def)
  ultimately show ?thesis using pb'(1,2) st c by simp
qed

section \<open>What is done with the packet\<close>

text \<open>The fields of a stored packet that decide, read in the buffer and in the packet.\<close>

lemma field_in_packet:
  assumes "take (n + 13) arr = x # ip @ md @ d" "length ip = 4" "length md = 8" "length d = n" "k + m \<le> n"
    and "length arr = 1000" "n \<le> 986"
  shows "at (arr, 13 + int k) m = take m (drop k d)" "in_ptr (arr, 13 + int k) m"
proof -
  have d: "d = drop 13 (take (n + 13) arr)" using assms(1-3) by simp
  have "take m (drop k d) = take m (take (n - k) (drop (13 + k) arr))"
    unfolding d by (simp add: drop_take add.commute)
  also have "\<dots> = take m (drop (13 + k) arr)" using assms(5) by (simp add: min_absorb1)
  also have "13 + k = nat (13 + int k)" by simp
  finally show "at (arr, 13 + int k) m = take m (drop k d)" by (simp add: at_def slice_def)
  show "in_ptr (arr, 13 + int k) m" using assms(5-7) by (simp add: in_ptr_def)
qed

lemma openflow_packet_process_Some:
  assumes "length arr = 1000"
  shows "\<exists>t. openflow_packet_process p (arr, 0) = Some t"
proof -
  have "unat (arr ! 0) < 2 ^ LENGTH(8)" by (rule unsigned_less)
  then obtain t where "print_data_buffer (arr, 0) = Some t"
    using print_data_buffer_Some[of "(arr, 0)" "arr ! 0"] assms by (auto simp: deref_def cget_def in_ptr_def)
  then show ?thesis using processing_ignores_message by (metis option.simps(9))
qed

text \<open>
  C27. The switch tells packets apart by their own headers. When the capture gives a packet, after any number
  of timeouts, it is loaded and read back from the start of the buffer: if its destination is not
  the MAC and IP address of the switch, the packet-in message is written for it; if it is, the packet is processed as an
  OpenFlow message exactly when its TCP source port is the one of the controller, and dropped otherwise.
\<close>

theorem packet_dispatched:
  assumes "delivers fuel next fp pkt fp'"
    and "length (pkt_data pkt) = unat (caplen pkt)" "38 \<le> unat (caplen pkt)" "unat (caplen pkt) \<le> 986"
    and "length (packet_buffer_bytes pb) = 1000" "78 \<le> length buf"
    and "swt p1 = Some s" "con p1 = Some c" "switch_ok s" "controller_ok c"
  defines "d \<equiv> pkt_data pkt"
    and "for_switch \<equiv> nl @ ''+++ Processing Packet For This Swicth +++'' @ nl @ ''Start PORT Comparison'' @ nl @ ''TCP PORT MATCHED: ''"
  shows "\<exists>out t. receive_packet fuel stamp next fp buf p1 s c (initialize_packet_buffer pb) = Some
    (if \<not> (take 6 d = at (swt_mac_addr s) 6 \<and> take 4 (drop 30 d) = at (swt_ip_addr s) 4)
     then (out @ t, Some (blit (blit buf 5 (72 # header_bytes c s)) 58 message_bytes))
     else if take 2 (drop 34 d) = at (con_port c) 2
     then (out @ for_switch @ ''1'' @ nl @ nl @ ''+++ Processing OpenFlow Packets +++'' @ nl @ t, None)
     else (out @ for_switch @ ''0'' @ nl, None))"
proof -
  let ?ip = "[1, 2, 3, 4] :: byte list" and ?md = "[1, 2, 3, 4, 5, 6, 7, 8] :: byte list"
  obtain pb' where pb': "load_a_packet_to_the_packet_buffer pkt (initialize_packet_buffer pb) ?ip ?md = Some pb'"
    "pb_ok pb'" "pb_empty_flag pb' \<noteq> 1"
    "take (unat (caplen pkt) + 13) (packet_buffer_bytes pb') = ucast (len pkt + 12) # ?ip @ ?md @ d"
    using first_packet_loaded[OF assms(5) _ _ assms(2,4), of ?ip ?md] by (auto simp: d_def)
  define arr where "arr = packet_buffer_bytes pb'"
  have l: "length arr = 1000" using pb'(2) by (simp add: pb_ok_def pb_wf_def arr_def)
  have "load_bytes_printed pkt (initialize_packet_buffer pb) ?ip ?md [] (stamp pkt) =
      Some (pb', shown (stamp pkt) d @ nl @ nl)"
    using load_bytes_silent[OF pb_ok_initialize(1)[OF assms(5)] _ _ assms(2) _ pb'(1)] pb_ok_initialize(5)[OF assms(5)] assms(4)
    by (simp add: d_def)
  then have ld: "load_next_packet_printed fuel stamp next fp (initialize_packet_buffer pb) ?ip ?md =
      Some (pb', fp', shown (stamp pkt) d @ nl @ nl)"
    using load_next_delivered[OF assms(1)] by simp
  obtain o2 where o2: "print_buffer pb' = Some o2" using print_buffer_shows[OF pb'(2,3)] by blast
  note fld = field_in_packet[OF pb'(4)[folded arr_def] _ _ assms(2)[folded d_def] _ l assms(4)]
  have mac: "at (arr, 13) 6 = take 6 d" "in_ptr (arr, 13) 6" using fld[of 0 6] assms(3) by simp_all
  have ipa: "at (arr, 43) 4 = take 4 (drop 30 d)" "in_ptr (arr, 43) 4" using fld[of 30 4] assms(3) by simp_all
  have tcp: "at (arr, 47) 2 = take 2 (drop 34 d)" "in_ptr (arr, 47) 2" using fld[of 34 2] assms(3) by simp_all
  have ok: "in_ptr (swt_mac_addr s) 6" "in_ptr (swt_ip_addr s) 4" "in_ptr (con_port c) 2"
    using assms(9,10) by (auto simp: switch_ok_def controller_ok_def)
  obtain o3 where o3: "compare_mac_addr (arr, 13) (swt_mac_addr s) =
      Some (if take 6 d = at (swt_mac_addr s) 6 then 1 else 0, o3)"
    using compare_mac_ok[OF mac(2) ok(1)] mac(1) by auto
  obtain o4 where o4: "compare_ip_addr (arr, 43) (swt_ip_addr s) =
      Some (if take 4 (drop 30 d) = at (swt_ip_addr s) 4 then 1 else 0, o4)"
    using compare_ip_ok[OF ipa(2) ok(2)] ipa(1) by auto
  have port: "compare_tcp_port (arr, 47) (con_port c) =
      Some (if take 2 (drop 34 d) = at (con_port c) 2 then 1 else 0, ''Start PORT Comparison'' @ nl)"
    using tcp ok(3) by (simp add: compare_tcp_port_def bytes_differ_ok)
  obtain o5 where o5: "openflow_packet_process (Some p1) (arr, 0) = Some o5"
    using openflow_packet_process_Some[OF l] by blast
  obtain o6 where o6: "table_missed_packet_process buf p1 arr =
      Some (1, o6, blit (blit buf 5 (72 # header_bytes c s)) 58 message_bytes)"
    using packet_in_written[OF assms(7-10,6), of arr] l by (auto simp: packet_in_of_def)
  let ?out = "(shown (stamp pkt) d @ nl @ nl) @ ''Initialize Packet Buffer'' @ nl @ o2 @ nl @ o3 @ o4"
  have digits: "dec_int 1 = ''1''" "dec_int 0 = ''0''" by code_simp+
  let ?t = "if take 6 d = at (swt_mac_addr s) 6 \<and> take 4 (drop 30 d) = at (swt_ip_addr s) 4 then o5 else o6"
  show ?thesis
    by (rule exI[of _ ?out], rule exI[of _ ?t])
      (simp add: receive_packet_def ld o2 o3 o4 o5 o6 port digits for_switch_def flip: arr_def)
qed

text \<open>For the witness: a capture that times out once and then has a packet from the controller to the switch.\<close>

definition controller_packet :: packet where
  "controller_packet = \<lparr>caplen = 38, len = 38, pkt_data = [0x90, 0x61, 0x0c, 0x0f, 0x04, 0x01] @ replicate 24 0 @
     [0x4a, 0x79, 0x8d, 0x01] @ [0xf4, 0x47] @ [0, 0]\<rparr>"

definition controller_capture :: "nat \<Rightarrow> int \<times> packet \<times> nat" where
  "controller_capture k = (if k < 1 then 0 else 1, controller_packet, Suc k)"

theorem packet_dispatched_witness:
  "\<exists>out t. receive_packet 2 (\<lambda>_. []) controller_capture 0 (replicate 1000 0)
     (example_processor\<lparr>swt := Some s1, con := Some con1\<rparr>) s1 con1 (initialize_packet_buffer (example_pb 0)) =
    Some (out @ ''TCP PORT MATCHED: 1'' @ nl @ nl @ ''+++ Processing OpenFlow Packets +++'' @ nl @ t, None)"
proof -
  have c: "delivers 2 controller_capture 0 controller_packet 2"
    by (simp add: controller_capture_def numeral_2_eq_2)
  have sizes: "length (pkt_data controller_packet) = unat (caplen controller_packet)"
    "38 \<le> unat (caplen controller_packet)" "unat (caplen controller_packet) \<le> 986"
    by (simp_all add: controller_packet_def)
  have ok: "switch_ok s1" "controller_ok con1"
    by (simp_all add: s1_def con1_def switch_ok_def controller_ok_def in_ptr_def)
  have m: "take 6 (pkt_data controller_packet) = at (swt_mac_addr s1) 6"
    "take 4 (drop 30 (pkt_data controller_packet)) = at (swt_ip_addr s1) 4"
    "take 2 (drop 34 (pkt_data controller_packet)) = at (con_port con1) 2"
    by (simp_all add: controller_packet_def s1_def con1_def at_local)
  have pb: "length (packet_buffer_bytes (example_pb 0)) = 1000" by (simp add: example_pb_def frame_def)
  obtain out t where "receive_packet 2 (\<lambda>_. []) controller_capture 0 (replicate 1000 0)
     (example_processor\<lparr>swt := Some s1, con := Some con1\<rparr>) s1 con1 (initialize_packet_buffer (example_pb 0)) =
    Some ((out @ nl @ ''+++ Processing Packet For This Swicth +++'' @ nl @ ''Start PORT Comparison'' @ nl) @
      ''TCP PORT MATCHED: 1'' @ nl @ nl @ ''+++ Processing OpenFlow Packets +++'' @ nl @ t, None)"
    using packet_dispatched[where stamp = "\<lambda>_. []" and buf = "replicate 1000 0", OF c sizes pb _ _ _ ok, of "example_processor\<lparr>swt := Some s1, con := Some con1\<rparr>"] m by auto
  then show ?thesis by blast
qed

end
