(* ===== verification/Call_Refinement.thy ===== *)
theory Call_Refinement
  imports "HOL-Library.Monad_Syntax"
begin

text \<open>
  Sequences of calls. A component answers one call after the other; the contract says that it does so as a
  simpler machine would, call by call, and the lemma carries this to every sequence of calls.
\<close>

text \<open>Each call comes with what the function's uninitialised locals hold.\<close>

primrec perform_all :: "('l \<Rightarrow> 'c \<Rightarrow> 's \<Rightarrow> ('r \<times> 's) option) \<Rightarrow> ('l \<times> 'c) list \<Rightarrow> 's \<Rightarrow> ('r list \<times> 's) option" where
  "perform_all perform [] s = Some ([], s)"
| "perform_all perform (lc # cs) s = do {
     (r, s) \<leftarrow> perform (fst lc) (snd lc) s;
     (rs, s) \<leftarrow> perform_all perform cs s;
     Some (r # rs, s) }"

lemma perform_all_append:
  "perform_all perform (cs @ ds) s = do {
     (rs, s) \<leftarrow> perform_all perform cs s;
     (qs, s) \<leftarrow> perform_all perform ds s;
     Some (rs @ qs, s) }"
proof (induction cs arbitrary: s)
  case Nil
  then show ?case by (cases "perform_all perform ds s") auto
next
  case (Cons lc cs)
  then show ?case by (cases "perform (fst lc) (snd lc) s") (auto simp: split_def)
qed

text \<open>
  \<open>perform\<close> is the component, \<open>spec\<close> the simpler machine, undefined where it promises nothing; \<open>fits\<close> says
  which calls are well formed.
\<close>

locale call_refinement =
  fixes perform :: "'l \<Rightarrow> 'c \<Rightarrow> 's \<Rightarrow> ('r \<times> 's) option"
    and spec :: "'l \<Rightarrow> 'c \<Rightarrow> 'a \<Rightarrow> ('r \<times> 'a) option"
    and rel :: "'s \<Rightarrow> 'a \<Rightarrow> bool" and fits :: "'l \<Rightarrow> 'c \<Rightarrow> bool"
  assumes step: "rel s a \<Longrightarrow> fits l c \<Longrightarrow> spec l c a = Some (r, b) \<Longrightarrow> \<exists>t. perform l c s = Some (r, t) \<and> rel t b"
begin

lemma all_refine:
  "rel s a \<Longrightarrow> \<forall>(l, c) \<in> set cs. fits l c \<Longrightarrow> perform_all spec cs a = Some (rs, b) \<Longrightarrow>
   \<exists>t. perform_all perform cs s = Some (rs, t) \<and> rel t b"
proof (induction cs arbitrary: s a rs)
  case (Cons lc cs)
  obtain l c where lc: "lc = (l, c)" by (cases lc)
  obtain r x qs where x: "spec l c a = Some (r, x)" "perform_all spec cs x = Some (qs, b)" "rs = r # qs"
    using Cons.prems(3) lc by (auto split: bind_splits)
  obtain u where u: "perform l c s = Some (r, u)" "rel u x" using step[OF Cons.prems(1) _ x(1)] Cons.prems(2) lc by auto
  obtain t where "perform_all perform cs u = Some (qs, t)" "rel t b" using Cons.IH[OF u(2) _ x(2)] Cons.prems(2) by auto
  then show ?case using u(1) x(3) lc by simp
qed simp

end

end
