(* ===== verification/Tcam_Rules.thy ===== *)
theory Tcam_Rules
  imports Tcam_Life Call_Refinement
begin

text \<open>
  The flow table as its user sees it: rules under masks, without markers, counters, rows that move and bits
  in bytes. Every operation of \<^verbatim>\<open>flow-processing-unit/flow_unit.h\<close> on the tables is proved to be an operation
  on the rules, and every sequence of calls to answer as the rules do.
\<close>

section \<open>Rules\<close>

record rule =
  rule_key :: "byte list"
  rule_actions :: "byte list"
  rule_flags :: "byte list"

type_synonym rules = "(byte list \<times> rule list) list"

text \<open>The rows of a list of groups, alone and with the mask of their group.\<close>

definition members :: "('m \<times> 'a list) list \<Rightarrow> 'a list" where
  "members S = concat (map snd S)"

definition masked :: "('m \<times> 'a list) list \<Rightarrow> ('m \<times> 'a) list" where
  "masked S = concat (map (\<lambda>(m, rs). map (Pair m) rs) S)"

definition rule_agrees :: "byte list \<Rightarrow> byte list \<Rightarrow> byte list \<Rightarrow> bool" where
  "rule_agrees m f k \<longleftrightarrow> (\<forall>q<356. abit m q \<longrightarrow> abit f q = abit k q)"

text \<open>The position of the first rule of the highest priority that agrees with a flow.\<close>

definition find_rule :: "byte list \<Rightarrow> rules \<Rightarrow> nat option" where
  "find_rule f S = best (\<lambda>i. rule_agrees (fst (masked S ! i)) f (rule_key (snd (masked S ! i))))
     (map rule_key (members S)) (length (members S))"

text \<open>A new rule goes to the end of its mask's group, or with a new group to the end of all.\<close>

fun add_rule :: "byte list \<Rightarrow> byte list \<Rightarrow> rule \<Rightarrow> nat \<Rightarrow> rules \<Rightarrow> int \<times> rules" where
  "add_rule m fe r p [] = (int p, [(unused_reset m, [r])])"
| "add_rule m fe r p ((n, rs) # S) =
     (if n = m then
        (if \<exists>j<length rs. looks_redundant m fe (p + j) (rule_key (rs ! j)) then (RDNDNT, (n, rs) # S)
         else (int (p + length rs), (n, rs @ [r]) # S))
      else let (q, S) = add_rule m fe r (p + length rs) S in (q, (n, rs) # S))"

fun remove_at :: "nat \<Rightarrow> ('m \<times> 'a list) list \<Rightarrow> ('m \<times> 'a list) list" where
  "remove_at p [] = []"
| "remove_at p ((m, rs) # S) =
     (if p < length rs then (if length rs = 1 then S else (m, take p rs @ drop (Suc p) rs) # S)
      else (m, rs) # remove_at (p - length rs) S)"

fun change_at :: "('a \<Rightarrow> 'a) \<Rightarrow> nat \<Rightarrow> ('m \<times> 'a list) list \<Rightarrow> ('m \<times> 'a list) list" where
  "change_at c p [] = []"
| "change_at c p ((m, rs) # S) =
     (if p < length rs then (m, rs[p := c (rs ! p)]) # S else (m, rs) # change_at c (p - length rs) S)"

text \<open>A rule after a modification: new fields, perhaps another priority, and the flags of both.\<close>

definition changed :: "byte list \<Rightarrow> byte list \<Rightarrow> rule \<Rightarrow> rule" where
  "changed flag new r = (let (a, vp) = new_actions flag new (rule_actions r) in
     \<lparr>rule_key = (if abit flag 13 then (rule_key r)[45 := byte_at new vp] else rule_key r), rule_actions = a,
      rule_flags = [rule_flags r ! 0 OR flag ! 0, rule_flags r ! 1 OR flag ! 1]\<rparr>)"

section \<open>Calls\<close>

datatype flow_call =
    Add_Entry "byte list" "byte list" "byte list" "byte list"
  | Look_Up "byte list"
  | Delete_Entry "byte list"
  | Modify_Entry "byte list" "byte list" "byte list"

definition key :: "byte list \<Rightarrow> byte list" where
  "key e = put_bit 356 False (take 46 e)"

text \<open>The calls on the rules, undefined where the code is not what it should be.\<close>

fun rule_call :: "flow_call \<Rightarrow> rules \<Rightarrow> (int \<times> rules) option" where
  "rule_call (Add_Entry m fe a fl) S = Some (if length (members S) = 20 then (TBL_FULL, S)
     else add_rule m fe \<lparr>rule_key = key fe, rule_actions = take 31 a, rule_flags = take 2 fl\<rparr> 0 S)"
| "rule_call (Look_Up f) S = Some (best_pos (find_rule f S), S)"
| "rule_call (Delete_Entry f) S = do {
     p \<leftarrow> find_rule f S;
     if p = 0 \<and> length (snd (hd S)) = 1 \<or> p = 19 \<and> length (snd (last S)) = 1 then None
     else Some (int p, remove_at p S) }"
| "rule_call (Modify_Entry f flag new) S = do {
     p \<leftarrow> find_rule f S;
     Some (int p, change_at (changed flag new) p S) }"

text \<open>The same calls of the program; the locals are \<open>int mask[]\<close> and \<open>uint8_t val[6]\<close>.\<close>

fun perform_call :: "int list \<times> byte list \<Rightarrow> flow_call \<Rightarrow> tcam_unit \<Rightarrow> (int \<times> tcam_unit) option" where
  "perform_call l (Add_Entry m fe a fl) t = do { (r, t, m, fe) \<leftarrow> add_new_entry t m fe a fl; Some (r, t) }"
| "perform_call l (Look_Up f) t = do { (r, t, mp) \<leftarrow> search_tcam t f (fst l); Some (r, t) }"
| "perform_call l (Delete_Entry f) t = delete_flow_entry (fst l) t f"
| "perform_call l (Modify_Entry f flag new) t = modify_entry (fst l) (snd l) t f flag new"

text \<open>Arrays of the sizes the code declares; a mask does not look at the marker bit.\<close>

fun call_fits :: "int list \<times> byte list \<Rightarrow> flow_call \<Rightarrow> bool" where
  "call_fits l (Add_Entry m fe a fl) \<longleftrightarrow> length m = 45 \<and> \<not> abit m 356 \<and> 46 \<le> length fe \<and> 31 \<le> length a \<and> 2 \<le> length fl"
| "call_fits l (Look_Up f) \<longleftrightarrow> 45 \<le> length f \<and> 0 < length (fst l)"
| "call_fits l (Delete_Entry f) \<longleftrightarrow> 45 \<le> length f \<and> 0 < length (fst l)"
| "call_fits l (Modify_Entry f flag new) \<longleftrightarrow>
     45 \<le> length f \<and> 0 < length (fst l) \<and> length (snd l) = 6 \<and> length flag = 2 \<and> 34 \<le> length new"

section \<open>When tables stand for rules\<close>

definition shape :: "('m \<times> 'a list) list \<Rightarrow> ('m \<times> nat) list" where
  "shape S = map (\<lambda>g. (fst g, length (snd g))) S"

definition clean :: "byte list \<Rightarrow> bool" where
  "clean m \<longleftrightarrow> length m = 45 \<and> (\<forall>q<360. abit m q \<longrightarrow> q < 356)"

definition rules_abs :: "tcam_unit \<Rightarrow> rules \<Rightarrow> bool" where
  "rules_abs t S \<longleftrightarrow> (\<exists>gs. tcam_abs t gs \<and> shape S = shape gs \<and> map rule_key (members S) = map key (flat gs)) \<and>
     map rule_actions (members S) = actions t \<and> map rule_flags (members S) = flags t \<and> (\<forall>g \<in> set S. clean (fst g))"

section \<open>Groups, by their shape\<close>

definition start :: "('m \<times> 'a list) list \<Rightarrow> nat \<Rightarrow> nat" where
  "start S k = length (members (take k S))"

lemma members_simps [simp]:
  "members [] = []" "members (g # S) = snd g @ members S" "members (S @ U) = members S @ members U"
  by (simp_all add: members_def)

lemma masked_simps [simp]:
  "masked [] = []" "masked ((m, rs) # S) = map (Pair m) rs @ masked S"
  by (simp_all add: masked_def)

lemma flat_members: "flat gs = members gs" "group_start gs k = start gs k"
  by (simp_all add: flat_def members_def group_start_def start_def)

lemma length_masked [simp]: "length (masked S) = length (members S)"
  by (induction S) auto

lemma members_shape: "length (members S) = sum_list (map snd (shape S))"
  by (induction S) (auto simp: shape_def)

lemma shape_members: "shape S = shape U \<Longrightarrow> length (members S) = length (members U)"
  by (simp add: members_shape)

lemma shape_take: "shape (take k S) = take k (shape S)"
  by (simp add: shape_def take_map)

lemma shape_facts:
  assumes "shape S = shape U"
  shows "length S = length U" "start S k = start U k" "map fst S = map fst U"
    and "k < length S \<Longrightarrow> fst (S ! k) = fst (U ! k) \<and> length (snd (S ! k)) = length (snd (U ! k))"
proof -
  show len: "length S = length U" using arg_cong[OF assms, of length] by (simp add: shape_def)
  show "start S k = start U k" unfolding start_def using assms by (intro shape_members) (simp add: shape_take)
  show "map fst S = map fst U" using arg_cong[OF assms, of "map fst"] by (simp add: shape_def comp_def)
  show "k < length S \<Longrightarrow> fst (S ! k) = fst (U ! k) \<and> length (snd (S ! k)) = length (snd (U ! k))"
    using arg_cong[OF assms, of "\<lambda>xs. xs ! k"] len by (simp add: shape_def)
qed

lemma start_0 [simp]: "start S 0 = 0"
  by (simp add: start_def)

lemma start_Suc_Cons [simp]: "start (g # S) (Suc k) = length (snd g) + start S k"
  by (simp add: start_def)

lemma masked_nth:
  "k < length S \<Longrightarrow> j < length (snd (S ! k)) \<Longrightarrow> masked S ! (start S k + j) = (fst (S ! k), snd (S ! k) ! j)"
proof (induction S arbitrary: k)
  case (Cons g S)
  then show ?case by (cases k; cases g) (auto simp: nth_append add.assoc)
qed simp

lemma snd_masked: "map snd (masked S) = members S"
  by (induction S) (auto simp: comp_def)

lemma masked_shape: "map fst (masked S) = concat (map (\<lambda>(m, n). replicate n m) (shape S))"
  by (induction S) (auto simp: shape_def comp_def map_replicate_const)

lemma fst_masked: "shape S = shape U \<Longrightarrow> map fst (masked S) = map fst (masked U)"
  by (simp add: masked_shape)

section \<open>Looking up\<close>

lemma key_abit: "46 \<le> length e \<Longrightarrow> q < 356 \<Longrightarrow> abit (key e) q = abit e q"
  by (simp add: key_def abit_put_bit) (simp add: abit_def)

lemma key_prio: "46 \<le> length e \<Longrightarrow> prio (key e) = prio e"
  by (simp add: key_def prio_def put_bit_def)

lemma key_eqI: "take 46 e = take 46 d \<Longrightarrow> key e = key d"
  by (simp add: key_def)

lemma key_put: "46 \<le> length e \<Longrightarrow> key (put_bit 356 b e) = key e"
  by (auto simp: key_def put_bit_def intro!: nth_equalityI bit_word_eqI
      simp add: nth_list_update bit_simps)

lemma key_fresh: "46 \<le> length e \<Longrightarrow> key (fresh e) = key e"
  by (simp add: key_def fresh_def)

lemma key_bump: "key (bump e) = key e"
  by (simp add: key_def bump_def)

lemma rule_agrees_key:
  assumes "clean m" "46 \<le> length e"
  shows "rule_agrees m f (key e) = matches m f e"
proof -
  have "abit (key e) q = abit e q" if "q < 356" for q using key_abit[OF assms(2) that] .
  then show ?thesis using assms(1) by (auto simp: rule_agrees_def matches_def clean_def)
qed

lemma find_best_cong:
  "(\<And>i. i < n \<Longrightarrow> P i = Q i \<and> prio (es ! i) = prio (ds ! i)) \<Longrightarrow> best P es n = best Q ds n"
proof (induction n)
  case (Suc n)
  then have IH: "best P es n = best Q ds n" by simp
  then show ?case using Suc.prems best_Some[of Q ds n] by (auto split: option.split)
qed simp

lemma abs_48: "tcam_abs t gs \<Longrightarrow> e \<in> set (flat gs) \<Longrightarrow> length e = 48"
  using length_entries_row[of t e] by (simp add: tcam_abs_def)

lemma find_rule_best:
  assumes abs: "tcam_abs t gs" and sh: "shape S = shape gs" and keys: "map rule_key (members S) = map key (flat gs)"
    and cl: "\<forall>g \<in> set S. clean (fst g)"
  shows "find_rule f S = best (hit (map fst gs) (flat gs) f) (flat gs) (length (flat gs))"
proof -
  have n: "length (members S) = length (flat gs)" using arg_cong[OF keys, of length] by simp
  have k: "rule_key (members S ! i) = key (flat gs ! i)" if "i < length (flat gs)" for i
    using arg_cong[OF keys, of "\<lambda>xs. xs ! i"] that n by simp
  have "rule_agrees (fst (masked S ! i)) f (rule_key (snd (masked S ! i))) = hit (map fst gs) (flat gs) f i \<and>
      prio (map rule_key (members S) ! i) = prio (flat gs ! i)" if i: "i < length (flat gs)" for i
  proof -
    obtain k j where kj: "k < length gs" "j < length (snd (gs ! k))" "i = group_start gs k + j"
      by (rule entry_in_group[OF i])
    have kS: "k < length S" "fst (S ! k) = fst (gs ! k)" using shape_facts[OF sh] kj(1) by auto
    have "fst (masked S ! i) = fst (masked gs ! i)"
      using arg_cong[OF fst_masked[OF sh], of "\<lambda>xs. xs ! i"] i n by (simp add: flat_members)
    also have "\<dots> = fst (gs ! k)" using masked_nth[OF kj(1,2)] kj(3) by (simp add: flat_members)
    finally have m: "fst (masked S ! i) = fst (gs ! k)" .
    have "snd (masked S ! i) = members S ! i"
      using arg_cong[OF snd_masked[of S], of "\<lambda>xs. xs ! i"] i n by simp
    moreover have "46 \<le> length (flat gs ! i)" using abs_48[OF abs, of "flat gs ! i"] i by simp
    moreover have "clean (fst (gs ! k))" using cl kS nth_mem[OF kS(1)] by metis
    moreover have "group (flat gs) i = k" using group_of_entry[of gs k j] abs kj by (simp add: tcam_abs_def)
    ultimately show ?thesis using m k[OF i] i n kj(1) by (simp add: hit_def rule_agrees_key key_prio)
  qed
  then show ?thesis unfolding find_rule_def n by (intro find_best_cong) simp
qed

section \<open>Adding\<close>

lemma add_rule_new:
  "m \<notin> fst ` set S \<Longrightarrow> add_rule m fe r p S = (int (p + length (members S)), S @ [(unused_reset m, [r])])"
  by (induction m fe r p S rule: add_rule.induct) auto

lemma add_rule_old:
  "k < length S \<Longrightarrow> fst (S ! k) = m \<Longrightarrow> (\<And>j. j < k \<Longrightarrow> fst (S ! j) \<noteq> m) \<Longrightarrow>
   add_rule m fe r p S =
     (if \<exists>j<length (snd (S ! k)). looks_redundant m fe (p + start S k + j) (rule_key (snd (S ! k) ! j)) then (RDNDNT, S)
      else (int (p + start S (Suc k)), S[k := (m, snd (S ! k) @ [r])]))"
proof (induction m fe r p S arbitrary: k rule: add_rule.induct)
  case (2 m fe r p n rs S)
  show ?case
  proof (cases k)
    case 0
    then show ?thesis using "2.prems" by simp
  next
    case (Suc l)
    then have n: "n \<noteq> m" using "2.prems"(3)[of 0] by simp
    have "fst (S ! j) \<noteq> m" if "j < l" for j using "2.prems"(3)[of "Suc j"] that Suc by simp
    then show ?thesis using "2.IH"[OF n, of l] "2.prems"(1,2) n Suc by (auto simp: add.assoc)
  qed
qed simp

lemma members_update:
  "k < length S \<Longrightarrow> members (S[k := (m, snd (S ! k) @ [r])]) =
     take (start S (Suc k)) (members S) @ r # drop (start S (Suc k)) (members S)"
proof (induction S arbitrary: k)
  case (Cons g S)
  then show ?case by (cases k) auto
qed simp

lemma member_at: "k < length S \<Longrightarrow> j < length (snd (S ! k)) \<Longrightarrow>
   start S k + j < length (members S) \<and> members S ! (start S k + j) = snd (S ! k) ! j"
proof (induction S arbitrary: k)
  case (Cons g S)
  then show ?case by (cases k) (auto simp: nth_append add.assoc)
qed simp

lemma clean_redundant:
  assumes "clean m" "46 \<le> length e"
  shows "looks_redundant m f i (key e) = looks_redundant m f i e"
proof -
  have "abit (key e) q = abit e q" if "q < 356" for q using key_abit[OF assms(2) that] .
  then show ?thesis using assms(1) by (auto simp: looks_redundant_def clean_def)
qed

lemma clean_reset:
  assumes "length m = 45"
  shows "\<not> abit m 356 \<Longrightarrow> clean (unused_reset m)" "clean m \<Longrightarrow> unused_reset m = m"
proof -
  have a: "abit (unused_reset m) q = (abit m q \<and> q < 357)" if "q < 360" for q
    using that assms by (auto simp: unused_reset_def abit_put_bits)
  have "q < 356" if "q < 357" "abit m q" "\<not> abit m 356" for q using that by (cases "q = 356") auto
  then show "\<not> abit m 356 \<Longrightarrow> clean (unused_reset m)" using a assms by (auto simp: clean_def)
  show "clean m \<Longrightarrow> unused_reset m = m"
    using a assms by (intro abit_ext) (auto simp: clean_def)
qed

lemma rules_absE:
  assumes "rules_abs t S"
  obtains gs where "tcam_abs t gs" "shape S = shape gs" "map rule_key (members S) = map key (flat gs)"
    "map rule_actions (members S) = actions t" "map rule_flags (members S) = flags t" "\<forall>g \<in> set S. clean (fst g)"
    "length (members S) = length (flat gs)"
  using assms unfolding rules_abs_def by (metis length_map)

lemma rules_absI:
  "tcam_abs t gs \<Longrightarrow> shape S = shape gs \<Longrightarrow> map rule_key (members S) = map key (flat gs) \<Longrightarrow>
   map rule_actions (members S) = actions t \<Longrightarrow> map rule_flags (members S) = flags t \<Longrightarrow>
   \<forall>g \<in> set S. clean (fst g) \<Longrightarrow> rules_abs t S"
  unfolding rules_abs_def by blast

lemma first_group_index: "m \<in> set xs \<Longrightarrow> \<exists>k<length xs. xs ! k = m \<and> (\<forall>j<k. xs ! j \<noteq> m)"
  using exists_least_iff[of "\<lambda>k. k < length xs \<and> xs ! k = m"] by (metis in_set_conv_nth order.strict_trans)

lemma shape_put_in_group:
  assumes "shape S = shape gs" "k < length gs"
  shows "shape (S[k := (fst (S ! k), snd (S ! k) @ [r])]) = shape (put_in_group gs k e)"
proof -
  have "shape (put_in_group gs k e) = (shape gs)[k := (fst (gs ! k), Suc (length (snd (gs ! k))))]"
    using assms(2) by (simp add: shape_def put_in_group_def take_map drop_map comp_def upd_conv_take_nth_drop)
  then show ?thesis using assms shape_facts[OF assms(1)] by (simp add: shape_def map_update)
qed

lemma group_keys:
  assumes "tcam_abs t gs" "shape S = shape gs" "map rule_key (members S) = map key (flat gs)" "k < length gs"
    and "j < length (snd (gs ! k))"
  shows "rule_key (snd (S ! k) ! j) = key (snd (gs ! k) ! j)" "46 \<le> length (snd (gs ! k) ! j)"
proof -
  note sh = shape_facts[OF assms(2)]
  have S: "k < length S" "j < length (snd (S ! k))" using sh assms(4,5) by auto
  note m = member_at[OF assms(4,5)] member_at[OF S]
  have "rule_key (members S ! (start S k + j)) = key (flat gs ! (start S k + j))"
    using arg_cong[OF assms(3), of "\<lambda>xs. xs ! (start S k + j)"] m sh(2) by (simp add: flat_members)
  then show "rule_key (snd (S ! k) ! j) = key (snd (gs ! k) ! j)" using m sh(2) by (simp add: flat_members)
  have "snd (gs ! k) ! j \<in> set (flat gs)" using m(1) nth_mem by (metis flat_members(1))
  then show "46 \<le> length (snd (gs ! k) ! j)" using abs_48[OF assms(1)] by simp
qed

lemma add_refines:
  assumes "rules_abs t S" "call_fits l (Add_Entry m fe a fl)" "rule_call (Add_Entry m fe a fl) S = Some (r, U)"
  shows "\<exists>u. perform_call l (Add_Entry m fe a fl) t = Some (r, u) \<and> rules_abs u U"
proof -
  obtain gs where gs: "tcam_abs t gs" "shape S = shape gs" "map rule_key (members S) = map key (flat gs)"
    "map rule_actions (members S) = actions t" "map rule_flags (members S) = flags t" "\<forall>g \<in> set S. clean (fst g)"
    "length (members S) = length (flat gs)" using rules_absE[OF assms(1)] by blast
  have fits: "length m = 45" "\<not> abit m 356" "46 \<le> length fe" "31 \<le> length a" "2 \<le> length fl" "20 \<le> length fe"
    using assms(2) by auto
  let ?r = "\<lparr>rule_key = key fe, rule_actions = take 31 a, rule_flags = take 2 fl\<rparr>"
  have n20: "length (flat gs) \<le> 20" using gs(1) by (simp add: tcam_abs_def)
  have masks: "map fst S = map fst gs" using shape_facts(3)[OF gs(2)] .
  consider (full) "length (flat gs) = 20" | (new) "length (flat gs) < 20" "m \<notin> fst ` set S"
    | (old) "length (flat gs) < 20" "m \<in> set (map fst S)" using n20 by (cases "length (flat gs) = 20"; cases "m \<in> fst ` set S") auto
  then show ?thesis
  proof cases
    case full
    then show ?thesis using assms(1,3) gs(7) add_new_entry_refused(1)[OF gs(1) fits(1,6)] by auto
  next
    case new
    have "m \<notin> fst ` set gs" using new(2) masks by (metis list.set_map)
    then obtain u where u: "add_new_entry t m fe a fl =
        Some (int (length (flat gs)), u, unused_reset m, put_bit 356 (gs \<noteq> []) fe)"
      "tcam_abs u (gs @ [(unused_reset m, [fresh (put_bit 356 (gs \<noteq> []) fe)])])"
      "actions u = actions t @ [take 31 a]" "flags u = flags t @ [take 2 fl]"
      using add_new_entry_new[OF gs(1) new(1) fits(1) _ fits(3-5)] by blast
    have "rules_abs u (S @ [(unused_reset m, [?r])])"
      using u gs fits clean_reset(1)[OF fits(1,2)] key_fresh[of "put_bit 356 (gs \<noteq> []) fe"]
      by (intro rules_absI[OF u(2)]) (auto simp: shape_def key_put)
    then show ?thesis using u(1) assms(3) new gs(7) add_rule_new[OF new(2)] by auto
  next
    case old
    obtain k where k: "k < length S" "fst (S ! k) = m" "\<And>j. j < k \<Longrightarrow> fst (S ! j) \<noteq> m"
      using first_group_index[OF old(2)] by auto
    have kg: "k < length gs" "fst (gs ! k) = m" "\<And>j. j < k \<Longrightarrow> fst (gs ! j) \<noteq> m" "start S (Suc k) = group_start gs (Suc k)"
      using k shape_facts[OF gs(2)] by (auto simp: flat_members)
    have cl: "clean m" using gs(6) k(1,2) nth_mem by blast
    have red: "(\<exists>j<length (snd (S ! k)). looks_redundant m fe (0 + start S k + j) (rule_key (snd (S ! k) ! j))) = redundant_in gs k fe"
      using group_keys[OF gs(1-3) kg(1)] shape_facts[OF gs(2)] k(1) clean_redundant[OF cl] kg(2)
      by (auto simp: redundant_in_def flat_members)
    note add = add_rule_old[OF k, of fe ?r 0, unfolded red]
    show ?thesis
    proof (cases "redundant_in gs k fe")
      case True
      then show ?thesis
        using assms(1,3) add old(1) gs(7) add_new_entry_refused(2)[OF gs(1) fits(1,6) old(1) kg(1-3) True] by auto
    next
      case False
      let ?e = "group_start gs (Suc k)"
      obtain u where u: "add_new_entry t m fe a fl = Some (int ?e, u, m, put_bit 356 False fe)"
        "tcam_abs u (put_in_group gs k (fresh (put_bit 356 False fe)))"
        "actions u = take ?e (actions t) @ take 31 a # drop ?e (actions t)"
        "flags u = take ?e (flags t) @ take 2 fl # drop ?e (flags t)"
        using add_new_entry_group[OF gs(1) kg(1) old(1), of fe a fl] kg(2,3) fits False by auto
      let ?U = "S[k := (m, snd (S ! k) @ [?r])]"
      have mem: "members ?U = take ?e (members S) @ ?r # drop ?e (members S)"
        using members_update[OF k(1), of m ?r] kg(4) by simp
      have "map key (map fresh (drop ?e (flat gs))) = map key (drop ?e (flat gs))"
        using abs_48[OF gs(1)] by (auto simp: key_fresh dest: in_set_dropD)
      then have "map rule_key (members ?U) = map key (flat (put_in_group gs k (fresh (put_bit 356 False fe))))"
        using gs(3) fits(3) key_fresh[of "put_bit 356 False fe"]
        by (simp add: mem flat_put_in_group[OF kg(1)] take_map[symmetric] drop_map[symmetric] key_put)
      moreover have "shape ?U = shape (put_in_group gs k (fresh (put_bit 356 False fe)))"
        using shape_put_in_group[OF gs(2) kg(1)] k(2) by simp
      moreover have "\<forall>g \<in> set ?U. clean (fst g)" using gs(6) cl set_update_subset_insert[of S k] by fastforce
      ultimately have "rules_abs u ?U"
        using u(2-4) gs(4,5) by (intro rules_absI[OF u(2)]) (simp_all add: mem take_map[symmetric] drop_map[symmetric])
      then show ?thesis using u(1) assms(3) add False old(1) gs(7) kg(4) by auto
    qed
  qed
qed

section \<open>Looking up, deleting, modifying\<close>

lemma shape_map_entries: "shape (map_entries h i gs) = shape gs"
  by (induction gs arbitrary: i) (auto simp: shape_def)

lemma bumped_keys: "shape (bumped P gs) = shape gs" "map key (flat (bumped P gs)) = map key (flat gs)"
  unfolding bumped_def by (simp add: shape_map_entries)
    (auto simp: flat_map_entries key_bump intro!: nth_equalityI)

lemma look_refines:
  assumes "rules_abs t S" "call_fits l (Look_Up f)" "rule_call (Look_Up f) S = Some (r, U)"
  shows "\<exists>u. perform_call l (Look_Up f) t = Some (r, u) \<and> rules_abs u U"
proof -
  obtain gs where gs: "tcam_abs t gs" "shape S = shape gs" "map rule_key (members S) = map key (flat gs)"
    "map rule_actions (members S) = actions t" "map rule_flags (members S) = flags t" "\<forall>g \<in> set S. clean (fst g)"
    using rules_absE[OF assms(1)] by blast
  obtain u mp' where u: "search_tcam t f (fst l) = Some (best_pos (find_rule f S), u, mp')"
    "tcam_abs u (bumped (hit (map fst gs) (flat gs) f) gs)" "actions u = actions t" "flags u = flags t"
    using search_abs[OF gs(1), of f "fst l"] assms(2) find_rule_best[OF gs(1-3,6), of f] by auto
  then have "rules_abs u S" using gs by (intro rules_absI[OF u(2)]) (simp_all add: bumped_keys)
  then show ?thesis using u(1) assms(3) by auto
qed

lemma members_remove:
  "p < length (members S) \<Longrightarrow> members (remove_at p S) = take p (members S) @ drop (Suc p) (members S)"
proof (induction p S rule: remove_at.induct)
  case (2 p m rs S)
  show ?case
  proof (cases "p < length rs")
    case True
    then show ?thesis by (cases "length rs = 1") (auto simp: Suc_diff_le)
  next
    case False
    then have "Suc p - length rs = Suc (p - length rs)" by simp
    then show ?thesis using 2 False by simp
  qed
qed simp

lemma remove_at_masks: "g \<in> set (remove_at p S) \<Longrightarrow> fst g \<in> fst ` set S"
  by (induction p S rule: remove_at.induct) (auto split: if_splits)

lemma remove_at_group:
  "k < length S \<Longrightarrow> j < length (snd (S ! k)) \<Longrightarrow> remove_at (start S k + j) S =
     (if length (snd (S ! k)) = 1 then take k S @ drop (Suc k) S
      else S[k := (fst (S ! k), take j (snd (S ! k)) @ drop (Suc j) (snd (S ! k)))])"
proof (induction S arbitrary: k)
  case (Cons g S)
  then show ?case by (cases k; cases g) auto
qed simp

lemma shape_remove:
  assumes "shape S = shape gs" "k < length gs" "j < length (snd (gs ! k))" "\<forall>g \<in> set S. clean (fst g)"
  shows "shape (remove_at (start S k + j) S) = shape (drop_in_group gs k j)"
proof -
  note sh = shape_facts[OF assms(1)]
  have S: "k < length S" "length (snd (S ! k)) = length (snd (gs ! k))" "fst (S ! k) = fst (gs ! k)" using sh assms(2) by auto
  have cl: "unused_reset (fst g) = fst g" if "g \<in> set (drop (Suc k) gs)" for g
  proof -
    have "fst g \<in> fst ` set gs" using in_set_dropD[OF that] by simp
    then have "fst g \<in> fst ` set S" using sh(3) by (metis list.set_map)
    then show ?thesis using assms(4) clean_reset(2) by (auto simp: clean_def)
  qed
  show ?thesis
  proof (cases "length (snd (gs ! k)) = 1")
    case True
    have "shape (drop_in_group gs k j) = take k (shape gs) @ drop (Suc k) (shape gs)"
      using True cl by (auto simp: drop_in_group_def shape_def take_map drop_map)
    then show ?thesis using True S remove_at_group[OF S(1), of j] assms(1,3)
      by (simp add: shape_def take_map[symmetric] drop_map[symmetric])
  next
    case False
    have "shape (drop_in_group gs k j) = (shape gs)[k := (fst (gs ! k), length (snd (gs ! k)) - 1)]"
      using False assms(2,3)
      by (simp add: drop_in_group_def shape_def Let_def take_map drop_map comp_def upd_conv_take_nth_drop)
    then show ?thesis using False S remove_at_group[OF S(1), of j] assms(1,3) by (simp add: shape_def map_update)
  qed
qed

lemma keys_drop:
  assumes "tcam_abs t gs" "k < length gs" "j < length (snd (gs ! k))"
  defines "p \<equiv> group_start gs k + j"
  shows "map key (flat (drop_in_group gs k j)) = take p (map key (flat gs)) @ drop (Suc p) (map key (flat gs))"
proof -
  have l: "46 \<le> length e" if "e \<in> set (flat gs)" for e using abs_48[OF assms(1) that] by simp
  have part: "46 \<le> length e" if "e \<in> set (snd (gs ! k))" for e
    using l[of e] that flat_split[OF assms(2)] by simp
  have "map key (promote k j (snd (gs ! k))) = map key (snd (gs ! k))"
    using part by (auto simp: promote_def map_update key_put intro!: list_update_same_conv[THEN iffD2])
  then have keys: "map key (promoted gs k j) = map key (flat gs)"
    by (subst flat_split[OF assms(2)]) (simp add: promoted_def)
  have "46 \<le> length e" if "e \<in> set (promoted gs k j)" for e
    using that l part flat_split[OF assms(2)]
    by (auto simp: promoted_def promote_def split: if_splits dest!: set_update_subset_insert[THEN subsetD])
  then have "map key (map fresh (drop (Suc p) (promoted gs k j))) = map key (drop (Suc p) (promoted gs k j))"
    by (auto simp: key_fresh dest: in_set_dropD)
  then show ?thesis
    using flat_drop_in_group[OF assms(2,3)] keys by (simp add: p_def take_map[symmetric] drop_map[symmetric])
qed

lemma delete_refines:
  assumes "rules_abs t S" "call_fits l (Delete_Entry f)" "rule_call (Delete_Entry f) S = Some (r, U)"
  shows "\<exists>u. perform_call l (Delete_Entry f) t = Some (r, u) \<and> rules_abs u U"
proof -
  obtain gs where gs: "tcam_abs t gs" "shape S = shape gs" "map rule_key (members S) = map key (flat gs)"
    "map rule_actions (members S) = actions t" "map rule_flags (members S) = flags t" "\<forall>g \<in> set S. clean (fst g)"
    "length (members S) = length (flat gs)" using rules_absE[OF assms(1)] by blast
  note sh = shape_facts[OF gs(2)]
  obtain p where p: "find_rule f S = Some p" "r = int p" "U = remove_at p S"
    "\<not> (p = 0 \<and> length (snd (hd S)) = 1)" "\<not> (p = 19 \<and> length (snd (last S)) = 1)"
    using assms(3) by (auto split: bind_splits if_splits)
  note best = p(1)[unfolded find_rule_best[OF gs(1-3,6)]]
  have n: "p < length (flat gs)" "length (flat gs) \<le> 20" using best_Some[OF best] gs(1) by (auto simp: tcam_abs_def)
  obtain k j where kj: "k < length gs" "j < length (snd (gs ! k))" "p = group_start gs k + j" by (rule entry_in_group[OF n(1)])
  have S: "k < length S" "length (snd (S ! k)) = length (snd (gs ! k))" using sh kj(1) by auto
  have first: "0 < k \<or> 1 < length (snd (gs ! k))"
  proof (rule ccontr)
    assume "\<not> ?thesis"
    then have "k = 0" "length (snd (gs ! k)) = 1" "j = 0" using kj(2) by auto
    then show False using p(4) S kj(3) by (cases S) (auto simp: flat_members)
  qed
  have last: "length (snd (gs ! k)) = 1 \<Longrightarrow> group_start gs k < 19"
  proof (rule ccontr)
    assume one: "length (snd (gs ! k)) = 1" and "\<not> group_start gs k < 19"
    then have "p = 19" "group_start gs k = 19" using kj n by auto
    moreover have "Suc k = length gs"
      using first_of_group(1)[OF gs(1), of k] group_start_Suc[OF kj(1)] one calculation n(2) kj(1) by linarith
    moreover have "last S = S ! k" using sh(1) calculation(3)[symmetric] by (cases "S = []") (auto simp: last_conv_nth)
    ultimately show False using p(5) one S by simp
  qed
  obtain u where u: "delete_flow_entry (fst l) t f = Some (int p, u)"
    "tcam_abs u (drop_in_group (bumped (hit (map fst gs) (flat gs) f) gs) k j)"
    "actions u = take p (actions t) @ drop (Suc p) (actions t)" "flags u = take p (flags t) @ drop (Suc p) (flags t)"
    using delete_entry_groups[OF gs(1) _ _ kj(1,2) first last, of f "fst l"] best assms(2) kj(3) by auto
  let ?gs = "bumped (hit (map fst gs) (flat gs) f) gs"
  obtain s where s: "tcam_abs s ?gs" using search_abs[OF gs(1), of f "fst l"] assms(2) by auto
  note bk = bumped_keys[of "hit (map fst gs) (flat gs) f" gs]
  have kb: "k < length ?gs" "j < length (snd (?gs ! k))" "group_start ?gs k = group_start gs k"
    using kj shape_facts[OF bk(1)] by (auto simp: flat_members)
  note mem = members_remove[of p S]
  have "map rule_key (members U) = map key (flat (drop_in_group ?gs k j))"
    using keys_drop[OF s kb(1,2)] kb(3) kj(3) bk(2) gs(3,7) n(1) mem p(3)
    by (simp add: take_map[symmetric] drop_map[symmetric])
  moreover have "shape U = shape (drop_in_group ?gs k j)"
    using shape_remove[OF _ kb(1,2) gs(6)] gs(2) bk(1) p(3) kj(3) sh(2) by (simp add: flat_members)
  moreover have "map rule_actions (members U) = actions u" "map rule_flags (members U) = flags u"
    using u(3,4) gs(4,5,7) n(1) mem p(3) by (simp_all add: take_map[symmetric] drop_map[symmetric])
  moreover have "\<forall>g \<in> set U. clean (fst g)"
    using remove_at_masks[of _ p S] gs(6) p(3) by fastforce
  ultimately have "rules_abs u U" by (intro rules_absI[OF u(2)])
  then show ?thesis using u(1) p(2) by simp
qed

lemma members_change: "p < length (members S) \<Longrightarrow> members (change_at c p S) = (members S)[p := c (members S ! p)]"
proof (induction c p S rule: change_at.induct)
  case (2 c p m rs S)
  then show ?case by (cases "p < length rs") (auto simp: nth_append list_update_append)
qed simp

lemma shape_change: "shape (change_at c p S) = shape S"
  by (induction c p S rule: change_at.induct) (auto simp: shape_def)

lemma key_new_flow:
  assumes "length e = 48"
  shows "key (new_flow flag new vp e) = (if abit flag 13 then (key e)[45 := byte_at new vp] else key e)"
proof -
  have "take 46 (new_flow flag new vp e) = (if abit flag 13 then (take 46 e)[45 := byte_at new vp] else take 46 e)"
    using assms by (auto simp: new_flow_def set_byte_def take_update_swap list_update_beyond)
  then show ?thesis using assms by (auto simp: key_def put_bit_def list_update_swap)
qed

lemma modify_refines:
  assumes "rules_abs t S" "call_fits l (Modify_Entry f flag new)" "rule_call (Modify_Entry f flag new) S = Some (r, U)"
  shows "\<exists>u. perform_call l (Modify_Entry f flag new) t = Some (r, u) \<and> rules_abs u U"
proof -
  obtain gs where gs: "tcam_abs t gs" "shape S = shape gs" "map rule_key (members S) = map key (flat gs)"
    "map rule_actions (members S) = actions t" "map rule_flags (members S) = flags t" "\<forall>g \<in> set S. clean (fst g)"
    "length (members S) = length (flat gs)" using rules_absE[OF assms(1)] by blast
  have fits: "45 \<le> length f" "0 < length (fst l)" "length flag = 2" "34 \<le> length new" "length (snd l) = 6"
    using assms(2) by auto
  obtain p where p: "find_rule f S = Some p" "r = int p" "U = change_at (changed flag new) p S"
    using assms(3) by (auto split: bind_splits)
  note best = p(1)[unfolded find_rule_best[OF gs(1-3,6)]]
  have n: "p < length (flat gs)" using best_Some[OF best] by simp
  let ?na = "new_actions flag new (actions t ! p)" and ?P = "hit (map fst gs) (flat gs) f"
  obtain u where u: "modify_entry (fst l) (snd l) t f flag new = Some (int p, u)"
    "actions u = (actions t)[p := fst ?na]"
    "flags u = (flags t)[p := [flags t ! p ! 0 OR flag ! 0, flags t ! p ! 1 OR flag ! 1]]"
    "entries u = (map (\<lambda>i. if ?P i then bump (flat gs ! i) else flat gs ! i) [0..<length (flat gs)])
       [p := new_flow flag new (snd ?na) (flat gs ! p)]"
    using modify_entry_ok[OF gs(1) fits best] by blast
  obtain vp where vp: "tcam_abs u (modified ?P p flag new vp gs)" using modify_abs[OF gs(1) fits best] u(1) by auto
  have "flat (modified ?P p flag new vp gs) = entries u" using vp by (simp add: tcam_abs_def)
  then have keys: "map key (flat (modified ?P p flag new vp gs)) =
      (map key (flat gs))[p := key (new_flow flag new (snd ?na) (flat gs ! p))]"
    unfolding u(4) by (auto simp: map_update key_bump intro!: nth_equalityI arg_cong2[of _ _ _ _ "\<lambda>xs. list_update xs p"])
  have e: "length (flat gs ! p) = 48" using abs_48[OF gs(1), of "flat gs ! p"] n by simp
  have at: "rule_key (members S ! p) = key (flat gs ! p)" "rule_actions (members S ! p) = actions t ! p"
    "rule_flags (members S ! p) = flags t ! p"
    using arg_cong[OF gs(3), of "\<lambda>xs. xs ! p"] arg_cong[OF gs(4), of "\<lambda>xs. xs ! p"]
      arg_cong[OF gs(5), of "\<lambda>xs. xs ! p"] n gs(7) by simp_all
  have mem: "members U = (members S)[p := changed flag new (members S ! p)]" using members_change[of p S "changed flag new"] p(3) n gs(7) by simp
  have "map rule_key (members U) = map key (flat (modified ?P p flag new vp gs))"
    unfolding keys mem using gs(3) at key_new_flow[OF e] by (simp add: map_update changed_def split_def Let_def)
  moreover have "shape U = shape (modified ?P p flag new vp gs)"
    using p(3) gs(2) by (simp add: shape_change modified_def shape_map_entries)
  moreover have "map rule_actions (members U) = actions u" "map rule_flags (members U) = flags u"
    using u(2,3) gs(4,5) at by (simp_all add: mem map_update changed_def split_def Let_def)
  moreover have "\<forall>g \<in> set U. clean (fst g)"
    using gs(6) shape_facts(3)[OF shape_change[of "changed flag new" p S]] p(3) by (metis image_iff list.set_map)
  ultimately have "rules_abs u U" by (intro rules_absI[OF vp])
  then show ?thesis using u(1) p(2) by simp
qed

section \<open>Every sequence of calls\<close>

interpretation table: call_refinement perform_call "\<lambda>_. rule_call" rules_abs call_fits
proof (unfold_locales)
  fix t S l c r U
  assume "rules_abs t S" "call_fits l c" "rule_call c S = Some (r, U)"
  then show "\<exists>u. perform_call l c t = Some (r, u) \<and> rules_abs u U"
    by (cases c) (simp_all only: add_refines look_refines delete_refines modify_refines)
qed

lemma rules_abs_empty: "tables_ok t \<Longrightarrow> flow_tail t = 0 \<Longrightarrow> mask_tail t = 0 \<Longrightarrow> rules_abs t []"
  by (auto simp: rules_abs_def tcam_abs_def entries_def masks_def actions_def flags_def rows_def shape_def)

lemma apply_by_rules:
  assumes "rules_abs t S" "45 \<le> length f" "0 < length mp" "length a = 31" "length val = 6"
    and "length (flow_cache c) = 5" "cache_top c = 1"
  shows "\<exists>c' u. apply_action a mp val c t f = Some (case find_rule f S of None \<Rightarrow> (- 1, c', u, [])
    | Some p \<Rightarrow> (1, c', u, actions_of (rule_flags (members S ! p)) (rule_actions (members S ! p))))"
proof -
  obtain gs where gs: "tcam_abs t gs" "shape S = shape gs" "map rule_key (members S) = map key (flat gs)"
    "map rule_actions (members S) = actions t" "map rule_flags (members S) = flags t" "\<forall>g \<in> set S. clean (fst g)"
    "length (members S) = length (flat gs)" using rules_absE[OF assms(1)] by blast
  note fr = find_rule_best[OF gs(1-3,6), of f]
  have "flags t ! p = rule_flags (members S ! p) \<and> actions t ! p = rule_actions (members S ! p)"
    if "find_rule f S = Some p" for p
    using best_Some[OF that[unfolded fr]] gs(7) gs(4,5)[symmetric] by simp
  then show ?thesis
    using apply_action_ok[OF gs(1) assms(2-7)] fr by (auto simp: applied_def split: option.splits)
qed


definition example_calls :: "((int list \<times> byte list) \<times> flow_call) list" where
  "example_calls = map (Pair ([0, 0], replicate 6 9))
     [Add_Entry (replicate 44 1 @ [0]) (replicate 46 1) (replicate 31 2) [0, 0],
      Add_Entry (replicate 44 1 @ [0]) (replicate 46 0) (replicate 31 3) [0, 0],
      Delete_Entry (replicate 45 1), Look_Up (replicate 45 1)]"

lemma abit_ones: "q < 8 * n \<Longrightarrow> abit (replicate n 1) q = (q mod 8 = 7)"
  by (auto simp: abit_def bit_1_iff)

lemma example_rules:
  "perform_all (\<lambda>_. rule_call) example_calls [] = Some ([0, 1, 0, - 1],
     [(replicate 44 1 @ [0], [\<lparr>rule_key = key (replicate 46 0), rule_actions = replicate 31 3, rule_flags = [0, 0]\<rparr>])])"
proof -
  let ?m = "replicate 44 1 @ [0 :: byte]"
  have m: "abit ?m q = (q < 352 \<and> q mod 8 = 7)" if "q < 360" for q
    using that by (auto simp: abit_def nth_append bit_1_iff)
  have c: "unused_reset ?m = ?m" using m by (intro clean_reset(2)) (auto simp: clean_def)
  have a1: "rule_agrees ?m (replicate 45 1) (key (replicate 46 1))"
    unfolding rule_agrees_def using m by (simp add: key_abit abit_ones)
  have a0: "\<not> rule_agrees ?m (replicate 45 1) (key (replicate 46 0))"
    unfolding rule_agrees_def using m by (auto simp: key_abit abit_ones intro!: exI[of _ 7]) (simp add: abit_def)
  have r: "\<not> looks_redundant ?m (replicate 46 0) 0 (key (replicate 46 1))"
    unfolding looks_redundant_def using m by (auto simp: key_abit abit_ones intro!: exI[of _ 7]) (simp add: abit_def)
  show ?thesis
    by (simp add: example_calls_def c a1 a0 r find_rule_def best_pos_def TBL_FULL_def numeral_2_eq_2)
qed


end
