(* ===== verification/Tcam_Adding.thy ===== *)
theory Tcam_Adding
  imports Tcam_Rules
begin

text \<open>
  What an addition to the flow table of \<^verbatim>\<open>flow-processing-unit/flow_unit.h\<close> changes for the packets that come
  after it: which of them the new entry takes over, and that all others are treated as before.
\<close>

section \<open>The best entry, by what it is compared with\<close>

lemma best_iff:
  "best P es n = Some r \<longleftrightarrow> r < n \<and> P r \<and>
     (\<forall>i<n. P i \<longrightarrow> (if i < r then prio (es ! i) < prio (es ! r) else prio (es ! i) \<le> prio (es ! r)))"
    (is "_ \<longleftrightarrow> ?first r")
proof
  assume r: "best P es n = Some r"
  have "prio (es ! i) < prio (es ! r)" if "i < n" "P i" "i < r" for i
    using best_Some[OF r] that by (metis leD order_le_imp_less_or_eq)
  then show "?first r" using best_Some[OF r] by simp
next
  assume r: "?first r"
  then obtain s where s: "best P es n = Some s" using best_None[of P es n] by (cases "best P es n") auto
  have "r = s"
  proof (cases r s rule: linorder_cases)
    case less
    then show ?thesis using r best_Some[OF s] by (metis leD order_antisym)
  next
    case greater
    then show ?thesis using r best_Some[OF s] by (metis leD)
  qed
  then show "best P es n = Some r" using s by simp
qed

text \<open>One more row at \<open>s\<close>: the rows behind it move down.\<close>

definition moved :: "nat \<Rightarrow> nat \<Rightarrow> nat" where
  "moved s i = (if i < s then i else Suc i)"

text \<open>An entry of priority \<open>pr\<close> at \<open>s\<close> goes before all that satisfy \<open>P\<close>: of equal ones the earlier row does.\<close>

definition goes_first :: "(nat \<Rightarrow> bool) \<Rightarrow> byte list list \<Rightarrow> byte \<Rightarrow> nat \<Rightarrow> bool" where
  "goes_first P es pr s \<longleftrightarrow>
     (\<forall>i<length es. P i \<longrightarrow> (if i < s then prio (es ! i) < pr else prio (es ! i) \<le> pr))"

lemma all_moved: "s \<le> n \<Longrightarrow> (\<forall>i<Suc n. Q i) \<longleftrightarrow> Q s \<and> (\<forall>i<n. Q (moved s i))"
proof (intro iffI conjI allI impI)
  fix i assume a: "s \<le> n" "Q s \<and> (\<forall>i<n. Q (moved s i))" "i < Suc n"
  consider "i = s" | "i < s" | d where "i = Suc d" "s \<le> d" by (cases i s rule: linorder_cases; cases i) auto
  then show "Q i"
  proof cases
    case 2
    then show ?thesis using a(1) spec[OF conjunct2[OF a(2)], of i] by (simp add: moved_def)
  next
    case 3
    then show ?thesis using a(3) spec[OF conjunct2[OF a(2)], of d] by (simp add: moved_def)
  qed (use a(2) in simp)
qed (auto simp: moved_def)

lemma best_insert:
  assumes s: "s \<le> length es" and new: "prio (ds ! s) = pr"
    and old: "\<And>i. i < length es \<Longrightarrow> Q (moved s i) = P i \<and> prio (ds ! moved s i) = prio (es ! i)"
  shows "best Q ds (Suc (length es)) =
     (if Q s \<and> goes_first P es pr s then Some s else map_option (moved s) (best P es (length es)))"
proof (cases "Q s \<and> goes_first P es pr s")
  case True
  then show ?thesis
    using s old new by (auto simp: best_iff all_moved[OF s] goes_first_def moved_def simp del: best.simps split: if_splits)
next
  case False
  show ?thesis
  proof (cases "best P es (length es)")
    case None
    then have "\<not> P i" if "i < length es" for i using best_None that by blast
    then have "\<not> Q i" if "i < Suc (length es)" for i
      using False old that all_moved[OF s, of "\<lambda>i. \<not> Q i"] by (auto simp: goes_first_def)
    then have "best Q ds (Suc (length es)) = None" unfolding best_None by blast
    then show ?thesis using False None by simp
  next
    case (Some r)
    note r = Some[unfolded best_iff]
    have "best Q ds (Suc (length es)) = Some (moved s r)"
      unfolding best_iff all_moved[OF s]
    proof (intro conjI allI impI)
      show "moved s r < Suc (length es)" using r by (simp add: moved_def)
      show "Q (moved s r)" using r old by simp
      assume q: "Q s"
      then obtain i where i: "i < length es" "P i" "\<not> (if i < s then prio (es ! i) < pr else prio (es ! i) \<le> pr)"
        using False by (auto simp: goes_first_def)
      then have "if i < r then prio (es ! i) < prio (es ! r) else prio (es ! i) \<le> prio (es ! r)" using r by blast
      then show "if s < moved s r then prio (ds ! s) < prio (ds ! moved s r) else prio (ds ! s) \<le> prio (ds ! moved s r)"
        using i(3) old[of r] r new by (auto simp: moved_def split: if_splits)
    next
      fix i assume "i < length es" "Q (moved s i)"
      then show "if moved s i < moved s r then prio (ds ! moved s i) < prio (ds ! moved s r)
          else prio (ds ! moved s i) \<le> prio (ds ! moved s r)"
        using old[of i] old[of r] r by (auto simp: moved_def split: if_splits)
    qed
    then show ?thesis using False Some by (auto simp del: best.simps)
  qed
qed

section \<open>Groups with one more entry\<close>

lemma hit_masked:
  assumes "tcam_abs t gs" "i < length (flat gs)"
  shows "hit (map fst gs) (flat gs) f i = (case masked gs ! i of (m, e) \<Rightarrow> matches m f e)"
proof -
  obtain k j where kj: "k < length gs" "j < length (snd (gs ! k))" "i = group_start gs k + j"
    by (rule entry_in_group[OF assms(2)])
  moreover have "group (flat gs) i = k" using group_of_entry[of gs k j] assms(1) kj by (simp add: tcam_abs_def)
  ultimately show ?thesis
    using masked_nth[OF kj(1,2)] flat_at[OF kj(1,2)] by (simp add: hit_def flat_members)
qed

lemma masked_flat: "map snd (masked gs) = flat gs"
  by (simp add: snd_masked flat_members)

lemma masked_append: "masked (gs @ hs) = masked gs @ masked hs"
  by (simp add: masked_def)

lemma masked_map_fresh: "masked (map (\<lambda>g. (fst g, map fresh (snd g))) gs) = map (apsnd fresh) (masked gs)"
  by (induction gs) (auto simp: masked_def)

lemma masked_put:
  assumes "k < length gs"
  shows "masked (put_in_group gs k e) = take (group_start gs (Suc k)) (masked gs) @ (fst (gs ! k), e) #
     map (apsnd fresh) (drop (group_start gs (Suc k)) (masked gs))"
proof -
  have "masked gs = masked (take k gs @ gs ! k # drop (Suc k) gs)" using id_take_nth_drop[OF assms] by simp
  also have "\<dots> = (masked (take k gs) @ map (Pair (fst (gs ! k))) (snd (gs ! k))) @ masked (drop (Suc k) gs)"
    by (cases "gs ! k") (simp add: masked_append)
  finally have m: "masked gs = (masked (take k gs) @ map (Pair (fst (gs ! k))) (snd (gs ! k))) @ masked (drop (Suc k) gs)" .
  have "group_start gs (Suc k) = length (masked (take k gs) @ map (Pair (fst (gs ! k))) (snd (gs ! k)))"
    using assms by (simp add: take_Suc_conv_app_nth flat_members(2) start_def)
  then show ?thesis
    unfolding m by (simp add: put_in_group_def masked_append masked_map_fresh)
qed

text \<open>The tables with a row \<open>(m, e)\<close> at \<open>s\<close> and the actions \<open>a\<close> and flags \<open>fl\<close> in it.\<close>

definition has_row ::
  "tcam_unit \<Rightarrow> mgroup list \<Rightarrow> nat \<Rightarrow> byte list \<Rightarrow> byte list \<Rightarrow> byte list \<Rightarrow> byte list \<Rightarrow> tcam_unit \<Rightarrow> mgroup list \<Rightarrow> bool" where
  "has_row t gs s m e a fl u hs \<longleftrightarrow> tcam_abs u hs \<and> s \<le> length (flat gs) \<and>
     masked hs = take s (masked gs) @ (m, fresh e) # map (apsnd fresh) (drop s (masked gs)) \<and>
     actions u = take s (actions t) @ a # drop s (actions t) \<and> flags u = take s (flags t) @ fl # drop s (flags t)"

lemma matches_fresh:
  assumes "46 \<le> length e"
  shows "matches m f (fresh e) = matches m f e"
proof -
  have "abit (fresh e) q = abit e q" if "q < 360" for q
    using that assms by (auto simp: fresh_def abit_def nth_append)
  then show ?thesis by (simp add: matches_def)
qed

lemma best_has_row:
  assumes abs: "tcam_abs t gs" and row: "has_row t gs s m e a fl u hs" and e: "46 \<le> length e"
  shows "best (hit (map fst hs) (flat hs) f) (flat hs) (length (flat hs)) =
     (if matches m f e \<and> goes_first (hit (map fst gs) (flat gs) f) (flat gs) (prio e) s then Some s
      else map_option (moved s) (best (hit (map fst gs) (flat gs) f) (flat gs) (length (flat gs))))"
proof -
  let ?n = "length (flat gs)" and ?Q = "hit (map fst hs) (flat hs) f"
  have h: "tcam_abs u hs" "s \<le> ?n" and mh: "masked hs = take s (masked gs) @ (m, fresh e) # map (apsnd fresh) (drop s (masked gs))"
    using row by (simp_all add: has_row_def)
  have lm: "length (masked gs) = ?n" by (simp add: flat_members)
  have n: "length (flat hs) = Suc ?n" using h(2) lm by (simp add: masked_flat[symmetric] mh)
  have at_s: "masked hs ! s = (m, fresh e)" using h(2) lm by (simp add: mh nth_append)
  have at: "fst (masked hs ! moved s i) = fst (masked gs ! i) \<and>
      (snd (masked hs ! moved s i) = snd (masked gs ! i) \<or> snd (masked hs ! moved s i) = fresh (snd (masked gs ! i)))"
    if "i < ?n" for i
    using that h(2) lm by (auto simp: mh moved_def nth_append)
  have sn: "snd (masked hs ! i) = flat hs ! i" if "i < Suc ?n" for i
    using arg_cong[OF masked_flat[of hs], of "\<lambda>xs. xs ! i"] that n by (simp add: flat_members)
  have sg: "snd (masked gs ! i) = flat gs ! i" if "i < ?n" for i
    using arg_cong[OF masked_flat[of gs], of "\<lambda>xs. xs ! i"] that by (simp add: flat_members)
  have pf: "prio (fresh x) = prio x" if "46 \<le> length x" for x using that by (simp add: prio_def fresh_def nth_append)
  have old: "?Q (moved s i) = hit (map fst gs) (flat gs) f i \<and> prio (flat hs ! moved s i) = prio (flat gs ! i)"
    if i: "i < ?n" for i
  proof -
    have m: "moved s i < Suc ?n" using i by (simp add: moved_def)
    have l: "46 \<le> length (flat gs ! i)" using abs_entry_length[OF abs] i by simp
    show ?thesis
      using at[OF i] hit_masked[OF h(1), of "moved s i" f] hit_masked[OF abs i, of f] m n sn[OF m] sg[OF i]
        matches_fresh[OF l] pf[OF l] by (auto simp: case_prod_unfold)
  qed
  have "?Q s = matches m f e" using hit_masked[OF h(1), of s f] at_s h(2) n matches_fresh[OF e] by simp
  moreover have "prio (flat hs ! s) = prio e" using sn[of s] at_s h(2) pf[OF e] by simp
  ultimately show ?thesis using best_insert[of s "flat gs" "flat hs" "prio e" ?Q "hit (map fst gs) (flat gs) f"] h(2) old n by simp
qed

section \<open>What an addition does\<close>

text \<open>The mask and the entry as they are stored.\<close>

definition stored_mask :: "mgroup list \<Rightarrow> byte list \<Rightarrow> byte list" where
  "stored_mask gs m = (if m \<in> fst ` set gs then m else unused_reset m)"

definition stored_entry :: "mgroup list \<Rightarrow> byte list \<Rightarrow> byte list \<Rightarrow> byte list" where
  "stored_entry gs m fe = put_bit 356 (gs \<noteq> [] \<and> m \<notin> fst ` set gs) fe"

lemma add_new_entry_row:
  assumes abs: "tcam_abs t gs" and m: "length m = 45" and len: "46 \<le> length fe" "31 \<le> length a" "2 \<le> length fl"
  shows "(\<exists>r x. r < 0 \<and> add_new_entry t m fe a fl = Some (r, t, x)) \<or>
     (\<exists>s u hs x. add_new_entry t m fe a fl = Some (int s, u, x) \<and>
        has_row t gs s (stored_mask gs m) (stored_entry gs m fe) (take 31 a) (take 2 fl) u hs)"
proof -
  have fe: "20 \<le> length fe" using len(1) by simp
  have n: "length (actions t) = length (flat gs)" "length (flags t) = length (flat gs)" "length (masked gs) = length (flat gs)"
    using abs by (simp_all add: actions_def flags_def tcam_abs_def flat_members)
  consider (full) "length (flat gs) = 20" | (new) "length (flat gs) < 20" "m \<notin> fst ` set gs"
    | (old) k where "length (flat gs) < 20" "k < length gs" "fst (gs ! k) = m" "\<And>j. j < k \<Longrightarrow> fst (gs ! j) \<noteq> m"
    using abs first_index[of m gs] by (fastforce simp: tcam_abs_def le_less)
  then show ?thesis
  proof cases
    case full
    then show ?thesis using add_new_entry_refused(1)[OF abs m fe full] by (auto simp: TBL_FULL_def)
  next
    case new
    let ?e = "stored_entry gs m fe" and ?n = "length (flat gs)"
    have st: "stored_mask gs m = unused_reset m" "?e = put_bit 356 (gs \<noteq> []) fe"
      using new(2) by (simp_all add: stored_mask_def stored_entry_def)
    obtain u where u: "add_new_entry t m fe a fl = Some (int ?n, u, unused_reset m, ?e)"
      "tcam_abs u (gs @ [(unused_reset m, [fresh ?e])])" "actions u = actions t @ [take 31 a]" "flags u = flags t @ [take 2 fl]"
      using add_new_entry_new[OF abs new(1) m new(2) len] unfolding st(2) by blast
    then have "has_row t gs ?n (stored_mask gs m) ?e (take 31 a) (take 2 fl) u (gs @ [(unused_reset m, [fresh ?e])])"
      using n by (simp add: has_row_def masked_append st(1))
    then show ?thesis using u(1) by blast
  next
    case old
    have known: "m \<in> fst ` set gs" using old(2,3) by force
    show ?thesis
    proof (cases "redundant_in gs k fe")
      case True
      then show ?thesis using add_new_entry_refused(2)[OF abs m fe old] by (auto simp: RDNDNT_def)
    next
      case False
      then obtain u where "add_new_entry t m fe a fl = Some (int (group_start gs (Suc k)), u, m, put_bit 356 False fe)"
        "tcam_abs u (put_in_group gs k (fresh (put_bit 356 False fe)))"
        "actions u = take (group_start gs (Suc k)) (actions t) @ take 31 a # drop (group_start gs (Suc k)) (actions t)"
        "flags u = take (group_start gs (Suc k)) (flags t) @ take 2 fl # drop (group_start gs (Suc k)) (flags t)"
        using add_new_entry_group[OF abs old(2,1), of fe a fl] old(3,4) m len by auto
      moreover from this have "has_row t gs (group_start gs (Suc k)) (stored_mask gs m) (stored_entry gs m fe) (take 31 a) (take 2 fl)
          u (put_in_group gs k (fresh (put_bit 356 False fe)))"
        using masked_put[OF old(2)] group_start_le[of gs "Suc k"] known old(3)
        by (simp add: has_row_def stored_mask_def stored_entry_def)
      ultimately show ?thesis by blast
    qed
  qed
qed

text \<open>
  C7. What is added is acted on, and nothing else changes. An addition is either refused, by a negative answer,
  and leaves the tables as they were, or answers the row the entry went to. Then, right after \<^verbatim>\<open>init\<close>, a flow
  that agrees with the entry on the bits of its mask (both as they are stored) is given exactly the actions that were added
  with it, when no older entry that agrees with the flow goes first: one before the row with the same priority, or one with a
  higher priority. Every other flow is given the actions, or the answer that there are none, that it was given without the addition.
\<close>

theorem added_entry_is_applied:
  assumes "tcam_abs t gs" "length m = 45" "46 \<le> length fe" "31 \<le> length a" "2 \<le> length fl"
    and "45 \<le> length f" "0 < length mp" "length as = 31" "length val = 6" "length (flow_cache c0) = 5" "init c0 = Some c"
  defines "P \<equiv> hit (map fst gs) (flat gs) f"
  defines "q \<equiv> best P (flat gs) (length (flat gs))"
  shows "\<exists>r u x. add_new_entry t m fe a fl = Some (r, u, x) \<and> (r < 0 \<longrightarrow> u = t) \<and>
     (0 \<le> r \<longrightarrow> (\<exists>c' v. apply_action as mp val c u f =
        (if matches (stored_mask gs m) f (stored_entry gs m fe) \<and> goes_first P (flat gs) (prio fe) (nat r)
         then Some (1, c', v, actions_of (take 2 fl) (take 31 a))
         else Some (if q = None then - 1 else 1, c', v, applied t q))))"
proof -
  have c: "length (flow_cache c) = 5" "cache_top c = 1" using assms(10,11) init_ok[OF assms(10)] by auto
  consider r x where "r < 0" "add_new_entry t m fe a fl = Some (r, t, x)"
    | s u hs x where "add_new_entry t m fe a fl = Some (int s, u, x)"
      "has_row t gs s (stored_mask gs m) (stored_entry gs m fe) (take 31 a) (take 2 fl) u hs"
    using add_new_entry_row[OF assms(1-5)] by blast
  then show ?thesis
  proof cases
    case 1
    then show ?thesis by auto
  next
    case 2
    note row = 2(2)[unfolded has_row_def]
    have e: "46 \<le> length (stored_entry gs m fe)" "prio (stored_entry gs m fe) = prio fe"
      using assms(3) by (simp_all add: stored_entry_def prio_def put_bit_def)
    have n: "length (actions t) = length (flat gs)" "length (flags t) = length (flat gs)"
      using assms(1) by (simp_all add: actions_def flags_def tcam_abs_def)
    have s: "applied u (Some s) = actions_of (take 2 fl) (take 31 a)"
      using row n by (simp add: applied_def nth_append)
    have old: "applied u (map_option (moved s) q) = applied t q"
      using row n best_Some[of P "flat gs" "length (flat gs)"]
      by (auto simp: applied_def q_def moved_def nth_append split: option.split)
    note best_has_row[OF assms(1) 2(2) e(1), of f, folded P_def, folded q_def, unfolded e(2)]
    with apply_action_ok[OF conjunct1[OF row] assms(6-9) c] 2(1) s old show ?thesis by (auto simp del: applied_def)
  qed
qed

text \<open>Here an older entry agrees with the flow too, and the new one goes first by its priority.\<close>

theorem added_entry_is_applied_witness:
  "\<exists>u x c' v. add_new_entry (example_tcam 1 1) (replicate 45 1) (replicate 46 1) (replicate 31 2) [1, 0] = Some (1, u, x) \<and>
     apply_action (replicate 31 0) [0, 0] (replicate 6 0) \<lparr>flow_cache = replicate 5 (- 1, 0), cache_top = 1\<rparr> u
       (replicate 45 1) = Some (1, c', v, actions_of [1, 0] (replicate 31 2))"
proof -
  let ?gs = "[(replicate 45 0, [replicate 48 0])] :: mgroup list" and ?c = "\<lparr>flow_cache = replicate 5 (0, 0), cache_top = 0\<rparr>"
  have new: "replicate 45 1 \<notin> fst ` set ?gs" by (simp add: replicate_eq_replicate)
  obtain w y where add: "add_new_entry (example_tcam 1 1) (replicate 45 1) (replicate 46 1) (replicate 31 2) [1, 0] = Some (1, w, y)"
    using add_new_entry_new[OF example_abs_one _ _ new, of "replicate 46 1" "replicate 31 2" "[1, 0]"] by auto
  have i: "init ?c = Some \<lparr>flow_cache = replicate 5 (- 1, 0), cache_top = 1\<rparr>" by (simp add: init_ok)
  have "abit (put_bit 356 True (replicate 46 1)) q = (q mod 8 = 7)" if "q < 356" for q
    using that by (simp add: abit_put_bit abit_ones)
  moreover have "abit (unused_reset (replicate 45 1)) q \<longrightarrow> q < 356" if "q < 360" for q
    using that by (cases "q = 356") (auto simp: unused_reset_def abit_put_bits abit_ones)
  ultimately have "matches (stored_mask ?gs (replicate 45 1)) (replicate 45 1) (stored_entry ?gs (replicate 45 1) (replicate 46 1))"
    using new by (auto simp: matches_def stored_mask_def stored_entry_def abit_ones)
  moreover have "goes_first (hit (map fst ?gs) (flat ?gs) (replicate 45 1)) (flat ?gs) (prio (replicate 46 1)) (nat 1)"
    by (simp add: goes_first_def prio_def)
  ultimately show ?thesis
    using added_entry_is_applied[OF example_abs_one, of "replicate 45 1" "replicate 46 1" "replicate 31 2" "[1, 0]"
        "replicate 45 1" "[0, 0]" "replicate 31 0" "replicate 6 0" ?c] i add by auto
qed

end
