(* ===== verification/Ovs_Structs.thy ===== *)
theory Ovs_Structs
  imports C_Layout
begin

text \<open>
  \<^verbatim>\<open>include/openflow/\<close>: the structures of the seven headers of Open vSwitch, one definition for each, in
  the order of the files. Their integers in network order come from a header that is not in the
  repository, so the four types are parameters: the record \<open>ovs_types\<close>. What that header documents
  of them is \<open>documented\<close>. A structure whose name the program's own header uses too has \<open>_ovs\<close> behind it.
\<close>

record ovs_types =
  ovs_be16 :: cty
  ovs_be32 :: cty
  ovs_be64 :: cty
  ovs_32aligned_be64 :: cty

text \<open>Two, four and eight bytes, aligned to their size; the last is aligned to four bytes only.\<close>

definition documented :: "ovs_types \<Rightarrow> bool" where
  "documented v \<longleftrightarrow>
     layout (ovs_be16 v) = (2, 2) \<and> layout (ovs_be32 v) = (4, 4) \<and>
     layout (ovs_be64 v) = (8, 8) \<and> layout (ovs_32aligned_be64 v) = (8, 4) \<and>
     wire_size (ovs_be16 v) = 2 \<and> wire_size (ovs_be32 v) = 4 \<and>
     wire_size (ovs_be64 v) = 8 \<and> wire_size (ovs_32aligned_be64 v) = 8 \<and>
     scalars_ok (ovs_be16 v) \<and> scalars_ok (ovs_be32 v) \<and> scalars_ok (ovs_be64 v) \<and> scalars_ok (ovs_32aligned_be64 v)"

definition plain_types :: ovs_types where
  "plain_types = \<lparr>ovs_be16 = Scalar 2, ovs_be32 = Scalar 4, ovs_be64 = Scalar 8,
     ovs_32aligned_be64 = Struct [(''hi'', Scalar 4), (''lo'', Scalar 4)]\<rparr>"

lemma plain_documented: "documented plain_types"
  by (simp add: documented_def plain_types_def round_up_def)

section \<open>Lengths\<close>

definition OFP_MAX_TABLE_NAME_LEN_ovs :: nat where "OFP_MAX_TABLE_NAME_LEN_ovs = 32"
definition OFP_MAX_PORT_NAME_LEN_ovs :: nat where "OFP_MAX_PORT_NAME_LEN_ovs = 16"
definition OFP_ETH_ALEN_ovs :: nat where "OFP_ETH_ALEN_ovs = 6"
definition DESC_STR_LEN_ovs :: nat where "DESC_STR_LEN_ovs = 256"
definition SERIAL_NUM_LEN_ovs :: nat where "SERIAL_NUM_LEN_ovs = 32"
definition OFPMT11_STANDARD_LENGTH :: nat where "OFPMT11_STANDARD_LENGTH = 88"
definition OFPGT12_N_TYPES :: nat where "OFPGT12_N_TYPES = 4"

lemmas ovs_length_defs =
  OFP_MAX_TABLE_NAME_LEN_ovs_def OFP_MAX_PORT_NAME_LEN_ovs_def OFP_ETH_ALEN_ovs_def
  DESC_STR_LEN_ovs_def SERIAL_NUM_LEN_ovs_def OFPMT11_STANDARD_LENGTH_def OFPGT12_N_TYPES_def

section \<open>Common to all versions\<close>

definition ofp_header_ovs :: "ovs_types \<Rightarrow> cty" where
  "ofp_header_ovs v = Struct [(''version'', uint8_t), (''type'', uint8_t),
     (''length'', ovs_be16 v), (''xid'', ovs_be32 v)]"

definition ofp_error_msg_ovs :: "ovs_types \<Rightarrow> cty" where
  "ofp_error_msg_ovs v = Struct [(''type'', ovs_be16 v), (''code'', ovs_be16 v),
     (''data'', Array uint8_t 0)]"

definition ofp_switch_config_ovs :: "ovs_types \<Rightarrow> cty" where
  "ofp_switch_config_ovs v = Struct [(''flags'', ovs_be16 v), (''miss_send_len'', ovs_be16 v)]"

definition ofp_queue_prop_header :: "ovs_types \<Rightarrow> cty" where
  "ofp_queue_prop_header v = Struct [(''property'', ovs_be16 v), (''len'', ovs_be16 v),
     (''pad'', Array uint8_t 4)]"

definition ofp_queue_prop_rate :: "ovs_types \<Rightarrow> cty" where
  "ofp_queue_prop_rate v = Struct [(''prop_header'', ofp_queue_prop_header v),
     (''rate'', ovs_be16 v), (''pad'', Array uint8_t 6)]"

definition ofp_switch_features_ovs :: "ovs_types \<Rightarrow> cty" where
  "ofp_switch_features_ovs v = Struct [(''datapath_id'', ovs_be64 v),
     (''n_buffers'', ovs_be32 v), (''n_tables'', uint8_t), (''auxiliary_id'', uint8_t),
     (''pad'', Array uint8_t 2), (''capabilities'', ovs_be32 v), (''actions'', ovs_be32 v)]"

definition ofp_port_status_ovs :: "ovs_types \<Rightarrow> cty" where
  "ofp_port_status_ovs v = Struct [(''reason'', uint8_t), (''pad'', Array uint8_t 7)]"

definition ofp_desc_stats :: "ovs_types \<Rightarrow> cty" where
  "ofp_desc_stats v = Struct [(''mfr_desc'', Array char_t DESC_STR_LEN_ovs),
     (''hw_desc'', Array char_t DESC_STR_LEN_ovs), (''sw_desc'', Array char_t DESC_STR_LEN_ovs),
     (''serial_num'', Array char_t SERIAL_NUM_LEN_ovs),
     (''dp_desc'', Array char_t DESC_STR_LEN_ovs)]"

definition ofp_aggregate_stats_reply_ovs :: "ovs_types \<Rightarrow> cty" where
  "ofp_aggregate_stats_reply_ovs v = Struct [(''packet_count'', ovs_32aligned_be64 v),
     (''byte_count'', ovs_32aligned_be64 v), (''flow_count'', ovs_be32 v),
     (''pad'', Array uint8_t 4)]"

definition ofp_hello_elem_header_ovs :: "ovs_types \<Rightarrow> cty" where
  "ofp_hello_elem_header_ovs v = Struct [(''type'', ovs_be16 v), (''length'', ovs_be16 v)]"

definition ofp_vendor_header :: "ovs_types \<Rightarrow> cty" where
  "ofp_vendor_header v = Struct [(''header'', ofp_header_ovs v), (''vendor'', ovs_be32 v)]"

section \<open>Version 1.0\<close>

definition ofp10_phy_port :: "ovs_types \<Rightarrow> cty" where
  "ofp10_phy_port v = Struct [(''port_no'', ovs_be16 v),
     (''hw_addr'', Array uint8_t OFP_ETH_ALEN_ovs),
     (''name'', Array char_t OFP_MAX_PORT_NAME_LEN_ovs), (''config'', ovs_be32 v),
     (''state'', ovs_be32 v), (''curr'', ovs_be32 v), (''advertised'', ovs_be32 v),
     (''supported'', ovs_be32 v), (''peer'', ovs_be32 v)]"

definition ofp10_port_mod :: "ovs_types \<Rightarrow> cty" where
  "ofp10_port_mod v = Struct [(''port_no'', ovs_be16 v),
     (''hw_addr'', Array uint8_t OFP_ETH_ALEN_ovs), (''config'', ovs_be32 v),
     (''mask'', ovs_be32 v), (''advertise'', ovs_be32 v), (''pad'', Array uint8_t 4)]"

definition ofp10_packet_queue :: "ovs_types \<Rightarrow> cty" where
  "ofp10_packet_queue v = Struct [(''queue_id'', ovs_be32 v), (''len'', ovs_be16 v),
     (''pad'', Array uint8_t 2)]"

definition ofp10_queue_get_config_request :: "ovs_types \<Rightarrow> cty" where
  "ofp10_queue_get_config_request v = Struct [(''port'', ovs_be16 v), (''pad'', Array uint8_t 2)]"

definition ofp10_queue_get_config_reply :: "ovs_types \<Rightarrow> cty" where
  "ofp10_queue_get_config_reply v = Struct [(''port'', ovs_be16 v), (''pad'', Array uint8_t 6)]"

definition ofp10_packet_in :: "ovs_types \<Rightarrow> cty" where
  "ofp10_packet_in v = Struct [(''buffer_id'', ovs_be32 v), (''total_len'', ovs_be16 v),
     (''in_port'', ovs_be16 v), (''reason'', uint8_t), (''pad'', uint8_t),
     (''data'', Array uint8_t 0)]"

definition ofp10_packet_out :: "ovs_types \<Rightarrow> cty" where
  "ofp10_packet_out v = Struct [(''buffer_id'', ovs_be32 v), (''in_port'', ovs_be16 v),
     (''actions_len'', ovs_be16 v)]"

definition ofp10_match :: "ovs_types \<Rightarrow> cty" where
  "ofp10_match v = Struct [(''wildcards'', ovs_be32 v), (''in_port'', ovs_be16 v),
     (''dl_src'', Array uint8_t OFP_ETH_ALEN_ovs), (''dl_dst'', Array uint8_t OFP_ETH_ALEN_ovs),
     (''dl_vlan'', ovs_be16 v), (''dl_vlan_pcp'', uint8_t), (''pad1'', Array uint8_t 1),
     (''dl_type'', ovs_be16 v), (''nw_tos'', uint8_t), (''nw_proto'', uint8_t),
     (''pad2'', Array uint8_t 2), (''nw_src'', ovs_be32 v), (''nw_dst'', ovs_be32 v),
     (''tp_src'', ovs_be16 v), (''tp_dst'', ovs_be16 v)]"

definition ofp10_flow_mod :: "ovs_types \<Rightarrow> cty" where
  "ofp10_flow_mod v = Struct [(''match'', ofp10_match v), (''cookie'', ovs_be64 v),
     (''command'', ovs_be16 v), (''idle_timeout'', ovs_be16 v), (''hard_timeout'', ovs_be16 v),
     (''priority'', ovs_be16 v), (''buffer_id'', ovs_be32 v), (''out_port'', ovs_be16 v),
     (''flags'', ovs_be16 v)]"

definition ofp10_flow_removed :: "ovs_types \<Rightarrow> cty" where
  "ofp10_flow_removed v = Struct [(''match'', ofp10_match v), (''cookie'', ovs_be64 v),
     (''priority'', ovs_be16 v), (''reason'', uint8_t), (''pad'', Array uint8_t 1),
     (''duration_sec'', ovs_be32 v), (''duration_nsec'', ovs_be32 v),
     (''idle_timeout'', ovs_be16 v), (''pad2'', Array uint8_t 2), (''packet_count'', ovs_be64 v),
     (''byte_count'', ovs_be64 v)]"

definition ofp10_stats_msg :: "ovs_types \<Rightarrow> cty" where
  "ofp10_stats_msg v = Struct [(''header'', ofp_header_ovs v), (''type'', ovs_be16 v),
     (''flags'', ovs_be16 v)]"

definition ofp10_flow_stats_request :: "ovs_types \<Rightarrow> cty" where
  "ofp10_flow_stats_request v = Struct [(''match'', ofp10_match v), (''table_id'', uint8_t),
     (''pad'', uint8_t), (''out_port'', ovs_be16 v)]"

definition ofp10_flow_stats :: "ovs_types \<Rightarrow> cty" where
  "ofp10_flow_stats v = Struct [(''length'', ovs_be16 v), (''table_id'', uint8_t),
     (''pad'', uint8_t), (''match'', ofp10_match v), (''duration_sec'', ovs_be32 v),
     (''duration_nsec'', ovs_be32 v), (''priority'', ovs_be16 v), (''idle_timeout'', ovs_be16 v),
     (''hard_timeout'', ovs_be16 v), (''pad2'', Array uint8_t 6),
     (''cookie'', ovs_32aligned_be64 v), (''packet_count'', ovs_32aligned_be64 v),
     (''byte_count'', ovs_32aligned_be64 v)]"

definition ofp10_table_stats :: "ovs_types \<Rightarrow> cty" where
  "ofp10_table_stats v = Struct [(''table_id'', uint8_t), (''pad'', Array uint8_t 3),
     (''name'', Array char_t OFP_MAX_TABLE_NAME_LEN_ovs), (''wildcards'', ovs_be32 v),
     (''max_entries'', ovs_be32 v), (''active_count'', ovs_be32 v),
     (''lookup_count'', ovs_32aligned_be64 v), (''matched_count'', ovs_32aligned_be64 v)]"

definition ofp10_port_stats_request :: "ovs_types \<Rightarrow> cty" where
  "ofp10_port_stats_request v = Struct [(''port_no'', ovs_be16 v), (''pad'', Array uint8_t 6)]"

definition ofp10_port_stats :: "ovs_types \<Rightarrow> cty" where
  "ofp10_port_stats v = Struct [(''port_no'', ovs_be16 v), (''pad'', Array uint8_t 6),
     (''rx_packets'', ovs_32aligned_be64 v), (''tx_packets'', ovs_32aligned_be64 v),
     (''rx_bytes'', ovs_32aligned_be64 v), (''tx_bytes'', ovs_32aligned_be64 v),
     (''rx_dropped'', ovs_32aligned_be64 v), (''tx_dropped'', ovs_32aligned_be64 v),
     (''rx_errors'', ovs_32aligned_be64 v), (''tx_errors'', ovs_32aligned_be64 v),
     (''rx_frame_err'', ovs_32aligned_be64 v), (''rx_over_err'', ovs_32aligned_be64 v),
     (''rx_crc_err'', ovs_32aligned_be64 v), (''collisions'', ovs_32aligned_be64 v)]"

definition ofp10_queue_stats_request :: "ovs_types \<Rightarrow> cty" where
  "ofp10_queue_stats_request v = Struct [(''port_no'', ovs_be16 v), (''pad'', Array uint8_t 2),
     (''queue_id'', ovs_be32 v)]"

definition ofp10_queue_stats :: "ovs_types \<Rightarrow> cty" where
  "ofp10_queue_stats v = Struct [(''port_no'', ovs_be16 v), (''pad'', Array uint8_t 2),
     (''queue_id'', ovs_be32 v), (''tx_bytes'', ovs_32aligned_be64 v),
     (''tx_packets'', ovs_32aligned_be64 v), (''tx_errors'', ovs_32aligned_be64 v)]"

definition ofp10_vendor_stats_msg :: "ovs_types \<Rightarrow> cty" where
  "ofp10_vendor_stats_msg v = Struct [(''osm'', ofp10_stats_msg v), (''vendor'', ovs_be32 v)]"

section \<open>Version 1.1\<close>

definition ofp11_port :: "ovs_types \<Rightarrow> cty" where
  "ofp11_port v = Struct [(''port_no'', ovs_be32 v), (''pad'', Array uint8_t 4),
     (''hw_addr'', Array uint8_t OFP_ETH_ALEN_ovs), (''pad2'', Array uint8_t 2),
     (''name'', Array char_t OFP_MAX_PORT_NAME_LEN_ovs), (''config'', ovs_be32 v),
     (''state'', ovs_be32 v), (''curr'', ovs_be32 v), (''advertised'', ovs_be32 v),
     (''supported'', ovs_be32 v), (''peer'', ovs_be32 v), (''curr_speed'', ovs_be32 v),
     (''max_speed'', ovs_be32 v)]"

definition ofp11_port_mod :: "ovs_types \<Rightarrow> cty" where
  "ofp11_port_mod v = Struct [(''port_no'', ovs_be32 v), (''pad'', Array uint8_t 4),
     (''hw_addr'', Array uint8_t OFP_ETH_ALEN_ovs), (''pad2'', Array uint8_t 2),
     (''config'', ovs_be32 v), (''mask'', ovs_be32 v), (''advertise'', ovs_be32 v),
     (''pad3'', Array uint8_t 4)]"

definition ofp11_group_mod :: "ovs_types \<Rightarrow> cty" where
  "ofp11_group_mod v = Struct [(''command'', ovs_be16 v), (''type'', uint8_t),
     (''pad'', uint8_t), (''group_id'', ovs_be32 v)]"

definition ofp11_queue_get_config_request :: "ovs_types \<Rightarrow> cty" where
  "ofp11_queue_get_config_request v = Struct [(''port'', ovs_be32 v), (''pad'', Array uint8_t 4)]"

definition ofp11_match_header :: "ovs_types \<Rightarrow> cty" where
  "ofp11_match_header v = Struct [(''type'', ovs_be16 v), (''length'', ovs_be16 v)]"

definition ofp11_match :: "ovs_types \<Rightarrow> cty" where
  "ofp11_match v = Struct [(''omh'', ofp11_match_header v), (''in_port'', ovs_be32 v),
     (''wildcards'', ovs_be32 v), (''dl_src'', Array uint8_t OFP_ETH_ALEN_ovs),
     (''dl_src_mask'', Array uint8_t OFP_ETH_ALEN_ovs),
     (''dl_dst'', Array uint8_t OFP_ETH_ALEN_ovs),
     (''dl_dst_mask'', Array uint8_t OFP_ETH_ALEN_ovs), (''dl_vlan'', ovs_be16 v),
     (''dl_vlan_pcp'', uint8_t), (''pad1'', Array uint8_t 1), (''dl_type'', ovs_be16 v),
     (''nw_tos'', uint8_t), (''nw_proto'', uint8_t), (''nw_src'', ovs_be32 v),
     (''nw_src_mask'', ovs_be32 v), (''nw_dst'', ovs_be32 v), (''nw_dst_mask'', ovs_be32 v),
     (''tp_src'', ovs_be16 v), (''tp_dst'', ovs_be16 v), (''mpls_label'', ovs_be32 v),
     (''mpls_tc'', uint8_t), (''pad2'', Array uint8_t 3), (''metadata'', ovs_be64 v),
     (''metadata_mask'', ovs_be64 v)]"

definition ofp11_instruction :: "ovs_types \<Rightarrow> cty" where
  "ofp11_instruction v = Struct [(''type'', ovs_be16 v), (''len'', ovs_be16 v),
     (''pad'', Array uint8_t 4)]"

definition ofp11_instruction_goto_table :: "ovs_types \<Rightarrow> cty" where
  "ofp11_instruction_goto_table v = Struct [(''type'', ovs_be16 v), (''len'', ovs_be16 v),
     (''table_id'', uint8_t), (''pad'', Array uint8_t 3)]"

definition ofp11_instruction_write_metadata :: "ovs_types \<Rightarrow> cty" where
  "ofp11_instruction_write_metadata v = Struct [(''type'', ovs_be16 v), (''len'', ovs_be16 v),
     (''pad'', Array uint8_t 4), (''metadata'', ovs_be64 v), (''metadata_mask'', ovs_be64 v)]"

definition ofp11_instruction_actions :: "ovs_types \<Rightarrow> cty" where
  "ofp11_instruction_actions v = Struct [(''type'', ovs_be16 v), (''len'', ovs_be16 v),
     (''pad'', Array uint8_t 4)]"

definition ofp11_instruction_experimenter :: "ovs_types \<Rightarrow> cty" where
  "ofp11_instruction_experimenter v = Struct [(''type'', ovs_be16 v), (''len'', ovs_be16 v),
     (''experimenter'', ovs_be32 v)]"

definition ofp11_table_mod :: "ovs_types \<Rightarrow> cty" where
  "ofp11_table_mod v = Struct [(''table_id'', uint8_t), (''pad'', Array uint8_t 3),
     (''config'', ovs_be32 v)]"

definition ofp11_flow_mod :: "ovs_types \<Rightarrow> cty" where
  "ofp11_flow_mod v = Struct [(''cookie'', ovs_be64 v), (''cookie_mask'', ovs_be64 v),
     (''table_id'', uint8_t), (''command'', uint8_t), (''idle_timeout'', ovs_be16 v),
     (''hard_timeout'', ovs_be16 v), (''priority'', ovs_be16 v), (''buffer_id'', ovs_be32 v),
     (''out_port'', ovs_be32 v), (''out_group'', ovs_be32 v), (''flags'', ovs_be16 v),
     (''importance'', ovs_be16 v)]"

definition ofp11_bucket :: "ovs_types \<Rightarrow> cty" where
  "ofp11_bucket v = Struct [(''len'', ovs_be16 v), (''weight'', ovs_be16 v),
     (''watch_port'', ovs_be32 v), (''watch_group'', ovs_be32 v), (''pad'', Array uint8_t 4)]"

definition ofp11_queue_get_config_reply :: "ovs_types \<Rightarrow> cty" where
  "ofp11_queue_get_config_reply v = Struct [(''port'', ovs_be32 v), (''pad'', Array uint8_t 4)]"

definition ofp11_stats_msg :: "ovs_types \<Rightarrow> cty" where
  "ofp11_stats_msg v = Struct [(''header'', ofp_header_ovs v), (''type'', ovs_be16 v),
     (''flags'', ovs_be16 v), (''pad'', Array uint8_t 4)]"

definition ofp11_vendor_stats_msg :: "ovs_types \<Rightarrow> cty" where
  "ofp11_vendor_stats_msg v = Struct [(''osm'', ofp11_stats_msg v), (''vendor'', ovs_be32 v)]"

definition ofp11_flow_stats_request :: "ovs_types \<Rightarrow> cty" where
  "ofp11_flow_stats_request v = Struct [(''table_id'', uint8_t), (''pad'', Array uint8_t 3),
     (''out_port'', ovs_be32 v), (''out_group'', ovs_be32 v), (''pad2'', Array uint8_t 4),
     (''cookie'', ovs_be64 v), (''cookie_mask'', ovs_be64 v)]"

definition ofp11_flow_stats :: "ovs_types \<Rightarrow> cty" where
  "ofp11_flow_stats v = Struct [(''length'', ovs_be16 v), (''table_id'', uint8_t),
     (''pad'', uint8_t), (''duration_sec'', ovs_be32 v), (''duration_nsec'', ovs_be32 v),
     (''priority'', ovs_be16 v), (''idle_timeout'', ovs_be16 v), (''hard_timeout'', ovs_be16 v),
     (''flags'', ovs_be16 v), (''importance'', ovs_be16 v), (''pad2'', Array uint8_t 2),
     (''cookie'', ovs_be64 v), (''packet_count'', ovs_be64 v), (''byte_count'', ovs_be64 v)]"

definition ofp11_table_stats :: "ovs_types \<Rightarrow> cty" where
  "ofp11_table_stats v = Struct [(''table_id'', uint8_t), (''pad'', Array uint8_t 7),
     (''name'', Array char_t OFP_MAX_TABLE_NAME_LEN_ovs), (''wildcards'', ovs_be32 v),
     (''match'', ovs_be32 v), (''instructions'', ovs_be32 v), (''write_actions'', ovs_be32 v),
     (''apply_actions'', ovs_be32 v), (''config'', ovs_be32 v), (''max_entries'', ovs_be32 v),
     (''active_count'', ovs_be32 v), (''lookup_count'', ovs_be64 v),
     (''matched_count'', ovs_be64 v)]"

definition ofp11_port_stats_request :: "ovs_types \<Rightarrow> cty" where
  "ofp11_port_stats_request v = Struct [(''port_no'', ovs_be32 v), (''pad'', Array uint8_t 4)]"

definition ofp11_port_stats :: "ovs_types \<Rightarrow> cty" where
  "ofp11_port_stats v = Struct [(''port_no'', ovs_be32 v), (''pad'', Array uint8_t 4),
     (''rx_packets'', ovs_be64 v), (''tx_packets'', ovs_be64 v), (''rx_bytes'', ovs_be64 v),
     (''tx_bytes'', ovs_be64 v), (''rx_dropped'', ovs_be64 v), (''tx_dropped'', ovs_be64 v),
     (''rx_errors'', ovs_be64 v), (''tx_errors'', ovs_be64 v), (''rx_frame_err'', ovs_be64 v),
     (''rx_over_err'', ovs_be64 v), (''rx_crc_err'', ovs_be64 v), (''collisions'', ovs_be64 v)]"

definition ofp11_queue_stats_request :: "ovs_types \<Rightarrow> cty" where
  "ofp11_queue_stats_request v = Struct [(''port_no'', ovs_be32 v), (''queue_id'', ovs_be32 v)]"

definition ofp11_queue_stats :: "ovs_types \<Rightarrow> cty" where
  "ofp11_queue_stats v = Struct [(''port_no'', ovs_be32 v), (''queue_id'', ovs_be32 v),
     (''tx_bytes'', ovs_be64 v), (''tx_packets'', ovs_be64 v), (''tx_errors'', ovs_be64 v)]"

definition ofp11_group_stats_request :: "ovs_types \<Rightarrow> cty" where
  "ofp11_group_stats_request v = Struct [(''group_id'', ovs_be32 v), (''pad'', Array uint8_t 4)]"

definition ofp11_bucket_counter :: "ovs_types \<Rightarrow> cty" where
  "ofp11_bucket_counter v = Struct [(''packet_count'', ovs_be64 v), (''byte_count'', ovs_be64 v)]"

definition ofp11_group_stats :: "ovs_types \<Rightarrow> cty" where
  "ofp11_group_stats v = Struct [(''length'', ovs_be16 v), (''pad'', Array uint8_t 2),
     (''group_id'', ovs_be32 v), (''ref_count'', ovs_be32 v), (''pad2'', Array uint8_t 4),
     (''packet_count'', ovs_be64 v), (''byte_count'', ovs_be64 v)]"

definition ofp11_group_desc_stats :: "ovs_types \<Rightarrow> cty" where
  "ofp11_group_desc_stats v = Struct [(''length'', ovs_be16 v), (''type'', uint8_t),
     (''pad'', uint8_t), (''group_id'', ovs_be32 v)]"

definition ofp11_packet_out :: "ovs_types \<Rightarrow> cty" where
  "ofp11_packet_out v = Struct [(''buffer_id'', ovs_be32 v), (''in_port'', ovs_be32 v),
     (''actions_len'', ovs_be16 v), (''pad'', Array uint8_t 6)]"

definition ofp11_packet_in :: "ovs_types \<Rightarrow> cty" where
  "ofp11_packet_in v = Struct [(''buffer_id'', ovs_be32 v), (''in_port'', ovs_be32 v),
     (''in_phy_port'', ovs_be32 v), (''total_len'', ovs_be16 v), (''reason'', uint8_t),
     (''table_id'', uint8_t)]"

definition ofp11_flow_removed :: "ovs_types \<Rightarrow> cty" where
  "ofp11_flow_removed v = Struct [(''cookie'', ovs_be64 v), (''priority'', ovs_be16 v),
     (''reason'', uint8_t), (''table_id'', uint8_t), (''duration_sec'', ovs_be32 v),
     (''duration_nsec'', ovs_be32 v), (''idle_timeout'', ovs_be16 v),
     (''pad2'', Array uint8_t 2), (''packet_count'', ovs_be64 v), (''byte_count'', ovs_be64 v)]"

section \<open>Version 1.2\<close>

definition ofp12_oxm_experimenter_header :: "ovs_types \<Rightarrow> cty" where
  "ofp12_oxm_experimenter_header v = Struct [(''oxm_header'', ovs_be32 v),
     (''experimenter'', ovs_be32 v)]"

definition ofp12_packet_queue :: "ovs_types \<Rightarrow> cty" where
  "ofp12_packet_queue v = Struct [(''queue_id'', ovs_be32 v), (''port'', ovs_be32 v),
     (''len'', ovs_be16 v), (''pad'', Array uint8_t 6)]"

definition ofp12_table_stats :: "ovs_types \<Rightarrow> cty" where
  "ofp12_table_stats v = Struct [(''table_id'', uint8_t), (''pad'', Array uint8_t 7),
     (''name'', Array char_t OFP_MAX_TABLE_NAME_LEN_ovs), (''match'', ovs_be64 v),
     (''wildcards'', ovs_be64 v), (''write_actions'', ovs_be32 v),
     (''apply_actions'', ovs_be32 v), (''write_setfields'', ovs_be64 v),
     (''apply_setfields'', ovs_be64 v), (''metadata_match'', ovs_be64 v),
     (''metadata_write'', ovs_be64 v), (''instructions'', ovs_be32 v), (''config'', ovs_be32 v),
     (''max_entries'', ovs_be32 v), (''active_count'', ovs_be32 v),
     (''lookup_count'', ovs_be64 v), (''matched_count'', ovs_be64 v)]"

definition ofp12_group_features_stats :: "ovs_types \<Rightarrow> cty" where
  "ofp12_group_features_stats v = Struct [(''types'', ovs_be32 v),
     (''capabilities'', ovs_be32 v), (''max_groups'', Array (ovs_be32 v) OFPGT12_N_TYPES),
     (''actions'', Array (ovs_be32 v) OFPGT12_N_TYPES)]"

definition ofp12_experimenter_stats_header :: "ovs_types \<Rightarrow> cty" where
  "ofp12_experimenter_stats_header v = Struct [(''experimenter'', ovs_be32 v),
     (''exp_type'', ovs_be32 v)]"

definition ofp12_role_request :: "ovs_types \<Rightarrow> cty" where
  "ofp12_role_request v = Struct [(''role'', ovs_be32 v), (''pad'', Array uint8_t 4),
     (''generation_id'', ovs_be64 v)]"

definition ofp12_packet_in :: "ovs_types \<Rightarrow> cty" where
  "ofp12_packet_in v = Struct [(''buffer_id'', ovs_be32 v), (''total_len'', ovs_be16 v),
     (''reason'', uint8_t), (''table_id'', uint8_t)]"

definition ofp12_flow_removed :: "ovs_types \<Rightarrow> cty" where
  "ofp12_flow_removed v = Struct [(''cookie'', ovs_be64 v), (''priority'', ovs_be16 v),
     (''reason'', uint8_t), (''table_id'', uint8_t), (''duration_sec'', ovs_be32 v),
     (''duration_nsec'', ovs_be32 v), (''idle_timeout'', ovs_be16 v),
     (''hard_timeout'', ovs_be16 v), (''packet_count'', ovs_be64 v), (''byte_count'', ovs_be64 v)]"

section \<open>Version 1.3\<close>

definition ofp13_instruction_meter :: "ovs_types \<Rightarrow> cty" where
  "ofp13_instruction_meter v = Struct [(''type'', ovs_be16 v), (''len'', ovs_be16 v),
     (''meter_id'', ovs_be32 v)]"

definition ofp13_meter_band_header :: "ovs_types \<Rightarrow> cty" where
  "ofp13_meter_band_header v = Struct [(''type'', ovs_be16 v), (''len'', ovs_be16 v),
     (''rate'', ovs_be32 v), (''burst_size'', ovs_be32 v)]"

definition ofp13_meter_mod :: "ovs_types \<Rightarrow> cty" where
  "ofp13_meter_mod v = Struct [(''command'', ovs_be16 v), (''flags'', ovs_be16 v),
     (''meter_id'', ovs_be32 v)]"

definition ofp13_meter_band_drop :: "ovs_types \<Rightarrow> cty" where
  "ofp13_meter_band_drop v = Struct [(''type'', ovs_be16 v), (''len'', ovs_be16 v),
     (''rate'', ovs_be32 v), (''burst_size'', ovs_be32 v), (''pad'', Array uint8_t 4)]"

definition ofp13_meter_band_dscp_remark :: "ovs_types \<Rightarrow> cty" where
  "ofp13_meter_band_dscp_remark v = Struct [(''type'', ovs_be16 v), (''len'', ovs_be16 v),
     (''rate'', ovs_be32 v), (''burst_size'', ovs_be32 v), (''prec_level'', uint8_t),
     (''pad'', Array uint8_t 3)]"

definition ofp13_meter_band_experimenter :: "ovs_types \<Rightarrow> cty" where
  "ofp13_meter_band_experimenter v = Struct [(''type'', ovs_be16 v), (''len'', ovs_be16 v),
     (''rate'', ovs_be32 v), (''burst_size'', ovs_be32 v), (''experimenter'', ovs_be32 v)]"

definition ofp13_table_stats :: "ovs_types \<Rightarrow> cty" where
  "ofp13_table_stats v = Struct [(''table_id'', uint8_t), (''pad'', Array uint8_t 3),
     (''active_count'', ovs_be32 v), (''lookup_count'', ovs_be64 v),
     (''matched_count'', ovs_be64 v)]"

definition ofp13_table_feature_prop_header :: "ovs_types \<Rightarrow> cty" where
  "ofp13_table_feature_prop_header v = Struct [(''type'', ovs_be16 v), (''length'', ovs_be16 v)]"

definition ofp13_table_features :: "ovs_types \<Rightarrow> cty" where
  "ofp13_table_features v = Struct [(''length'', ovs_be16 v), (''table_id'', uint8_t),
     (''pad'', Array uint8_t 5), (''name'', Array char_t OFP_MAX_TABLE_NAME_LEN_ovs),
     (''metadata_match'', ovs_be64 v), (''metadata_write'', ovs_be64 v),
     (''config'', ovs_be32 v), (''max_entries'', ovs_be32 v)]"

definition ofp13_table_feature_prop_instructions :: "ovs_types \<Rightarrow> cty" where
  "ofp13_table_feature_prop_instructions v = Struct [(''type'', ovs_be16 v),
     (''length'', ovs_be16 v)]"

definition ofp13_table_feature_prop_next_tables :: "ovs_types \<Rightarrow> cty" where
  "ofp13_table_feature_prop_next_tables v = Struct [(''type'', ovs_be16 v),
     (''length'', ovs_be16 v)]"

definition ofp13_table_feature_prop_actions :: "ovs_types \<Rightarrow> cty" where
  "ofp13_table_feature_prop_actions v = Struct [(''type'', ovs_be16 v), (''length'', ovs_be16 v)]"

definition ofp13_table_feature_prop_oxm :: "ovs_types \<Rightarrow> cty" where
  "ofp13_table_feature_prop_oxm v = Struct [(''type'', ovs_be16 v), (''length'', ovs_be16 v)]"

definition ofp13_table_feature_prop_experimenter :: "ovs_types \<Rightarrow> cty" where
  "ofp13_table_feature_prop_experimenter v = Struct [(''type'', ovs_be16 v),
     (''length'', ovs_be16 v), (''experimenter'', ovs_be32 v), (''exp_type'', ovs_be32 v)]"

definition ofp13_port_stats :: "ovs_types \<Rightarrow> cty" where
  "ofp13_port_stats v = Struct [(''ps'', ofp11_port_stats v), (''duration_sec'', ovs_be32 v),
     (''duration_nsec'', ovs_be32 v)]"

definition ofp13_queue_stats :: "ovs_types \<Rightarrow> cty" where
  "ofp13_queue_stats v = Struct [(''qs'', ofp11_queue_stats v), (''duration_sec'', ovs_be32 v),
     (''duration_nsec'', ovs_be32 v)]"

definition ofp13_group_stats :: "ovs_types \<Rightarrow> cty" where
  "ofp13_group_stats v = Struct [(''gs'', ofp11_group_stats v), (''duration_sec'', ovs_be32 v),
     (''duration_nsec'', ovs_be32 v)]"

definition ofp13_meter_multipart_request :: "ovs_types \<Rightarrow> cty" where
  "ofp13_meter_multipart_request v = Struct [(''meter_id'', ovs_be32 v),
     (''pad'', Array uint8_t 4)]"

definition ofp13_meter_band_stats :: "ovs_types \<Rightarrow> cty" where
  "ofp13_meter_band_stats v = Struct [(''packet_band_count'', ovs_be64 v),
     (''byte_band_count'', ovs_be64 v)]"

definition ofp13_meter_stats :: "ovs_types \<Rightarrow> cty" where
  "ofp13_meter_stats v = Struct [(''meter_id'', ovs_be32 v), (''len'', ovs_be16 v),
     (''pad'', Array uint8_t 6), (''flow_count'', ovs_be32 v), (''packet_in_count'', ovs_be64 v),
     (''byte_in_count'', ovs_be64 v), (''duration_sec'', ovs_be32 v),
     (''duration_nsec'', ovs_be32 v), (''band_stats'', Array (ofp13_meter_band_stats v) 0)]"

definition ofp13_meter_config :: "ovs_types \<Rightarrow> cty" where
  "ofp13_meter_config v = Struct [(''length'', ovs_be16 v), (''flags'', ovs_be16 v),
     (''meter_id'', ovs_be32 v)]"

definition ofp13_meter_features :: "ovs_types \<Rightarrow> cty" where
  "ofp13_meter_features v = Struct [(''max_meter'', ovs_be32 v), (''band_types'', ovs_be32 v),
     (''capabilities'', ovs_be32 v), (''max_bands'', uint8_t), (''max_color'', uint8_t),
     (''pad'', Array uint8_t 2)]"

definition ofp13_async_config :: "ovs_types \<Rightarrow> cty" where
  "ofp13_async_config v = Struct [(''packet_in_mask'', Array (ovs_be32 v) 2),
     (''port_status_mask'', Array (ovs_be32 v) 2), (''flow_removed_mask'', Array (ovs_be32 v) 2)]"

definition ofp13_packet_in :: "ovs_types \<Rightarrow> cty" where
  "ofp13_packet_in v = Struct [(''pi'', ofp12_packet_in v), (''cookie'', ovs_be64 v)]"

section \<open>Version 1.4\<close>

definition ofp14_port_desc_prop_ethernet :: "ovs_types \<Rightarrow> cty" where
  "ofp14_port_desc_prop_ethernet v = Struct [(''type'', ovs_be16 v), (''length'', ovs_be16 v),
     (''pad'', Array uint8_t 4), (''curr'', ovs_be32 v), (''advertised'', ovs_be32 v),
     (''supported'', ovs_be32 v), (''peer'', ovs_be32 v), (''curr_speed'', ovs_be32 v),
     (''max_speed'', ovs_be32 v)]"

definition ofp14_port :: "ovs_types \<Rightarrow> cty" where
  "ofp14_port v = Struct [(''port_no'', ovs_be32 v), (''length'', ovs_be16 v),
     (''pad'', Array uint8_t 2), (''hw_addr'', Array uint8_t OFP_ETH_ALEN_ovs),
     (''pad2'', Array uint8_t 2), (''name'', Array char_t OFP_MAX_PORT_NAME_LEN_ovs),
     (''config'', ovs_be32 v), (''state'', ovs_be32 v)]"

definition ofp14_port_mod_prop_ethernet :: "ovs_types \<Rightarrow> cty" where
  "ofp14_port_mod_prop_ethernet v = Struct [(''type'', ovs_be16 v), (''length'', ovs_be16 v),
     (''advertise'', ovs_be32 v)]"

definition ofp14_port_mod :: "ovs_types \<Rightarrow> cty" where
  "ofp14_port_mod v = Struct [(''port_no'', ovs_be32 v), (''pad'', Array uint8_t 4),
     (''hw_addr'', Array uint8_t OFP_ETH_ALEN_ovs), (''pad2'', Array uint8_t 2),
     (''config'', ovs_be32 v), (''mask'', ovs_be32 v)]"

definition ofp14_table_mod_prop_eviction :: "ovs_types \<Rightarrow> cty" where
  "ofp14_table_mod_prop_eviction v = Struct [(''type'', ovs_be16 v), (''length'', ovs_be16 v),
     (''flags'', ovs_be32 v)]"

definition ofp14_table_mod_prop_vacancy :: "ovs_types \<Rightarrow> cty" where
  "ofp14_table_mod_prop_vacancy v = Struct [(''type'', ovs_be16 v), (''length'', ovs_be16 v),
     (''vacancy_down'', uint8_t), (''vacancy_up'', uint8_t), (''vacancy'', uint8_t),
     (''pad'', Array uint8_t 1)]"

definition ofp14_table_mod :: "ovs_types \<Rightarrow> cty" where
  "ofp14_table_mod v = Struct [(''table_id'', uint8_t), (''pad'', Array uint8_t 3),
     (''config'', ovs_be32 v)]"

definition ofp14_port_stats_prop_ethernet :: "ovs_types \<Rightarrow> cty" where
  "ofp14_port_stats_prop_ethernet v = Struct [(''type'', ovs_be16 v), (''length'', ovs_be16 v),
     (''pad'', Array uint8_t 4), (''rx_frame_err'', ovs_be64 v), (''rx_over_err'', ovs_be64 v),
     (''rx_crc_err'', ovs_be64 v), (''collisions'', ovs_be64 v)]"

definition ofp14_port_stats :: "ovs_types \<Rightarrow> cty" where
  "ofp14_port_stats v = Struct [(''length'', ovs_be16 v), (''pad'', Array uint8_t 2),
     (''port_no'', ovs_be32 v), (''duration_sec'', ovs_be32 v), (''duration_nsec'', ovs_be32 v),
     (''rx_packets'', ovs_be64 v), (''tx_packets'', ovs_be64 v), (''rx_bytes'', ovs_be64 v),
     (''tx_bytes'', ovs_be64 v), (''rx_dropped'', ovs_be64 v), (''tx_dropped'', ovs_be64 v),
     (''rx_errors'', ovs_be64 v), (''tx_errors'', ovs_be64 v)]"

definition ofp14_queue_stats :: "ovs_types \<Rightarrow> cty" where
  "ofp14_queue_stats v = Struct [(''length'', ovs_be16 v), (''pad'', Array uint8_t 6),
     (''qs'', ofp13_queue_stats v)]"

definition ofp14_async_config_prop_header :: "ovs_types \<Rightarrow> cty" where
  "ofp14_async_config_prop_header v = Struct [(''type'', ovs_be16 v), (''length'', ovs_be16 v)]"

definition ofp14_async_config :: "ovs_types \<Rightarrow> cty" where
  "ofp14_async_config v = Struct [(''header'', ofp_header_ovs v),
     (''properties'', Array (ofp14_async_config_prop_header v) 0)]"

definition ofp14_async_config_prop_reasons :: "ovs_types \<Rightarrow> cty" where
  "ofp14_async_config_prop_reasons v = Struct [(''type'', ovs_be16 v), (''length'', ovs_be16 v),
     (''mask'', ovs_be32 v)]"

definition ofp14_async_config_prop_experimenter :: "ovs_types \<Rightarrow> cty" where
  "ofp14_async_config_prop_experimenter v = Struct [(''type'', ovs_be16 v),
     (''length'', ovs_be16 v), (''experimenter'', ovs_be32 v), (''exp_type'', ovs_be32 v)]"

definition ofp14_role_prop_header :: "ovs_types \<Rightarrow> cty" where
  "ofp14_role_prop_header v = Struct [(''type'', ovs_be16 v), (''length'', ovs_be16 v)]"

definition ofp14_role_status :: "ovs_types \<Rightarrow> cty" where
  "ofp14_role_status v = Struct [(''role'', ovs_be32 v), (''reason'', uint8_t),
     (''pad'', Array uint8_t 3), (''generation_id'', ovs_be64 v)]"

definition ofp14_role_prop_experimenter :: "ovs_types \<Rightarrow> cty" where
  "ofp14_role_prop_experimenter v = Struct [(''type'', ovs_be16 v), (''length'', ovs_be16 v),
     (''experimenter'', ovs_be32 v), (''exp_type'', ovs_be32 v)]"

definition ofp14_bundle_ctrl_msg :: "ovs_types \<Rightarrow> cty" where
  "ofp14_bundle_ctrl_msg v = Struct [(''bundle_id'', ovs_be32 v), (''type'', ovs_be16 v),
     (''flags'', ovs_be16 v)]"

definition ofp14_flow_monitor_request :: "ovs_types \<Rightarrow> cty" where
  "ofp14_flow_monitor_request v = Struct [(''monitor_id'', ovs_be32 v),
     (''out_port'', ovs_be32 v), (''out_group'', ovs_be32 v), (''flags'', ovs_be16 v),
     (''table_id'', uint8_t), (''command'', uint8_t)]"

section \<open>Version 1.5\<close>

definition ofp15_group_bucket_prop_weight :: "ovs_types \<Rightarrow> cty" where
  "ofp15_group_bucket_prop_weight v = Struct [(''type'', ovs_be16 v), (''length'', ovs_be16 v),
     (''weight'', ovs_be16 v), (''pad'', Array uint8_t 2)]"

definition ofp15_group_bucket_prop_watch :: "ovs_types \<Rightarrow> cty" where
  "ofp15_group_bucket_prop_watch v = Struct [(''type'', ovs_be16 v), (''length'', ovs_be16 v),
     (''watch'', ovs_be32 v)]"

definition ofp15_bucket :: "ovs_types \<Rightarrow> cty" where
  "ofp15_bucket v = Struct [(''len'', ovs_be16 v), (''action_array_len'', ovs_be16 v),
     (''bucket_id'', ovs_be32 v)]"

definition ofp15_group_mod :: "ovs_types \<Rightarrow> cty" where
  "ofp15_group_mod v = Struct [(''command'', ovs_be16 v), (''type'', uint8_t),
     (''pad'', uint8_t), (''group_id'', ovs_be32 v), (''bucket_array_len'', ovs_be16 v),
     (''pad1'', Array uint8_t 2), (''command_bucket_id'', ovs_be32 v)]"

definition ofp15_group_desc_stats :: "ovs_types \<Rightarrow> cty" where
  "ofp15_group_desc_stats v = Struct [(''length'', ovs_be16 v), (''type'', uint8_t),
     (''pad'', uint8_t), (''group_id'', ovs_be32 v), (''bucket_list_len'', ovs_be16 v),
     (''pad2'', Array uint8_t 6)]"

section \<open>The asserted sizes\<close>

text \<open>One list for each file.\<close>

definition asserts_common :: "ovs_types \<Rightarrow> (cty \<times> nat) list" where
  "asserts_common v = [
     (ofp_header_ovs v, 8), (ofp_error_msg_ovs v, 4), (ofp_switch_config_ovs v, 4),
     (ofp_queue_prop_header v, 8), (ofp_queue_prop_rate v, 16), (ofp_switch_features_ovs v, 24),
     (ofp_port_status_ovs v, 8), (ofp_desc_stats v, 1056), (ofp_aggregate_stats_reply_ovs v, 24),
     (ofp_hello_elem_header_ovs v, 4), (ofp_vendor_header v, 12)]"

definition asserts_1_0 :: "ovs_types \<Rightarrow> (cty \<times> nat) list" where
  "asserts_1_0 v = [
     (ofp10_phy_port v, 48), (ofp10_port_mod v, 24), (ofp10_packet_queue v, 8),
     (ofp10_queue_get_config_request v, 4), (ofp10_queue_get_config_reply v, 8),
     (ofp10_packet_in v, 12), (ofp10_packet_out v, 8), (ofp10_match v, 40),
     (ofp10_flow_mod v, 64), (ofp10_flow_removed v, 80), (ofp10_stats_msg v, 12),
     (ofp10_flow_stats_request v, 44), (ofp10_flow_stats v, 88), (ofp10_table_stats v, 64),
     (ofp10_port_stats_request v, 8), (ofp10_port_stats v, 104),
     (ofp10_queue_stats_request v, 8), (ofp10_queue_stats v, 32), (ofp10_vendor_stats_msg v, 16)]"

definition asserts_1_1 :: "ovs_types \<Rightarrow> (cty \<times> nat) list" where
  "asserts_1_1 v = [
     (ofp11_port v, 64), (ofp11_port_mod v, 32), (ofp11_group_mod v, 8),
     (ofp11_queue_get_config_request v, 8), (ofp11_match_header v, 4),
     (ofp11_match v, OFPMT11_STANDARD_LENGTH), (ofp11_instruction v, 8),
     (ofp11_instruction_goto_table v, 8), (ofp11_instruction_write_metadata v, 24),
     (ofp11_instruction_actions v, 8), (ofp11_instruction_experimenter v, 8),
     (ofp11_table_mod v, 8), (ofp11_flow_mod v, 40), (ofp11_bucket v, 16),
     (ofp11_queue_get_config_reply v, 8), (ofp11_stats_msg v, 16),
     (ofp11_vendor_stats_msg v, 20), (ofp11_flow_stats_request v, 32), (ofp11_flow_stats v, 48),
     (ofp11_table_stats v, 88), (ofp11_port_stats_request v, 8), (ofp11_port_stats v, 104),
     (ofp11_queue_stats_request v, 8), (ofp11_queue_stats v, 32),
     (ofp11_group_stats_request v, 8), (ofp11_bucket_counter v, 16), (ofp11_group_stats v, 32),
     (ofp11_group_desc_stats v, 8), (ofp11_packet_out v, 16), (ofp11_packet_in v, 16),
     (ofp11_flow_removed v, 40)]"

definition asserts_1_2 :: "ovs_types \<Rightarrow> (cty \<times> nat) list" where
  "asserts_1_2 v = [
     (ofp12_oxm_experimenter_header v, 8), (ofp12_packet_queue v, 16),
     (ofp12_table_stats v, 128), (ofp12_group_features_stats v, 40),
     (ofp12_experimenter_stats_header v, 8), (ofp12_role_request v, 16), (ofp12_packet_in v, 8),
     (ofp12_flow_removed v, 40)]"

definition asserts_1_3 :: "ovs_types \<Rightarrow> (cty \<times> nat) list" where
  "asserts_1_3 v = [
     (ofp13_instruction_meter v, 8), (ofp13_meter_band_header v, 12), (ofp13_meter_mod v, 8),
     (ofp13_meter_band_drop v, 16), (ofp13_meter_band_dscp_remark v, 16),
     (ofp13_meter_band_experimenter v, 16), (ofp13_table_stats v, 24),
     (ofp13_table_feature_prop_header v, 4), (ofp13_table_features v, 64),
     (ofp13_table_feature_prop_instructions v, 4), (ofp13_table_feature_prop_next_tables v, 4),
     (ofp13_table_feature_prop_actions v, 4), (ofp13_table_feature_prop_oxm v, 4),
     (ofp13_table_feature_prop_experimenter v, 12), (ofp13_port_stats v, 112),
     (ofp13_queue_stats v, 40), (ofp13_group_stats v, 40), (ofp13_meter_multipart_request v, 8),
     (ofp13_meter_band_stats v, 16), (ofp13_meter_stats v, 40), (ofp13_meter_config v, 8),
     (ofp13_meter_features v, 16), (ofp13_async_config v, 24), (ofp13_packet_in v, 16)]"

definition asserts_1_4 :: "ovs_types \<Rightarrow> (cty \<times> nat) list" where
  "asserts_1_4 v = [
     (ofp14_port_desc_prop_ethernet v, 32), (ofp14_port v, 40),
     (ofp14_port_mod_prop_ethernet v, 8), (ofp14_port_mod v, 24),
     (ofp14_table_mod_prop_eviction v, 8), (ofp14_table_mod_prop_vacancy v, 8),
     (ofp14_table_mod v, 8), (ofp14_port_stats_prop_ethernet v, 40), (ofp14_port_stats v, 80),
     (ofp14_queue_stats v, 48), (ofp14_async_config_prop_header v, 4), (ofp14_async_config v, 8),
     (ofp14_async_config_prop_reasons v, 8), (ofp14_async_config_prop_experimenter v, 12),
     (ofp14_role_prop_header v, 4), (ofp14_role_status v, 16),
     (ofp14_role_prop_experimenter v, 12), (ofp14_bundle_ctrl_msg v, 8),
     (ofp14_flow_monitor_request v, 16)]"

definition asserts_1_5 :: "ovs_types \<Rightarrow> (cty \<times> nat) list" where
  "asserts_1_5 v = [
     (ofp15_group_bucket_prop_weight v, 8), (ofp15_group_bucket_prop_watch v, 8),
     (ofp15_bucket v, 8), (ofp15_group_mod v, 16), (ofp15_group_desc_stats v, 16)]"

definition ovs_asserts :: "ovs_types \<Rightarrow> (cty \<times> nat) list" where
  "ovs_asserts v = asserts_common v @ asserts_1_0 v @ asserts_1_1 v @ asserts_1_2 v @ asserts_1_3 v @ asserts_1_4 v @ asserts_1_5 v"

lemmas structs_common =
  ofp_header_ovs_def ofp_error_msg_ovs_def ofp_switch_config_ovs_def ofp_queue_prop_header_def
  ofp_queue_prop_rate_def ofp_switch_features_ovs_def ofp_port_status_ovs_def ofp_desc_stats_def
  ofp_aggregate_stats_reply_ovs_def ofp_hello_elem_header_ovs_def ofp_vendor_header_def

lemmas structs_1_0 =
  ofp10_phy_port_def ofp10_port_mod_def ofp10_packet_queue_def ofp10_queue_get_config_request_def
  ofp10_queue_get_config_reply_def ofp10_packet_in_def ofp10_packet_out_def ofp10_match_def
  ofp10_flow_mod_def ofp10_flow_removed_def ofp10_stats_msg_def ofp10_flow_stats_request_def
  ofp10_flow_stats_def ofp10_table_stats_def ofp10_port_stats_request_def ofp10_port_stats_def
  ofp10_queue_stats_request_def ofp10_queue_stats_def ofp10_vendor_stats_msg_def

lemmas structs_1_1 =
  ofp11_port_def ofp11_port_mod_def ofp11_group_mod_def ofp11_queue_get_config_request_def
  ofp11_match_header_def ofp11_match_def ofp11_instruction_def ofp11_instruction_goto_table_def
  ofp11_instruction_write_metadata_def ofp11_instruction_actions_def
  ofp11_instruction_experimenter_def ofp11_table_mod_def ofp11_flow_mod_def ofp11_bucket_def
  ofp11_queue_get_config_reply_def ofp11_stats_msg_def ofp11_vendor_stats_msg_def
  ofp11_flow_stats_request_def ofp11_flow_stats_def ofp11_table_stats_def
  ofp11_port_stats_request_def ofp11_port_stats_def ofp11_queue_stats_request_def
  ofp11_queue_stats_def ofp11_group_stats_request_def ofp11_bucket_counter_def
  ofp11_group_stats_def ofp11_group_desc_stats_def ofp11_packet_out_def ofp11_packet_in_def
  ofp11_flow_removed_def

lemmas structs_1_2 =
  ofp12_oxm_experimenter_header_def ofp12_packet_queue_def ofp12_table_stats_def
  ofp12_group_features_stats_def ofp12_experimenter_stats_header_def ofp12_role_request_def
  ofp12_packet_in_def ofp12_flow_removed_def

lemmas structs_1_3 =
  ofp13_instruction_meter_def ofp13_meter_band_header_def ofp13_meter_mod_def
  ofp13_meter_band_drop_def ofp13_meter_band_dscp_remark_def ofp13_meter_band_experimenter_def
  ofp13_table_stats_def ofp13_table_feature_prop_header_def ofp13_table_features_def
  ofp13_table_feature_prop_instructions_def ofp13_table_feature_prop_next_tables_def
  ofp13_table_feature_prop_actions_def ofp13_table_feature_prop_oxm_def
  ofp13_table_feature_prop_experimenter_def ofp13_port_stats_def ofp13_queue_stats_def
  ofp13_group_stats_def ofp13_meter_multipart_request_def ofp13_meter_band_stats_def
  ofp13_meter_stats_def ofp13_meter_config_def ofp13_meter_features_def ofp13_async_config_def
  ofp13_packet_in_def

lemmas structs_1_4 =
  ofp14_port_desc_prop_ethernet_def ofp14_port_def ofp14_port_mod_prop_ethernet_def
  ofp14_port_mod_def ofp14_table_mod_prop_eviction_def ofp14_table_mod_prop_vacancy_def
  ofp14_table_mod_def ofp14_port_stats_prop_ethernet_def ofp14_port_stats_def
  ofp14_queue_stats_def ofp14_async_config_prop_header_def ofp14_async_config_def
  ofp14_async_config_prop_reasons_def ofp14_async_config_prop_experimenter_def
  ofp14_role_prop_header_def ofp14_role_status_def ofp14_role_prop_experimenter_def
  ofp14_bundle_ctrl_msg_def ofp14_flow_monitor_request_def

lemmas structs_1_5 =
  ofp15_group_bucket_prop_weight_def ofp15_group_bucket_prop_watch_def ofp15_bucket_def
  ofp15_group_mod_def ofp15_group_desc_stats_def

section \<open>Sizes and places\<close>

lemma documented_types:
  assumes "documented v"
  shows "layout (ovs_be16 v) = (2, 2)" "layout (ovs_be32 v) = (4, 4)"
    "layout (ovs_be64 v) = (8, 8)" "layout (ovs_32aligned_be64 v) = (8, 4)"
    "wire_size (ovs_be16 v) = 2" "wire_size (ovs_be32 v) = 4"
    "wire_size (ovs_be64 v) = 8" "wire_size (ovs_32aligned_be64 v) = 8"
    "scalars_ok (ovs_be16 v)" "scalars_ok (ovs_be32 v)" "scalars_ok (ovs_be64 v)" "scalars_ok (ovs_32aligned_be64 v)"
  using assms by (simp_all add: documented_def)

lemmas layout_eval = sizeof_def packed_def round_up_def scalar_defs ovs_length_defs

text \<open>Of each structure: its size, and that the fields are next to each other.\<close>

definition as_asserted :: "cty \<times> nat \<Rightarrow> bool" where
  "as_asserted = (\<lambda>(t, n). sizeof t = n \<and> packed t)"

lemma asserted_common: "documented v \<Longrightarrow> list_all as_asserted (asserts_common v)"
  by (simp add: asserts_common_def as_asserted_def structs_common layout_eval documented_types del: One_nat_def)

lemma asserted_1_0: "documented v \<Longrightarrow> list_all as_asserted (asserts_1_0 v)"
  by (simp add: asserts_1_0_def as_asserted_def structs_common structs_1_0 layout_eval documented_types del: One_nat_def)

lemma asserted_1_1: "documented v \<Longrightarrow> list_all as_asserted (asserts_1_1 v)"
  by (simp add: asserts_1_1_def as_asserted_def structs_common structs_1_0 structs_1_1 layout_eval documented_types del: One_nat_def)

lemma asserted_1_2: "documented v \<Longrightarrow> list_all as_asserted (asserts_1_2 v)"
  by (simp add: asserts_1_2_def as_asserted_def structs_common structs_1_0 structs_1_1 structs_1_2 layout_eval documented_types del: One_nat_def)

lemma asserted_1_3: "documented v \<Longrightarrow> list_all as_asserted (asserts_1_3 v)"
  by (simp add: asserts_1_3_def as_asserted_def structs_common structs_1_0 structs_1_1 structs_1_2 structs_1_3 layout_eval documented_types del: One_nat_def)

lemma asserted_1_4: "documented v \<Longrightarrow> list_all as_asserted (asserts_1_4 v)"
  by (simp add: asserts_1_4_def as_asserted_def structs_common structs_1_0 structs_1_1 structs_1_2 structs_1_3 structs_1_4 layout_eval documented_types del: One_nat_def)

lemma asserted_1_5: "documented v \<Longrightarrow> list_all as_asserted (asserts_1_5 v)"
  by (simp add: asserts_1_5_def as_asserted_def structs_common structs_1_0 structs_1_1 structs_1_2 structs_1_3 structs_1_4 structs_1_5 layout_eval documented_types del: One_nat_def)

text \<open>
  With the documented integer types every structure of the seven headers has the size its header
  asserts, and every field is where the fields before it end: no structure has filling between its fields.
\<close>

theorem ovs_sizes:
  assumes "documented v"
  shows "list_all (\<lambda>(t, n). sizeof t = n \<and> (\<forall>g. offsetof t g = wire_offset t g)) (ovs_asserts v)"
proof -
  have "list_all as_asserted (ovs_asserts v)"
    using assms by (simp add: ovs_asserts_def asserted_common asserted_1_0 asserted_1_1 asserted_1_2 asserted_1_3
      asserted_1_4 asserted_1_5)
  then show ?thesis using packed_offsets by (auto simp: as_asserted_def list_all_iff)
qed

theorem ovs_sizes_witness:
  "sizeof (ofp13_meter_stats plain_types) = 40 \<and> offsetof (ofp10_packet_in plain_types) ''data'' = Some 10"
proof -
  have "(ofp13_meter_stats plain_types, 40) \<in> set (ovs_asserts plain_types)"
    "(ofp10_packet_in plain_types, 12) \<in> set (ovs_asserts plain_types)"
    by (simp_all add: ovs_asserts_def asserts_1_3_def asserts_1_0_def)
  then have "sizeof (ofp13_meter_stats plain_types) = 40"
    "offsetof (ofp10_packet_in plain_types) ''data'' = wire_offset (ofp10_packet_in plain_types) ''data''"
    using ovs_sizes[OF plain_documented] unfolding list_all_iff by fastforce+
  then show ?thesis by (simp add: wire_offset_def ofp10_packet_in_def plain_types_def scalar_defs)
qed

end
