(* ===== verification/Ovs_Constants.thy ===== *)
theory Ovs_Constants
  imports Ovs_Structs
begin

unbundle bit_operations_syntax

text \<open>
  \<^verbatim>\<open>include/openflow/\<close>: the enumerations of the headers of Open vSwitch, each as a datatype with the number
  of every constant, and the constants that are plain macros. Port numbers, which go through a macro of a
  header that is not in the repository, are left out.
\<close>

section \<open>Common to all versions\<close>

datatype ofp_version = OFP10_VERSION | OFP11_VERSION | OFP12_VERSION | OFP13_VERSION |
    OFP14_VERSION | OFP15_VERSION

primrec ofp_version_val :: "ofp_version \<Rightarrow> nat" where
  "ofp_version_val OFP10_VERSION = 0x01"
| "ofp_version_val OFP11_VERSION = 0x02"
| "ofp_version_val OFP12_VERSION = 0x03"
| "ofp_version_val OFP13_VERSION = 0x04"
| "ofp_version_val OFP14_VERSION = 0x05"
| "ofp_version_val OFP15_VERSION = 0x06"

datatype ofp_config_flags_ovs = OFPC_FRAG_NORMAL | OFPC_FRAG_DROP | OFPC_FRAG_REASM |
    OFPC_FRAG_NX_MATCH | OFPC_FRAG_MASK | OFPC_INVALID_TTL_TO_CONTROLLER

primrec ofp_config_flags_ovs_val :: "ofp_config_flags_ovs \<Rightarrow> nat" where
  "ofp_config_flags_ovs_val OFPC_FRAG_NORMAL = 0"
| "ofp_config_flags_ovs_val OFPC_FRAG_DROP = 1"
| "ofp_config_flags_ovs_val OFPC_FRAG_REASM = 2"
| "ofp_config_flags_ovs_val OFPC_FRAG_NX_MATCH = 3"
| "ofp_config_flags_ovs_val OFPC_FRAG_MASK = 3"
| "ofp_config_flags_ovs_val OFPC_INVALID_TTL_TO_CONTROLLER = 2 ^ 2"

datatype ofp_port_config_ovs = OFPPC_PORT_DOWN | OFPPC_NO_RECV | OFPPC_NO_FWD | OFPPC_NO_PACKET_IN

primrec ofp_port_config_ovs_val :: "ofp_port_config_ovs \<Rightarrow> nat" where
  "ofp_port_config_ovs_val OFPPC_PORT_DOWN = 2 ^ 0"
| "ofp_port_config_ovs_val OFPPC_NO_RECV = 2 ^ 2"
| "ofp_port_config_ovs_val OFPPC_NO_FWD = 2 ^ 5"
| "ofp_port_config_ovs_val OFPPC_NO_PACKET_IN = 2 ^ 6"

datatype ofp_port_state_ovs = OFPPS_LINK_DOWN

primrec ofp_port_state_ovs_val :: "ofp_port_state_ovs \<Rightarrow> nat" where
  "ofp_port_state_ovs_val OFPPS_LINK_DOWN = 2 ^ 0"

datatype ofp_port_features_ovs = OFPPF_10MB_HD | OFPPF_10MB_FD | OFPPF_100MB_HD |
    OFPPF_100MB_FD | OFPPF_1GB_HD | OFPPF_1GB_FD | OFPPF_10GB_FD

primrec ofp_port_features_ovs_val :: "ofp_port_features_ovs \<Rightarrow> nat" where
  "ofp_port_features_ovs_val OFPPF_10MB_HD = 2 ^ 0"
| "ofp_port_features_ovs_val OFPPF_10MB_FD = 2 ^ 1"
| "ofp_port_features_ovs_val OFPPF_100MB_HD = 2 ^ 2"
| "ofp_port_features_ovs_val OFPPF_100MB_FD = 2 ^ 3"
| "ofp_port_features_ovs_val OFPPF_1GB_HD = 2 ^ 4"
| "ofp_port_features_ovs_val OFPPF_1GB_FD = 2 ^ 5"
| "ofp_port_features_ovs_val OFPPF_10GB_FD = 2 ^ 6"

datatype ofp_queue_properties = OFPQT_MIN_RATE | OFPQT_MAX_RATE | OFPQT_EXPERIMENTER

primrec ofp_queue_properties_val :: "ofp_queue_properties \<Rightarrow> nat" where
  "ofp_queue_properties_val OFPQT_MIN_RATE = 1"
| "ofp_queue_properties_val OFPQT_MAX_RATE = 2"
| "ofp_queue_properties_val OFPQT_EXPERIMENTER = 0xffff"

datatype ofp_capabilities_ovs = OFPC_FLOW_STATS | OFPC_TABLE_STATS | OFPC_PORT_STATS |
    OFPC_IP_REASM | OFPC_QUEUE_STATS | OFPC_ARP_MATCH_IP

primrec ofp_capabilities_ovs_val :: "ofp_capabilities_ovs \<Rightarrow> nat" where
  "ofp_capabilities_ovs_val OFPC_FLOW_STATS = 2 ^ 0"
| "ofp_capabilities_ovs_val OFPC_TABLE_STATS = 2 ^ 1"
| "ofp_capabilities_ovs_val OFPC_PORT_STATS = 2 ^ 2"
| "ofp_capabilities_ovs_val OFPC_IP_REASM = 2 ^ 5"
| "ofp_capabilities_ovs_val OFPC_QUEUE_STATS = 2 ^ 6"
| "ofp_capabilities_ovs_val OFPC_ARP_MATCH_IP = 2 ^ 7"

datatype ofp_packet_in_reason_ovs = OFPR_NO_MATCH | OFPR_ACTION | OFPR_INVALID_TTL |
    OFPR_ACTION_SET | OFPR_GROUP | OFPR_PACKET_OUT | OFPR_N_REASONS

primrec ofp_packet_in_reason_ovs_val :: "ofp_packet_in_reason_ovs \<Rightarrow> nat" where
  "ofp_packet_in_reason_ovs_val OFPR_NO_MATCH = 0"
| "ofp_packet_in_reason_ovs_val OFPR_ACTION = 1"
| "ofp_packet_in_reason_ovs_val OFPR_INVALID_TTL = 2"
| "ofp_packet_in_reason_ovs_val OFPR_ACTION_SET = 3"
| "ofp_packet_in_reason_ovs_val OFPR_GROUP = 4"
| "ofp_packet_in_reason_ovs_val OFPR_PACKET_OUT = 5"
| "ofp_packet_in_reason_ovs_val OFPR_N_REASONS = 6"

datatype ofp_flow_mod_command_ovs = OFPFC_ADD | OFPFC_MODIFY | OFPFC_MODIFY_STRICT |
    OFPFC_DELETE | OFPFC_DELETE_STRICT

primrec ofp_flow_mod_command_ovs_val :: "ofp_flow_mod_command_ovs \<Rightarrow> nat" where
  "ofp_flow_mod_command_ovs_val OFPFC_ADD = 0"
| "ofp_flow_mod_command_ovs_val OFPFC_MODIFY = 1"
| "ofp_flow_mod_command_ovs_val OFPFC_MODIFY_STRICT = 2"
| "ofp_flow_mod_command_ovs_val OFPFC_DELETE = 3"
| "ofp_flow_mod_command_ovs_val OFPFC_DELETE_STRICT = 4"

datatype ofp_flow_mod_flags_ovs = OFPFF_SEND_FLOW_REM | OFPFF_CHECK_OVERLAP

primrec ofp_flow_mod_flags_ovs_val :: "ofp_flow_mod_flags_ovs \<Rightarrow> nat" where
  "ofp_flow_mod_flags_ovs_val OFPFF_SEND_FLOW_REM = 2 ^ 0"
| "ofp_flow_mod_flags_ovs_val OFPFF_CHECK_OVERLAP = 2 ^ 1"

datatype ofp_flow_removed_reason_ovs = OFPRR_IDLE_TIMEOUT | OFPRR_HARD_TIMEOUT | OFPRR_DELETE |
    OFPRR_GROUP_DELETE | OFPRR_METER_DELETE | OFPRR_EVICTION

primrec ofp_flow_removed_reason_ovs_val :: "ofp_flow_removed_reason_ovs \<Rightarrow> nat" where
  "ofp_flow_removed_reason_ovs_val OFPRR_IDLE_TIMEOUT = 0"
| "ofp_flow_removed_reason_ovs_val OFPRR_HARD_TIMEOUT = 1"
| "ofp_flow_removed_reason_ovs_val OFPRR_DELETE = 2"
| "ofp_flow_removed_reason_ovs_val OFPRR_GROUP_DELETE = 3"
| "ofp_flow_removed_reason_ovs_val OFPRR_METER_DELETE = 4"
| "ofp_flow_removed_reason_ovs_val OFPRR_EVICTION = 5"

datatype ofp_port_reason_ovs = OFPPR_ADD | OFPPR_DELETE | OFPPR_MODIFY

primrec ofp_port_reason_ovs_val :: "ofp_port_reason_ovs \<Rightarrow> nat" where
  "ofp_port_reason_ovs_val OFPPR_ADD = 0"
| "ofp_port_reason_ovs_val OFPPR_DELETE = 1"
| "ofp_port_reason_ovs_val OFPPR_MODIFY = 2"

datatype ofp_stats_reply_flags = OFPSF_REPLY_MORE

primrec ofp_stats_reply_flags_val :: "ofp_stats_reply_flags \<Rightarrow> nat" where
  "ofp_stats_reply_flags_val OFPSF_REPLY_MORE = 2 ^ 0"

datatype ofp_match_type_ovs = OFPMT_STANDARD | OFPMT_OXM

primrec ofp_match_type_ovs_val :: "ofp_match_type_ovs \<Rightarrow> nat" where
  "ofp_match_type_ovs_val OFPMT_STANDARD = 0"
| "ofp_match_type_ovs_val OFPMT_OXM = 1"

datatype ofp_group_ovs = OFPG_MAX | OFPG_ALL | OFPG_ANY

primrec ofp_group_ovs_val :: "ofp_group_ovs \<Rightarrow> nat" where
  "ofp_group_ovs_val OFPG_MAX = 0xffffff00"
| "ofp_group_ovs_val OFPG_ALL = 0xfffffffc"
| "ofp_group_ovs_val OFPG_ANY = 0xffffffff"

datatype ofp_group_capabilities_ovs = OFPGFC_SELECT_WEIGHT | OFPGFC_SELECT_LIVENESS |
    OFPGFC_CHAINING | OFPGFC_CHAINING_CHECKS

primrec ofp_group_capabilities_ovs_val :: "ofp_group_capabilities_ovs \<Rightarrow> nat" where
  "ofp_group_capabilities_ovs_val OFPGFC_SELECT_WEIGHT = 2 ^ 0"
| "ofp_group_capabilities_ovs_val OFPGFC_SELECT_LIVENESS = 2 ^ 1"
| "ofp_group_capabilities_ovs_val OFPGFC_CHAINING = 2 ^ 2"
| "ofp_group_capabilities_ovs_val OFPGFC_CHAINING_CHECKS = 2 ^ 3"

datatype ofp_hello_elem_type_ovs = OFPHET_VERSIONBITMAP

primrec ofp_hello_elem_type_ovs_val :: "ofp_hello_elem_type_ovs \<Rightarrow> nat" where
  "ofp_hello_elem_type_ovs_val OFPHET_VERSIONBITMAP = 1"

datatype ofp_table_ovs = OFPTT_MAX | OFPTT_ALL

primrec ofp_table_ovs_val :: "ofp_table_ovs \<Rightarrow> nat" where
  "ofp_table_ovs_val OFPTT_MAX = 0xfe"
| "ofp_table_ovs_val OFPTT_ALL = 0xff"

datatype ofp_table_config_ovs = OFPTC11_TABLE_MISS_CONTROLLER | OFPTC11_TABLE_MISS_CONTINUE |
    OFPTC11_TABLE_MISS_DROP | OFPTC11_TABLE_MISS_MASK | OFPTC14_EVICTION | OFPTC14_VACANCY_EVENTS

primrec ofp_table_config_ovs_val :: "ofp_table_config_ovs \<Rightarrow> nat" where
  "ofp_table_config_ovs_val OFPTC11_TABLE_MISS_CONTROLLER = 0 * 2 ^ 0"
| "ofp_table_config_ovs_val OFPTC11_TABLE_MISS_CONTINUE = 2 ^ 0"
| "ofp_table_config_ovs_val OFPTC11_TABLE_MISS_DROP = 2 * 2 ^ 0"
| "ofp_table_config_ovs_val OFPTC11_TABLE_MISS_MASK = 3 * 2 ^ 0"
| "ofp_table_config_ovs_val OFPTC14_EVICTION = 2 ^ 2"
| "ofp_table_config_ovs_val OFPTC14_VACANCY_EVENTS = 2 ^ 3"

definition OF_VENDOR_ID :: nat where "OF_VENDOR_ID = 0"
definition HPL_VENDOR_ID :: nat where "HPL_VENDOR_ID = 0x000004ea"
definition NTR_VENDOR_ID :: nat where "NTR_VENDOR_ID = 0x00001540"
definition NX_VENDOR_ID :: nat where "NX_VENDOR_ID = 0x00002320"
definition ONF_VENDOR_ID :: nat where "ONF_VENDOR_ID = 0x4f4e4600"
definition OFP_OLD_PORT :: nat where "OFP_OLD_PORT = 6633"
definition OFP_PORT :: nat where "OFP_PORT = 6653"
definition OFP_DEFAULT_MISS_SEND_LEN_ovs :: nat where "OFP_DEFAULT_MISS_SEND_LEN_ovs = 128"
definition OFP_DL_TYPE_ETH2_CUTOFF :: nat where "OFP_DL_TYPE_ETH2_CUTOFF = 0x0600"
definition OFP_DL_TYPE_NOT_ETH_TYPE :: nat where "OFP_DL_TYPE_NOT_ETH_TYPE = 0x05ff"
definition OFP_FLOW_PERMANENT_ovs :: nat where "OFP_FLOW_PERMANENT_ovs = 0"
definition OFP_DEFAULT_PRIORITY_ovs :: nat where "OFP_DEFAULT_PRIORITY_ovs = 0x8000"

section \<open>Version 1.0\<close>

datatype ofp10_capabilities = OFPC10_STP | OFPC10_RESERVED

primrec ofp10_capabilities_val :: "ofp10_capabilities \<Rightarrow> nat" where
  "ofp10_capabilities_val OFPC10_STP = 2 ^ 3"
| "ofp10_capabilities_val OFPC10_RESERVED = 2 ^ 4"

datatype ofp10_port_config = OFPPC10_NO_STP | OFPPC10_NO_RECV_STP | OFPPC10_NO_FLOOD

primrec ofp10_port_config_val :: "ofp10_port_config \<Rightarrow> nat" where
  "ofp10_port_config_val OFPPC10_NO_STP = 2 ^ 1"
| "ofp10_port_config_val OFPPC10_NO_RECV_STP = 2 ^ 3"
| "ofp10_port_config_val OFPPC10_NO_FLOOD = 2 ^ 4"

definition OFPPC10_ALL :: nat where
  "OFPPC10_ALL = ofp_port_config_ovs_val OFPPC_PORT_DOWN OR ofp10_port_config_val OFPPC10_NO_STP OR ofp_port_config_ovs_val OFPPC_NO_RECV
     OR ofp10_port_config_val OFPPC10_NO_RECV_STP OR ofp10_port_config_val OFPPC10_NO_FLOOD OR ofp_port_config_ovs_val OFPPC_NO_FWD
     OR ofp_port_config_ovs_val OFPPC_NO_PACKET_IN"

datatype ofp10_port_state = OFPPS10_STP_LISTEN | OFPPS10_STP_LEARN | OFPPS10_STP_FORWARD |
    OFPPS10_STP_BLOCK | OFPPS10_STP_MASK

primrec ofp10_port_state_val :: "ofp10_port_state \<Rightarrow> nat" where
  "ofp10_port_state_val OFPPS10_STP_LISTEN = 0 * 2 ^ 8"
| "ofp10_port_state_val OFPPS10_STP_LEARN = 2 ^ 8"
| "ofp10_port_state_val OFPPS10_STP_FORWARD = 2 * 2 ^ 8"
| "ofp10_port_state_val OFPPS10_STP_BLOCK = 3 * 2 ^ 8"
| "ofp10_port_state_val OFPPS10_STP_MASK = 3 * 2 ^ 8"

definition OFPPS10_ALL :: nat where
  "OFPPS10_ALL = ofp_port_state_ovs_val OFPPS_LINK_DOWN OR ofp10_port_state_val OFPPS10_STP_MASK"

datatype ofp10_port_features = OFPPF10_COPPER | OFPPF10_FIBER | OFPPF10_AUTONEG | OFPPF10_PAUSE |
    OFPPF10_PAUSE_ASYM

primrec ofp10_port_features_val :: "ofp10_port_features \<Rightarrow> nat" where
  "ofp10_port_features_val OFPPF10_COPPER = 2 ^ 7"
| "ofp10_port_features_val OFPPF10_FIBER = 2 ^ 8"
| "ofp10_port_features_val OFPPF10_AUTONEG = 2 ^ 9"
| "ofp10_port_features_val OFPPF10_PAUSE = 2 ^ 10"
| "ofp10_port_features_val OFPPF10_PAUSE_ASYM = 2 ^ 11"

datatype ofp10_flow_wildcards = OFPFW10_IN_PORT | OFPFW10_DL_VLAN | OFPFW10_DL_SRC |
    OFPFW10_DL_DST | OFPFW10_DL_TYPE | OFPFW10_NW_PROTO | OFPFW10_TP_SRC | OFPFW10_TP_DST |
    OFPFW10_NW_SRC_SHIFT | OFPFW10_NW_SRC_BITS | OFPFW10_NW_SRC_MASK | OFPFW10_NW_SRC_ALL |
    OFPFW10_NW_DST_SHIFT | OFPFW10_NW_DST_BITS | OFPFW10_NW_DST_MASK | OFPFW10_NW_DST_ALL |
    OFPFW10_DL_VLAN_PCP | OFPFW10_NW_TOS | OFPFW10_ALL

primrec ofp10_flow_wildcards_val :: "ofp10_flow_wildcards \<Rightarrow> nat" where
  "ofp10_flow_wildcards_val OFPFW10_IN_PORT = 2 ^ 0"
| "ofp10_flow_wildcards_val OFPFW10_DL_VLAN = 2 ^ 1"
| "ofp10_flow_wildcards_val OFPFW10_DL_SRC = 2 ^ 2"
| "ofp10_flow_wildcards_val OFPFW10_DL_DST = 2 ^ 3"
| "ofp10_flow_wildcards_val OFPFW10_DL_TYPE = 2 ^ 4"
| "ofp10_flow_wildcards_val OFPFW10_NW_PROTO = 2 ^ 5"
| "ofp10_flow_wildcards_val OFPFW10_TP_SRC = 2 ^ 6"
| "ofp10_flow_wildcards_val OFPFW10_TP_DST = 2 ^ 7"
| "ofp10_flow_wildcards_val OFPFW10_NW_SRC_SHIFT = 8"
| "ofp10_flow_wildcards_val OFPFW10_NW_SRC_BITS = 6"
| "ofp10_flow_wildcards_val OFPFW10_NW_SRC_MASK = (2 ^ 6 - 1) * 2 ^ 8"
| "ofp10_flow_wildcards_val OFPFW10_NW_SRC_ALL = 32 * 2 ^ 8"
| "ofp10_flow_wildcards_val OFPFW10_NW_DST_SHIFT = 14"
| "ofp10_flow_wildcards_val OFPFW10_NW_DST_BITS = 6"
| "ofp10_flow_wildcards_val OFPFW10_NW_DST_MASK = (2 ^ 6 - 1) * 2 ^ 14"
| "ofp10_flow_wildcards_val OFPFW10_NW_DST_ALL = 32 * 2 ^ 14"
| "ofp10_flow_wildcards_val OFPFW10_DL_VLAN_PCP = 2 ^ 20"
| "ofp10_flow_wildcards_val OFPFW10_NW_TOS = 2 ^ 21"
| "ofp10_flow_wildcards_val OFPFW10_ALL = 2 ^ 22 - 1"

definition OFPFW10_ICMP_TYPE :: nat where
  "OFPFW10_ICMP_TYPE = ofp10_flow_wildcards_val OFPFW10_TP_SRC"

definition OFPFW10_ICMP_CODE :: nat where
  "OFPFW10_ICMP_CODE = ofp10_flow_wildcards_val OFPFW10_TP_DST"

definition OFP10_VLAN_NONE :: nat where
  "OFP10_VLAN_NONE = 0xffff"

datatype ofp10_flow_mod_flags = OFPFF10_EMERG

primrec ofp10_flow_mod_flags_val :: "ofp10_flow_mod_flags \<Rightarrow> nat" where
  "ofp10_flow_mod_flags_val OFPFF10_EMERG = 2 ^ 2"

definition OFPQ_ALL_ovs :: nat where "OFPQ_ALL_ovs = 0xffffffff"

section \<open>Version 1.1\<close>

datatype ofp11_port_state = OFPPS11_BLOCKED | OFPPS11_LIVE

primrec ofp11_port_state_val :: "ofp11_port_state \<Rightarrow> nat" where
  "ofp11_port_state_val OFPPS11_BLOCKED = 2 ^ 1"
| "ofp11_port_state_val OFPPS11_LIVE = 2 ^ 2"

definition OFPPC11_ALL :: nat where
  "OFPPC11_ALL = ofp_port_config_ovs_val OFPPC_PORT_DOWN OR ofp_port_config_ovs_val OFPPC_NO_RECV OR ofp_port_config_ovs_val OFPPC_NO_FWD
     OR ofp_port_config_ovs_val OFPPC_NO_PACKET_IN"

definition OFPPS11_ALL :: nat where
  "OFPPS11_ALL = ofp_port_state_ovs_val OFPPS_LINK_DOWN OR ofp11_port_state_val OFPPS11_BLOCKED OR ofp11_port_state_val OFPPS11_LIVE"

datatype ofp11_port_features = OFPPF11_40GB_FD | OFPPF11_100GB_FD | OFPPF11_1TB_FD |
    OFPPF11_OTHER | OFPPF11_COPPER | OFPPF11_FIBER | OFPPF11_AUTONEG | OFPPF11_PAUSE |
    OFPPF11_PAUSE_ASYM

primrec ofp11_port_features_val :: "ofp11_port_features \<Rightarrow> nat" where
  "ofp11_port_features_val OFPPF11_40GB_FD = 2 ^ 7"
| "ofp11_port_features_val OFPPF11_100GB_FD = 2 ^ 8"
| "ofp11_port_features_val OFPPF11_1TB_FD = 2 ^ 9"
| "ofp11_port_features_val OFPPF11_OTHER = 2 ^ 10"
| "ofp11_port_features_val OFPPF11_COPPER = 2 ^ 11"
| "ofp11_port_features_val OFPPF11_FIBER = 2 ^ 12"
| "ofp11_port_features_val OFPPF11_AUTONEG = 2 ^ 13"
| "ofp11_port_features_val OFPPF11_PAUSE = 2 ^ 14"
| "ofp11_port_features_val OFPPF11_PAUSE_ASYM = 2 ^ 15"

definition OFPPF11_ALL :: nat where
  "OFPPF11_ALL = 2 ^ 16 - 1"

datatype ofp11_group_mod_command = OFPGC11_ADD | OFPGC11_MODIFY | OFPGC11_DELETE

primrec ofp11_group_mod_command_val :: "ofp11_group_mod_command \<Rightarrow> nat" where
  "ofp11_group_mod_command_val OFPGC11_ADD = 0"
| "ofp11_group_mod_command_val OFPGC11_MODIFY = 1"
| "ofp11_group_mod_command_val OFPGC11_DELETE = 2"

datatype ofp11_capabilities = OFPC11_GROUP_STATS

primrec ofp11_capabilities_val :: "ofp11_capabilities \<Rightarrow> nat" where
  "ofp11_capabilities_val OFPC11_GROUP_STATS = 2 ^ 3"

datatype ofp11_flow_wildcards = OFPFW11_IN_PORT | OFPFW11_DL_VLAN | OFPFW11_DL_VLAN_PCP |
    OFPFW11_DL_TYPE | OFPFW11_NW_TOS | OFPFW11_NW_PROTO | OFPFW11_TP_SRC | OFPFW11_TP_DST |
    OFPFW11_MPLS_LABEL | OFPFW11_MPLS_TC | OFPFW11_ALL

primrec ofp11_flow_wildcards_val :: "ofp11_flow_wildcards \<Rightarrow> nat" where
  "ofp11_flow_wildcards_val OFPFW11_IN_PORT = 2 ^ 0"
| "ofp11_flow_wildcards_val OFPFW11_DL_VLAN = 2 ^ 1"
| "ofp11_flow_wildcards_val OFPFW11_DL_VLAN_PCP = 2 ^ 2"
| "ofp11_flow_wildcards_val OFPFW11_DL_TYPE = 2 ^ 3"
| "ofp11_flow_wildcards_val OFPFW11_NW_TOS = 2 ^ 4"
| "ofp11_flow_wildcards_val OFPFW11_NW_PROTO = 2 ^ 5"
| "ofp11_flow_wildcards_val OFPFW11_TP_SRC = 2 ^ 6"
| "ofp11_flow_wildcards_val OFPFW11_TP_DST = 2 ^ 7"
| "ofp11_flow_wildcards_val OFPFW11_MPLS_LABEL = 2 ^ 8"
| "ofp11_flow_wildcards_val OFPFW11_MPLS_TC = 2 ^ 9"
| "ofp11_flow_wildcards_val OFPFW11_ALL = 2 ^ 10 - 1"

datatype ofp11_vlan_id = OFPVID11_ANY | OFPVID11_NONE

primrec ofp11_vlan_id_val :: "ofp11_vlan_id \<Rightarrow> nat" where
  "ofp11_vlan_id_val OFPVID11_ANY = 0xfffe"
| "ofp11_vlan_id_val OFPVID11_NONE = 0xffff"

datatype ofp11_instruction_type = OFPIT11_GOTO_TABLE | OFPIT11_WRITE_METADATA |
    OFPIT11_WRITE_ACTIONS | OFPIT11_APPLY_ACTIONS | OFPIT11_CLEAR_ACTIONS | OFPIT11_EXPERIMENTER

primrec ofp11_instruction_type_val :: "ofp11_instruction_type \<Rightarrow> nat" where
  "ofp11_instruction_type_val OFPIT11_GOTO_TABLE = 1"
| "ofp11_instruction_type_val OFPIT11_WRITE_METADATA = 2"
| "ofp11_instruction_type_val OFPIT11_WRITE_ACTIONS = 3"
| "ofp11_instruction_type_val OFPIT11_APPLY_ACTIONS = 4"
| "ofp11_instruction_type_val OFPIT11_CLEAR_ACTIONS = 5"
| "ofp11_instruction_type_val OFPIT11_EXPERIMENTER = 0xffff"

datatype ofp11_group_type = OFPGT11_ALL | OFPGT11_SELECT | OFPGT11_INDIRECT | OFPGT11_FF

primrec ofp11_group_type_val :: "ofp11_group_type \<Rightarrow> nat" where
  "ofp11_group_type_val OFPGT11_ALL = 0"
| "ofp11_group_type_val OFPGT11_SELECT = 1"
| "ofp11_group_type_val OFPGT11_INDIRECT = 2"
| "ofp11_group_type_val OFPGT11_FF = 3"

datatype ofp11_group = OFPG11_MAX | OFPG11_ALL | OFPG11_ANY

primrec ofp11_group_val :: "ofp11_group \<Rightarrow> nat" where
  "ofp11_group_val OFPG11_MAX = 0xffffff00"
| "ofp11_group_val OFPG11_ALL = 0xfffffffc"
| "ofp11_group_val OFPG11_ANY = 0xffffffff"

datatype ofp11_flow_match_fields = OFPFMF11_IN_PORT | OFPFMF11_DL_VLAN | OFPFMF11_DL_VLAN_PCP |
    OFPFMF11_DL_TYPE | OFPFMF11_NW_TOS | OFPFMF11_NW_PROTO | OFPFMF11_TP_SRC | OFPFMF11_TP_DST |
    OFPFMF11_MPLS_LABEL | OFPFMF11_MPLS_TC | OFPFMF11_TYPE | OFPFMF11_DL_SRC | OFPFMF11_DL_DST |
    OFPFMF11_NW_SRC | OFPFMF11_NW_DST | OFPFMF11_METADATA

primrec ofp11_flow_match_fields_val :: "ofp11_flow_match_fields \<Rightarrow> nat" where
  "ofp11_flow_match_fields_val OFPFMF11_IN_PORT = 2 ^ 0"
| "ofp11_flow_match_fields_val OFPFMF11_DL_VLAN = 2 ^ 1"
| "ofp11_flow_match_fields_val OFPFMF11_DL_VLAN_PCP = 2 ^ 2"
| "ofp11_flow_match_fields_val OFPFMF11_DL_TYPE = 2 ^ 3"
| "ofp11_flow_match_fields_val OFPFMF11_NW_TOS = 2 ^ 4"
| "ofp11_flow_match_fields_val OFPFMF11_NW_PROTO = 2 ^ 5"
| "ofp11_flow_match_fields_val OFPFMF11_TP_SRC = 2 ^ 6"
| "ofp11_flow_match_fields_val OFPFMF11_TP_DST = 2 ^ 7"
| "ofp11_flow_match_fields_val OFPFMF11_MPLS_LABEL = 2 ^ 8"
| "ofp11_flow_match_fields_val OFPFMF11_MPLS_TC = 2 ^ 9"
| "ofp11_flow_match_fields_val OFPFMF11_TYPE = 2 ^ 10"
| "ofp11_flow_match_fields_val OFPFMF11_DL_SRC = 2 ^ 11"
| "ofp11_flow_match_fields_val OFPFMF11_DL_DST = 2 ^ 12"
| "ofp11_flow_match_fields_val OFPFMF11_NW_SRC = 2 ^ 13"
| "ofp11_flow_match_fields_val OFPFMF11_NW_DST = 2 ^ 14"
| "ofp11_flow_match_fields_val OFPFMF11_METADATA = 2 ^ 15"

definition OFPP11_OFFSET :: nat where "OFPP11_OFFSET = 0xffff0000"

definition OFP11_INSTRUCTION_ALIGN :: nat where "OFP11_INSTRUCTION_ALIGN = 8"

section \<open>Version 1.2\<close>

datatype ofp12_vlan_id = OFPVID12_PRESENT | OFPVID12_NONE

primrec ofp12_vlan_id_val :: "ofp12_vlan_id \<Rightarrow> nat" where
  "ofp12_vlan_id_val OFPVID12_PRESENT = 0x1000"
| "ofp12_vlan_id_val OFPVID12_NONE = 0x0000"

datatype ofp12_ipv6exthdr_flags = OFPIEH12_NONEXT | OFPIEH12_ESP | OFPIEH12_AUTH |
    OFPIEH12_DEST | OFPIEH12_FRAG | OFPIEH12_ROUTER | OFPIEH12_HOP | OFPIEH12_UNREP |
    OFPIEH12_UNSEQ

primrec ofp12_ipv6exthdr_flags_val :: "ofp12_ipv6exthdr_flags \<Rightarrow> nat" where
  "ofp12_ipv6exthdr_flags_val OFPIEH12_NONEXT = 2 ^ 0"
| "ofp12_ipv6exthdr_flags_val OFPIEH12_ESP = 2 ^ 1"
| "ofp12_ipv6exthdr_flags_val OFPIEH12_AUTH = 2 ^ 2"
| "ofp12_ipv6exthdr_flags_val OFPIEH12_DEST = 2 ^ 3"
| "ofp12_ipv6exthdr_flags_val OFPIEH12_FRAG = 2 ^ 4"
| "ofp12_ipv6exthdr_flags_val OFPIEH12_ROUTER = 2 ^ 5"
| "ofp12_ipv6exthdr_flags_val OFPIEH12_HOP = 2 ^ 6"
| "ofp12_ipv6exthdr_flags_val OFPIEH12_UNREP = 2 ^ 7"
| "ofp12_ipv6exthdr_flags_val OFPIEH12_UNSEQ = 2 ^ 8"

datatype ofp12_controller_max_len = OFPCML12_MAX | OFPCML12_NO_BUFFER

primrec ofp12_controller_max_len_val :: "ofp12_controller_max_len \<Rightarrow> nat" where
  "ofp12_controller_max_len_val OFPCML12_MAX = 0xffe5"
| "ofp12_controller_max_len_val OFPCML12_NO_BUFFER = 0xffff"

datatype ofp12_flow_mod_flags = OFPFF12_RESET_COUNTS

primrec ofp12_flow_mod_flags_val :: "ofp12_flow_mod_flags \<Rightarrow> nat" where
  "ofp12_flow_mod_flags_val OFPFF12_RESET_COUNTS = 2 ^ 2"

datatype ofp12_capabilities = OFPC12_PORT_BLOCKED

primrec ofp12_capabilities_val :: "ofp12_capabilities \<Rightarrow> nat" where
  "ofp12_capabilities_val OFPC12_PORT_BLOCKED = 2 ^ 8"

datatype ofp12_group_capabilities = OFPGFC12_SELECT_WEIGHT | OFPGFC12_SELECT_LIVENESS |
    OFPGFC12_CHAINING | OFPGFC12_CHAINING_CHECKS

primrec ofp12_group_capabilities_val :: "ofp12_group_capabilities \<Rightarrow> nat" where
  "ofp12_group_capabilities_val OFPGFC12_SELECT_WEIGHT = 2 ^ 0"
| "ofp12_group_capabilities_val OFPGFC12_SELECT_LIVENESS = 2 ^ 1"
| "ofp12_group_capabilities_val OFPGFC12_CHAINING = 2 ^ 2"
| "ofp12_group_capabilities_val OFPGFC12_CHAINING_CHECKS = 2 ^ 3"

datatype ofp12_controller_role = OFPCR12_ROLE_NOCHANGE | OFPCR12_ROLE_EQUAL |
    OFPCR12_ROLE_MASTER | OFPCR12_ROLE_SLAVE

primrec ofp12_controller_role_val :: "ofp12_controller_role \<Rightarrow> nat" where
  "ofp12_controller_role_val OFPCR12_ROLE_NOCHANGE = 0"
| "ofp12_controller_role_val OFPCR12_ROLE_EQUAL = 1"
| "ofp12_controller_role_val OFPCR12_ROLE_MASTER = 2"
| "ofp12_controller_role_val OFPCR12_ROLE_SLAVE = 3"

definition OFPET12_EXPERIMENTER :: nat where "OFPET12_EXPERIMENTER = 0xffff"

section \<open>Version 1.3\<close>

datatype ofp13_instruction_type = OFPIT13_METER

primrec ofp13_instruction_type_val :: "ofp13_instruction_type \<Rightarrow> nat" where
  "ofp13_instruction_type_val OFPIT13_METER = 6"

datatype ofp13_table_config = OFPTC13_DEPRECATED_MASK

primrec ofp13_table_config_val :: "ofp13_table_config \<Rightarrow> nat" where
  "ofp13_table_config_val OFPTC13_DEPRECATED_MASK = 3"

datatype ofp13_flow_mod_flags = OFPFF13_NO_PKT_COUNTS | OFPFF13_NO_BYT_COUNTS

primrec ofp13_flow_mod_flags_val :: "ofp13_flow_mod_flags \<Rightarrow> nat" where
  "ofp13_flow_mod_flags_val OFPFF13_NO_PKT_COUNTS = 2 ^ 3"
| "ofp13_flow_mod_flags_val OFPFF13_NO_BYT_COUNTS = 2 ^ 4"

datatype ofp13_meter = OFPM13_MAX | OFPM13_SLOWPATH | OFPM13_CONTROLLER | OFPM13_ALL

primrec ofp13_meter_val :: "ofp13_meter \<Rightarrow> nat" where
  "ofp13_meter_val OFPM13_MAX = 0xffff0000"
| "ofp13_meter_val OFPM13_SLOWPATH = 0xfffffffd"
| "ofp13_meter_val OFPM13_CONTROLLER = 0xfffffffe"
| "ofp13_meter_val OFPM13_ALL = 0xffffffff"

datatype ofp13_meter_mod_command = OFPMC13_ADD | OFPMC13_MODIFY | OFPMC13_DELETE

primrec ofp13_meter_mod_command_val :: "ofp13_meter_mod_command \<Rightarrow> nat" where
  "ofp13_meter_mod_command_val OFPMC13_ADD = 0"
| "ofp13_meter_mod_command_val OFPMC13_MODIFY = 1"
| "ofp13_meter_mod_command_val OFPMC13_DELETE = 2"

datatype ofp13_meter_flags = OFPMF13_KBPS | OFPMF13_PKTPS | OFPMF13_BURST | OFPMF13_STATS

primrec ofp13_meter_flags_val :: "ofp13_meter_flags \<Rightarrow> nat" where
  "ofp13_meter_flags_val OFPMF13_KBPS = 2 ^ 0"
| "ofp13_meter_flags_val OFPMF13_PKTPS = 2 ^ 1"
| "ofp13_meter_flags_val OFPMF13_BURST = 2 ^ 2"
| "ofp13_meter_flags_val OFPMF13_STATS = 2 ^ 3"

datatype ofp13_meter_band_type = OFPMBT13_DROP | OFPMBT13_DSCP_REMARK | OFPMBT13_EXPERIMENTER

primrec ofp13_meter_band_type_val :: "ofp13_meter_band_type \<Rightarrow> nat" where
  "ofp13_meter_band_type_val OFPMBT13_DROP = 1"
| "ofp13_meter_band_type_val OFPMBT13_DSCP_REMARK = 2"
| "ofp13_meter_band_type_val OFPMBT13_EXPERIMENTER = 0xffff"

datatype ofp13_multipart_request_flags = OFPMPF13_REQ_MORE

primrec ofp13_multipart_request_flags_val :: "ofp13_multipart_request_flags \<Rightarrow> nat" where
  "ofp13_multipart_request_flags_val OFPMPF13_REQ_MORE = 2 ^ 0"

datatype ofp13_table_feature_prop_type = OFPTFPT13_INSTRUCTIONS | OFPTFPT13_INSTRUCTIONS_MISS |
    OFPTFPT13_NEXT_TABLES | OFPTFPT13_NEXT_TABLES_MISS | OFPTFPT13_WRITE_ACTIONS |
    OFPTFPT13_WRITE_ACTIONS_MISS | OFPTFPT13_APPLY_ACTIONS | OFPTFPT13_APPLY_ACTIONS_MISS |
    OFPTFPT13_MATCH | OFPTFPT13_WILDCARDS | OFPTFPT13_WRITE_SETFIELD |
    OFPTFPT13_WRITE_SETFIELD_MISS | OFPTFPT13_APPLY_SETFIELD | OFPTFPT13_APPLY_SETFIELD_MISS |
    OFPTFPT13_EXPERIMENTER | OFPTFPT13_EXPERIMENTER_MISS

primrec ofp13_table_feature_prop_type_val :: "ofp13_table_feature_prop_type \<Rightarrow> nat" where
  "ofp13_table_feature_prop_type_val OFPTFPT13_INSTRUCTIONS = 0"
| "ofp13_table_feature_prop_type_val OFPTFPT13_INSTRUCTIONS_MISS = 1"
| "ofp13_table_feature_prop_type_val OFPTFPT13_NEXT_TABLES = 2"
| "ofp13_table_feature_prop_type_val OFPTFPT13_NEXT_TABLES_MISS = 3"
| "ofp13_table_feature_prop_type_val OFPTFPT13_WRITE_ACTIONS = 4"
| "ofp13_table_feature_prop_type_val OFPTFPT13_WRITE_ACTIONS_MISS = 5"
| "ofp13_table_feature_prop_type_val OFPTFPT13_APPLY_ACTIONS = 6"
| "ofp13_table_feature_prop_type_val OFPTFPT13_APPLY_ACTIONS_MISS = 7"
| "ofp13_table_feature_prop_type_val OFPTFPT13_MATCH = 8"
| "ofp13_table_feature_prop_type_val OFPTFPT13_WILDCARDS = 10"
| "ofp13_table_feature_prop_type_val OFPTFPT13_WRITE_SETFIELD = 12"
| "ofp13_table_feature_prop_type_val OFPTFPT13_WRITE_SETFIELD_MISS = 13"
| "ofp13_table_feature_prop_type_val OFPTFPT13_APPLY_SETFIELD = 14"
| "ofp13_table_feature_prop_type_val OFPTFPT13_APPLY_SETFIELD_MISS = 15"
| "ofp13_table_feature_prop_type_val OFPTFPT13_EXPERIMENTER = 0xfffe"
| "ofp13_table_feature_prop_type_val OFPTFPT13_EXPERIMENTER_MISS = 0xffff"

section \<open>Version 1.4\<close>

datatype ofp_port_desc_prop_type_ovs = OFPPDPT14_ETHERNET | OFPPDPT14_OPTICAL |
    OFPPDPT14_EXPERIMENTER

primrec ofp_port_desc_prop_type_ovs_val :: "ofp_port_desc_prop_type_ovs \<Rightarrow> nat" where
  "ofp_port_desc_prop_type_ovs_val OFPPDPT14_ETHERNET = 0"
| "ofp_port_desc_prop_type_ovs_val OFPPDPT14_OPTICAL = 1"
| "ofp_port_desc_prop_type_ovs_val OFPPDPT14_EXPERIMENTER = 0xffff"

datatype ofp14_port_mod_prop_type = OFPPMPT14_ETHERNET | OFPPMPT14_OPTICAL |
    OFPPMPT14_EXPERIMENTER

primrec ofp14_port_mod_prop_type_val :: "ofp14_port_mod_prop_type \<Rightarrow> nat" where
  "ofp14_port_mod_prop_type_val OFPPMPT14_ETHERNET = 0"
| "ofp14_port_mod_prop_type_val OFPPMPT14_OPTICAL = 1"
| "ofp14_port_mod_prop_type_val OFPPMPT14_EXPERIMENTER = 0xffff"

datatype ofp14_table_mod_prop_type = OFPTMPT14_EVICTION | OFPTMPT14_VACANCY |
    OFPTMPT14_EXPERIMENTER

primrec ofp14_table_mod_prop_type_val :: "ofp14_table_mod_prop_type \<Rightarrow> nat" where
  "ofp14_table_mod_prop_type_val OFPTMPT14_EVICTION = 0x2"
| "ofp14_table_mod_prop_type_val OFPTMPT14_VACANCY = 0x3"
| "ofp14_table_mod_prop_type_val OFPTMPT14_EXPERIMENTER = 0xffff"

datatype ofp14_table_mod_prop_eviction_flag = OFPTMPEF14_OTHER | OFPTMPEF14_IMPORTANCE |
    OFPTMPEF14_LIFETIME

primrec ofp14_table_mod_prop_eviction_flag_val :: "ofp14_table_mod_prop_eviction_flag \<Rightarrow> nat" where
  "ofp14_table_mod_prop_eviction_flag_val OFPTMPEF14_OTHER = 2 ^ 0"
| "ofp14_table_mod_prop_eviction_flag_val OFPTMPEF14_IMPORTANCE = 2 ^ 1"
| "ofp14_table_mod_prop_eviction_flag_val OFPTMPEF14_LIFETIME = 2 ^ 2"

datatype ofp14_port_stats_prop_type = OFPPSPT14_ETHERNET | OFPPSPT14_OPTICAL |
    OFPPSPT14_EXPERIMENTER

primrec ofp14_port_stats_prop_type_val :: "ofp14_port_stats_prop_type \<Rightarrow> nat" where
  "ofp14_port_stats_prop_type_val OFPPSPT14_ETHERNET = 0"
| "ofp14_port_stats_prop_type_val OFPPSPT14_OPTICAL = 1"
| "ofp14_port_stats_prop_type_val OFPPSPT14_EXPERIMENTER = 0xffff"

datatype ofp14_async_config_prop_type = OFPACPT_PACKET_IN_SLAVE | OFPACPT_PACKET_IN_MASTER |
    OFPACPT_PORT_STATUS_SLAVE | OFPACPT_PORT_STATUS_MASTER | OFPACPT_FLOW_REMOVED_SLAVE |
    OFPACPT_FLOW_REMOVED_MASTER | OFPACPT_ROLE_STATUS_SLAVE | OFPACPT_ROLE_STATUS_MASTER |
    OFPACPT_TABLE_STATUS_SLAVE | OFPACPT_TABLE_STATUS_MASTER | OFPACPT_REQUESTFORWARD_SLAVE |
    OFPACPT_REQUESTFORWARD_MASTER | OFPTFPT_EXPERIMENTER_SLAVE | OFPTFPT_EXPERIMENTER_MASTER

primrec ofp14_async_config_prop_type_val :: "ofp14_async_config_prop_type \<Rightarrow> nat" where
  "ofp14_async_config_prop_type_val OFPACPT_PACKET_IN_SLAVE = 0"
| "ofp14_async_config_prop_type_val OFPACPT_PACKET_IN_MASTER = 1"
| "ofp14_async_config_prop_type_val OFPACPT_PORT_STATUS_SLAVE = 2"
| "ofp14_async_config_prop_type_val OFPACPT_PORT_STATUS_MASTER = 3"
| "ofp14_async_config_prop_type_val OFPACPT_FLOW_REMOVED_SLAVE = 4"
| "ofp14_async_config_prop_type_val OFPACPT_FLOW_REMOVED_MASTER = 5"
| "ofp14_async_config_prop_type_val OFPACPT_ROLE_STATUS_SLAVE = 6"
| "ofp14_async_config_prop_type_val OFPACPT_ROLE_STATUS_MASTER = 7"
| "ofp14_async_config_prop_type_val OFPACPT_TABLE_STATUS_SLAVE = 8"
| "ofp14_async_config_prop_type_val OFPACPT_TABLE_STATUS_MASTER = 9"
| "ofp14_async_config_prop_type_val OFPACPT_REQUESTFORWARD_SLAVE = 10"
| "ofp14_async_config_prop_type_val OFPACPT_REQUESTFORWARD_MASTER = 11"
| "ofp14_async_config_prop_type_val OFPTFPT_EXPERIMENTER_SLAVE = 0xfffe"
| "ofp14_async_config_prop_type_val OFPTFPT_EXPERIMENTER_MASTER = 0xffff"

datatype ofp14_controller_role_reason = OFPCRR_MASTER_REQUEST | OFPCRR_CONFIG |
    OFPCRR_EXPERIMENTER

primrec ofp14_controller_role_reason_val :: "ofp14_controller_role_reason \<Rightarrow> nat" where
  "ofp14_controller_role_reason_val OFPCRR_MASTER_REQUEST = 0"
| "ofp14_controller_role_reason_val OFPCRR_CONFIG = 1"
| "ofp14_controller_role_reason_val OFPCRR_EXPERIMENTER = 2"

datatype ofp14_role_prop_type = OFPRPT_EXPERIMENTER

primrec ofp14_role_prop_type_val :: "ofp14_role_prop_type \<Rightarrow> nat" where
  "ofp14_role_prop_type_val OFPRPT_EXPERIMENTER = 0xffff"

datatype ofp14_bundle_ctrl_type = OFPBCT_OPEN_REQUEST | OFPBCT_OPEN_REPLY |
    OFPBCT_CLOSE_REQUEST | OFPBCT_CLOSE_REPLY | OFPBCT_COMMIT_REQUEST | OFPBCT_COMMIT_REPLY |
    OFPBCT_DISCARD_REQUEST | OFPBCT_DISCARD_REPLY

primrec ofp14_bundle_ctrl_type_val :: "ofp14_bundle_ctrl_type \<Rightarrow> nat" where
  "ofp14_bundle_ctrl_type_val OFPBCT_OPEN_REQUEST = 0"
| "ofp14_bundle_ctrl_type_val OFPBCT_OPEN_REPLY = 1"
| "ofp14_bundle_ctrl_type_val OFPBCT_CLOSE_REQUEST = 2"
| "ofp14_bundle_ctrl_type_val OFPBCT_CLOSE_REPLY = 3"
| "ofp14_bundle_ctrl_type_val OFPBCT_COMMIT_REQUEST = 4"
| "ofp14_bundle_ctrl_type_val OFPBCT_COMMIT_REPLY = 5"
| "ofp14_bundle_ctrl_type_val OFPBCT_DISCARD_REQUEST = 6"
| "ofp14_bundle_ctrl_type_val OFPBCT_DISCARD_REPLY = 7"

datatype ofp14_bundle_flags = OFPBF_ATOMIC | OFPBF_ORDERED

primrec ofp14_bundle_flags_val :: "ofp14_bundle_flags \<Rightarrow> nat" where
  "ofp14_bundle_flags_val OFPBF_ATOMIC = 2 ^ 0"
| "ofp14_bundle_flags_val OFPBF_ORDERED = 2 ^ 1"

datatype ofp14_flow_monitor_command = OFPFMC14_ADD | OFPFMC14_MODIFY | OFPFMC14_DELETE

primrec ofp14_flow_monitor_command_val :: "ofp14_flow_monitor_command \<Rightarrow> nat" where
  "ofp14_flow_monitor_command_val OFPFMC14_ADD = 0"
| "ofp14_flow_monitor_command_val OFPFMC14_MODIFY = 1"
| "ofp14_flow_monitor_command_val OFPFMC14_DELETE = 2"

datatype ofp14_flow_monitor_flags = OFPFMF14_INITIAL | OFPFMF14_ADD | OFPFMF14_REMOVED |
    OFPFMF14_MODIFY | OFPFMF14_INSTRUCTIONS | OFPFMF14_NO_ABBREV | OFPFMF14_ONLY_OWN

primrec ofp14_flow_monitor_flags_val :: "ofp14_flow_monitor_flags \<Rightarrow> nat" where
  "ofp14_flow_monitor_flags_val OFPFMF14_INITIAL = 2 ^ 0"
| "ofp14_flow_monitor_flags_val OFPFMF14_ADD = 2 ^ 1"
| "ofp14_flow_monitor_flags_val OFPFMF14_REMOVED = 2 ^ 2"
| "ofp14_flow_monitor_flags_val OFPFMF14_MODIFY = 2 ^ 3"
| "ofp14_flow_monitor_flags_val OFPFMF14_INSTRUCTIONS = 2 ^ 4"
| "ofp14_flow_monitor_flags_val OFPFMF14_NO_ABBREV = 2 ^ 5"
| "ofp14_flow_monitor_flags_val OFPFMF14_ONLY_OWN = 2 ^ 6"

section \<open>Version 1.5\<close>

datatype ofp15_group_mod_command = OFPGC15_ADD | OFPGC15_MODIFY | OFPGC15_DELETE |
    OFPGC15_INSERT_BUCKET | OFPGC15_REMOVE_BUCKET

primrec ofp15_group_mod_command_val :: "ofp15_group_mod_command \<Rightarrow> nat" where
  "ofp15_group_mod_command_val OFPGC15_ADD = 0"
| "ofp15_group_mod_command_val OFPGC15_MODIFY = 1"
| "ofp15_group_mod_command_val OFPGC15_DELETE = 2"
| "ofp15_group_mod_command_val OFPGC15_INSERT_BUCKET = 3"
| "ofp15_group_mod_command_val OFPGC15_REMOVE_BUCKET = 5"

datatype ofp15_group_bucket_prop_type = OFPGBPT15_WEIGHT | OFPGBPT15_WATCH_PORT |
    OFPGBPT15_WATCH_GROUP | OFPGBPT15_EXPERIMENTER

primrec ofp15_group_bucket_prop_type_val :: "ofp15_group_bucket_prop_type \<Rightarrow> nat" where
  "ofp15_group_bucket_prop_type_val OFPGBPT15_WEIGHT = 0"
| "ofp15_group_bucket_prop_type_val OFPGBPT15_WATCH_PORT = 1"
| "ofp15_group_bucket_prop_type_val OFPGBPT15_WATCH_GROUP = 2"
| "ofp15_group_bucket_prop_type_val OFPGBPT15_EXPERIMENTER = 0xffff"

datatype ofp15_group_bucket = OFPG15_BUCKET_MAX | OFPG15_BUCKET_FIRST | OFPG15_BUCKET_LAST |
    OFPG15_BUCKET_ALL

primrec ofp15_group_bucket_val :: "ofp15_group_bucket \<Rightarrow> nat" where
  "ofp15_group_bucket_val OFPG15_BUCKET_MAX = 0xffffff00"
| "ofp15_group_bucket_val OFPG15_BUCKET_FIRST = 0xfffffffd"
| "ofp15_group_bucket_val OFPG15_BUCKET_LAST = 0xfffffffe"
| "ofp15_group_bucket_val OFPG15_BUCKET_ALL = 0xffffffff"

datatype ofp_group_prop_type = OFPGPT15_EXPERIMENTER

primrec ofp_group_prop_type_val :: "ofp_group_prop_type \<Rightarrow> nat" where
  "ofp_group_prop_type_val OFPGPT15_EXPERIMENTER = 0xffff"

section \<open>Flags\<close>

text \<open>
  A field that takes the flags of two enumerations, the common one and the one of its version, can tell
  them apart: no flag of one has a bit of a flag of the other.
\<close>

definition apart :: "('a \<Rightarrow> nat) \<Rightarrow> ('b \<Rightarrow> nat) \<Rightarrow> bool" where
  "apart f g \<longleftrightarrow> (\<forall>x y. f x AND g y = 0)"

lemma flags_apart:
  "apart ofp_port_config_ovs_val ofp10_port_config_val"
  "apart ofp_port_features_ovs_val ofp10_port_features_val"
  "apart ofp_port_features_ovs_val ofp11_port_features_val"
  "apart ofp_port_state_ovs_val ofp10_port_state_val"
  "apart ofp_port_state_ovs_val ofp11_port_state_val"
  "apart ofp_capabilities_ovs_val ofp10_capabilities_val"
  "apart ofp_capabilities_ovs_val ofp11_capabilities_val"
  "apart ofp_capabilities_ovs_val ofp12_capabilities_val"
  "apart ofp_flow_mod_flags_ovs_val ofp10_flow_mod_flags_val"
  "apart ofp_flow_mod_flags_ovs_val ofp12_flow_mod_flags_val"
  "apart ofp_flow_mod_flags_ovs_val ofp13_flow_mod_flags_val"
  "apart ofp12_flow_mod_flags_val ofp13_flow_mod_flags_val"
  unfolding apart_def by (intro allI, rename_tac x y, case_tac x; case_tac y; simp)+

text \<open>The macros that stand for all flags of a field have the bits of every flag.\<close>

definition within :: "('a \<Rightarrow> nat) \<Rightarrow> nat \<Rightarrow> bool" where
  "within f n \<longleftrightarrow> (\<forall>x. f x AND n = f x)"

lemma flags_within:
  "within ofp_port_config_ovs_val OFPPC10_ALL"
  "within ofp10_port_config_val OFPPC10_ALL"
  "within ofp10_port_state_val OFPPS10_ALL"
  "within ofp_port_config_ovs_val OFPPC11_ALL"
  "within ofp11_port_state_val OFPPS11_ALL"
  "within ofp_port_features_ovs_val OFPPF11_ALL"
  "within ofp11_port_features_val OFPPF11_ALL"
  unfolding within_def OFPPC10_ALL_def OFPPS10_ALL_def OFPPC11_ALL_def OFPPS11_ALL_def OFPPF11_ALL_def
  by (rule allI, rename_tac x, case_tac x; simp)+

end
