(* ===== verification/Ovs_Ports.thy ===== *)
theory Ovs_Ports
  imports Openflow_Constants Ovs_Constants
begin

text \<open>
  The port numbers of \<^verbatim>\<open>include/openflow/openflow-1.0.h\<close> and \<^verbatim>\<open>openflow-1.1.h\<close>. They are made with the macros
  \<^verbatim>\<open>OFP_PORT_C\<close> and \<^verbatim>\<open>OFP11_PORT_C\<close> of a header that is not in the repository; what these make of a number is the
  parameter \<open>C\<close>.
\<close>

definition OFPP_MAX_ovs :: "(nat \<Rightarrow> 'p) \<Rightarrow> 'p" where "OFPP_MAX_ovs C = C 0xff00"
definition OFPP_FIRST_RESV_ovs :: "(nat \<Rightarrow> 'p) \<Rightarrow> 'p" where "OFPP_FIRST_RESV_ovs C = C 0xfff7"
definition OFPP_LAST_RESV_ovs :: "(nat \<Rightarrow> 'p) \<Rightarrow> 'p" where "OFPP_LAST_RESV_ovs C = C 0xffff"
definition OFPP_UNSET_ovs :: "(nat \<Rightarrow> 'p) \<Rightarrow> 'p" where "OFPP_UNSET_ovs C = C 0xfff7"
definition OFPP_IN_PORT_ovs :: "(nat \<Rightarrow> 'p) \<Rightarrow> 'p" where "OFPP_IN_PORT_ovs C = C 0xfff8"
definition OFPP_TABLE_ovs :: "(nat \<Rightarrow> 'p) \<Rightarrow> 'p" where "OFPP_TABLE_ovs C = C 0xfff9"
definition OFPP_NORMAL_ovs :: "(nat \<Rightarrow> 'p) \<Rightarrow> 'p" where "OFPP_NORMAL_ovs C = C 0xfffa"
definition OFPP_FLOOD_ovs :: "(nat \<Rightarrow> 'p) \<Rightarrow> 'p" where "OFPP_FLOOD_ovs C = C 0xfffb"
definition OFPP_ALL_ovs :: "(nat \<Rightarrow> 'p) \<Rightarrow> 'p" where "OFPP_ALL_ovs C = C 0xfffc"
definition OFPP_CONTROLLER_ovs :: "(nat \<Rightarrow> 'p) \<Rightarrow> 'p" where "OFPP_CONTROLLER_ovs C = C 0xfffd"
definition OFPP_LOCAL_ovs :: "(nat \<Rightarrow> 'p) \<Rightarrow> 'p" where "OFPP_LOCAL_ovs C = C 0xfffe"
definition OFPP_NONE_ovs :: "(nat \<Rightarrow> 'p) \<Rightarrow> 'p" where "OFPP_NONE_ovs C = C 0xffff"
definition OFPP11_MAX :: "(nat \<Rightarrow> 'p) \<Rightarrow> 'p" where "OFPP11_MAX C = C 0xffffff00"

lemmas port_numbers = OFPP_MAX_ovs_def OFPP_FIRST_RESV_ovs_def OFPP_LAST_RESV_ovs_def OFPP_UNSET_ovs_def
  OFPP_IN_PORT_ovs_def OFPP_TABLE_ovs_def OFPP_NORMAL_ovs_def OFPP_FLOOD_ovs_def OFPP_ALL_ovs_def
  OFPP_CONTROLLER_ovs_def OFPP_LOCAL_ovs_def OFPP_NONE_ovs_def OFPP11_MAX_def OFPP11_OFFSET_def

text \<open>
  The offset turns the 16-bit number of a reserved port into the 32-bit number of later versions, which is the
  one \<^verbatim>\<open>openflow.h\<close> has; the range of reserved ports has every one of them but the maximum.
\<close>

lemma port_offset:
  "ofp_port_no_val p = OFPP11_OFFSET + (case p of
     OFPP_MAX \<Rightarrow> OFPP_MAX_ovs id | OFPP_IN_PORT \<Rightarrow> OFPP_IN_PORT_ovs id | OFPP_TABLE \<Rightarrow> OFPP_TABLE_ovs id
   | OFPP_NORMAL \<Rightarrow> OFPP_NORMAL_ovs id | OFPP_FLOOD \<Rightarrow> OFPP_FLOOD_ovs id | OFPP_ALL \<Rightarrow> OFPP_ALL_ovs id
   | OFPP_CONTROLLER \<Rightarrow> OFPP_CONTROLLER_ovs id | OFPP_LOCAL \<Rightarrow> OFPP_LOCAL_ovs id | OFPP_ANY \<Rightarrow> OFPP_NONE_ovs id)"
  by (cases p) (simp_all add: port_numbers)

lemma reserved_ports:
  "p \<noteq> OFPP_MAX \<Longrightarrow> ofp_port_no_val p - OFPP11_OFFSET \<in> {OFPP_FIRST_RESV_ovs id..OFPP_LAST_RESV_ovs id}"
  by (cases p) (simp_all add: port_numbers)

lemma max_offset: "OFPP11_MAX id = OFPP11_OFFSET + OFPP_MAX_ovs id"
  by (simp add: port_numbers)

end
