(* ===== verification/Ovs_Agreement.thy ===== *)
theory Ovs_Agreement
  imports Ovs_Ports
begin

text \<open>
  The program brings two descriptions of OpenFlow: its own \<^verbatim>\<open>include/openflow.h\<close> and the headers of Open vSwitch
  in \<^verbatim>\<open>include/openflow/\<close>. Here the structures and enumerations that describe the same version of a message are set side by
  side, and then some that do not. A structure of Open vSwitch often leaves the
  message header out, which moves its fields by the header's eight bytes.
\<close>

section \<open>Structures\<close>

definition padding :: "string \<Rightarrow> bool" where
  "padding g \<longleftrightarrow> take 3 g = ''pad''"

text \<open>Every field of \<open>u\<close> but padding is in \<open>t\<close> too, \<open>k\<close> bytes further and as long.\<close>

definition agrees :: "nat \<times> cty \<times> cty \<Rightarrow> bool" where
  "agrees = (\<lambda>(k, t, u). case u of Struct fs \<Rightarrow> list_all (\<lambda>(g, _). padding g \<or>
     offsetof u g \<noteq> None \<and> offsetof t g = map_option ((+) k) (offsetof u g) \<and> field_bytes_of t g = field_bytes_of u g) fs
     | _ \<Rightarrow> False)"

definition same_common :: "ovs_types \<Rightarrow> (nat \<times> cty \<times> cty) list" where
  "same_common v = [
     (0, ofp_header, ofp_header_ovs v), (8, ofp_error_msg, ofp_error_msg_ovs v),
     (8, ofp_switch_config, ofp_switch_config_ovs v),
     (8, ofp_port_status, ofp_port_status_ovs v), (0, ofp_desc, ofp_desc_stats v),
     (0, ofp_aggregate_stats_reply, ofp_aggregate_stats_reply_ovs v),
     (0, ofp_hello_elem_header, ofp_hello_elem_header_ovs v)]"

definition same_1_1 :: "ovs_types \<Rightarrow> (nat \<times> cty \<times> cty) list" where
  "same_1_1 v = [
     (8, ofp_group_mod, ofp11_group_mod v),
     (0, ofp_instruction_goto_table, ofp11_instruction_goto_table v),
     (0, ofp_instruction_write_metadata, ofp11_instruction_write_metadata v),
     (0, ofp_instruction_actions, ofp11_instruction_actions v),
     (8, ofp_table_mod, ofp11_table_mod v), (8, ofp_flow_mod, ofp11_flow_mod v),
     (0, ofp_bucket, ofp11_bucket v), (0, ofp_flow_stats_request, ofp11_flow_stats_request v),
     (0, ofp_flow_stats, ofp11_flow_stats v),
     (0, ofp_port_stats_request, ofp11_port_stats_request v),
     (0, ofp_queue_stats_request, ofp11_queue_stats_request v),
     (8, ofp_queue_stats, ofp11_queue_stats v),
     (0, ofp_group_stats_request, ofp11_group_stats_request v),
     (0, ofp_bucket_counter, ofp11_bucket_counter v), (0, ofp_group_stats, ofp11_group_stats v),
     (0, ofp_group_desc, ofp11_group_desc_stats v), (8, ofp_packet_out, ofp11_packet_out v),
     (8, ofp_flow_removed, ofp11_flow_removed v)]"

definition same_1_2 :: "ovs_types \<Rightarrow> (nat \<times> cty \<times> cty) list" where
  "same_1_2 v = [
     (0, ofp_oxm_experimenter_header, ofp12_oxm_experimenter_header v),
     (8, ofp_role_request, ofp12_role_request v), (8, ofp_packet_in, ofp12_packet_in v),
     (8, ofp_flow_removed, ofp12_flow_removed v)]"

definition same_1_3 :: "ovs_types \<Rightarrow> (nat \<times> cty \<times> cty) list" where
  "same_1_3 v = [
     (0, ofp_instruction_meter, ofp13_instruction_meter v),
     (0, ofp_meter_band_header, ofp13_meter_band_header v),
     (8, ofp_meter_mod, ofp13_meter_mod v), (0, ofp_meter_band_drop, ofp13_meter_band_drop v),
     (0, ofp_meter_band_dscp_remark, ofp13_meter_band_dscp_remark v),
     (0, ofp_meter_band_experimenter, ofp13_meter_band_experimenter v),
     (0, ofp_table_stats, ofp13_table_stats v),
     (0, ofp_table_feature_prop_header, ofp13_table_feature_prop_header v),
     (0, ofp_table_feature_prop_instructions, ofp13_table_feature_prop_instructions v),
     (0, ofp_table_feature_prop_actions, ofp13_table_feature_prop_actions v),
     (0, ofp_table_feature_prop_oxm, ofp13_table_feature_prop_oxm v),
     (0, ofp_table_feature_prop_experimenter, ofp13_table_feature_prop_experimenter v),
     (0, ofp_meter_multipart_request, ofp13_meter_multipart_request v),
     (0, ofp_meter_band_stats, ofp13_meter_band_stats v),
     (0, ofp_meter_stats, ofp13_meter_stats v), (0, ofp_meter_config, ofp13_meter_config v),
     (0, ofp_meter_features, ofp13_meter_features v)]"

definition same_1_4 :: "ovs_types \<Rightarrow> (nat \<times> cty \<times> cty) list" where
  "same_1_4 v = [
     (0, ofp_port_desc_prop_ethernet, ofp14_port_desc_prop_ethernet v),
     (0, ofp_port, ofp14_port v),
     (0, ofp_port_mod_prop_ethernet, ofp14_port_mod_prop_ethernet v),
     (8, ofp_port_mod, ofp14_port_mod v),
     (0, ofp_table_mod_prop_eviction, ofp14_table_mod_prop_eviction v),
     (0, ofp_table_mod_prop_vacancy, ofp14_table_mod_prop_vacancy v),
     (8, ofp_table_mod, ofp14_table_mod v),
     (0, ofp_port_stats_prop_ethernet, ofp14_port_stats_prop_ethernet v),
     (0, ofp_port_stats, ofp14_port_stats v),
     (0, ofp_async_config_prop_header, ofp14_async_config_prop_header v),
     (0, ofp_async_config, ofp14_async_config v),
     (0, ofp_async_config_prop_reasons, ofp14_async_config_prop_reasons v),
     (0, ofp_async_config_prop_experimenter, ofp14_async_config_prop_experimenter v),
     (0, ofp_role_prop_header, ofp14_role_prop_header v),
     (8, ofp_role_status, ofp14_role_status v),
     (0, ofp_role_prop_experimenter, ofp14_role_prop_experimenter v),
     (8, ofp_bundle_ctrl_msg, ofp14_bundle_ctrl_msg v),
     (0, ofp_flow_monitor_request, ofp14_flow_monitor_request v)]"

definition same_messages :: "ovs_types \<Rightarrow> (nat \<times> cty \<times> cty) list" where
  "same_messages v = same_common v @ same_1_1 v @ same_1_2 v @ same_1_3 v @ same_1_4 v"

lemmas agree_eval = agrees_def padding_def offsetof_def field_bytes_of_def sizeof_def round_up_def scalar_defs
  ovs_length_defs length_defs

lemma agree_common: "documented v \<Longrightarrow> list_all agrees (same_common v)"
  by (simp add: same_common_def agree_eval documented_types del: One_nat_def
    add: ofp_header_def ofp_header_ovs_def ofp_error_msg_def ofp_error_msg_ovs_def
    ofp_switch_config_def ofp_switch_config_ovs_def ofp_port_desc_prop_header_def ofp_port_def
    ofp_port_status_def ofp_port_status_ovs_def ofp_desc_def ofp_desc_stats_def
    ofp_aggregate_stats_reply_def ofp_aggregate_stats_reply_ovs_def ofp_hello_elem_header_def
    ofp_hello_elem_header_ovs_def)

lemma agree_1_1: "documented v \<Longrightarrow> list_all agrees (same_1_1 v)"
  by (simp add: same_1_1_def agree_eval documented_types del: One_nat_def
    add: ofp_header_def ofp_action_header_def ofp_bucket_def ofp_group_mod_def
    ofp11_group_mod_def ofp_instruction_goto_table_def ofp11_instruction_goto_table_def
    ofp_instruction_write_metadata_def ofp11_instruction_write_metadata_def
    ofp_instruction_actions_def ofp11_instruction_actions_def ofp_table_mod_prop_header_def
    ofp_table_mod_def ofp11_table_mod_def ofp_match_def ofp_flow_mod_def ofp11_flow_mod_def
    ofp11_bucket_def ofp_flow_stats_request_def ofp11_flow_stats_request_def ofp_flow_stats_def
    ofp11_flow_stats_def ofp_port_stats_request_def ofp11_port_stats_request_def
    ofp_queue_stats_request_def ofp11_queue_stats_request_def ofp_queue_stats_prop_header_def
    ofp_queue_stats_def ofp11_queue_stats_def ofp_group_stats_request_def
    ofp11_group_stats_request_def ofp_bucket_counter_def ofp11_bucket_counter_def
    ofp_group_stats_def ofp11_group_stats_def ofp_group_desc_def ofp11_group_desc_stats_def
    ofp_packet_out_def ofp11_packet_out_def ofp_flow_removed_def ofp11_flow_removed_def)

lemma agree_1_2: "documented v \<Longrightarrow> list_all agrees (same_1_2 v)"
  by (simp add: same_1_2_def agree_eval documented_types del: One_nat_def
    add: ofp_oxm_experimenter_header_def ofp12_oxm_experimenter_header_def ofp_header_def
    ofp_role_request_def ofp12_role_request_def ofp_match_def ofp_packet_in_def
    ofp12_packet_in_def ofp_flow_removed_def ofp12_flow_removed_def)

lemma agree_1_3: "documented v \<Longrightarrow> list_all agrees (same_1_3 v)"
  by (simp add: same_1_3_def agree_eval documented_types del: One_nat_def
    add: ofp_instruction_meter_def ofp13_instruction_meter_def ofp_meter_band_header_def
    ofp13_meter_band_header_def ofp_header_def ofp_meter_mod_def ofp13_meter_mod_def
    ofp_meter_band_drop_def ofp13_meter_band_drop_def ofp_meter_band_dscp_remark_def
    ofp13_meter_band_dscp_remark_def ofp_meter_band_experimenter_def
    ofp13_meter_band_experimenter_def ofp_table_stats_def ofp13_table_stats_def
    ofp_table_feature_prop_header_def ofp13_table_feature_prop_header_def ofp_instruction_id_def
    ofp_table_feature_prop_instructions_def ofp13_table_feature_prop_instructions_def
    ofp_action_id_def ofp_table_feature_prop_actions_def ofp13_table_feature_prop_actions_def
    ofp_table_feature_prop_oxm_def ofp13_table_feature_prop_oxm_def
    ofp_table_feature_prop_experimenter_def ofp13_table_feature_prop_experimenter_def
    ofp_meter_multipart_request_def ofp13_meter_multipart_request_def ofp_meter_band_stats_def
    ofp13_meter_band_stats_def ofp_meter_stats_def ofp13_meter_stats_def ofp_meter_config_def
    ofp13_meter_config_def ofp_meter_features_def ofp13_meter_features_def)

lemma agree_1_4: "documented v \<Longrightarrow> list_all agrees (same_1_4 v)"
  by (simp add: same_1_4_def agree_eval documented_types del: One_nat_def
    add: ofp_port_desc_prop_ethernet_def ofp14_port_desc_prop_ethernet_def
    ofp_port_desc_prop_header_def ofp_port_def ofp14_port_def ofp_port_mod_prop_ethernet_def
    ofp14_port_mod_prop_ethernet_def ofp_header_def ofp_port_mod_prop_header_def ofp_port_mod_def
    ofp14_port_mod_def ofp_table_mod_prop_eviction_def ofp14_table_mod_prop_eviction_def
    ofp_table_mod_prop_vacancy_def ofp14_table_mod_prop_vacancy_def ofp_table_mod_prop_header_def
    ofp_table_mod_def ofp14_table_mod_def ofp_port_stats_prop_ethernet_def
    ofp14_port_stats_prop_ethernet_def ofp_port_stats_def ofp14_port_stats_def
    ofp_async_config_prop_header_def ofp14_async_config_prop_header_def ofp_async_config_def
    ofp_header_ovs_def ofp14_async_config_def ofp_async_config_prop_reasons_def
    ofp14_async_config_prop_reasons_def ofp_async_config_prop_experimenter_def
    ofp14_async_config_prop_experimenter_def ofp_role_prop_header_def ofp14_role_prop_header_def
    ofp_role_status_def ofp14_role_status_def ofp_role_prop_experimenter_def
    ofp14_role_prop_experimenter_def ofp_bundle_prop_header_def ofp_bundle_ctrl_msg_def
    ofp14_bundle_ctrl_msg_def ofp_match_def ofp_flow_monitor_request_def
    ofp14_flow_monitor_request_def)

section \<open>Enumerations\<close>

text \<open>The numbers of the constants of an enumeration of Open vSwitch, and of the same constants in \<^verbatim>\<open>openflow.h\<close>.\<close>

definition same_numbers :: "(nat list \<times> nat list) list" where
  "same_numbers = [
     (map ofp_port_config_ovs_val [ofp_port_config_ovs.OFPPC_PORT_DOWN,
        ofp_port_config_ovs.OFPPC_NO_RECV, ofp_port_config_ovs.OFPPC_NO_FWD,
        ofp_port_config_ovs.OFPPC_NO_PACKET_IN],
      map ofp_port_config_val [ofp_port_config.OFPPC_PORT_DOWN, ofp_port_config.OFPPC_NO_RECV,
        ofp_port_config.OFPPC_NO_FWD, ofp_port_config.OFPPC_NO_PACKET_IN]),
     (map ofp_port_state_ovs_val [ofp_port_state_ovs.OFPPS_LINK_DOWN],
      map ofp_port_state_val [ofp_port_state.OFPPS_LINK_DOWN]),
     (map ofp_port_features_ovs_val [ofp_port_features_ovs.OFPPF_10MB_HD,
        ofp_port_features_ovs.OFPPF_10MB_FD, ofp_port_features_ovs.OFPPF_100MB_HD,
        ofp_port_features_ovs.OFPPF_100MB_FD, ofp_port_features_ovs.OFPPF_1GB_HD,
        ofp_port_features_ovs.OFPPF_1GB_FD, ofp_port_features_ovs.OFPPF_10GB_FD],
      map ofp_port_features_val [ofp_port_features.OFPPF_10MB_HD,
        ofp_port_features.OFPPF_10MB_FD, ofp_port_features.OFPPF_100MB_HD,
        ofp_port_features.OFPPF_100MB_FD, ofp_port_features.OFPPF_1GB_HD,
        ofp_port_features.OFPPF_1GB_FD, ofp_port_features.OFPPF_10GB_FD]),
     (map ofp_flow_mod_command_ovs_val [ofp_flow_mod_command_ovs.OFPFC_ADD,
        ofp_flow_mod_command_ovs.OFPFC_MODIFY, ofp_flow_mod_command_ovs.OFPFC_MODIFY_STRICT,
        ofp_flow_mod_command_ovs.OFPFC_DELETE, ofp_flow_mod_command_ovs.OFPFC_DELETE_STRICT],
      map ofp_flow_mod_command_val [ofp_flow_mod_command.OFPFC_ADD,
        ofp_flow_mod_command.OFPFC_MODIFY, ofp_flow_mod_command.OFPFC_MODIFY_STRICT,
        ofp_flow_mod_command.OFPFC_DELETE, ofp_flow_mod_command.OFPFC_DELETE_STRICT]),
     (map ofp_flow_mod_flags_ovs_val [ofp_flow_mod_flags_ovs.OFPFF_SEND_FLOW_REM,
        ofp_flow_mod_flags_ovs.OFPFF_CHECK_OVERLAP],
      map ofp_flow_mod_flags_val [ofp_flow_mod_flags.OFPFF_SEND_FLOW_REM,
        ofp_flow_mod_flags.OFPFF_CHECK_OVERLAP]),
     (map ofp_flow_removed_reason_ovs_val [ofp_flow_removed_reason_ovs.OFPRR_IDLE_TIMEOUT,
        ofp_flow_removed_reason_ovs.OFPRR_HARD_TIMEOUT, ofp_flow_removed_reason_ovs.OFPRR_DELETE,
        ofp_flow_removed_reason_ovs.OFPRR_GROUP_DELETE,
        ofp_flow_removed_reason_ovs.OFPRR_METER_DELETE, ofp_flow_removed_reason_ovs.OFPRR_EVICTION],
      map ofp_flow_removed_reason_val [ofp_flow_removed_reason.OFPRR_IDLE_TIMEOUT,
        ofp_flow_removed_reason.OFPRR_HARD_TIMEOUT, ofp_flow_removed_reason.OFPRR_DELETE,
        ofp_flow_removed_reason.OFPRR_GROUP_DELETE, ofp_flow_removed_reason.OFPRR_METER_DELETE,
        ofp_flow_removed_reason.OFPRR_EVICTION]),
     (map ofp_port_reason_ovs_val [ofp_port_reason_ovs.OFPPR_ADD,
        ofp_port_reason_ovs.OFPPR_DELETE, ofp_port_reason_ovs.OFPPR_MODIFY],
      map ofp_port_reason_val [ofp_port_reason.OFPPR_ADD, ofp_port_reason.OFPPR_DELETE,
        ofp_port_reason.OFPPR_MODIFY]),
     (map ofp_match_type_ovs_val [ofp_match_type_ovs.OFPMT_STANDARD, ofp_match_type_ovs.OFPMT_OXM],
      map ofp_match_type_val [ofp_match_type.OFPMT_STANDARD, ofp_match_type.OFPMT_OXM]),
     (map ofp_group_ovs_val [ofp_group_ovs.OFPG_MAX, ofp_group_ovs.OFPG_ALL,
        ofp_group_ovs.OFPG_ANY],
      map ofp_group_val [ofp_group.OFPG_MAX, ofp_group.OFPG_ALL, ofp_group.OFPG_ANY]),
     (map ofp_group_capabilities_ovs_val [ofp_group_capabilities_ovs.OFPGFC_SELECT_WEIGHT,
        ofp_group_capabilities_ovs.OFPGFC_SELECT_LIVENESS,
        ofp_group_capabilities_ovs.OFPGFC_CHAINING,
        ofp_group_capabilities_ovs.OFPGFC_CHAINING_CHECKS],
      map ofp_group_capabilities_val [ofp_group_capabilities.OFPGFC_SELECT_WEIGHT,
        ofp_group_capabilities.OFPGFC_SELECT_LIVENESS, ofp_group_capabilities.OFPGFC_CHAINING,
        ofp_group_capabilities.OFPGFC_CHAINING_CHECKS]),
     (map ofp_hello_elem_type_ovs_val [ofp_hello_elem_type_ovs.OFPHET_VERSIONBITMAP],
      map ofp_hello_elem_type_val [ofp_hello_elem_type.OFPHET_VERSIONBITMAP]),
     (map ofp_table_ovs_val [ofp_table_ovs.OFPTT_MAX, ofp_table_ovs.OFPTT_ALL],
      map ofp_table_val [ofp_table.OFPTT_MAX, ofp_table.OFPTT_ALL]),
     (map ofp11_port_state_val [ofp11_port_state.OFPPS11_BLOCKED, ofp11_port_state.OFPPS11_LIVE],
      map ofp_port_state_val [ofp_port_state.OFPPS_BLOCKED, ofp_port_state.OFPPS_LIVE]),
     (map ofp11_port_features_val [ofp11_port_features.OFPPF11_40GB_FD,
        ofp11_port_features.OFPPF11_100GB_FD, ofp11_port_features.OFPPF11_1TB_FD,
        ofp11_port_features.OFPPF11_OTHER, ofp11_port_features.OFPPF11_COPPER,
        ofp11_port_features.OFPPF11_FIBER, ofp11_port_features.OFPPF11_AUTONEG,
        ofp11_port_features.OFPPF11_PAUSE, ofp11_port_features.OFPPF11_PAUSE_ASYM],
      map ofp_port_features_val [ofp_port_features.OFPPF_40GB_FD,
        ofp_port_features.OFPPF_100GB_FD, ofp_port_features.OFPPF_1TB_FD,
        ofp_port_features.OFPPF_OTHER, ofp_port_features.OFPPF_COPPER,
        ofp_port_features.OFPPF_FIBER, ofp_port_features.OFPPF_AUTONEG,
        ofp_port_features.OFPPF_PAUSE, ofp_port_features.OFPPF_PAUSE_ASYM]),
     (map ofp11_group_mod_command_val [ofp11_group_mod_command.OFPGC11_ADD,
        ofp11_group_mod_command.OFPGC11_MODIFY, ofp11_group_mod_command.OFPGC11_DELETE],
      map ofp_group_mod_command_val [ofp_group_mod_command.OFPGC_ADD,
        ofp_group_mod_command.OFPGC_MODIFY, ofp_group_mod_command.OFPGC_DELETE]),
     (map ofp11_capabilities_val [ofp11_capabilities.OFPC11_GROUP_STATS],
      map ofp_capabilities_val [ofp_capabilities.OFPC_GROUP_STATS]),
     (map ofp11_instruction_type_val [ofp11_instruction_type.OFPIT11_GOTO_TABLE,
        ofp11_instruction_type.OFPIT11_WRITE_METADATA,
        ofp11_instruction_type.OFPIT11_WRITE_ACTIONS,
        ofp11_instruction_type.OFPIT11_APPLY_ACTIONS,
        ofp11_instruction_type.OFPIT11_CLEAR_ACTIONS, ofp11_instruction_type.OFPIT11_EXPERIMENTER],
      map ofp_instruction_type_val [ofp_instruction_type.OFPIT_GOTO_TABLE,
        ofp_instruction_type.OFPIT_WRITE_METADATA, ofp_instruction_type.OFPIT_WRITE_ACTIONS,
        ofp_instruction_type.OFPIT_APPLY_ACTIONS, ofp_instruction_type.OFPIT_CLEAR_ACTIONS,
        ofp_instruction_type.OFPIT_EXPERIMENTER]),
     (map ofp11_group_type_val [ofp11_group_type.OFPGT11_ALL, ofp11_group_type.OFPGT11_SELECT,
        ofp11_group_type.OFPGT11_INDIRECT, ofp11_group_type.OFPGT11_FF],
      map ofp_group_type_val [ofp_group_type.OFPGT_ALL, ofp_group_type.OFPGT_SELECT,
        ofp_group_type.OFPGT_INDIRECT, ofp_group_type.OFPGT_FF]),
     (map ofp11_group_val [ofp11_group.OFPG11_MAX, ofp11_group.OFPG11_ALL, ofp11_group.OFPG11_ANY],
      map ofp_group_val [ofp_group.OFPG_MAX, ofp_group.OFPG_ALL, ofp_group.OFPG_ANY]),
     (map ofp12_vlan_id_val [ofp12_vlan_id.OFPVID12_PRESENT, ofp12_vlan_id.OFPVID12_NONE],
      map ofp_vlan_id_val [ofp_vlan_id.OFPVID_PRESENT, ofp_vlan_id.OFPVID_NONE]),
     (map ofp12_ipv6exthdr_flags_val [ofp12_ipv6exthdr_flags.OFPIEH12_NONEXT,
        ofp12_ipv6exthdr_flags.OFPIEH12_ESP, ofp12_ipv6exthdr_flags.OFPIEH12_AUTH,
        ofp12_ipv6exthdr_flags.OFPIEH12_DEST, ofp12_ipv6exthdr_flags.OFPIEH12_FRAG,
        ofp12_ipv6exthdr_flags.OFPIEH12_ROUTER, ofp12_ipv6exthdr_flags.OFPIEH12_HOP,
        ofp12_ipv6exthdr_flags.OFPIEH12_UNREP, ofp12_ipv6exthdr_flags.OFPIEH12_UNSEQ],
      map ofp_ipv6exthdr_flags_val [ofp_ipv6exthdr_flags.OFPIEH_NONEXT,
        ofp_ipv6exthdr_flags.OFPIEH_ESP, ofp_ipv6exthdr_flags.OFPIEH_AUTH,
        ofp_ipv6exthdr_flags.OFPIEH_DEST, ofp_ipv6exthdr_flags.OFPIEH_FRAG,
        ofp_ipv6exthdr_flags.OFPIEH_ROUTER, ofp_ipv6exthdr_flags.OFPIEH_HOP,
        ofp_ipv6exthdr_flags.OFPIEH_UNREP, ofp_ipv6exthdr_flags.OFPIEH_UNSEQ]),
     (map ofp12_controller_max_len_val [ofp12_controller_max_len.OFPCML12_MAX,
        ofp12_controller_max_len.OFPCML12_NO_BUFFER],
      map ofp_controller_max_len_val [ofp_controller_max_len.OFPCML_MAX,
        ofp_controller_max_len.OFPCML_NO_BUFFER]),
     (map ofp12_flow_mod_flags_val [ofp12_flow_mod_flags.OFPFF12_RESET_COUNTS],
      map ofp_flow_mod_flags_val [ofp_flow_mod_flags.OFPFF_RESET_COUNTS]),
     (map ofp12_capabilities_val [ofp12_capabilities.OFPC12_PORT_BLOCKED],
      map ofp_capabilities_val [ofp_capabilities.OFPC_PORT_BLOCKED]),
     (map ofp12_group_capabilities_val [ofp12_group_capabilities.OFPGFC12_SELECT_WEIGHT,
        ofp12_group_capabilities.OFPGFC12_SELECT_LIVENESS,
        ofp12_group_capabilities.OFPGFC12_CHAINING,
        ofp12_group_capabilities.OFPGFC12_CHAINING_CHECKS],
      map ofp_group_capabilities_val [ofp_group_capabilities.OFPGFC_SELECT_WEIGHT,
        ofp_group_capabilities.OFPGFC_SELECT_LIVENESS, ofp_group_capabilities.OFPGFC_CHAINING,
        ofp_group_capabilities.OFPGFC_CHAINING_CHECKS]),
     (map ofp12_controller_role_val [ofp12_controller_role.OFPCR12_ROLE_NOCHANGE,
        ofp12_controller_role.OFPCR12_ROLE_EQUAL, ofp12_controller_role.OFPCR12_ROLE_MASTER,
        ofp12_controller_role.OFPCR12_ROLE_SLAVE],
      map ofp_controller_role_val [ofp_controller_role.OFPCR_ROLE_NOCHANGE,
        ofp_controller_role.OFPCR_ROLE_EQUAL, ofp_controller_role.OFPCR_ROLE_MASTER,
        ofp_controller_role.OFPCR_ROLE_SLAVE]),
     (map ofp13_instruction_type_val [ofp13_instruction_type.OFPIT13_METER],
      map ofp_instruction_type_val [ofp_instruction_type.OFPIT_METER]),
     (map ofp13_table_config_val [ofp13_table_config.OFPTC13_DEPRECATED_MASK],
      map ofp_table_config_val [ofp_table_config.OFPTC_DEPRECATED_MASK]),
     (map ofp13_flow_mod_flags_val [ofp13_flow_mod_flags.OFPFF13_NO_PKT_COUNTS,
        ofp13_flow_mod_flags.OFPFF13_NO_BYT_COUNTS],
      map ofp_flow_mod_flags_val [ofp_flow_mod_flags.OFPFF_NO_PKT_COUNTS,
        ofp_flow_mod_flags.OFPFF_NO_BYT_COUNTS]),
     (map ofp13_meter_val [ofp13_meter.OFPM13_MAX, ofp13_meter.OFPM13_SLOWPATH,
        ofp13_meter.OFPM13_CONTROLLER, ofp13_meter.OFPM13_ALL],
      map ofp_meter_val [ofp_meter.OFPM_MAX, ofp_meter.OFPM_SLOWPATH, ofp_meter.OFPM_CONTROLLER,
        ofp_meter.OFPM_ALL]),
     (map ofp13_meter_mod_command_val [ofp13_meter_mod_command.OFPMC13_ADD,
        ofp13_meter_mod_command.OFPMC13_MODIFY, ofp13_meter_mod_command.OFPMC13_DELETE],
      map ofp_meter_mod_command_val [ofp_meter_mod_command.OFPMC_ADD,
        ofp_meter_mod_command.OFPMC_MODIFY, ofp_meter_mod_command.OFPMC_DELETE]),
     (map ofp13_meter_flags_val [ofp13_meter_flags.OFPMF13_KBPS, ofp13_meter_flags.OFPMF13_PKTPS,
        ofp13_meter_flags.OFPMF13_BURST, ofp13_meter_flags.OFPMF13_STATS],
      map ofp_meter_flags_val [ofp_meter_flags.OFPMF_KBPS, ofp_meter_flags.OFPMF_PKTPS,
        ofp_meter_flags.OFPMF_BURST, ofp_meter_flags.OFPMF_STATS]),
     (map ofp13_meter_band_type_val [ofp13_meter_band_type.OFPMBT13_DROP,
        ofp13_meter_band_type.OFPMBT13_DSCP_REMARK, ofp13_meter_band_type.OFPMBT13_EXPERIMENTER],
      map ofp_meter_band_type_val [ofp_meter_band_type.OFPMBT_DROP,
        ofp_meter_band_type.OFPMBT_DSCP_REMARK, ofp_meter_band_type.OFPMBT_EXPERIMENTER]),
     (map ofp13_multipart_request_flags_val [ofp13_multipart_request_flags.OFPMPF13_REQ_MORE],
      map ofp_multipart_request_flags_val [ofp_multipart_request_flags.OFPMPF_REQ_MORE]),
     (map ofp13_table_feature_prop_type_val [ofp13_table_feature_prop_type.OFPTFPT13_INSTRUCTIONS,
        ofp13_table_feature_prop_type.OFPTFPT13_INSTRUCTIONS_MISS,
        ofp13_table_feature_prop_type.OFPTFPT13_NEXT_TABLES,
        ofp13_table_feature_prop_type.OFPTFPT13_NEXT_TABLES_MISS,
        ofp13_table_feature_prop_type.OFPTFPT13_WRITE_ACTIONS,
        ofp13_table_feature_prop_type.OFPTFPT13_WRITE_ACTIONS_MISS,
        ofp13_table_feature_prop_type.OFPTFPT13_APPLY_ACTIONS,
        ofp13_table_feature_prop_type.OFPTFPT13_APPLY_ACTIONS_MISS,
        ofp13_table_feature_prop_type.OFPTFPT13_MATCH,
        ofp13_table_feature_prop_type.OFPTFPT13_WILDCARDS,
        ofp13_table_feature_prop_type.OFPTFPT13_WRITE_SETFIELD,
        ofp13_table_feature_prop_type.OFPTFPT13_WRITE_SETFIELD_MISS,
        ofp13_table_feature_prop_type.OFPTFPT13_APPLY_SETFIELD,
        ofp13_table_feature_prop_type.OFPTFPT13_APPLY_SETFIELD_MISS,
        ofp13_table_feature_prop_type.OFPTFPT13_EXPERIMENTER,
        ofp13_table_feature_prop_type.OFPTFPT13_EXPERIMENTER_MISS],
      map ofp_table_feature_prop_type_val [ofp_table_feature_prop_type.OFPTFPT_INSTRUCTIONS,
        ofp_table_feature_prop_type.OFPTFPT_INSTRUCTIONS_MISS,
        ofp_table_feature_prop_type.OFPTFPT_NEXT_TABLES,
        ofp_table_feature_prop_type.OFPTFPT_NEXT_TABLES_MISS,
        ofp_table_feature_prop_type.OFPTFPT_WRITE_ACTIONS,
        ofp_table_feature_prop_type.OFPTFPT_WRITE_ACTIONS_MISS,
        ofp_table_feature_prop_type.OFPTFPT_APPLY_ACTIONS,
        ofp_table_feature_prop_type.OFPTFPT_APPLY_ACTIONS_MISS,
        ofp_table_feature_prop_type.OFPTFPT_MATCH, ofp_table_feature_prop_type.OFPTFPT_WILDCARDS,
        ofp_table_feature_prop_type.OFPTFPT_WRITE_SETFIELD,
        ofp_table_feature_prop_type.OFPTFPT_WRITE_SETFIELD_MISS,
        ofp_table_feature_prop_type.OFPTFPT_APPLY_SETFIELD,
        ofp_table_feature_prop_type.OFPTFPT_APPLY_SETFIELD_MISS,
        ofp_table_feature_prop_type.OFPTFPT_EXPERIMENTER,
        ofp_table_feature_prop_type.OFPTFPT_EXPERIMENTER_MISS]),
     (map ofp_port_desc_prop_type_ovs_val [ofp_port_desc_prop_type_ovs.OFPPDPT14_ETHERNET,
        ofp_port_desc_prop_type_ovs.OFPPDPT14_OPTICAL,
        ofp_port_desc_prop_type_ovs.OFPPDPT14_EXPERIMENTER],
      map ofp_port_desc_prop_type_val [ofp_port_desc_prop_type.OFPPDPT_ETHERNET,
        ofp_port_desc_prop_type.OFPPDPT_OPTICAL, ofp_port_desc_prop_type.OFPPDPT_EXPERIMENTER]),
     (map ofp14_port_mod_prop_type_val [ofp14_port_mod_prop_type.OFPPMPT14_ETHERNET,
        ofp14_port_mod_prop_type.OFPPMPT14_OPTICAL,
        ofp14_port_mod_prop_type.OFPPMPT14_EXPERIMENTER],
      map ofp_port_mod_prop_type_val [ofp_port_mod_prop_type.OFPPMPT_ETHERNET,
        ofp_port_mod_prop_type.OFPPMPT_OPTICAL, ofp_port_mod_prop_type.OFPPMPT_EXPERIMENTER]),
     (map ofp14_table_mod_prop_type_val [ofp14_table_mod_prop_type.OFPTMPT14_EVICTION,
        ofp14_table_mod_prop_type.OFPTMPT14_VACANCY,
        ofp14_table_mod_prop_type.OFPTMPT14_EXPERIMENTER],
      map ofp_table_mod_prop_type_val [ofp_table_mod_prop_type.OFPTMPT_EVICTION,
        ofp_table_mod_prop_type.OFPTMPT_VACANCY, ofp_table_mod_prop_type.OFPTMPT_EXPERIMENTER]),
     (map ofp14_table_mod_prop_eviction_flag_val [ofp14_table_mod_prop_eviction_flag.OFPTMPEF14_OTHER,
        ofp14_table_mod_prop_eviction_flag.OFPTMPEF14_IMPORTANCE,
        ofp14_table_mod_prop_eviction_flag.OFPTMPEF14_LIFETIME],
      map ofp_table_mod_prop_eviction_flag_val [ofp_table_mod_prop_eviction_flag.OFPTMPEF_OTHER,
        ofp_table_mod_prop_eviction_flag.OFPTMPEF_IMPORTANCE,
        ofp_table_mod_prop_eviction_flag.OFPTMPEF_LIFETIME]),
     (map ofp14_port_stats_prop_type_val [ofp14_port_stats_prop_type.OFPPSPT14_ETHERNET,
        ofp14_port_stats_prop_type.OFPPSPT14_OPTICAL,
        ofp14_port_stats_prop_type.OFPPSPT14_EXPERIMENTER],
      map ofp_port_stats_prop_type_val [ofp_port_stats_prop_type.OFPPSPT_ETHERNET,
        ofp_port_stats_prop_type.OFPPSPT_OPTICAL, ofp_port_stats_prop_type.OFPPSPT_EXPERIMENTER]),
     (map ofp14_async_config_prop_type_val [ofp14_async_config_prop_type.OFPACPT_PACKET_IN_SLAVE,
        ofp14_async_config_prop_type.OFPACPT_PACKET_IN_MASTER,
        ofp14_async_config_prop_type.OFPACPT_PORT_STATUS_SLAVE,
        ofp14_async_config_prop_type.OFPACPT_PORT_STATUS_MASTER,
        ofp14_async_config_prop_type.OFPACPT_FLOW_REMOVED_SLAVE,
        ofp14_async_config_prop_type.OFPACPT_FLOW_REMOVED_MASTER,
        ofp14_async_config_prop_type.OFPACPT_ROLE_STATUS_SLAVE,
        ofp14_async_config_prop_type.OFPACPT_ROLE_STATUS_MASTER,
        ofp14_async_config_prop_type.OFPACPT_TABLE_STATUS_SLAVE,
        ofp14_async_config_prop_type.OFPACPT_TABLE_STATUS_MASTER,
        ofp14_async_config_prop_type.OFPACPT_REQUESTFORWARD_SLAVE,
        ofp14_async_config_prop_type.OFPACPT_REQUESTFORWARD_MASTER,
        ofp14_async_config_prop_type.OFPTFPT_EXPERIMENTER_SLAVE,
        ofp14_async_config_prop_type.OFPTFPT_EXPERIMENTER_MASTER],
      map ofp_async_config_prop_type_val [ofp_async_config_prop_type.OFPACPT_PACKET_IN_SLAVE,
        ofp_async_config_prop_type.OFPACPT_PACKET_IN_MASTER,
        ofp_async_config_prop_type.OFPACPT_PORT_STATUS_SLAVE,
        ofp_async_config_prop_type.OFPACPT_PORT_STATUS_MASTER,
        ofp_async_config_prop_type.OFPACPT_FLOW_REMOVED_SLAVE,
        ofp_async_config_prop_type.OFPACPT_FLOW_REMOVED_MASTER,
        ofp_async_config_prop_type.OFPACPT_ROLE_STATUS_SLAVE,
        ofp_async_config_prop_type.OFPACPT_ROLE_STATUS_MASTER,
        ofp_async_config_prop_type.OFPACPT_TABLE_STATUS_SLAVE,
        ofp_async_config_prop_type.OFPACPT_TABLE_STATUS_MASTER,
        ofp_async_config_prop_type.OFPACPT_REQUESTFORWARD_SLAVE,
        ofp_async_config_prop_type.OFPACPT_REQUESTFORWARD_MASTER,
        ofp_async_config_prop_type.OFPTFPT_EXPERIMENTER_SLAVE,
        ofp_async_config_prop_type.OFPTFPT_EXPERIMENTER_MASTER]),
     (map ofp14_controller_role_reason_val [ofp14_controller_role_reason.OFPCRR_MASTER_REQUEST,
        ofp14_controller_role_reason.OFPCRR_CONFIG,
        ofp14_controller_role_reason.OFPCRR_EXPERIMENTER],
      map ofp_controller_role_reason_val [ofp_controller_role_reason.OFPCRR_MASTER_REQUEST,
        ofp_controller_role_reason.OFPCRR_CONFIG, ofp_controller_role_reason.OFPCRR_EXPERIMENTER]),
     (map ofp14_role_prop_type_val [ofp14_role_prop_type.OFPRPT_EXPERIMENTER],
      map ofp_role_prop_type_val [ofp_role_prop_type.OFPRPT_EXPERIMENTER]),
     (map ofp14_bundle_ctrl_type_val [ofp14_bundle_ctrl_type.OFPBCT_OPEN_REQUEST,
        ofp14_bundle_ctrl_type.OFPBCT_OPEN_REPLY, ofp14_bundle_ctrl_type.OFPBCT_CLOSE_REQUEST,
        ofp14_bundle_ctrl_type.OFPBCT_CLOSE_REPLY, ofp14_bundle_ctrl_type.OFPBCT_COMMIT_REQUEST,
        ofp14_bundle_ctrl_type.OFPBCT_COMMIT_REPLY,
        ofp14_bundle_ctrl_type.OFPBCT_DISCARD_REQUEST, ofp14_bundle_ctrl_type.OFPBCT_DISCARD_REPLY],
      map ofp_bundle_ctrl_type_val [ofp_bundle_ctrl_type.OFPBCT_OPEN_REQUEST,
        ofp_bundle_ctrl_type.OFPBCT_OPEN_REPLY, ofp_bundle_ctrl_type.OFPBCT_CLOSE_REQUEST,
        ofp_bundle_ctrl_type.OFPBCT_CLOSE_REPLY, ofp_bundle_ctrl_type.OFPBCT_COMMIT_REQUEST,
        ofp_bundle_ctrl_type.OFPBCT_COMMIT_REPLY, ofp_bundle_ctrl_type.OFPBCT_DISCARD_REQUEST,
        ofp_bundle_ctrl_type.OFPBCT_DISCARD_REPLY]),
     (map ofp14_bundle_flags_val [ofp14_bundle_flags.OFPBF_ATOMIC,
        ofp14_bundle_flags.OFPBF_ORDERED],
      map ofp_bundle_flags_val [ofp_bundle_flags.OFPBF_ATOMIC, ofp_bundle_flags.OFPBF_ORDERED]),
     (map ofp14_flow_monitor_command_val [ofp14_flow_monitor_command.OFPFMC14_ADD,
        ofp14_flow_monitor_command.OFPFMC14_MODIFY, ofp14_flow_monitor_command.OFPFMC14_DELETE],
      map ofp_flow_monitor_command_val [ofp_flow_monitor_command.OFPFMC_ADD,
        ofp_flow_monitor_command.OFPFMC_MODIFY, ofp_flow_monitor_command.OFPFMC_DELETE]),
     (map ofp14_flow_monitor_flags_val [ofp14_flow_monitor_flags.OFPFMF14_INITIAL,
        ofp14_flow_monitor_flags.OFPFMF14_ADD, ofp14_flow_monitor_flags.OFPFMF14_REMOVED,
        ofp14_flow_monitor_flags.OFPFMF14_MODIFY, ofp14_flow_monitor_flags.OFPFMF14_INSTRUCTIONS,
        ofp14_flow_monitor_flags.OFPFMF14_NO_ABBREV, ofp14_flow_monitor_flags.OFPFMF14_ONLY_OWN],
      map ofp_flow_monitor_flags_val [ofp_flow_monitor_flags.OFPFMF_INITIAL,
        ofp_flow_monitor_flags.OFPFMF_ADD, ofp_flow_monitor_flags.OFPFMF_REMOVED,
        ofp_flow_monitor_flags.OFPFMF_MODIFY, ofp_flow_monitor_flags.OFPFMF_INSTRUCTIONS,
        ofp_flow_monitor_flags.OFPFMF_NO_ABBREV, ofp_flow_monitor_flags.OFPFMF_ONLY_OWN])]"

lemma numbers_agree: "list_all (\<lambda>(a, b). a = b) same_numbers"
  by (simp add: same_numbers_def)

text \<open>
  The structures and enumerations listed here agree: each of the named fields of 64 structures of the
  Open vSwitch headers lies in the program's structure at the same place, behind the message header where
  only the program's has one, with the same length; and the constants of 47 enumerations have the
  same numbers. The lists hold the versions of a message that kept their form; others did not
  (\<open>headers_differ\<close>).
\<close>

lemma headers_agree:
  assumes "documented v"
  shows "list_all agrees (same_messages v) \<and> list_all (\<lambda>(a, b). a = b) same_numbers"
  using assms numbers_agree
  by (simp add: same_messages_def agree_common agree_1_1 agree_1_2 agree_1_3 agree_1_4)

lemma packet_in_agrees:
  "offsetof ofp_packet_in ''table_id'' = Some 15 \<and> agrees (8, ofp_packet_in, ofp12_packet_in plain_types)"
proof -
  have "agrees (8, ofp_packet_in, ofp12_packet_in plain_types)"
    using headers_agree[OF plain_documented] by (simp add: same_messages_def same_1_2_def)
  then show ?thesis
    by (simp add: agree_eval ofp_packet_in_def ofp_match_def ofp_header_def ofp12_packet_in_def plain_types_def del: One_nat_def)
qed

text \<open>
  Older versions of a message that differ: an action bit map where \<^verbatim>\<open>openflow.h\<close> has reserved bytes, a configuration where
  it has capabilities, a packet-in with two ports and no cookie, ports without properties, and constants that were renumbered.
\<close>

lemma headers_differ:
  assumes "documented v"
  shows "\<not> agrees (8, ofp_switch_features, ofp_switch_features_ovs v)" "\<not> agrees (0, ofp_table_features, ofp13_table_features v)"
    "\<not> agrees (8, ofp_packet_in, ofp11_packet_in v)" "\<not> agrees (0, ofp_port, ofp11_port v)" "\<not> agrees (8, ofp_port_mod, ofp11_port_mod v)"
    "ofp11_vlan_id_val ofp11_vlan_id.OFPVID11_NONE \<noteq> ofp_vlan_id_val ofp_vlan_id.OFPVID_NONE"
    "ofp10_port_features_val ofp10_port_features.OFPPF10_COPPER \<noteq> ofp_port_features_val ofp_port_features.OFPPF_COPPER"
  using assms
  by (simp_all add: agree_eval documented_types ofp_switch_features_def ofp_switch_features_ovs_def ofp_table_features_def
      ofp13_table_features_def ofp_packet_in_def ofp11_packet_in_def ofp_port_def ofp11_port_def ofp_port_mod_def ofp11_port_mod_def
      ofp_header_def ofp_match_def ofp_port_desc_prop_header_def ofp_port_mod_prop_header_def ofp_table_feature_prop_header_def
      del: One_nat_def)

text \<open>The numbers that both have as macros agree too.\<close>

lemma macros_agree:
  "OFP_DEFAULT_MISS_SEND_LEN = OFP_DEFAULT_MISS_SEND_LEN_ovs" "OFP_FLOW_PERMANENT = OFP_FLOW_PERMANENT_ovs"
  "OFP_DEFAULT_PRIORITY = OFP_DEFAULT_PRIORITY_ovs" "OFPQ_ALL = OFPQ_ALL_ovs" "OFP_TCP_PORT = OFP_PORT"
  by (simp_all add: number_defs OFP_DEFAULT_MISS_SEND_LEN_ovs_def OFP_FLOW_PERMANENT_ovs_def
      OFP_DEFAULT_PRIORITY_ovs_def OFPQ_ALL_ovs_def OFP_PORT_def)

end
