(* ===== verification/Ceyloniac.thy ===== *)
theory Ceyloniac
  imports Main
begin

text \<open>
  \<^verbatim>\<open>ceyloniac-processor/ceyloniac_processor.h\<close>: the instructions and registers of the planned packet
  processor with their codes. \<^verbatim>\<open>isa_converter\<close>, meant to turn text into an instruction, is empty.
  The four instructions named like bit operations carry a suffix here.
\<close>

datatype isa =
    DEQUE | ENQUE | DROP | LOAD | STORE | LDILW | LDIHG | RBITS | WBITS | CMP | BR | BREQ | BRL
  | BREQL | NOP | ADD | SUB | AND_I | OR_I | XOR_I | NOT_I | SHL | INC | DEC | TABLE | TLKUP | CRC | CHKSM

primrec isa_code :: "isa \<Rightarrow> int" where
  "isa_code DEQUE = 0x0001"
| "isa_code ENQUE = 0x0002"
| "isa_code DROP = 0x0003"
| "isa_code LOAD = 0x0004"
| "isa_code STORE = 0x0005"
| "isa_code LDILW = 0x0006"
| "isa_code LDIHG = 0x0007"
| "isa_code RBITS = 0x0008"
| "isa_code WBITS = 0x0009"
| "isa_code CMP = 0x000a"
| "isa_code BR = 0x000b"
| "isa_code BREQ = 0x000c"
| "isa_code BRL = 0x000d"
| "isa_code BREQL = 0x000e"
| "isa_code NOP = 0x000f"
| "isa_code ADD = 0x0011"
| "isa_code SUB = 0x0012"
| "isa_code AND_I = 0x0013"
| "isa_code OR_I = 0x0014"
| "isa_code XOR_I = 0x0015"
| "isa_code NOT_I = 0x0016"
| "isa_code SHL = 0x0017"
| "isa_code INC = 0x0018"
| "isa_code DEC = 0x0019"
| "isa_code TABLE = 0x0021"
| "isa_code TLKUP = 0x0022"
| "isa_code CRC = 0x0023"
| "isa_code CHKSM = 0x0024"

datatype reg = R0 | R1 | R2 | R3 | R4 | R5 | R6 | R7 | R8 | R9 | R10 | R11 | R12 | R13 | R14 | R15

primrec reg_code :: "reg \<Rightarrow> int" where
  "reg_code R0 = 0x0"
| "reg_code R1 = 0x1"
| "reg_code R2 = 0x2"
| "reg_code R3 = 0x3"
| "reg_code R4 = 0x4"
| "reg_code R5 = 0x5"
| "reg_code R6 = 0x6"
| "reg_code R7 = 0x7"
| "reg_code R8 = 0x8"
| "reg_code R9 = 0x9"
| "reg_code R10 = 0xa"
| "reg_code R11 = 0xb"
| "reg_code R12 = 0xc"
| "reg_code R13 = 0xd"
| "reg_code R14 = 0xe"
| "reg_code R15 = 0xf"

text \<open>\<open>isa_str\<close> is not read and the instruction pointed to is left as it is.\<close>

definition isa_converter :: "string \<Rightarrow> isa \<Rightarrow> isa" where
  "isa_converter isa_str isa = isa"

lemma reg_code_bits: "0 \<le> reg_code r \<and> reg_code r < 2 ^ 4"
  by (cases r) simp_all

end
